(* ===== verification/Prelude.thy ===== *)
theory Prelude
  imports Main "HOL-Library.List_Lexorder" "HOL-Library.Char_ord" "HOL-Library.Sublist"
    "HOL-Library.Code_Target_Nat"
begin

text \<open>
  Shared ground of the development: results with an error side, text as Python handles it,
  JSON values as \<^verbatim>\<open>json.loads\<close> returns them, and the two SQL idioms (update the rows of
  a condition, count the rows of a condition) that the controller's database code is made of.

  A Python \<^verbatim>\<open>str\<close> is modelled by the bytes of its UTF-8 encoding, a \<open>string\<close>: then
  \<^verbatim>\<open>len(s.encode())\<close> is \<open>length s\<close>, \<^verbatim>\<open>len(s)\<close> is \<open>py_len s\<close> (the bytes that start a
  code point), and Python's order on strings (by code point) is the lexicographic order of
  \<open>HOL-Library.List_Lexorder\<close> (UTF-8 keeps the order of code points).
\<close>

named_theorems result_simps \<open>unfolding rules of the result combinators\<close>
named_theorems table_simps \<open>facts about row updates and row counts\<close>

section \<open>Results\<close>

definition rbind :: "'e + 'a \<Rightarrow> ('a \<Rightarrow> 'e + 'b) \<Rightarrow> 'e + 'b" where
  "rbind r f = (case r of Inl e \<Rightarrow> Inl e | Inr x \<Rightarrow> f x)"

lemma rbind_simps [simp, result_simps]:
  "rbind (Inl e) f = Inl e"
  "rbind (Inr x) f = f x"
  by (simp_all add: rbind_def)

lemma rbind_Inr_iff: "rbind r f = Inr y \<longleftrightarrow> (\<exists>x. r = Inr x \<and> f x = Inr y)"
  by (cases r) simp_all

lemma rbind_InrE [elim!]:
  "rbind r f = Inr y \<Longrightarrow> (\<And>x. r = Inr x \<Longrightarrow> f x = Inr y \<Longrightarrow> P) \<Longrightarrow> P"
  by (auto simp: rbind_Inr_iff)

lemma rbind_Inl_iff:
  "rbind r f = Inl e \<longleftrightarrow> r = Inl e \<or> (\<exists>x. r = Inr x \<and> f x = Inl e)"
  by (cases r) auto

lemma rbind_cong [fundef_cong]:
  "r = r' \<Longrightarrow> (\<And>x. r' = Inr x \<Longrightarrow> f x = f' x) \<Longrightarrow> rbind r f = rbind r' f'"
  by (cases r') (auto simp: rbind_def)

fun rmap :: "('a \<Rightarrow> 'e + 'b) \<Rightarrow> 'a list \<Rightarrow> 'e + 'b list" where
  "rmap f [] = Inr []"
| "rmap f (x # xs) = rbind (f x) (\<lambda>y. rbind (rmap f xs) (\<lambda>ys. Inr (y # ys)))"

lemma rmap_Inr_iff:
  "rmap f xs = Inr ys \<longleftrightarrow> list_all2 (\<lambda>x y. f x = Inr y) xs ys"
  by (induction xs arbitrary: ys) (auto simp: rbind_Inr_iff list_all2_Cons1)

section \<open>Text\<close>

text \<open>A byte \<^verbatim>\<open>10xxxxxx\<close> continues a code point; every other byte starts one.\<close>

definition utf8_continuation :: "char \<Rightarrow> bool" where
  "utf8_continuation c \<longleftrightarrow> 128 \<le> (of_char c :: nat) \<and> (of_char c :: nat) < 192"

definition py_len :: "string \<Rightarrow> nat" where
  "py_len s = length (filter (\<lambda>c. \<not> utf8_continuation c) s)"

lemma py_len_le_bytes: "py_len s \<le> length s"
  by (simp add: py_len_def)

text \<open>
  The code points \<^verbatim>\<open>str.strip\<close> removes, as UTF-8: the ASCII ones, U+0085, U+00A0, U+1680,
  U+2000 to U+200A, U+2028, U+2029, U+202F, U+205F and U+3000.
\<close>

definition py_spaces :: "string list" where
  "py_spaces =
     [[CHR 0x09], [CHR 0x0A], [CHR 0x0B], [CHR 0x0C], [CHR 0x0D], [CHR 0x1C], [CHR 0x1D],
      [CHR 0x1E], [CHR 0x1F], [CHR 0x20], [CHR 0xC2, CHR 0x85], [CHR 0xC2, CHR 0xA0],
      [CHR 0xE1, CHR 0x9A, CHR 0x80], [CHR 0xE2, CHR 0x80, CHR 0x80],
      [CHR 0xE2, CHR 0x80, CHR 0x81], [CHR 0xE2, CHR 0x80, CHR 0x82],
      [CHR 0xE2, CHR 0x80, CHR 0x83], [CHR 0xE2, CHR 0x80, CHR 0x84],
      [CHR 0xE2, CHR 0x80, CHR 0x85], [CHR 0xE2, CHR 0x80, CHR 0x86],
      [CHR 0xE2, CHR 0x80, CHR 0x87], [CHR 0xE2, CHR 0x80, CHR 0x88],
      [CHR 0xE2, CHR 0x80, CHR 0x89], [CHR 0xE2, CHR 0x80, CHR 0x8A],
      [CHR 0xE2, CHR 0x80, CHR 0xA8], [CHR 0xE2, CHR 0x80, CHR 0xA9],
      [CHR 0xE2, CHR 0x80, CHR 0xAF], [CHR 0xE2, CHR 0x81, CHR 0x9F],
      [CHR 0xE3, CHR 0x80, CHR 0x80]]"

lemma py_spaces_nonempty: "p \<in> set py_spaces \<Longrightarrow> p \<noteq> []"
  by (auto simp: py_spaces_def)

text \<open>\<open>strip_with ws s\<close> drops members of \<open>ws\<close> from the front of \<open>s\<close> while there is one.\<close>

function strip_with :: "string list \<Rightarrow> string \<Rightarrow> string" where
  "strip_with ws s =
     (case find (\<lambda>p. p \<noteq> [] \<and> prefix p s) ws of
        None \<Rightarrow> s
      | Some p \<Rightarrow> strip_with ws (drop (length p) s))"
  by pat_completeness auto
termination
proof (relation "measure (\<lambda>(ws, s). length s)")
  fix ws :: "string list" and s p
  assume "find (\<lambda>p. p \<noteq> [] \<and> prefix p s) ws = Some p"
  then have "p \<noteq> []" "prefix p s"
    by (auto simp: find_Some_iff)
  then have "0 < length p" "length p \<le> length s"
    by (auto dest: prefix_length_le)
  then have "length s - length p < length s"
    by linarith
  then show "((ws, drop (length p) s), ws, s) \<in> measure (\<lambda>(ws, s). length s)"
    by simp
qed simp

declare strip_with.simps [simp del]

definition lstrip :: "string \<Rightarrow> string" where
  "lstrip s = strip_with py_spaces s"

definition rstrip :: "string \<Rightarrow> string" where
  "rstrip s = rev (strip_with (map rev py_spaces) (rev s))"

definition py_strip :: "string \<Rightarrow> string" where
  "py_strip s = rstrip (lstrip s)"

lemma strip_with_suffix: "suffix (strip_with ws s) s"
proof (induction ws s rule: strip_with.induct)
  case (1 ws s)
  show ?case
  proof (cases "find (\<lambda>p. p \<noteq> [] \<and> prefix p s) ws")
    case None
    then show ?thesis by (subst strip_with.simps) simp
  next
    case (Some p)
    have "suffix (strip_with ws (drop (length p) s)) s"
      using "1.IH" [OF Some] by (rule suffix_order.trans) (rule suffix_drop)
    with Some show ?thesis by (subst strip_with.simps) simp
  qed
qed

lemma strip_with_no_prefix:
  "p \<in> set ws \<Longrightarrow> p \<noteq> [] \<Longrightarrow> \<not> prefix p (strip_with ws s)"
proof (induction ws s rule: strip_with.induct)
  case (1 ws s)
  show ?case
  proof (cases "find (\<lambda>p. p \<noteq> [] \<and> prefix p s) ws")
    case None
    then have "\<not> prefix p s"
      using "1.prems" by (auto simp: find_None_iff)
    with None show ?thesis by (subst strip_with.simps) simp
  next
    case (Some q)
    with "1.IH" [OF Some "1.prems"] show ?thesis by (subst strip_with.simps) simp
  qed
qed

lemma strip_with_id:
  "(\<And>p. p \<in> set ws \<Longrightarrow> p \<noteq> [] \<Longrightarrow> \<not> prefix p s) \<Longrightarrow> strip_with ws s = s"
  by (subst strip_with.simps) (auto split: option.splits simp: find_Some_iff)

lemma rstrip_prefix: "prefix (rstrip s) s"
  unfolding rstrip_def by (metis rev_rev_ident strip_with_suffix suffix_to_prefix)

lemma lstrip_no_space: "p \<in> set py_spaces \<Longrightarrow> \<not> prefix p (lstrip s)"
  unfolding lstrip_def by (rule strip_with_no_prefix) (auto dest: py_spaces_nonempty)

lemma py_strip_idem [simp]: "py_strip (py_strip s) = py_strip s"
proof -
  have "\<not> prefix p (py_strip s)" if "p \<in> set py_spaces" for p
    using lstrip_no_space [OF that, of s] rstrip_prefix [of "lstrip s"]
    unfolding py_strip_def by (meson prefix_order.trans)
  then have l: "lstrip (py_strip s) = py_strip s"
    unfolding lstrip_def by (intro strip_with_id) auto
  have "strip_with (map rev py_spaces) (rev (py_strip s)) = rev (py_strip s)"
    unfolding py_strip_def rstrip_def
    by (auto intro!: strip_with_id dest: strip_with_no_prefix)
  then show ?thesis
    unfolding py_strip_def [of "py_strip s"] l rstrip_def by simp
qed

lemma py_strip_length: "length (py_strip s) \<le> length s"
proof -
  have "length (rstrip (lstrip s)) \<le> length (lstrip s)"
    using rstrip_prefix by (rule prefix_length_le)
  also have "\<dots> \<le> length s"
    unfolding lstrip_def using strip_with_suffix by (rule suffix_length_le)
  finally show ?thesis by (simp add: py_strip_def)
qed

section \<open>JSON values\<close>

text \<open>
  What \<^verbatim>\<open>json.loads\<close> and the YAML loader return. A finite float is \<open>m * 2 ^ e\<close>. An object
  is the list of its members in insertion order, each key once.
\<close>

datatype pyfloat = Finite int int | Infinite bool | NotANumber

datatype json =
    JNull
  | JBool bool
  | JInt int
  | JFloat pyfloat
  | JStr string
  | JArr "json list"
  | JObj "(string \<times> json) list"

text \<open>\<^verbatim>\<open>isinstance(v, int)\<close> holds of booleans too: \<^verbatim>\<open>bool\<close> is a subclass of \<^verbatim>\<open>int\<close>.\<close>

fun py_int :: "json \<Rightarrow> int option" where
  "py_int (JInt n) = Some n"
| "py_int (JBool b) = Some (if b then 1 else 0)"
| "py_int _ = None"

text \<open>\<open>float_cmp m e n\<close> is the sign of \<open>m * 2 ^ e - n\<close>.\<close>

definition float_cmp :: "int \<Rightarrow> int \<Rightarrow> int \<Rightarrow> int" where
  "float_cmp m e n =
     (if 0 \<le> e then sgn (m * 2 ^ nat e - n) else sgn (m - n * 2 ^ nat (- e)))"

text \<open>\<^verbatim>\<open>v == n\<close> for an integer \<open>n\<close>: booleans and floats compare by value.\<close>

fun py_eq_int :: "json \<Rightarrow> int \<Rightarrow> bool" where
  "py_eq_int (JInt k) n = (k = n)"
| "py_eq_int (JBool b) n = ((if b then 1 else 0) = n)"
| "py_eq_int (JFloat (Finite m e)) n = (float_cmp m e n = 0)"
| "py_eq_int _ n = False"

text \<open>\<^verbatim>\<open>bool(v)\<close>.\<close>

fun py_truthy :: "json \<Rightarrow> bool" where
  "py_truthy JNull = False"
| "py_truthy (JBool b) = b"
| "py_truthy (JInt n) = (n \<noteq> 0)"
| "py_truthy (JFloat (Finite m e)) = (m \<noteq> 0)"
| "py_truthy (JFloat _) = True"
| "py_truthy (JStr s) = (s \<noteq> [])"
| "py_truthy (JArr xs) = (xs \<noteq> [])"
| "py_truthy (JObj ms) = (ms \<noteq> [])"

text \<open>Lists and dicts cannot be members of a set or keys of a dict: \<^verbatim>\<open>v in S\<close> raises TypeError.\<close>

fun py_hashable :: "json \<Rightarrow> bool" where
  "py_hashable (JArr _) = False"
| "py_hashable (JObj _) = False"
| "py_hashable _ = True"

fun json_str :: "json \<Rightarrow> string option" where
  "json_str (JStr s) = Some s"
| "json_str _ = None"

text \<open>\<^verbatim>\<open>isinstance(v, list) and all(isinstance(x, str) for x in v)\<close>, and the strings.\<close>

fun json_str_list :: "json list \<Rightarrow> string list option" where
  "json_str_list [] = Some []"
| "json_str_list (v # vs) =
     (case json_str v of
        None \<Rightarrow> None
      | Some s \<Rightarrow> map_option ((#) s) (json_str_list vs))"

lemma json_str_Some [simp]: "json_str v = Some s \<longleftrightarrow> v = JStr s"
  by (cases v) auto

definition json_of_option :: "('a \<Rightarrow> json) \<Rightarrow> 'a option \<Rightarrow> json" where
  "json_of_option f v = (case v of None \<Rightarrow> JNull | Some x \<Rightarrow> f x)"

lemma json_str_list_Some: "json_str_list vs = Some ss \<longleftrightarrow> vs = map JStr ss"
proof (induction vs arbitrary: ss)
  case (Cons v vs)
  then show ?case by (cases v; cases ss) auto
qed auto

text \<open>\<^verbatim>\<open>obj.get(key)\<close> and \<^verbatim>\<open>obj.get(key, default)\<close>.\<close>

definition jget :: "(string \<times> json) list \<Rightarrow> string \<Rightarrow> json" where
  "jget ms k = (case map_of ms k of None \<Rightarrow> JNull | Some v \<Rightarrow> v)"

definition jget_default :: "(string \<times> json) list \<Rightarrow> string \<Rightarrow> json \<Rightarrow> json" where
  "jget_default ms k d = (case map_of ms k of None \<Rightarrow> d | Some v \<Rightarrow> v)"

section \<open>Lists as ordered sets\<close>

text \<open>The keys of a dict filled in the order of \<open>xs\<close>: first occurrences, in order.\<close>

definition first_occurrences :: "'a list \<Rightarrow> 'a list" where
  "first_occurrences xs = rev (remdups (rev xs))"

lemma set_first_occurrences [simp]: "set (first_occurrences xs) = set xs"
  by (simp add: first_occurrences_def)

lemma distinct_first_occurrences [simp]: "distinct (first_occurrences xs)"
  by (simp add: first_occurrences_def)

text \<open>The pairs \<^verbatim>\<open>(xs[i], xs[j])\<close> with \<open>i < j\<close>, as two nested loops visit them.\<close>

fun pairs_of :: "'a list \<Rightarrow> ('a \<times> 'a) list" where
  "pairs_of [] = []"
| "pairs_of (x # xs) = map (Pair x) xs @ pairs_of xs"

lemma pairs_of_cover:
  "x \<in> set xs \<Longrightarrow> y \<in> set xs \<Longrightarrow> x \<noteq> y \<Longrightarrow> (x, y) \<in> set (pairs_of xs) \<or> (y, x) \<in> set (pairs_of xs)"
  by (induction xs) auto

lemma pairs_of_sub: "(x, y) \<in> set (pairs_of xs) \<Longrightarrow> x \<in> set xs \<and> y \<in> set xs"
  by (induction xs) auto

lemma map_of_rev_distinct:
  assumes "distinct (map fst xs)"
  shows "map_of (rev xs) = map_of xs"
proof (rule map_of_eqI)
  show "set (map fst (rev xs)) = set (map fst xs)" by simp
  show "\<forall>k \<in> set (map fst (rev xs)). map_of (rev xs) k = map_of xs k"
  proof
    fix k assume "k \<in> set (map fst (rev xs))"
    then obtain v where v: "(k, v) \<in> set xs" by auto
    with assms have "map_of xs k = Some v" by simp
    moreover have "map_of (rev xs) k = Some v"
      using assms v by (intro map_of_is_SomeI) (simp_all add: rev_map [symmetric])
    ultimately show "map_of (rev xs) k = map_of xs k" by simp
  qed
qed

section \<open>Tables\<close>

text \<open>\<^verbatim>\<open>UPDATE t SET f WHERE c\<close> and \<^verbatim>\<open>SELECT COUNT(*) FROM t WHERE c\<close>.\<close>

definition update_where :: "('r \<Rightarrow> bool) \<Rightarrow> ('r \<Rightarrow> 'r) \<Rightarrow> 'r list \<Rightarrow> 'r list" where
  "update_where c f rows = map (\<lambda>r. if c r then f r else r) rows"

definition count_where :: "('r \<Rightarrow> bool) \<Rightarrow> 'r list \<Rightarrow> nat" where
  "count_where c rows = length (filter c rows)"

definition select_one :: "('r \<Rightarrow> bool) \<Rightarrow> 'r list \<Rightarrow> 'r option" where
  "select_one c rows = find c rows"

lemma update_where_Nil [simp]: "update_where c f [] = []"
  by (simp add: update_where_def)

lemma update_where_Cons [simp]:
  "update_where c f (r # rows) = (if c r then f r else r) # update_where c f rows"
  by (simp add: update_where_def)

lemma length_update_where [simp]: "length (update_where c f rows) = length rows"
  by (simp add: update_where_def)

lemma set_update_where:
  "set (update_where c f rows) = (\<lambda>r. if c r then f r else r) ` set rows"
  by (simp add: update_where_def)

lemma map_update_where:
  "(\<And>r. c r \<Longrightarrow> g (f r) = g r) \<Longrightarrow> map g (update_where c f rows) = map g rows"
  by (auto simp: update_where_def)

lemma update_where_none [simp]: "(\<And>r. r \<in> set rows \<Longrightarrow> \<not> c r) \<Longrightarrow> update_where c f rows = rows"
  by (induction rows) auto

lemma count_where_Nil [simp]: "count_where c [] = 0"
  by (simp add: count_where_def)

lemma count_where_Cons [simp]:
  "count_where c (r # rows) = (if c r then Suc (count_where c rows) else count_where c rows)"
  by (simp add: count_where_def)

lemma count_where_append [simp]:
  "count_where c (xs @ ys) = count_where c xs + count_where c ys"
  by (simp add: count_where_def)

lemma count_where_0_iff: "count_where c rows = 0 \<longleftrightarrow> (\<forall>r \<in> set rows. \<not> c r)"
  by (simp add: count_where_def filter_empty_conv)

lemma count_where_mono:
  "(\<And>r. r \<in> set rows \<Longrightarrow> c r \<Longrightarrow> d r) \<Longrightarrow> count_where c rows \<le> count_where d rows"
  by (induction rows) (auto simp: le_SucI)

lemma count_where_update_le:
  "(\<And>r. r \<in> set rows \<Longrightarrow> c r \<Longrightarrow> d (f r) \<Longrightarrow> d r) \<Longrightarrow>
     count_where d (update_where c f rows) \<le> count_where d rows"
  by (induction rows) (auto simp: le_SucI)

lemma select_one_Some:
  "select_one c rows = Some r \<Longrightarrow> r \<in> set rows \<and> c r"
  by (auto simp: select_one_def find_Some_iff)

lemma select_one_None:
  "select_one c rows = None \<longleftrightarrow> (\<forall>r \<in> set rows. \<not> c r)"
  by (auto simp: select_one_def find_None_iff)

section \<open>Decimal numerals\<close>

text \<open>\<^verbatim>\<open>str(n)\<close> of an integer, and the value of a string of digits.\<close>

definition digit_char :: "nat \<Rightarrow> char" where
  "digit_char d = char_of (48 + d)"

fun dec_nat :: "nat \<Rightarrow> string" where
  "dec_nat n = (if n < 10 then [digit_char n] else dec_nat (n div 10) @ [digit_char (n mod 10)])"

declare dec_nat.simps [simp del]

definition dec_int :: "int \<Rightarrow> string" where
  "dec_int n = (if n < 0 then CHR 0x2D # dec_nat (nat (- n)) else dec_nat (nat n))"

definition is_digit :: "char \<Rightarrow> bool" where
  "is_digit c \<longleftrightarrow> 48 \<le> (of_char c :: nat) \<and> (of_char c :: nat) \<le> 57"

definition digit_val :: "char \<Rightarrow> nat" where
  "digit_val c = of_char c - 48"

definition dec_val :: "string \<Rightarrow> nat" where
  "dec_val s = foldl (\<lambda>n c. 10 * n + digit_val c) 0 s"

lemma digit_char_of [simp]: "d < 10 \<Longrightarrow> of_char (digit_char d) = 48 + d"
  by (simp add: digit_char_def of_char_of)

lemma digit_char_simps [simp]:
  "d < 10 \<Longrightarrow> is_digit (digit_char d)"
  "d < 10 \<Longrightarrow> digit_val (digit_char d) = d"
  by (simp_all add: is_digit_def digit_val_def)

lemma dec_val_append [simp]: "dec_val (s @ [c]) = 10 * dec_val s + digit_val c"
  by (simp add: dec_val_def)

lemma dec_val_dec_nat [simp]: "dec_val (dec_nat n) = n"
proof (induction n rule: dec_nat.induct)
  case (1 n)
  show ?case
  proof (cases "n < 10")
    case True
    then show ?thesis by (subst dec_nat.simps) (simp add: dec_val_def)
  next
    case False
    with 1 show ?thesis by (subst dec_nat.simps) simp
  qed
qed

lemma dec_nat_digits: "list_all is_digit (dec_nat n) \<and> dec_nat n \<noteq> []"
proof (induction n rule: dec_nat.induct)
  case (1 n)
  then show ?case by (cases "n < 10") (subst dec_nat.simps; simp)+
qed

lemma dec_nat_inj [simp]: "dec_nat m = dec_nat n \<longleftrightarrow> m = n"
  by (metis dec_val_dec_nat)

section \<open>Character classes and splitting\<close>

definition char_between :: "nat \<Rightarrow> nat \<Rightarrow> char \<Rightarrow> bool" where
  "char_between lo hi c \<longleftrightarrow> lo \<le> of_char c \<and> of_char c \<le> hi"

definition is_lower :: "char \<Rightarrow> bool" where "is_lower = char_between 97 122"
definition is_upper :: "char \<Rightarrow> bool" where "is_upper = char_between 65 90"
definition is_control :: "char \<Rightarrow> bool" where "is_control = char_between 0 31"
definition is_hex :: "char \<Rightarrow> bool" where "is_hex c \<longleftrightarrow> is_digit c \<or> char_between 97 102 c"
definition is_alnum :: "char \<Rightarrow> bool" where
  "is_alnum c \<longleftrightarrow> is_lower c \<or> is_upper c \<or> is_digit c"

definition to_lower :: "char \<Rightarrow> char" where
  "to_lower c = (if is_upper c then char_of (of_char c + (32 :: nat)) else c)"

text \<open>\<^verbatim>\<open>s.split(sep)\<close> for a separator of one character.\<close>

fun split_on :: "char \<Rightarrow> string \<Rightarrow> string list" where
  "split_on d [] = [[]]"
| "split_on d (c # s) =
     (if c = d then [] # split_on d s
      else case split_on d s of [] \<Rightarrow> [[c]] | w # ws \<Rightarrow> (c # w) # ws)"

lemma split_on_nonempty [simp]: "split_on d s \<noteq> []"
  by (induction s) (auto split: list.split)

lemma split_on_parts:
  "split_on d s = w # ws \<Longrightarrow> d \<notin> set w \<and> (if ws = [] then s = w else \<exists>s'. s = w @ d # s' \<and> split_on d s' = ws)"
proof (induction s arbitrary: w ws)
  case (Cons c s)
  obtain v vs where v: "split_on d s = v # vs" by (cases "split_on d s") auto
  show ?case
  proof (cases "c = d")
    case True
    then show ?thesis using Cons.prems by auto
  next
    case False
    then have "w = c # v" "ws = vs" using Cons.prems v by simp_all
    then show ?thesis using Cons.IH [OF v] False by (auto split: if_split_asm)
  qed
qed auto

text \<open>\<^verbatim>\<open>sep.join(parts)\<close> inverts \<^verbatim>\<open>split\<close>.\<close>

fun join_with :: "char \<Rightarrow> string list \<Rightarrow> string" where
  "join_with d [] = []"
| "join_with d [w] = w"
| "join_with d (w # ws) = w @ d # join_with d ws"

lemma join_split [simp]: "join_with d (split_on d s) = s"
proof (induction s)
  case (Cons c s)
  then show ?case by (cases "split_on d s" rule: remdups_adj.cases) (auto split: list.splits)
qed simp

lemma split_on_no_sep: "w \<in> set (split_on d s) \<Longrightarrow> d \<notin> set w"
proof (induction s arbitrary: w)
  case (Cons c s)
  then show ?case by (cases "split_on d s") (auto split: if_split_asm)
qed simp

lemma split_on_append: "d \<notin> set w \<Longrightarrow> split_on d (w @ d # s) = w # split_on d s"
  by (induction w) auto

lemma split_on_single: "d \<notin> set w \<Longrightarrow> split_on d w = [w]"
  by (induction w) auto

lemma split_join: "ws \<noteq> [] \<Longrightarrow> (\<forall>w \<in> set ws. d \<notin> set w) \<Longrightarrow> split_on d (join_with d ws) = ws"
  by (induction d ws rule: join_with.induct) (auto simp: split_on_append split_on_single)

lemma takeWhile_digits: "list_all is_digit s \<Longrightarrow> \<not> is_digit c \<Longrightarrow> takeWhile is_digit (s @ c # t) = s"
  by (induction s) auto

lemma dropWhile_digits: "list_all is_digit s \<Longrightarrow> \<not> is_digit c \<Longrightarrow> dropWhile is_digit (s @ c # t) = c # t"
  by (induction s) auto

lemma dec_nat_positive: "0 < n \<Longrightarrow> hd (dec_nat n) \<noteq> CHR ''0''"
proof (induction n rule: dec_nat.induct)
  case (1 n)
  show ?case
  proof (cases "n < 10")
    case True
    have "(of_char (digit_char n) :: nat) \<noteq> of_char CHR ''0''" using True 1(2) by simp
    then have "digit_char n \<noteq> CHR ''0''" by metis
    then show ?thesis using True by (subst dec_nat.simps) simp
  next
    case False
    then have "hd (dec_nat (n div 10)) \<noteq> CHR ''0''" using 1 by simp
    moreover have "dec_nat (n div 10) \<noteq> []" using dec_nat_digits by blast
    ultimately show ?thesis using False by (subst dec_nat.simps) simp
  qed
qed

section \<open>Canonical texts\<close>

text \<open>
  A reader of texts and a printer of values, the printer inverted by the reader: then printing what
  was read gives one canonical text per value.
\<close>

locale canonical_text =
  fixes read :: "string \<Rightarrow> 'v option" and print :: "'v \<Rightarrow> string" and legal :: "'v \<Rightarrow> bool"
  assumes read_legal: "read s = Some v \<Longrightarrow> legal v"
    and read_print: "legal v \<Longrightarrow> read (print v) = Some v"
begin

lemma canonical_value: "read s = Some v \<Longrightarrow> read (print v) = read s"
  using read_legal read_print by simp

lemma canonical_idem: "map_option print (read s) = Some t \<Longrightarrow> map_option print (read t) = Some t"
  using read_legal read_print by fastforce

lemma canonical_unique:
  assumes "map_option print (read s) = Some t" "map_option print (read s') = Some t'"
  shows "t = t' \<longleftrightarrow> read s = read s'"
proof -
  obtain v v' where v: "read s = Some v" "t = print v" and v': "read s' = Some v'" "t' = print v'"
    using assms by auto
  have "read (print v) = Some v" "read (print v') = Some v'"
    using read_print read_legal v(1) v'(1) by blast+
  then have "print v = print v' \<longleftrightarrow> v = v'" by (metis option.inject)
  then show ?thesis using v v' by simp
qed

end

section \<open>How a table moves\<close>

text \<open>
  \<open>row_moves key status E rows rows'\<close>: the rows keep the columns \<open>key\<close>, and the status of each
  is unchanged or follows an edge of \<open>E\<close>.
\<close>

definition row_moves ::
  "('r \<Rightarrow> 'k) \<Rightarrow> ('r \<Rightarrow> 's) \<Rightarrow> ('s \<times> 's) set \<Rightarrow> 'r list \<Rightarrow> 'r list \<Rightarrow> bool" where
  "row_moves key status E rows rows' \<longleftrightarrow>
     list_all2 (\<lambda>r r'. key r' = key r \<and> (status r' = status r \<or> (status r, status r') \<in> E)) rows rows'"

lemma row_moves_refl [simp, intro]: "row_moves key status E rows rows"
  by (simp add: row_moves_def list_all2_same)

lemma row_moves_mono: "row_moves key status E xs ys \<Longrightarrow> E \<subseteq> F \<Longrightarrow> row_moves key status F xs ys"
  unfolding row_moves_def by (erule list_all2_mono) auto

lemma row_moves_trans:
  assumes "row_moves key status E xs ys" "row_moves key status E ys zs" "trans E"
  shows "row_moves key status E xs zs"
proof -
  have "list_all2 (\<lambda>r r'. key r' = key r \<and> (status r' = status r \<or> (status r, status r') \<in> E)) xs zs"
    by (rule list_all2_trans [OF _ assms(1,2) [unfolded row_moves_def]])
      (use assms(3) in \<open>auto dest: transD\<close>)
  then show ?thesis by (simp add: row_moves_def)
qed

lemma row_moves_update [intro]:
  assumes "\<And>r. r \<in> set rows \<Longrightarrow> c r \<Longrightarrow>
             key (f r) = key r \<and> (status (f r) = status r \<or> (status r, status (f r)) \<in> E)"
  shows "row_moves key status E rows (update_where c f rows)"
  using assms unfolding row_moves_def update_where_def
  by (auto simp: list_all2_map2 intro!: list.rel_refl_strong)

lemma row_moves_keys: "row_moves key status E rows rows' \<Longrightarrow> map key rows' = map key rows"
  unfolding row_moves_def by (induction rule: list_all2_induct) auto

lemma row_moves_back:
  "row_moves key status E rows rows' \<Longrightarrow> r' \<in> set rows' \<Longrightarrow>
     \<exists>r \<in> set rows. key r' = key r \<and> (status r' = status r \<or> (status r, status r') \<in> E)"
  unfolding row_moves_def by (auto simp: list_all2_conv_all_nth in_set_conv_nth) (metis nth_mem)

lemma row_moves_forth:
  "row_moves key status E rows rows' \<Longrightarrow> r \<in> set rows \<Longrightarrow>
     \<exists>r' \<in> set rows'. key r' = key r \<and> (status r' = status r \<or> (status r, status r') \<in> E)"
  unfolding row_moves_def by (auto simp: list_all2_conv_all_nth in_set_conv_nth) (metis nth_mem)

lemma row_moves_count:
  assumes "row_moves key status E rows rows'"
    and "\<And>r r'. key r' = key r \<Longrightarrow> status r' = status r \<or> (status r, status r') \<in> E \<Longrightarrow> c r' \<Longrightarrow> c r"
  shows "count_where c rows' \<le> count_where c rows"
  using assms(1) unfolding row_moves_def
  by (induction rule: list_all2_induct) (use assms(2) in \<open>auto simp: le_SucI\<close>)

text \<open>
  A table whose statuses follow a lifecycle: no edge leaves a final status, so a row that has
  reached one keeps it in every table it moves to.
\<close>

locale lifecycle =
  fixes key :: "'r \<Rightarrow> 'k" and status :: "'r \<Rightarrow> 's" and E :: "('s \<times> 's) set" and final :: "'s set"
  assumes final_stays: "(a, b) \<in> E \<Longrightarrow> a \<in> final \<Longrightarrow> b = a"
begin

lemma final_kept:
  assumes "row_moves key status E rows rows'" "r \<in> set rows" "status r \<in> final"
  shows "\<exists>r' \<in> set rows'. key r' = key r \<and> status r' = status r"
  using row_moves_forth [OF assms(1,2)] final_stays assms(3) by blast

lemma final_all:
  assumes "row_moves key status E rows rows'" "\<forall>r \<in> set rows. P (key r) \<longrightarrow> status r \<in> final"
    and "r' \<in> set rows'" "P (key r')"
  shows "status r' \<in> final"
  using row_moves_back [OF assms(1,3)] assms(2,4) final_stays by fastforce

end

text \<open>A transition system with an invariant.\<close>

locale invariant_system =
  fixes init :: "'s \<Rightarrow> bool" and step :: "'s \<Rightarrow> 's \<Rightarrow> bool" and inv :: "'s \<Rightarrow> bool"
  assumes init_inv: "init s \<Longrightarrow> inv s"
    and step_inv: "inv s \<Longrightarrow> step s s' \<Longrightarrow> inv s'"
begin

lemma steps_inv: "step\<^sup>*\<^sup>* s s' \<Longrightarrow> inv s \<Longrightarrow> inv s'"
  by (induction rule: rtranclp_induct) (auto intro: step_inv)

lemma reachable_inv: "init s \<Longrightarrow> step\<^sup>*\<^sup>* s s' \<Longrightarrow> inv s'"
  by (blast intro: init_inv steps_inv)

end

text \<open>
  An abstract system the transitions of an invariant system refine: one detailed step is any number
  of abstract ones on the abstraction of the states, so every run is a run of the abstract system.
\<close>

locale refinement = invariant_system +
  fixes abs :: "'a \<Rightarrow> 'b" and abs_init :: "'b \<Rightarrow> bool" and abs_step :: "'b \<Rightarrow> 'b \<Rightarrow> bool"
  assumes init_refines: "init s \<Longrightarrow> abs_init (abs s)"
    and step_refines: "inv s \<Longrightarrow> step s s' \<Longrightarrow> abs_step\<^sup>*\<^sup>* (abs s) (abs s')"
begin

lemma run_refines: "step\<^sup>*\<^sup>* s s' \<Longrightarrow> inv s \<Longrightarrow> abs_step\<^sup>*\<^sup>* (abs s) (abs s')"
proof (induction rule: rtranclp_induct)
  case (step s1 s2)
  have "inv s1" using steps_inv step.hyps(1) step.prems by blast
  with step show ?case using step_refines rtranclp_trans by metis
qed simp

lemma reachable_refines:
  "init s \<Longrightarrow> step\<^sup>*\<^sup>* s s' \<Longrightarrow> abs_init (abs s) \<and> abs_step\<^sup>*\<^sup>* (abs s) (abs s')"
  using init_inv init_refines run_refines by blast

end

end
