(* ===== verification/Plan_Graph.thy ===== *)
theory Plan_Graph
  imports Prelude
begin

text \<open>
  The dependency graph of a plan: \<^verbatim>\<open>topological_order\<close> of
  \<^verbatim>\<open>scripts/hermesops-orchestrator.py\<close>. A task is its key with its list of dependencies
  (\<^verbatim>\<open>task.get("dependencies") or []\<close>); sets of keys are lists used as sets, the dict of the
  remaining dependencies is a function on keys. The lemmas show that a result lists every key
  once with its dependencies before it, and that there is a result exactly for acyclic graphs.
\<close>

datatype graph_error = KeyError string | Cycle

type_synonym node = "string \<times> string list"

definition node_keys :: "node list \<Rightarrow> string list" where
  "node_keys tasks = remdups (map fst tasks)"

text \<open>
  The dict comprehension \<open>dependencies\<close>: of two tasks with one key the later one wins.
\<close>

definition node_deps :: "node list \<Rightarrow> string \<Rightarrow> string list" where
  "node_deps tasks k =
     (case map_of (rev tasks) k of None \<Rightarrow> [] | Some ps \<Rightarrow> remdups ps)"

text \<open>
  The dict \<open>reverse\<close>: \<open>reverse[parent].add(key)\<close> for every edge. A parent that is no key
  of the plan is a KeyError.
\<close>

definition reverse_edges :: "node list \<Rightarrow> string \<Rightarrow> string list" where
  "reverse_edges tasks p = [k \<leftarrow> node_keys tasks. p \<in> set (node_deps tasks k)]"

definition missing_parent :: "node list \<Rightarrow> string option" where
  "missing_parent tasks =
     find (\<lambda>p. p \<notin> set (node_keys tasks)) (concat (map (node_deps tasks) (node_keys tasks)))"

text \<open>
  The \<^verbatim>\<open>for child in sorted(reverse[key])\<close> loop: \<open>key\<close> is discarded from the child's
  remaining dependencies, and a child with none left joins the sorted list \<open>ready\<close>.
\<close>

fun release_children ::
  "string \<Rightarrow> string list \<Rightarrow> string list \<Rightarrow> string list \<Rightarrow> (string \<Rightarrow> string list) \<Rightarrow>
     string list \<times> (string \<Rightarrow> string list)" where
  "release_children key order [] ready dep = (ready, dep)"
| "release_children key order (c # cs) ready dep =
     (let dep' = dep(c := removeAll key (dep c)) in
      if dep' c = [] \<and> c \<notin> set order \<and> c \<notin> set ready
      then release_children key order cs (sort (ready @ [c])) dep'
      else release_children key order cs ready dep')"

lemma release_children_ready:
  "release_children key order cs ready dep = (ready', dep') \<Longrightarrow>
     set ready \<subseteq> set ready' \<and> set ready' \<subseteq> set ready \<union> set cs \<and>
     (set ready' - set ready) \<inter> set order = {} \<and>
     length ready' = length ready + card (set ready' - set ready)"
proof (induction cs arbitrary: ready dep)
  case (Cons c cs)
  show ?case
  proof (cases "removeAll key (dep c) = [] \<and> c \<notin> set order \<and> c \<notin> set ready")
    case True
    let ?r = "sort (ready @ [c])"
    have sr: "set ?r = insert c (set ready)" by simp
    from True Cons.prems
    have r: "release_children key order cs ?r (dep(c := removeAll key (dep c))) = (ready', dep')"
      by (simp add: Let_def)
    from Cons.IH [OF r]
    have a: "insert c (set ready) \<subseteq> set ready'"
      and b: "set ready' \<subseteq> insert c (set ready) \<union> set cs"
      and d: "(set ready' - insert c (set ready)) \<inter> set order = {}"
      and l: "length ready' = Suc (length ready) + card (set ready' - insert c (set ready))"
      unfolding sr by simp_all
    from a True have e: "set ready' - set ready = insert c (set ready' - insert c (set ready))"
      by blast
    have "card (set ready' - set ready) = Suc (card (set ready' - insert c (set ready)))"
      unfolding e by simp
    moreover have "(set ready' - set ready) \<inter> set order = {}"
      unfolding e using d True by blast
    moreover have "set ready \<subseteq> set ready'" "set ready' \<subseteq> set ready \<union> set (c # cs)"
      using a b by auto
    ultimately show ?thesis using l by simp
  next
    case False
    with Cons.prems
    have "release_children key order cs ready (dep(c := removeAll key (dep c))) = (ready', dep')"
      by (simp add: Let_def)
    from Cons.IH [OF this] show ?thesis by auto
  qed
qed simp

definition fresh_children :: "(string \<times> string list) list \<Rightarrow> string list \<Rightarrow> string list \<Rightarrow> string set" where
  "fresh_children children ready order =
     \<Union> (set ` snd ` set children) - set ready - set order"

lemma finite_fresh_children [simp]: "finite (fresh_children children ready order)"
  by (simp add: fresh_children_def)

text \<open>
  The \<^verbatim>\<open>while ready\<close> loop. Every turn moves the first ready key to the order and makes
  ready only keys that were in neither list, so it stops for any table of children.
\<close>

function order_loop ::
  "(string \<times> string list) list \<Rightarrow> string list \<Rightarrow> string list \<Rightarrow> (string \<Rightarrow> string list) \<Rightarrow>
     string list" where
  "order_loop children [] order dep = order"
| "order_loop children (key # ready) order dep =
     (let (ready', dep') =
        release_children key (order @ [key])
          (sort (case map_of children key of None \<Rightarrow> [] | Some cs \<Rightarrow> cs)) ready dep
      in order_loop children ready' (order @ [key]) dep')"
  by pat_completeness auto

termination
proof (relation "measure (\<lambda>(children, ready, order, dep).
    2 * card (fresh_children children ready order) + length ready)")
  fix children :: "(string \<times> string list) list" and key ready order and dep :: "string \<Rightarrow> string list"
    and x ready' dep'
  let ?cs = "sort (case map_of children key of None \<Rightarrow> [] | Some cs \<Rightarrow> cs)"
  assume x: "x = release_children key (order @ [key]) ?cs ready dep" and p: "(ready', dep') = x"
  then have r: "release_children key (order @ [key]) ?cs ready dep = (ready', dep')" by simp
  note R = release_children_ready [OF r]
  have cs: "set ?cs \<subseteq> \<Union> (set ` snd ` set children)"
    by (cases "map_of children key") (auto dest!: map_of_SomeD)
  let ?N = "set ready' - set ready"
  have N: "?N \<subseteq> fresh_children children (key # ready) order"
    using R cs unfolding fresh_children_def by auto
  have "fresh_children children ready' (order @ [key])
          \<subseteq> fresh_children children (key # ready) order - ?N"
    using R unfolding fresh_children_def by auto
  then have "card (fresh_children children ready' (order @ [key]))
               \<le> card (fresh_children children (key # ready) order) - card ?N"
    using card_mono card_Diff_subset N by (metis finite_Diff finite_fresh_children finite_set)
  moreover have "card ?N \<le> card (fresh_children children (key # ready) order)"
    using N by (rule card_mono [OF finite_fresh_children])
  ultimately show "((children, ready', order @ [key], dep'), children, key # ready, order, dep)
      \<in> measure (\<lambda>(children, ready, order, dep).
          2 * card (fresh_children children ready order) + length ready)"
    using R by simp
qed simp

definition topological_order :: "node list \<Rightarrow> graph_error + string list" where
  "topological_order tasks =
     (case missing_parent tasks of
        Some p \<Rightarrow> Inl (KeyError p)
      | None \<Rightarrow>
          let keys = node_keys tasks;
              dep = node_deps tasks;
              ready = sort [k \<leftarrow> keys. dep k = []];
              order = order_loop (map (\<lambda>k. (k, reverse_edges tasks k)) keys) ready [] dep
          in if length order = length keys then Inr order else Inl Cycle)"


section \<open>The loop keeps a topological order\<close>

lemma release_children_dep:
  "release_children key order cs ready dep = (ready', dep') \<Longrightarrow> distinct cs \<Longrightarrow>
     dep' = (\<lambda>k. if k \<in> set cs then removeAll key (dep k) else dep k)"
proof (induction cs arbitrary: ready dep)
  case (Cons c cs)
  define r where "r = (if removeAll key (dep c) = [] \<and> c \<notin> set order \<and> c \<notin> set ready
                       then sort (ready @ [c]) else ready)"
  from Cons.prems(1)
  have "release_children key order cs r (dep(c := removeAll key (dep c))) = (ready', dep')"
    by (auto simp: Let_def r_def split: if_splits)
  from Cons.IH [OF this] Cons.prems(2) show ?case
    by (auto simp: fun_eq_iff)
qed (simp add: fun_eq_iff)

lemma release_children_set:
  "release_children key order cs ready dep = (ready', dep') \<Longrightarrow> distinct cs \<Longrightarrow> distinct ready \<Longrightarrow>
     distinct ready' \<and>
     set ready' = set ready \<union> {c \<in> set cs. removeAll key (dep c) = [] \<and> c \<notin> set order}"
proof (induction cs arbitrary: ready dep)
  case (Cons c cs)
  define r where "r = (if removeAll key (dep c) = [] \<and> c \<notin> set order \<and> c \<notin> set ready
                       then sort (ready @ [c]) else ready)"
  let ?dep = "dep(c := removeAll key (dep c))"
  from Cons.prems(1) have "release_children key order cs r ?dep = (ready', dep')"
    by (auto simp: Let_def r_def split: if_splits)
  moreover have "distinct r" "distinct cs"
    using Cons.prems by (simp_all add: r_def)
  ultimately have "distinct ready'"
    "set ready' = set r \<union> {k \<in> set cs. removeAll key (?dep k) = [] \<and> k \<notin> set order}"
    using Cons.IH by blast+
  moreover have "{k \<in> set cs. removeAll key (?dep k) = [] \<and> k \<notin> set order}
               = {k \<in> set cs. removeAll key (dep k) = [] \<and> k \<notin> set order}"
    using Cons.prems(2) by auto
  moreover have "set r = set ready \<union> (if removeAll key (dep c) = [] \<and> c \<notin> set order then {c} else {})"
    by (auto simp: r_def)
  ultimately show ?case by auto
qed simp

definition loop_inv ::
  "string set \<Rightarrow> (string \<Rightarrow> string list) \<Rightarrow> string list \<Rightarrow> string list \<Rightarrow> (string \<Rightarrow> string list) \<Rightarrow> bool" where
  "loop_inv K D ready order dep \<longleftrightarrow>
     distinct (order @ ready) \<and> set ready \<subseteq> K \<and> set order \<subseteq> K \<and>
     (\<forall>k \<in> K. set (dep k) = set (D k) - set order) \<and>
     (\<forall>k \<in> K. set (D k) \<subseteq> set order \<longleftrightarrow> k \<in> set order \<union> set ready) \<and>
     (\<forall>i < length order. set (D (order ! i)) \<subseteq> set (take i order))"

definition children_of :: "string set \<Rightarrow> (string \<Rightarrow> string list) \<Rightarrow> (string \<times> string list) list \<Rightarrow> bool" where
  "children_of K D children \<longleftrightarrow>
     (\<forall>p \<in> K. \<exists>cs. map_of children p = Some cs \<and> distinct cs \<and> set cs = {k \<in> K. p \<in> set (D k)})"

lemma loop_inv_step:
  assumes inv: "loop_inv K D (key # ready) order dep"
    and ch: "children_of K D children"
    and r: "release_children key (order @ [key])
              (sort (case map_of children key of None \<Rightarrow> [] | Some cs \<Rightarrow> cs)) ready dep = (ready', dep')"
  shows "loop_inv K D ready' (order @ [key]) dep'"
proof -
  have key: "key \<in> K" and dk: "set (D key) \<subseteq> set order" and kn: "key \<notin> set order"
    using inv unfolding loop_inv_def by auto
  from ch key obtain cs where cs: "map_of children key = Some cs" "distinct cs"
    "set cs = {k \<in> K. key \<in> set (D k)}"
    unfolding children_of_def by blast
  have dep: "\<And>k. k \<in> K \<Longrightarrow> set (dep k) = set (D k) - set order"
    and complete: "\<And>k. k \<in> K \<Longrightarrow> set (D k) \<subseteq> set order \<longleftrightarrow> k \<in> set order \<union> set (key # ready)"
    and before: "\<And>i. i < length order \<Longrightarrow> set (D (order ! i)) \<subseteq> set (take i order)"
    and dist: "distinct (order @ key # ready)" and sub: "set (key # ready) \<subseteq> K" "set order \<subseteq> K"
    using inv unfolding loop_inv_def by auto
  have dep': "dep' = (\<lambda>k. if k \<in> set cs then removeAll key (dep k) else dep k)"
    using release_children_dep [OF r] cs by simp
  have R: "distinct ready'"
    "set ready' = set ready \<union> {c \<in> set cs. removeAll key (dep c) = [] \<and> c \<notin> set (order @ [key])}"
    using release_children_set [OF r] cs dist by auto
  have new: "removeAll key (dep c) = [] \<longleftrightarrow> set (D c) \<subseteq> insert key (set order)" if "c \<in> K" for c
  proof -
    have "removeAll key (dep c) = [] \<longleftrightarrow> set (dep c) - {key} = {}"
      by (metis set_removeAll set_empty)
    with dep [OF that] show ?thesis by auto
  qed
  have R': "set ready' = set ready \<union>
      {c \<in> set cs. set (D c) \<subseteq> insert key (set order) \<and> c \<notin> insert key (set order)}"
    unfolding R(2) using new cs(3) by auto
  have "set (dep' k) = set (D k) - set (order @ [key])" if "k \<in> K" for k
    using dep [OF that] that cs(3) by (auto simp: dep')
  moreover have "set (D k) \<subseteq> set (order @ [key]) \<longleftrightarrow> k \<in> set (order @ [key]) \<union> set ready'"
    if k: "k \<in> K" for k
  proof (cases "key \<in> set (D k)")
    case True
    then have "k \<in> set cs" "k \<notin> set order \<union> set (key # ready)"
      using k cs(3) complete [OF k] kn by auto
    then show ?thesis using R' by auto
  next
    case False
    then have "k \<notin> set cs" using cs(3) by auto
    with False complete [OF k] R' show ?thesis by auto
  qed
  moreover have "set (D ((order @ [key]) ! i)) \<subseteq> set (take i (order @ [key]))"
    if "i < length (order @ [key])" for i
    using before [of i] dk that by (cases "i < length order") (auto simp: nth_append)
  moreover have "distinct ((order @ [key]) @ ready')" "set ready' \<subseteq> K" "set (order @ [key]) \<subseteq> K"
    using R R' dist sub key cs(3) by auto
  ultimately show ?thesis unfolding loop_inv_def by auto
qed

lemma order_loop_inv:
  "loop_inv K D ready order dep \<Longrightarrow> children_of K D children \<Longrightarrow>
     \<exists>dep'. loop_inv K D [] (order_loop children ready order dep) dep'"
proof (induction children ready order dep rule: order_loop.induct)
  case (2 children key ready order dep)
  obtain ready' dep' where r: "release_children key (order @ [key])
      (sort (case map_of children key of None \<Rightarrow> [] | Some cs \<Rightarrow> cs)) ready dep = (ready', dep')"
    by (metis surj_pair)
  from "2.IH" [OF r [symmetric] refl] loop_inv_step [OF "2.prems" r] "2.prems"(2) r
  show ?case by simp
qed auto

section \<open>What the result means\<close>

definition dep_edges :: "node list \<Rightarrow> (string \<times> string) set" where
  "dep_edges tasks = {(p, k). k \<in> set (node_keys tasks) \<and> p \<in> set (node_deps tasks k)}"

definition closed_graph :: "node list \<Rightarrow> bool" where
  "closed_graph tasks \<longleftrightarrow> (\<forall>k \<in> set (node_keys tasks). set (node_deps tasks k) \<subseteq> set (node_keys tasks))"

lemma missing_parent_None: "missing_parent tasks = None \<longleftrightarrow> closed_graph tasks"
  by (auto simp: missing_parent_def closed_graph_def find_None_iff)

lemma distinct_node_deps [simp]: "distinct (node_deps tasks k)"
  by (simp add: node_deps_def split: option.splits)

lemma distinct_node_keys [simp]: "distinct (node_keys tasks)"
  by (simp add: node_keys_def)

definition raw_order :: "node list \<Rightarrow> string list" where
  "raw_order tasks =
     order_loop (map (\<lambda>k. (k, reverse_edges tasks k)) (node_keys tasks))
       (sort [k \<leftarrow> node_keys tasks. node_deps tasks k = []]) [] (node_deps tasks)"

lemma topological_order_alt:
  "topological_order tasks =
     (case missing_parent tasks of
        Some p \<Rightarrow> Inl (KeyError p)
      | None \<Rightarrow> if length (raw_order tasks) = length (node_keys tasks)
                then Inr (raw_order tasks) else Inl Cycle)"
  by (simp add: topological_order_def raw_order_def Let_def split: option.split)

lemma raw_order_inv:
  obtains dep where "loop_inv (set (node_keys tasks)) (node_deps tasks) [] (raw_order tasks) dep"
proof -
  let ?K = "set (node_keys tasks)"
  have "children_of ?K (node_deps tasks) (map (\<lambda>k. (k, reverse_edges tasks k)) (node_keys tasks))"
    by (auto simp: children_of_def map_of_map_restrict reverse_edges_def)
  moreover have "loop_inv ?K (node_deps tasks)
      (sort [k \<leftarrow> node_keys tasks. node_deps tasks k = []]) [] (node_deps tasks)"
    by (auto simp: loop_inv_def)
  ultimately show thesis
    using that order_loop_inv unfolding raw_order_def by blast
qed

text \<open>A list that holds every key once, each after the keys it depends on.\<close>

definition topologically_sorted :: "node list \<Rightarrow> string list \<Rightarrow> bool" where
  "topologically_sorted tasks order \<longleftrightarrow>
     distinct order \<and> set order = set (map fst tasks) \<and>
     (\<forall>i < length order. set (node_deps tasks (order ! i)) \<subseteq> set (take i order))"

lemma topological_order_sound:
  assumes "topological_order tasks = Inr order"
  shows "topologically_sorted tasks order"
proof -
  from assms have o: "order = raw_order tasks" "length order = length (node_keys tasks)"
    by (auto simp: topological_order_alt split: option.splits if_splits)
  obtain dep where inv: "loop_inv (set (node_keys tasks)) (node_deps tasks) [] order dep"
    using raw_order_inv o(1) by metis
  then have "distinct order" "set order \<subseteq> set (node_keys tasks)"
    by (auto simp: loop_inv_def)
  then have "set order = set (node_keys tasks)"
    using o(2) by (metis card_subset_eq distinct_card distinct_node_keys finite_set)
  with inv show ?thesis
    by (auto simp: topologically_sorted_def loop_inv_def node_keys_def)
qed

lemma topologically_sorted_acyclic:
  assumes "topologically_sorted tasks order"
  shows "acyclic (dep_edges tasks)"
proof -
  have "\<exists>j < i. p = order ! j" if i: "i < length order" and e: "(p, order ! i) \<in> (dep_edges tasks)\<^sup>+" for p i
    using e i
  proof (induction "order ! i" arbitrary: i rule: trancl.induct)
    case (r_into_trancl p)
    then have "p \<in> set (take i order)"
      using assms by (auto simp: topologically_sorted_def dep_edges_def)
    then show ?case by (auto simp: in_set_conv_nth)
  next
    case (trancl_into_trancl p q)
    then have "q \<in> set (take i order)"
      using assms by (auto simp: topologically_sorted_def dep_edges_def)
    then obtain j where j: "j < i" "q = order ! j" "j < length order"
      by (auto simp: in_set_conv_nth)
    with trancl_into_trancl.hyps(2) [of j] show ?case by (metis less_trans)
  qed
  note below = this
  show ?thesis
    unfolding acyclic_def
  proof (intro allI notI)
    fix k
    assume kk: "(k, k) \<in> (dep_edges tasks)\<^sup>+"
    then have "k \<in> set (node_keys tasks)"
      by (auto simp: dep_edges_def dest: tranclD2)
    then have "k \<in> set order"
      using assms by (simp add: topologically_sorted_def node_keys_def)
    then obtain i where i: "i < length order" "k = order ! i"
      by (auto simp: in_set_conv_nth)
    with below kk obtain j where "j < i" "order ! i = order ! j"
      by metis
    with i assms show False
      by (auto simp: topologically_sorted_def nth_eq_iff_index_eq)
  qed
qed

lemma acyclic_topological_order:
  assumes closed: "closed_graph tasks" and ac: "acyclic (dep_edges tasks)"
  shows "topological_order tasks = Inr (raw_order tasks)"
proof -
  let ?K = "set (node_keys tasks)"
  let ?O = "raw_order tasks"
  obtain dep where inv: "loop_inv ?K (node_deps tasks) [] ?O dep"
    by (rule raw_order_inv)
  have "dep_edges tasks \<subseteq> ?K \<times> ?K"
    using closed by (auto simp: dep_edges_def closed_graph_def)
  then have "finite (dep_edges tasks)"
    by (rule finite_subset) simp
  then have wf: "wf (dep_edges tasks)"
    using ac by (simp add: finite_acyclic_wf)
  have "k \<in> ?K \<longrightarrow> k \<in> set ?O" for k
  proof (induction k rule: wf_induct_rule [OF wf])
    case (1 k)
    show ?case
    proof
      assume k: "k \<in> ?K"
      have "set (node_deps tasks k) \<subseteq> set ?O"
        using 1 k closed by (auto simp: dep_edges_def closed_graph_def)
      then show "k \<in> set ?O"
        using inv k by (auto simp: loop_inv_def)
    qed
  qed
  then have "set ?O = ?K"
    using inv by (auto simp: loop_inv_def)
  moreover have "distinct ?O"
    using inv by (simp add: loop_inv_def)
  ultimately have "length ?O = length (node_keys tasks)"
    by (metis distinct_card distinct_node_keys)
  with closed show ?thesis
    by (simp add: topological_order_alt missing_parent_None [symmetric])
qed

lemma topological_order_iff_acyclic:
  "closed_graph tasks \<Longrightarrow> (\<exists>order. topological_order tasks = Inr order) \<longleftrightarrow> acyclic (dep_edges tasks)"
  using topological_order_sound topologically_sorted_acyclic acyclic_topological_order by blast


section \<open>The order depends on the graph only\<close>

lemma order_loop_cong:
  "(\<And>k. sort (case map_of ch k of None \<Rightarrow> [] | Some cs \<Rightarrow> cs)
        = sort (case map_of ch' k of None \<Rightarrow> [] | Some cs \<Rightarrow> cs)) \<Longrightarrow>
     order_loop ch ready order dep = order_loop ch' ready order dep"
proof (induction ch ready order dep rule: order_loop.induct)
  case (2 children key ready order dep)
  obtain ready' dep' where r: "release_children key (order @ [key])
      (sort (case map_of children key of None \<Rightarrow> [] | Some cs \<Rightarrow> cs)) ready dep = (ready', dep')"
    by (metis surj_pair)
  from "2.IH" [OF r [symmetric] refl] "2.prems" have
    "order_loop children ready' (order @ [key]) dep' = order_loop ch' ready' (order @ [key]) dep'"
    by simp
  with r show ?case by (simp add: "2.prems" [of key, symmetric])
qed simp

lemma sort_cong_set:
  "distinct xs \<Longrightarrow> distinct ys \<Longrightarrow> set xs = set ys \<Longrightarrow> sort xs = sort (ys :: 'a :: linorder list)"
  by (metis distinct_sort set_sort sorted_distinct_set_unique sorted_sort)

lemma topological_order_cong:
  assumes keys: "set (node_keys a) = set (node_keys b)"
    and deps: "node_deps a = node_deps b"
    and closed: "closed_graph a"
  shows "topological_order a = topological_order b"
proof -
  have rev: "sort (reverse_edges a p) = sort (reverse_edges b p)" for p
    by (rule sort_cong_set) (auto simp: reverse_edges_def keys deps)
  have look: "(case map_of (map (\<lambda>k. (k, reverse_edges t k)) (node_keys t)) k of None \<Rightarrow> [] | Some cs \<Rightarrow> cs)
      = (if k \<in> set (node_keys t) then reverse_edges t k else [])" for t k
    by (simp add: map_of_map_restrict restrict_map_def)
  have init: "sort [k \<leftarrow> node_keys a. node_deps a k = []] = sort [k \<leftarrow> node_keys b. node_deps b k = []]"
    by (rule sort_cong_set) (auto simp: keys deps)
  have "raw_order a = raw_order b"
    unfolding raw_order_def init unfolding deps
    by (rule order_loop_cong, unfold look keys) (simp add: rev)
  moreover have "length (node_keys a) = length (node_keys b)"
    using keys by (metis distinct_card distinct_node_keys)
  moreover have "missing_parent a = None" "missing_parent b = None"
    using closed by (auto simp: missing_parent_None closed_graph_def keys deps)
  ultimately show ?thesis by (simp add: topological_order_alt)
qed

end
