(* ===== verification/Plan_Validation.thy ===== *)
theory Plan_Validation
  imports Plan_Graph
begin

text \<open>
  \<^verbatim>\<open>validate_plan\<close> of \<^verbatim>\<open>scripts/hermesops-orchestrator.py\<close>: from the JSON of a plan to
  its normalised form, or to the first check that fails. The rows of the tables \<^verbatim>\<open>roles\<close> and
  \<^verbatim>\<open>projects\<close> it reads are arguments. Each \<^verbatim>\<open>fail(...)\<close> is a constructor of
  \<open>plan_error\<close>; \<open>TypeErr\<close> is the TypeError Python raises when a list or a dict is looked up
  in a set or a dict.
\<close>

section \<open>Data\<close>

record role_row =
  rl_id :: string
  rl_profile :: string
  rl_kind :: string
  rl_workspace_mode :: string
  rl_may_commit :: bool
  rl_may_push :: bool
  rl_network :: bool
  rl_enabled :: bool

record project_row =
  pr_id :: string
  pr_enabled :: bool

datatype kind = PIPELINE | NOOP | TEST_SLEEP | TEST_FAIL

record task_spec =
  ts_key :: string
  ts_kind :: kind
  ts_project :: "string option"
  ts_role :: "string option"
  ts_instruction :: string
  ts_acceptance :: "string list"
  ts_marker :: "string option"
  ts_deps :: "string list"
  ts_priority :: int
  ts_max_attempts :: int
  ts_duration :: "int option"

record plan_spec =
  ps_objective :: string
  ps_max_parallel :: int
  ps_tasks :: "task_spec list"

datatype plan_error =
    TypeErr
  | SchemaVersion
  | ObjectiveRequired
  | ObjectiveTooLong
  | MaxParallel
  | TaskCount
  | TaskNotObject nat
  | TaskKey nat
  | DuplicateKey string
  | UnsupportedKind
  | TestForbidden kind
  | DependenciesType string
  | DuplicateDependency string
  | SelfDependency string
  | InstructionType string
  | InstructionTooLong string
  | AcceptanceType string
  | MaxAttempts string
  | Priority string
  | UnknownProject string
  | ProjectDisabled string
  | UnknownRole string
  | RoleNotWorker string
  | RoleMayPush string
  | InstructionEmpty string
  | AcceptanceRequired string
  | MarkerInvalid string
  | UnknownAffinity string
  | AffinityDisabled string
  | DurationInvalid string
  | UnknownDependencies string
  | Graph graph_error
  | Unordered string string string

section \<open>One task\<close>

text \<open>\<^verbatim>\<open>TASK_KEY_PATTERN.fullmatch\<close>: \<^verbatim>\<open>[a-z][a-z0-9_-]{0,63}\<close>.\<close>

definition lower_letter :: "char \<Rightarrow> bool" where
  "lower_letter c \<longleftrightarrow> CHR ''a'' \<le> c \<and> c \<le> CHR ''z''"

definition digit :: "char \<Rightarrow> bool" where
  "digit c \<longleftrightarrow> CHR ''0'' \<le> c \<and> c \<le> CHR ''9''"

definition task_key_ok :: "string \<Rightarrow> bool" where
  "task_key_ok s \<longleftrightarrow>
     (case s of
        [] \<Rightarrow> False
      | c # cs \<Rightarrow> lower_letter c \<and> length cs \<le> 63 \<and>
          list_all (\<lambda>d. lower_letter d \<or> digit d \<or> d = CHR ''_'' \<or> d = CHR ''-'') cs)"

definition kind_of :: "json \<Rightarrow> plan_error + kind" where
  "kind_of v =
     (if \<not> py_hashable v then Inl TypeErr
      else if v = JStr ''PIPELINE'' then Inr PIPELINE
      else if v = JStr ''NOOP'' then Inr NOOP
      else if v = JStr ''TEST_SLEEP'' then Inr TEST_SLEEP
      else if v = JStr ''TEST_FAIL'' then Inr TEST_FAIL
      else Inl UnsupportedKind)"

fun is_test_kind :: "kind \<Rightarrow> bool" where
  "is_test_kind TEST_SLEEP = True"
| "is_test_kind TEST_FAIL = True"
| "is_test_kind _ = False"

text \<open>\<^verbatim>\<open>v or []\<close> read as a list of strings; \<open>None\<close> when it is none.\<close>

definition strings_or_empty :: "json \<Rightarrow> string list option" where
  "strings_or_empty v =
     (if \<not> py_truthy v then Some []
      else case v of JArr vs \<Rightarrow> json_str_list vs | _ \<Rightarrow> None)"

definition int_between :: "int \<Rightarrow> int \<Rightarrow> json \<Rightarrow> int option" where
  "int_between lo hi v =
     (case py_int v of None \<Rightarrow> None | Some n \<Rightarrow> if lo \<le> n \<and> n \<le> hi then Some n else None)"

definition project_lookup :: "project_row list \<Rightarrow> json \<Rightarrow> plan_error + project_row option" where
  "project_lookup projects v =
     (if \<not> py_hashable v then Inl TypeErr
      else Inr (case v of JStr s \<Rightarrow> find (\<lambda>r. pr_id r = s) projects | _ \<Rightarrow> None))"

definition role_lookup :: "role_row list \<Rightarrow> json \<Rightarrow> plan_error + role_row option" where
  "role_lookup roles v =
     (if \<not> py_hashable v then Inl TypeErr
      else Inr (case v of JStr s \<Rightarrow> find (\<lambda>r. rl_id r = s \<and> rl_enabled r) roles | _ \<Rightarrow> None))"

text \<open>The \<^verbatim>\<open>kind == "PIPELINE"\<close> branch: project, role and marker of a pipeline task.\<close>

definition pipeline_fields ::
  "role_row list \<Rightarrow> project_row list \<Rightarrow> bool \<Rightarrow> (string \<times> json) list \<Rightarrow> string \<Rightarrow> string \<Rightarrow>
     string list \<Rightarrow> plan_error + string \<times> string \<times> string" where
  "pipeline_fields roles projects require_enabled raw key instruction acceptance =
     rbind (project_lookup projects (jget raw ''project_id'')) (\<lambda>project.
     case project of None \<Rightarrow> Inl (UnknownProject key) | Some pr \<Rightarrow>
     if require_enabled \<and> \<not> pr_enabled pr then Inl (ProjectDisabled key) else
     rbind (role_lookup roles (jget raw ''role_id'')) (\<lambda>role.
     case role of None \<Rightarrow> Inl (UnknownRole key) | Some rl \<Rightarrow>
     if rl_kind rl \<noteq> ''worker'' \<or> \<not> rl_may_commit rl then Inl (RoleNotWorker key)
     else if rl_may_push rl then Inl (RoleMayPush key)
     else if py_strip instruction = [] then Inl (InstructionEmpty key)
     else if acceptance = [] then Inl (AcceptanceRequired key)
     else case jget raw ''marker'' of
            JStr m \<Rightarrow>
              if py_strip m = [] \<or> CHR 0x0A \<in> set m then Inl (MarkerInvalid key)
              else Inr (pr_id pr, rl_id rl, py_strip m)
          | _ \<Rightarrow> Inl (MarkerInvalid key)))"

text \<open>The \<^verbatim>\<open>elif\<close> branch: a task of another kind may name a project when test actions are allowed.\<close>

definition affinity_field ::
  "project_row list \<Rightarrow> bool \<Rightarrow> bool \<Rightarrow> (string \<times> json) list \<Rightarrow> string \<Rightarrow> plan_error + string option" where
  "affinity_field projects allow_test require_enabled raw key =
     (if allow_test \<and> jget raw ''project_id'' \<noteq> JNull
      then rbind (project_lookup projects (jget raw ''project_id'')) (\<lambda>project.
           case project of None \<Rightarrow> Inl (UnknownAffinity key) | Some pr \<Rightarrow>
           if require_enabled \<and> \<not> pr_enabled pr then Inl (AffinityDisabled key)
           else Inr (Some (pr_id pr)))
      else Inr None)"

definition duration_field :: "(string \<times> json) list \<Rightarrow> string \<Rightarrow> kind \<Rightarrow> plan_error + int option" where
  "duration_field raw key kd =
     (if kd = TEST_SLEEP
      then case int_between 1 120 (jget_default raw ''duration_seconds'' (JInt 1)) of
             None \<Rightarrow> Inl (DurationInvalid key)
           | Some n \<Rightarrow> Inr (Some n)
      else Inr None)"

text \<open>The fields every task has, in the order the code checks them.\<close>

definition common_fields ::
  "bool \<Rightarrow> (string \<times> json) list \<Rightarrow> string \<Rightarrow>
     plan_error + kind \<times> string list \<times> string \<times> string list \<times> int \<times> int" where
  "common_fields allow_test raw key =
     rbind (kind_of (jget_default raw ''kind'' (JStr ''PIPELINE''))) (\<lambda>kd.
     if is_test_kind kd \<and> \<not> allow_test then Inl (TestForbidden kd) else
     case strings_or_empty (jget raw ''dependencies'') of
       None \<Rightarrow> Inl (DependenciesType key)
     | Some deps \<Rightarrow>
     if \<not> distinct deps then Inl (DuplicateDependency key)
     else if key \<in> set deps then Inl (SelfDependency key)
     else case jget_default raw ''instruction'' (JStr []) of
       JStr instruction \<Rightarrow>
         if 32768 < length instruction then Inl (InstructionTooLong key) else
         (case strings_or_empty (jget raw ''acceptance_criteria'') of
            None \<Rightarrow> Inl (AcceptanceType key)
          | Some acceptance \<Rightarrow>
          if \<not> list_all (\<lambda>c. py_strip c \<noteq> []) acceptance then Inl (AcceptanceType key) else
          case int_between 1 10 (jget_default raw ''max_attempts'' (JInt 1)) of
            None \<Rightarrow> Inl (MaxAttempts key)
          | Some attempts \<Rightarrow>
          case int_between (- 1000) 1000 (jget_default raw ''priority'' (JInt 100)) of
            None \<Rightarrow> Inl (Priority key)
          | Some priority \<Rightarrow> Inr (kd, deps, instruction, acceptance, attempts, priority))
     | _ \<Rightarrow> Inl (InstructionType key))"

text \<open>One turn of the loop over the tasks: the task at \<open>index\<close>, \<open>keys\<close> seen so far.\<close>

definition validate_task ::
  "role_row list \<Rightarrow> project_row list \<Rightarrow> bool \<Rightarrow> bool \<Rightarrow> nat \<Rightarrow> string list \<Rightarrow> json \<Rightarrow>
     plan_error + task_spec" where
  "validate_task roles projects allow_test require_enabled index keys v =
     (case v of
        JObj raw \<Rightarrow>
          (case jget raw ''key'' of
             JStr key \<Rightarrow>
               if \<not> task_key_ok key then Inl (TaskKey index)
               else if key \<in> set keys then Inl (DuplicateKey key) else
               rbind (common_fields allow_test raw key)
                 (\<lambda>(kd, deps, instruction, acceptance, attempts, priority).
               rbind
                 (if kd = PIPELINE
                  then rbind (pipeline_fields roles projects require_enabled raw key instruction acceptance)
                         (\<lambda>(project, role, marker). Inr (Some project, Some role, Some marker))
                  else rbind (affinity_field projects allow_test require_enabled raw key)
                         (\<lambda>project. Inr (project, None, None)))
                 (\<lambda>(project, role, marker).
               rbind (duration_field raw key kd) (\<lambda>duration.
               Inr \<lparr>ts_key = key, ts_kind = kd, ts_project = project, ts_role = role,
                    ts_instruction = py_strip instruction, ts_acceptance = acceptance,
                    ts_marker = marker, ts_deps = deps, ts_priority = priority,
                    ts_max_attempts = attempts, ts_duration = duration\<rparr>)))
           | _ \<Rightarrow> Inl (TaskKey index))
      | _ \<Rightarrow> Inl (TaskNotObject index))"

fun validate_tasks ::
  "role_row list \<Rightarrow> project_row list \<Rightarrow> bool \<Rightarrow> bool \<Rightarrow> nat \<Rightarrow> string list \<Rightarrow> json list \<Rightarrow>
     plan_error + task_spec list" where
  "validate_tasks roles projects allow_test require_enabled index keys [] = Inr []"
| "validate_tasks roles projects allow_test require_enabled index keys (v # vs) =
     rbind (validate_task roles projects allow_test require_enabled index keys v) (\<lambda>t.
     rbind (validate_tasks roles projects allow_test require_enabled (Suc index) (ts_key t # keys) vs)
       (\<lambda>ts. Inr (t # ts)))"

section \<open>The graph of the tasks\<close>

definition task_nodes :: "task_spec list \<Rightarrow> node list" where
  "task_nodes ts = map (\<lambda>t. (ts_key t, ts_deps t)) ts"

definition unknown_dependency :: "task_spec list \<Rightarrow> string option" where
  "unknown_dependency ts =
     map_option ts_key (find (\<lambda>t. \<not> set (ts_deps t) \<subseteq> set (map ts_key ts)) ts)"

text \<open>The dict \<open>ancestors\<close>, filled in topological order.\<close>

fun add_parents :: "(string \<Rightarrow> string list) \<Rightarrow> string \<Rightarrow> string list \<Rightarrow> string \<Rightarrow> string list" where
  "add_parents anc k [] = anc"
| "add_parents anc k (p # ps) = add_parents (anc(k := List.union (List.insert p (anc k)) (anc p))) k ps"

fun collect_ancestors ::
  "(string \<Rightarrow> string list) \<Rightarrow> string list \<Rightarrow> (string \<Rightarrow> string list) \<Rightarrow> string \<Rightarrow> string list" where
  "collect_ancestors deps [] anc = anc"
| "collect_ancestors deps (k # ks) anc = collect_ancestors deps ks (add_parents anc k (deps k))"

definition project_pipelines :: "task_spec list \<Rightarrow> string option \<Rightarrow> string list" where
  "project_pipelines ts p = [ts_key t. t \<leftarrow> ts, ts_kind t = PIPELINE, ts_project t = p]"

text \<open>The first pair of pipeline tasks of one project that no dependency path orders.\<close>

definition unordered_pair ::
  "(string \<Rightarrow> string list) \<Rightarrow> task_spec list \<Rightarrow> (string option \<times> string \<times> string) option" where
  "unordered_pair anc ts =
     find (\<lambda>(p, left, right). left \<notin> set (anc right) \<and> right \<notin> set (anc left))
       [(p, pair).
          p \<leftarrow> first_occurrences [ts_project t. t \<leftarrow> ts, ts_kind t = PIPELINE],
          pair \<leftarrow> pairs_of (project_pipelines ts p)]"

definition task_by_key :: "task_spec list \<Rightarrow> string \<Rightarrow> task_spec option" where
  "task_by_key ts k = map_of (map (\<lambda>t. (ts_key t, t)) ts) k"

definition order_tasks :: "task_spec list \<Rightarrow> plan_error + task_spec list" where
  "order_tasks ts =
     (case unknown_dependency ts of
        Some k \<Rightarrow> Inl (UnknownDependencies k)
      | None \<Rightarrow>
          (case topological_order (task_nodes ts) of
             Inl e \<Rightarrow> Inl (Graph e)
           | Inr order \<Rightarrow>
               (let deps = (\<lambda>k. case task_by_key ts k of None \<Rightarrow> [] | Some t \<Rightarrow> ts_deps t);
                    anc = collect_ancestors deps order (\<lambda>_. [])
                in case unordered_pair anc ts of
                     Some (p, left, right) \<Rightarrow>
                       Inl (Unordered (case p of None \<Rightarrow> [] | Some s \<Rightarrow> s) left right)
                   | None \<Rightarrow> Inr (map (\<lambda>k. the (task_by_key ts k)) order))))"

section \<open>The plan\<close>

definition validate_plan ::
  "role_row list \<Rightarrow> project_row list \<Rightarrow> bool \<Rightarrow> bool \<Rightarrow> (string \<times> json) list \<Rightarrow>
     plan_error + plan_spec" where
  "validate_plan roles projects allow_test require_enabled plan =
     (if \<not> py_eq_int (jget plan ''schema_version'') 1 then Inl SchemaVersion else
      case jget plan ''objective'' of
        JStr objective \<Rightarrow>
          if py_strip objective = [] then Inl ObjectiveRequired
          else if 16384 < length objective then Inl ObjectiveTooLong else
          (case int_between 1 16 (jget_default plan ''max_parallel_tasks'' (JInt 1)) of
             None \<Rightarrow> Inl MaxParallel
           | Some maximum \<Rightarrow>
               (case jget plan ''tasks'' of
                  JArr tasks \<Rightarrow>
                    if length tasks = 0 \<or> 32 < length tasks then Inl TaskCount else
                    rbind (validate_tasks roles projects allow_test require_enabled 0 [] tasks) (\<lambda>ts.
                    rbind (order_tasks ts) (\<lambda>ordered.
                    Inr \<lparr>ps_objective = py_strip objective, ps_max_parallel = maximum,
                         ps_tasks = ordered\<rparr>))
                | _ \<Rightarrow> Inl TaskCount))
      | _ \<Rightarrow> Inl ObjectiveRequired)"


section \<open>The normalised plan as JSON\<close>

text \<open>The dicts the validator returns; \<^verbatim>\<open>insert_plan\<close> stores their text.\<close>

fun kind_text :: "kind \<Rightarrow> string" where
  "kind_text PIPELINE = ''PIPELINE''"
| "kind_text NOOP = ''NOOP''"
| "kind_text TEST_SLEEP = ''TEST_SLEEP''"
| "kind_text TEST_FAIL = ''TEST_FAIL''"

definition task_members :: "task_spec \<Rightarrow> (string \<times> json) list" where
  "task_members t =
     [(''key'', JStr (ts_key t)), (''kind'', JStr (kind_text (ts_kind t))),
      (''project_id'', json_of_option JStr (ts_project t)),
      (''role_id'', json_of_option JStr (ts_role t)),
      (''instruction'', JStr (ts_instruction t)),
      (''acceptance_criteria'', JArr (map JStr (ts_acceptance t))),
      (''marker'', json_of_option JStr (ts_marker t)),
      (''dependencies'', JArr (map JStr (ts_deps t))),
      (''priority'', JInt (ts_priority t)),
      (''max_attempts'', JInt (ts_max_attempts t)),
      (''duration_seconds'', json_of_option JInt (ts_duration t))]"

definition task_json :: "task_spec \<Rightarrow> json" where
  "task_json t = JObj (task_members t)"

definition plan_json :: "plan_spec \<Rightarrow> (string \<times> json) list" where
  "plan_json p =
     [(''schema_version'', JInt 1), (''objective'', JStr (ps_objective p)),
      (''max_parallel_tasks'', JInt (ps_max_parallel p)),
      (''tasks'', JArr (map task_json (ps_tasks p)))]"

section \<open>A validated task\<close>

definition pipeline_ok :: "role_row list \<Rightarrow> project_row list \<Rightarrow> bool \<Rightarrow> task_spec \<Rightarrow> bool" where
  "pipeline_ok roles projects require_enabled t \<longleftrightarrow>
     (\<exists>pr \<in> set projects. ts_project t = Some (pr_id pr) \<and> (require_enabled \<longrightarrow> pr_enabled pr)) \<and>
     (\<exists>rl \<in> set roles. ts_role t = Some (rl_id rl) \<and> rl_enabled rl \<and> rl_kind rl = ''worker'' \<and>
        rl_may_commit rl \<and> \<not> rl_may_push rl) \<and>
     ts_instruction t \<noteq> [] \<and> ts_acceptance t \<noteq> [] \<and>
     (\<exists>m. ts_marker t = Some m \<and> m \<noteq> [] \<and> py_strip m = m)"

definition task_ok :: "role_row list \<Rightarrow> project_row list \<Rightarrow> bool \<Rightarrow> bool \<Rightarrow> task_spec \<Rightarrow> bool" where
  "task_ok roles projects allow_test require_enabled t \<longleftrightarrow>
     task_key_ok (ts_key t) \<and>
     distinct (ts_deps t) \<and> ts_key t \<notin> set (ts_deps t) \<and>
     py_strip (ts_instruction t) = ts_instruction t \<and> length (ts_instruction t) \<le> 32768 \<and>
     (\<forall>c \<in> set (ts_acceptance t). py_strip c \<noteq> []) \<and>
     1 \<le> ts_max_attempts t \<and> ts_max_attempts t \<le> 10 \<and>
     - 1000 \<le> ts_priority t \<and> ts_priority t \<le> 1000 \<and>
     (is_test_kind (ts_kind t) \<longrightarrow> allow_test) \<and>
     (ts_kind t = PIPELINE \<longrightarrow> pipeline_ok roles projects require_enabled t) \<and>
     (ts_kind t \<noteq> PIPELINE \<longrightarrow> ts_role t = None \<and> ts_marker t = None \<and>
        (ts_project t \<noteq> None \<longrightarrow> allow_test \<and>
           (\<exists>pr \<in> set projects. ts_project t = Some (pr_id pr) \<and> (require_enabled \<longrightarrow> pr_enabled pr)))) \<and>
     (case ts_duration t of
        None \<Rightarrow> ts_kind t \<noteq> TEST_SLEEP
      | Some n \<Rightarrow> ts_kind t = TEST_SLEEP \<and> 1 \<le> n \<and> n \<le> 120)"

lemma int_between_Some:
  "int_between lo hi v = Some n \<longleftrightarrow> py_int v = Some n \<and> lo \<le> n \<and> n \<le> hi"
  by (auto simp: int_between_def split: option.splits)

lemma project_lookup_Some:
  "project_lookup projects v = Inr (Some pr) \<Longrightarrow> pr \<in> set projects \<and> v = JStr (pr_id pr)"
  by (auto simp: project_lookup_def find_Some_iff split: if_splits json.splits)

lemma role_lookup_Some:
  "role_lookup roles v = Inr (Some rl) \<Longrightarrow> rl \<in> set roles \<and> rl_enabled rl \<and> v = JStr (rl_id rl)"
  by (auto simp: role_lookup_def find_Some_iff split: if_splits json.splits)

lemma common_fields_ok:
  assumes "common_fields allow_test raw key = Inr (kd, deps, instruction, acceptance, attempts, priority)"
  shows "(is_test_kind kd \<longrightarrow> allow_test) \<and> distinct deps \<and> key \<notin> set deps \<and>
    length instruction \<le> 32768 \<and> (\<forall>c \<in> set acceptance. py_strip c \<noteq> []) \<and>
    1 \<le> attempts \<and> attempts \<le> 10 \<and> - 1000 \<le> priority \<and> priority \<le> 1000"
  using assms unfolding common_fields_def
  by (auto simp: int_between_Some list_all_iff
           split: if_split_asm option.split_asm json.split_asm)

lemma pipeline_fields_ok:
  assumes "pipeline_fields roles projects require_enabled raw key instruction acceptance
             = Inr (project, role, marker)"
  shows "(\<exists>pr \<in> set projects. project = pr_id pr \<and> (require_enabled \<longrightarrow> pr_enabled pr)) \<and>
    (\<exists>rl \<in> set roles. role = rl_id rl \<and> rl_enabled rl \<and> rl_kind rl = ''worker'' \<and>
       rl_may_commit rl \<and> \<not> rl_may_push rl) \<and>
    py_strip instruction \<noteq> [] \<and> acceptance \<noteq> [] \<and> marker \<noteq> [] \<and> py_strip marker = marker"
  using assms unfolding pipeline_fields_def
  by (auto split: if_split_asm option.split_asm json.split_asm
           dest!: project_lookup_Some role_lookup_Some) blast+

lemma affinity_field_ok:
  "affinity_field projects allow_test require_enabled raw key = Inr (Some p) \<Longrightarrow>
     allow_test \<and> (\<exists>pr \<in> set projects. p = pr_id pr \<and> (require_enabled \<longrightarrow> pr_enabled pr))"
  unfolding affinity_field_def
  by (auto split: if_split_asm option.split_asm dest!: project_lookup_Some)

lemma duration_field_ok:
  "duration_field raw key kd = Inr d \<Longrightarrow>
     (case d of None \<Rightarrow> kd \<noteq> TEST_SLEEP | Some n \<Rightarrow> kd = TEST_SLEEP \<and> 1 \<le> n \<and> n \<le> 120)"
  unfolding duration_field_def
  by (auto simp: int_between_Some split: if_splits option.splits)

lemma validate_task_ok:
  assumes "validate_task roles projects allow_test require_enabled index keys v = Inr t"
  shows "task_ok roles projects allow_test require_enabled t \<and> ts_key t \<notin> set keys"
proof -
  from assms obtain raw key kd deps instruction acceptance attempts priority where
      k: "task_key_ok key" "key \<notin> set keys"
    and c: "common_fields allow_test raw key = Inr (kd, deps, instruction, acceptance, attempts, priority)"
    and rest: "rbind
                 (if kd = PIPELINE
                  then rbind (pipeline_fields roles projects require_enabled raw key instruction acceptance)
                         (\<lambda>(project, role, marker). Inr (Some project, Some role, Some marker))
                  else rbind (affinity_field projects allow_test require_enabled raw key)
                         (\<lambda>project. Inr (project, None, None)))
                 (\<lambda>(project, role, marker).
               rbind (duration_field raw key kd) (\<lambda>duration.
               Inr \<lparr>ts_key = key, ts_kind = kd, ts_project = project, ts_role = role,
                    ts_instruction = py_strip instruction, ts_acceptance = acceptance,
                    ts_marker = marker, ts_deps = deps, ts_priority = priority,
                    ts_max_attempts = attempts, ts_duration = duration\<rparr>)) = Inr t"
    unfolding validate_task_def
    by (auto split: json.split_asm if_split_asm)
  note C = common_fields_ok [OF c]
  have L: "length (py_strip instruction) \<le> 32768"
    using C py_strip_length [of instruction] by linarith
  show ?thesis
  proof (cases "kd = PIPELINE")
    case True
    with rest obtain project role marker duration where
        p: "pipeline_fields roles projects require_enabled raw key instruction acceptance
              = Inr (project, role, marker)"
      and d: "duration_field raw key kd = Inr duration"
      and t: "t = \<lparr>ts_key = key, ts_kind = kd, ts_project = Some project, ts_role = Some role,
                    ts_instruction = py_strip instruction, ts_acceptance = acceptance,
                    ts_marker = Some marker, ts_deps = deps, ts_priority = priority,
                    ts_max_attempts = attempts, ts_duration = duration\<rparr>"
      by (auto simp: rbind_Inr_iff split: prod.splits)
    from pipeline_fields_ok [OF p] duration_field_ok [OF d] C L k True show ?thesis
      by (auto simp: t task_ok_def pipeline_ok_def split: option.splits)
  next
    case False
    with rest obtain project duration where
        p: "affinity_field projects allow_test require_enabled raw key = Inr project"
      and d: "duration_field raw key kd = Inr duration"
      and t: "t = \<lparr>ts_key = key, ts_kind = kd, ts_project = project, ts_role = None,
                    ts_instruction = py_strip instruction, ts_acceptance = acceptance,
                    ts_marker = None, ts_deps = deps, ts_priority = priority,
                    ts_max_attempts = attempts, ts_duration = duration\<rparr>"
      by (auto simp: rbind_Inr_iff split: prod.splits)
    have "allow_test \<and> (\<exists>pr \<in> set projects. q = pr_id pr \<and> (require_enabled \<longrightarrow> pr_enabled pr))"
      if "project = Some q" for q
      using affinity_field_ok p that by blast
    with duration_field_ok [OF d] C L k False show ?thesis
      by (cases project) (auto simp: t task_ok_def split: option.splits)
  qed
qed

lemma validate_tasks_ok:
  "validate_tasks roles projects allow_test require_enabled index keys vs = Inr ts \<Longrightarrow>
     length ts = length vs \<and> (\<forall>t \<in> set ts. task_ok roles projects allow_test require_enabled t) \<and>
     distinct (map ts_key ts) \<and> set (map ts_key ts) \<inter> set keys = {}"
proof (induction vs arbitrary: index keys ts)
  case (Cons v vs)
  then obtain t ts' where t: "validate_task roles projects allow_test require_enabled index keys v = Inr t"
    and ts': "validate_tasks roles projects allow_test require_enabled (Suc index) (ts_key t # keys) vs = Inr ts'"
    and ts: "ts = t # ts'"
    by (auto simp: rbind_Inr_iff)
  from validate_task_ok [OF t] Cons.IH [OF ts'] show ?case
    by (auto simp: ts)
qed simp


section \<open>The order of the tasks\<close>

definition task_edges :: "task_spec list \<Rightarrow> (string \<times> string) set" where
  "task_edges ts = {(p, ts_key t) | p t. t \<in> set ts \<and> p \<in> set (ts_deps t)}"

definition dependencies_known :: "task_spec list \<Rightarrow> bool" where
  "dependencies_known ts \<longleftrightarrow> (\<forall>t \<in> set ts. set (ts_deps t) \<subseteq> set (map ts_key ts))"

text \<open>Two pipeline tasks of one project never run side by side: a dependency path orders them.\<close>

definition writers_ordered :: "task_spec list \<Rightarrow> bool" where
  "writers_ordered ts \<longleftrightarrow>
     (\<forall>t \<in> set ts. \<forall>u \<in> set ts.
        ts_kind t = PIPELINE \<and> ts_kind u = PIPELINE \<and> ts_project t = ts_project u \<and> ts_key t \<noteq> ts_key u \<longrightarrow>
        (ts_key t, ts_key u) \<in> (task_edges ts)\<^sup>+ \<or> (ts_key u, ts_key t) \<in> (task_edges ts)\<^sup>+)"

text \<open>Every task comes after the tasks it depends on.\<close>

definition dependencies_first :: "task_spec list \<Rightarrow> bool" where
  "dependencies_first ts \<longleftrightarrow>
     (\<forall>i < length ts. set (ts_deps (ts ! i)) \<subseteq> set (map ts_key (take i ts)))"

lemma task_by_key_Some:
  "distinct (map ts_key ts) \<Longrightarrow> task_by_key ts k = Some t \<longleftrightarrow> t \<in> set ts \<and> ts_key t = k"
  unfolding task_by_key_def
  by (subst map_of_eq_Some_iff) (auto simp: o_def)

lemma task_by_key_None: "task_by_key ts k = None \<longleftrightarrow> k \<notin> set (map ts_key ts)"
  by (simp add: task_by_key_def map_of_eq_None_iff image_image)

lemma task_by_key_self:
  "distinct (map ts_key ts) \<Longrightarrow> t \<in> set ts \<Longrightarrow> task_by_key ts (ts_key t) = Some t"
  by (simp add: task_by_key_Some)

lemma node_keys_task_nodes: "distinct (map ts_key ts) \<Longrightarrow> node_keys (task_nodes ts) = map ts_key ts"
  by (simp add: node_keys_def task_nodes_def o_def distinct_remdups_id)

lemma node_deps_task_nodes:
  assumes "distinct (map ts_key ts)"
  shows "node_deps (task_nodes ts) k =
           (case task_by_key ts k of None \<Rightarrow> [] | Some t \<Rightarrow> remdups (ts_deps t))"
proof -
  have "map_of (rev (task_nodes ts)) = map_of (task_nodes ts)"
    using assms by (intro map_of_rev_distinct) (simp add: task_nodes_def o_def)
  moreover have "map_of (task_nodes ts) k = map_option ts_deps (task_by_key ts k)"
    by (induction ts) (auto simp: task_nodes_def task_by_key_def)
  ultimately show ?thesis
    by (simp add: node_deps_def split: option.split)
qed

lemma node_deps_self:
  "distinct (map ts_key ts) \<Longrightarrow> t \<in> set ts \<Longrightarrow>
     node_deps (task_nodes ts) (ts_key t) = remdups (ts_deps t)"
  by (simp add: node_deps_task_nodes task_by_key_self)

lemma dep_edges_task_nodes:
  assumes "distinct (map ts_key ts)"
  shows "dep_edges (task_nodes ts) = task_edges ts"
proof -
  have "dep_edges (task_nodes ts) = (\<Union>t \<in> set ts. {(p, ts_key t) | p. p \<in> set (ts_deps t)})"
    using assms by (auto simp: dep_edges_def node_keys_task_nodes node_deps_self)
  also have "\<dots> = task_edges ts"
    by (auto simp: task_edges_def)
  finally show ?thesis .
qed

lemma closed_graph_task_nodes:
  "distinct (map ts_key ts) \<Longrightarrow> closed_graph (task_nodes ts) \<longleftrightarrow> dependencies_known ts"
  by (simp add: closed_graph_def dependencies_known_def node_keys_task_nodes node_deps_self)

lemma unknown_dependency_None: "unknown_dependency ts = None \<longleftrightarrow> dependencies_known ts"
  by (auto simp: unknown_dependency_def dependencies_known_def find_None_iff)

lemma add_parents_other: "k' \<noteq> k \<Longrightarrow> add_parents anc k ps k' = anc k'"
  by (induction anc k ps rule: add_parents.induct) auto

lemma add_parents_set:
  "k \<notin> set ps \<Longrightarrow> set (add_parents anc k ps k) = set (anc k) \<union> (\<Union>p \<in> set ps. insert p (set (anc p)))"
proof (induction anc k ps rule: add_parents.induct)
  case (2 anc k p ps)
  define anc' where "anc' = anc(k := List.union (List.insert p (anc k)) (anc p))"
  have "set (add_parents anc' k ps k) = set (anc' k) \<union> (\<Union>q \<in> set ps. insert q (set (anc' q)))"
    unfolding anc'_def using "2.prems" by (intro "2.IH") simp
  moreover have "anc' q = anc q" if "q \<in> set ps" for q
    using "2.prems" that by (auto simp: anc'_def)
  moreover have "set (anc' k) = insert p (set (anc k) \<union> set (anc p))"
    by (simp add: anc'_def)
  moreover have "add_parents anc k (p # ps) = add_parents anc' k ps"
    by (simp add: anc'_def)
  ultimately show ?case by auto
qed simp

lemma collect_ancestors_append:
  "collect_ancestors D (ks @ [k]) anc =
     add_parents (collect_ancestors D ks anc) k (D k)"
  by (induction D ks anc rule: collect_ancestors.induct) simp_all

lemma trancl_by_parents:
  assumes E: "E = {(p, k). k \<in> K \<and> p \<in> set (D k)}" and k: "k \<in> K"
  shows "{p. (p, k) \<in> E\<^sup>+} = (\<Union>q \<in> set (D k). insert q {p. (p, q) \<in> E\<^sup>+})"
proof (rule set_eqI)
  fix p
  have "(p, k) \<in> E\<^sup>+ \<longleftrightarrow> (\<exists>q. (p, q) \<in> E\<^sup>* \<and> (q, k) \<in> E)"
    by (auto dest: tranclD2 intro: rtrancl_into_trancl1)
  also have "\<dots> \<longleftrightarrow> (\<exists>q \<in> set (D k). p = q \<or> (p, q) \<in> E\<^sup>+)"
    using k by (auto simp: E rtrancl_eq_or_trancl)
  finally show "p \<in> {p. (p, k) \<in> E\<^sup>+} \<longleftrightarrow> p \<in> (\<Union>q \<in> set (D k). insert q {p. (p, q) \<in> E\<^sup>+})"
    by auto
qed

lemma collect_ancestors_trancl:
  assumes before: "\<forall>i < length order. set (D (order ! i)) \<subseteq> set (take i order)"
    and dist: "distinct order" and E: "E = {(p, k). k \<in> set order \<and> p \<in> set (D k)}"
    and k: "k \<in> set order"
  shows "set (collect_ancestors D order (\<lambda>_. []) k) = {p. (p, k) \<in> E\<^sup>+}"
proof -
  have "set (collect_ancestors D (take n order) (\<lambda>_. []) k)
          = (if k \<in> set (take n order) then {p. (p, k) \<in> E\<^sup>+} else {})"
    if "n \<le> length order" for n k
    using that
  proof (induction n arbitrary: k)
    case (Suc n)
    then have n: "n < length order" by simp
    let ?new = "order ! n"
    let ?anc = "collect_ancestors D (take n order) (\<lambda>_. [])"
    have split: "take (Suc n) order = take n order @ [?new]"
      using n by (rule take_Suc_conv_app_nth)
    have "distinct (take n order @ [?new])"
      unfolding split [symmetric] using dist by (rule distinct_take)
    then have fresh: "?new \<notin> set (take n order)" by simp
    have parents: "set (D ?new) \<subseteq> set (take n order)"
      using before n by blast
    have known: "set (?anc q) = {p. (p, q) \<in> E\<^sup>+}" if "q \<in> set (D ?new)" for q
      using Suc.IH [of q] n that parents by auto
    have "set (?anc ?new) = {}"
      using Suc.IH [of ?new] n fresh by simp
    then have "set (add_parents ?anc ?new (D ?new) ?new) = (\<Union>q \<in> set (D ?new). insert q (set (?anc q)))"
      using fresh parents by (subst add_parents_set) auto
    also have "\<dots> = {p. (p, ?new) \<in> E\<^sup>+}"
      using trancl_by_parents [OF E, of ?new] n known by simp
    finally have new: "set (add_parents ?anc ?new (D ?new) ?new) = {p. (p, ?new) \<in> E\<^sup>+}" .
    show ?case
      using Suc.IH [of k] n fresh new
      by (cases "k = ?new") (simp_all add: split collect_ancestors_append add_parents_other)
  qed simp
  from this [of "length order" k] k show ?thesis by simp
qed


definition spec_deps :: "task_spec list \<Rightarrow> string \<Rightarrow> string list" where
  "spec_deps ts k = (case task_by_key ts k of None \<Rightarrow> [] | Some t \<Rightarrow> ts_deps t)"

lemma set_node_deps_spec_deps:
  "distinct (map ts_key ts) \<Longrightarrow> set (node_deps (task_nodes ts) k) = set (spec_deps ts k)"
  by (simp add: node_deps_task_nodes spec_deps_def split: option.split)

lemma topologically_sorted_task_nodes:
  assumes dist: "distinct (map ts_key ts)" and "topologically_sorted (task_nodes ts) order"
  shows "distinct order" "set order = set (map ts_key ts)"
    "\<forall>i < length order. set (spec_deps ts (order ! i)) \<subseteq> set (take i order)"
  using assms(2) unfolding topologically_sorted_def set_node_deps_spec_deps [OF dist]
  by (simp_all add: task_nodes_def o_def)

lemma ancestors_of_order:
  assumes dist: "distinct (map ts_key ts)" and top: "topologically_sorted (task_nodes ts) order"
    and t: "t \<in> set ts"
  shows "set (collect_ancestors (spec_deps ts) order (\<lambda>_. []) (ts_key t))
           = {p. (p, ts_key t) \<in> (task_edges ts)\<^sup>+}"
proof -
  note T = topologically_sorted_task_nodes [OF dist top]
  have "task_edges ts = dep_edges (task_nodes ts)"
    using dist by (simp add: dep_edges_task_nodes)
  also have "\<dots> = {(p, k). k \<in> set order \<and> p \<in> set (spec_deps ts k)}"
    using dist T(2) by (auto simp: dep_edges_def node_keys_task_nodes set_node_deps_spec_deps)
  finally show ?thesis
    using T t by (intro collect_ancestors_trancl) auto
qed

lemma unordered_pair_None:
  assumes anc: "\<And>t. t \<in> set ts \<Longrightarrow> set (anc (ts_key t)) = {p. (p, ts_key t) \<in> (task_edges ts)\<^sup>+}"
    and dist: "distinct (map ts_key ts)"
  shows "unordered_pair anc ts = None \<longleftrightarrow> writers_ordered ts"
proof -
  let ?ord = "\<lambda>t u. (ts_key t, ts_key u) \<in> (task_edges ts)\<^sup>+ \<or> (ts_key u, ts_key t) \<in> (task_edges ts)\<^sup>+"
  have members: "k \<in> set (project_pipelines ts p) \<longleftrightarrow>
      (\<exists>t \<in> set ts. ts_kind t = PIPELINE \<and> ts_project t = p \<and> ts_key t = k)" for k p
    by (auto simp: project_pipelines_def)
  have pd: "distinct (project_pipelines ts p)" for p
  proof -
    have "project_pipelines ts p = map ts_key [t \<leftarrow> ts. ts_kind t = PIPELINE \<and> ts_project t = p]"
      by (induction ts) (auto simp: project_pipelines_def)
    with dist show ?thesis by (simp add: distinct_map_filter)
  qed
  have ne: "x \<noteq> y" if "distinct xs" "(x, y) \<in> set (pairs_of xs)" for x y and xs :: "string list"
    using that by (induction xs) (auto dest: pairs_of_sub)
  have "unordered_pair anc ts = None \<longleftrightarrow>
      (\<forall>p. \<forall>l r. (l, r) \<in> set (pairs_of (project_pipelines ts p)) \<longrightarrow> l \<in> set (anc r) \<or> r \<in> set (anc l))"
  proof -
    have "(l, r) \<in> set (pairs_of (project_pipelines ts p)) \<Longrightarrow>
        p \<in> set [ts_project t. t \<leftarrow> ts, ts_kind t = PIPELINE]" for l r p
      using members by (auto dest!: pairs_of_sub)
    then show ?thesis
      unfolding unordered_pair_def find_None_iff by fastforce
  qed
  also have "\<dots> \<longleftrightarrow> writers_ordered ts"
  proof
    assume L: "\<forall>p. \<forall>l r. (l, r) \<in> set (pairs_of (project_pipelines ts p)) \<longrightarrow> l \<in> set (anc r) \<or> r \<in> set (anc l)"
    show "writers_ordered ts"
      unfolding writers_ordered_def
    proof (intro ballI impI)
      fix t u
      assume tu: "t \<in> set ts" "u \<in> set ts"
        "ts_kind t = PIPELINE \<and> ts_kind u = PIPELINE \<and> ts_project t = ts_project u \<and> ts_key t \<noteq> ts_key u"
      then have "(ts_key t, ts_key u) \<in> set (pairs_of (project_pipelines ts (ts_project t))) \<or>
          (ts_key u, ts_key t) \<in> set (pairs_of (project_pipelines ts (ts_project t)))"
        by (intro pairs_of_cover) (auto simp: members)
      with L have "ts_key t \<in> set (anc (ts_key u)) \<or> ts_key u \<in> set (anc (ts_key t))"
        by metis
      with anc [OF tu(1)] anc [OF tu(2)] show "?ord t u" by auto
    qed
  next
    assume W: "writers_ordered ts"
    show "\<forall>p. \<forall>l r. (l, r) \<in> set (pairs_of (project_pipelines ts p)) \<longrightarrow> l \<in> set (anc r) \<or> r \<in> set (anc l)"
    proof (intro allI impI)
      fix p l r
      assume lr: "(l, r) \<in> set (pairs_of (project_pipelines ts p))"
      then obtain t u where tu: "t \<in> set ts" "u \<in> set ts" "ts_kind t = PIPELINE" "ts_kind u = PIPELINE"
        "ts_project t = p" "ts_project u = p" "ts_key t = l" "ts_key u = r"
        using members by (blast dest: pairs_of_sub)
      moreover have "l \<noteq> r" using ne [OF pd lr] .
      ultimately have "?ord t u"
        by (intro W [unfolded writers_ordered_def, rule_format]) simp_all
      with tu anc [OF tu(1)] anc [OF tu(2)] show "l \<in> set (anc r) \<or> r \<in> set (anc l)" by auto
    qed
  qed
  finally show ?thesis .
qed

lemma order_tasks_cases:
  assumes dist: "distinct (map ts_key ts)"
  shows "order_tasks ts =
     (case unknown_dependency ts of
        Some k \<Rightarrow> Inl (UnknownDependencies k)
      | None \<Rightarrow>
          (case topological_order (task_nodes ts) of
             Inl e \<Rightarrow> Inl (Graph e)
           | Inr order \<Rightarrow>
               (case unordered_pair (collect_ancestors (spec_deps ts) order (\<lambda>_. [])) ts of
                  Some (p, left, right) \<Rightarrow>
                    Inl (Unordered (case p of None \<Rightarrow> [] | Some s \<Rightarrow> s) left right)
                | None \<Rightarrow> Inr (map (\<lambda>k. the (task_by_key ts k)) order))))"
  unfolding order_tasks_def spec_deps_def Let_def by (rule refl)

lemma order_tasks_ok:
  assumes dist: "distinct (map ts_key ts)" and ok: "order_tasks ts = Inr ordered"
  shows "set ordered = set ts" "distinct (map ts_key ordered)" "dependencies_first ordered"
    "writers_ordered ts" "acyclic (task_edges ts)" "dependencies_known ts"
    "topological_order (task_nodes ts) = Inr (map ts_key ordered)"
proof -
  from ok obtain order where u: "unknown_dependency ts = None"
    and t: "topological_order (task_nodes ts) = Inr order"
    and w: "unordered_pair (collect_ancestors (spec_deps ts) order (\<lambda>_. [])) ts = None"
    and o: "ordered = map (\<lambda>k. the (task_by_key ts k)) order"
    unfolding order_tasks_cases [OF dist] by (auto split: option.split_asm sum.split_asm)
  have top: "topologically_sorted (task_nodes ts) order"
    using t by (rule topological_order_sound)
  note T = topologically_sorted_task_nodes [OF dist top]
  have the: "\<exists>u \<in> set ts. task_by_key ts k = Some u \<and> ts_key u = k" if "k \<in> set order" for k
    using that T(2) dist by (auto simp: task_by_key_self)
  then have keys: "map ts_key ordered = order"
    unfolding o by (auto intro!: map_idI) (metis option.sel)
  show "distinct (map ts_key ordered)" using keys T(1) by simp
  show same: "set ordered = set ts"
  proof
    show "set ordered \<subseteq> set ts" unfolding o using the by fastforce
    show "set ts \<subseteq> set ordered"
    proof
      fix u assume u: "u \<in> set ts"
      then have "ts_key u \<in> set order" using T(2) by simp
      with task_by_key_self [OF dist u] show "u \<in> set ordered"
        unfolding o by (auto intro!: rev_image_eqI)
    qed
  qed
  show "dependencies_first ordered"
    unfolding dependencies_first_def
  proof (intro allI impI)
    fix i assume i: "i < length ordered"
    then have "ordered ! i \<in> set ts" using same by (metis nth_mem)
    then have "spec_deps ts (order ! i) = ts_deps (ordered ! i)"
      using i keys by (auto simp: spec_deps_def task_by_key_self [OF dist])
    with T(3) i keys show "set (ts_deps (ordered ! i)) \<subseteq> set (map ts_key (take i ordered))"
      by (metis length_map take_map)
  qed
  show "writers_ordered ts"
    using w unordered_pair_None [OF ancestors_of_order [OF dist top] dist] by blast
  show "acyclic (task_edges ts)"
    using topologically_sorted_acyclic [OF top] dist by (simp add: dep_edges_task_nodes)
  show "dependencies_known ts" using u by (simp add: unknown_dependency_None)
  show "topological_order (task_nodes ts) = Inr (map ts_key ordered)" using t keys by simp
qed

lemma order_tasks_complete:
  assumes dist: "distinct (map ts_key ts)" and known: "dependencies_known ts"
    and ac: "acyclic (task_edges ts)" and w: "writers_ordered ts"
  shows "\<exists>ordered. order_tasks ts = Inr ordered"
proof -
  have "\<exists>order. topological_order (task_nodes ts) = Inr order"
    using topological_order_iff_acyclic [of "task_nodes ts"] dist known ac
    by (simp add: closed_graph_task_nodes dep_edges_task_nodes)
  then obtain order where t: "topological_order (task_nodes ts) = Inr order" by blast
  have top: "topologically_sorted (task_nodes ts) order"
    using t by (rule topological_order_sound)
  have "unordered_pair (collect_ancestors (spec_deps ts) order (\<lambda>_. [])) ts = None"
    using w unordered_pair_None [OF ancestors_of_order [OF dist top] dist] by blast
  with t known show ?thesis
    by (simp add: order_tasks_cases [OF dist] unknown_dependency_None [symmetric])
qed


section \<open>Validating a normalised plan again\<close>

lemma strings_or_empty_map [simp]: "strings_or_empty (JArr (map JStr ss)) = Some ss"
  by (cases ss) (simp_all add: strings_or_empty_def json_str_list_Some)

lemma kind_of_text [simp]: "kind_of (JStr (kind_text k)) = Inr k"
  by (cases k) (simp_all add: kind_of_def)

lemma task_members_get [simp]:
  "jget (task_members t) ''key'' = JStr (ts_key t)"
  "jget_default (task_members t) ''kind'' d = JStr (kind_text (ts_kind t))"
  "jget (task_members t) ''project_id'' = json_of_option JStr (ts_project t)"
  "jget (task_members t) ''role_id'' = json_of_option JStr (ts_role t)"
  "jget_default (task_members t) ''instruction'' d = JStr (ts_instruction t)"
  "jget (task_members t) ''acceptance_criteria'' = JArr (map JStr (ts_acceptance t))"
  "jget (task_members t) ''marker'' = json_of_option JStr (ts_marker t)"
  "jget (task_members t) ''dependencies'' = JArr (map JStr (ts_deps t))"
  "jget_default (task_members t) ''priority'' d = JInt (ts_priority t)"
  "jget_default (task_members t) ''max_attempts'' d = JInt (ts_max_attempts t)"
  "jget_default (task_members t) ''duration_seconds'' d = json_of_option JInt (ts_duration t)"
  by (auto simp: task_members_def jget_def jget_default_def)

text \<open>What makes a task pass again: its project and role are found as before.\<close>

definition task_found :: "role_row list \<Rightarrow> project_row list \<Rightarrow> bool \<Rightarrow> task_spec \<Rightarrow> bool" where
  "task_found roles projects require_enabled t \<longleftrightarrow>
     (\<forall>p. ts_project t = Some p \<longrightarrow>
        (\<exists>pr. project_lookup projects (JStr p) = Inr (Some pr) \<and> pr_id pr = p \<and>
           (require_enabled \<longrightarrow> pr_enabled pr))) \<and>
     (\<forall>r. ts_role t = Some r \<longrightarrow>
        (\<exists>rl. role_lookup roles (JStr r) = Inr (Some rl) \<and> rl_id rl = r \<and>
           rl_kind rl = ''worker'' \<and> rl_may_commit rl \<and> \<not> rl_may_push rl)) \<and>
     (\<forall>m. ts_marker t = Some m \<longrightarrow> CHR 0x0A \<notin> set m)"

lemma py_strip_newline: "CHR 0x0A \<notin> set m \<Longrightarrow> CHR 0x0A \<notin> set (py_strip m)"
proof -
  have "set (rstrip (lstrip m)) \<subseteq> set (lstrip m)"
    using rstrip_prefix by (rule set_mono_prefix)
  moreover have "set (lstrip m) \<subseteq> set m"
    unfolding lstrip_def using strip_with_suffix by (rule set_mono_suffix)
  ultimately show "CHR 0x0A \<notin> set m \<Longrightarrow> ?thesis"
    by (auto simp: py_strip_def)
qed

lemma pipeline_fields_found:
  assumes "pipeline_fields roles projects require_enabled raw key instruction acceptance
             = Inr (project, role, marker)"
  shows "(\<exists>pr. project_lookup projects (JStr project) = Inr (Some pr) \<and> pr_id pr = project \<and>
           (require_enabled \<longrightarrow> pr_enabled pr)) \<and>
    (\<exists>rl. role_lookup roles (JStr role) = Inr (Some rl) \<and> rl_id rl = role \<and>
           rl_kind rl = ''worker'' \<and> rl_may_commit rl \<and> \<not> rl_may_push rl) \<and>
    CHR 0x0A \<notin> set marker"
proof -
  from assms obtain pr rl m where
      a: "project_lookup projects (jget raw ''project_id'') = Inr (Some pr)" "project = pr_id pr"
         "require_enabled \<longrightarrow> pr_enabled pr"
    and b: "role_lookup roles (jget raw ''role_id'') = Inr (Some rl)" "role = rl_id rl"
         "rl_kind rl = ''worker''" "rl_may_commit rl" "\<not> rl_may_push rl"
    and c: "marker = py_strip m" "CHR 0x0A \<notin> set m"
    unfolding pipeline_fields_def
    by (auto split: if_split_asm option.split_asm json.split_asm)
  with project_lookup_Some [OF a(1)] role_lookup_Some [OF b(1)] py_strip_newline [OF c(2)]
  show ?thesis by auto
qed

lemma affinity_field_found:
  "affinity_field projects allow_test require_enabled raw key = Inr (Some p) \<Longrightarrow>
     \<exists>pr. project_lookup projects (JStr p) = Inr (Some pr) \<and> pr_id pr = p \<and>
        (require_enabled \<longrightarrow> pr_enabled pr)"
  unfolding affinity_field_def
  by (auto split: if_split_asm option.split_asm) (metis project_lookup_Some)+

lemma validate_task_found:
  assumes "validate_task roles projects allow_test require_enabled index keys v = Inr t"
  shows "task_found roles projects require_enabled t"
  using assms unfolding validate_task_def
  by (auto split: json.split_asm if_split_asm simp: task_found_def
      dest: pipeline_fields_found affinity_field_found)

lemma validate_task_again:
  assumes ok: "task_ok roles projects allow_test require_enabled t"
    and found: "task_found roles projects require_enabled t"
    and fresh: "ts_key t \<notin> set keys"
  shows "validate_task roles projects allow_test require_enabled index keys (task_json t) = Inr t"
proof -
  have common: "common_fields allow_test (task_members t) (ts_key t)
      = Inr (ts_kind t, ts_deps t, ts_instruction t, ts_acceptance t, ts_max_attempts t, ts_priority t)"
    using ok by (simp add: common_fields_def task_ok_def int_between_def list_all_iff)
  have dur: "duration_field (task_members t) (ts_key t) (ts_kind t) = Inr (ts_duration t)"
    using ok by (auto simp: duration_field_def task_ok_def json_of_option_def int_between_def
        split: option.splits)
  have key: "task_key_ok (ts_key t)" and strip: "py_strip (ts_instruction t) = ts_instruction t"
    using ok by (simp_all add: task_ok_def)
  show ?thesis
  proof (cases "ts_kind t = PIPELINE")
    case True
    with ok have p: "pipeline_ok roles projects require_enabled t"
      by (simp add: task_ok_def)
    then obtain p r m where o: "ts_project t = Some p" "ts_role t = Some r" "ts_marker t = Some m"
      "m \<noteq> []" "py_strip m = m" "ts_instruction t \<noteq> []" "ts_acceptance t \<noteq> []"
      by (auto simp: pipeline_ok_def)
    with found have "pipeline_fields roles projects require_enabled (task_members t) (ts_key t)
        (ts_instruction t) (ts_acceptance t) = Inr (p, r, m)"
      by (auto simp: pipeline_fields_def json_of_option_def task_found_def strip)
    then show ?thesis
      using common dur key fresh strip True o by (simp add: validate_task_def task_json_def)
  next
    case False
    with ok have "ts_role t = None" "ts_marker t = None" "ts_project t \<noteq> None \<longrightarrow> allow_test"
      by (auto simp: task_ok_def)
    moreover have "affinity_field projects allow_test require_enabled (task_members t) (ts_key t) = Inr (ts_project t)"
      using found calculation
      by (cases "ts_project t") (auto simp: affinity_field_def json_of_option_def task_found_def)
    ultimately show ?thesis
      using common dur key fresh strip False by (simp add: validate_task_def task_json_def)
  qed
qed

lemma validate_tasks_again:
  "distinct (map ts_key ts) \<Longrightarrow> set (map ts_key ts) \<inter> set keys = {} \<Longrightarrow>
   \<forall>t \<in> set ts. task_ok roles projects allow_test require_enabled t \<and>
       task_found roles projects require_enabled t \<Longrightarrow>
     validate_tasks roles projects allow_test require_enabled index keys (map task_json ts) = Inr ts"
  by (induction ts arbitrary: index keys) (simp_all add: validate_task_again)

lemma validate_tasks_found:
  "validate_tasks roles projects allow_test require_enabled index keys vs = Inr ts \<Longrightarrow>
     \<forall>t \<in> set ts. task_found roles projects require_enabled t"
proof (induction vs arbitrary: index keys ts)
  case (Cons v vs)
  then show ?case by (fastforce dest: validate_task_found)
qed simp

lemma order_tasks_again:
  assumes dist: "distinct (map ts_key ts)" and ok: "order_tasks ts = Inr ordered"
  shows "order_tasks ordered = Inr ordered"
proof -
  note O = order_tasks_ok [OF dist ok]
  have by_key: "task_by_key ordered = task_by_key ts"
  proof
    fix k
    show "task_by_key ordered k = task_by_key ts k"
      using task_by_key_Some [OF O(2)] task_by_key_Some [OF dist] O(1)
      by (cases "task_by_key ts k") (metis option.exhaust)+
  qed
  have nodes: "node_deps (task_nodes ordered) = node_deps (task_nodes ts)"
    using dist O(2) by (simp add: fun_eq_iff node_deps_task_nodes by_key)
  have "set (map ts_key ordered) = set (map ts_key ts)" using O(1) by simp
  then have "topological_order (task_nodes ordered) = topological_order (task_nodes ts)"
    using dist O nodes
    by (intro topological_order_cong)
      (simp_all add: node_keys_task_nodes closed_graph_task_nodes dependencies_known_def)
  with O(7) have t: "topological_order (task_nodes ordered) = Inr (map ts_key ordered)" by simp
  have "writers_ordered ordered" "dependencies_known ordered"
    using O(1,4,6) by (simp_all add: writers_ordered_def dependencies_known_def task_edges_def)
  moreover have "topologically_sorted (task_nodes ordered) (map ts_key ordered)"
    using t by (rule topological_order_sound)
  ultimately have "unknown_dependency ordered = None"
    "unordered_pair (collect_ancestors (spec_deps ordered) (map ts_key ordered) (\<lambda>_. [])) ordered = None"
    using unordered_pair_None [OF ancestors_of_order [OF O(2)] O(2)]
    by (simp_all add: unknown_dependency_None)
  moreover have "map (\<lambda>k. the (task_by_key ordered k)) (map ts_key ordered) = ordered"
    using O(2) by (auto simp: task_by_key_self intro!: map_idI)
  ultimately show ?thesis
    by (simp only: order_tasks_cases [OF O(2)] t option.case sum.case)
qed

section \<open>A sample plan\<close>

text \<open>Two pipeline tasks of one project, written in the wrong order, for the witnesses below.\<close>

definition sample_roles :: "role_row list" where
  "sample_roles = [\<lparr>rl_id = ''worker_code'', rl_profile = ''ops-worker-code'', rl_kind = ''worker'',
     rl_workspace_mode = ''write'', rl_may_commit = True, rl_may_push = False, rl_network = False,
     rl_enabled = True\<rparr>]"

definition sample_projects :: "project_row list" where
  "sample_projects = [\<lparr>pr_id = ''demo'', pr_enabled = True\<rparr>]"

definition sample_task :: "string \<Rightarrow> string list \<Rightarrow> json" where
  "sample_task k deps = JObj
     [(''key'', JStr k), (''project_id'', JStr ''demo''), (''role_id'', JStr ''worker_code''),
      (''instruction'', JStr '' write it ''), (''acceptance_criteria'', JArr [JStr ''works'']),
      (''marker'', JStr ''DONE''), (''dependencies'', JArr (map JStr deps))]"

definition sample_plan :: "(string \<times> json) list" where
  "sample_plan =
     [(''schema_version'', JInt 1), (''objective'', JStr ''Ship it''),
      (''tasks'', JArr [sample_task ''tests'' [''code''], sample_task ''code'' []])]"

definition sample_spec :: "string \<Rightarrow> string list \<Rightarrow> task_spec" where
  "sample_spec k deps =
     \<lparr>ts_key = k, ts_kind = PIPELINE, ts_project = Some ''demo'', ts_role = Some ''worker_code'',
      ts_instruction = ''write it'', ts_acceptance = [''works''], ts_marker = Some ''DONE'',
      ts_deps = deps, ts_priority = 100, ts_max_attempts = 1, ts_duration = None\<rparr>"

definition sample_result :: plan_spec where
  "sample_result = \<lparr>ps_objective = ''Ship it'', ps_max_parallel = 1,
     ps_tasks = [sample_spec ''code'' [], sample_spec ''tests'' [''code'']]\<rparr>"

lemma sample_plan_valid:
  "validate_plan sample_roles sample_projects False True sample_plan = Inr sample_result"
  by code_simp

section \<open>Correctness of the validator\<close>

lemma validate_plan_parts:
  assumes "validate_plan roles projects allow_test require_enabled plan = Inr p"
  obtains objective tasks ts where
    "py_strip objective \<noteq> []" "length objective \<le> 16384" "ps_objective p = py_strip objective"
    "1 \<le> ps_max_parallel p" "ps_max_parallel p \<le> 16"
    "0 < length tasks" "length tasks \<le> 32"
    "validate_tasks roles projects allow_test require_enabled 0 [] tasks = Inr ts"
    "order_tasks ts = Inr (ps_tasks p)"
  using assms unfolding validate_plan_def
  by (auto split: if_split_asm json.split_asm option.split_asm simp: int_between_Some)

lemma validate_plan_facts:
  assumes "validate_plan roles projects allow_test require_enabled plan = Inr p"
  shows "ps_objective p \<noteq> [] \<and> py_strip (ps_objective p) = ps_objective p \<and>
    length (ps_objective p) \<le> 16384 \<and> 1 \<le> ps_max_parallel p \<and> ps_max_parallel p \<le> 16 \<and>
    1 \<le> length (ps_tasks p) \<and> length (ps_tasks p) \<le> 32 \<and>
    (\<forall>t \<in> set (ps_tasks p). task_ok roles projects allow_test require_enabled t) \<and>
    distinct (map ts_key (ps_tasks p)) \<and> dependencies_first (ps_tasks p) \<and>
    writers_ordered (ps_tasks p)"
proof -
  obtain objective tasks ts where v: "py_strip objective \<noteq> []" "length objective \<le> 16384"
    "ps_objective p = py_strip objective" "1 \<le> ps_max_parallel p" "ps_max_parallel p \<le> 16"
    "0 < length tasks" "length tasks \<le> 32"
    and ts: "validate_tasks roles projects allow_test require_enabled 0 [] tasks = Inr ts"
    and o: "order_tasks ts = Inr (ps_tasks p)"
    using assms by (rule validate_plan_parts)
  note T = validate_tasks_ok [OF ts]
  have dist: "distinct (map ts_key ts)" using T by blast
  note O = order_tasks_ok [OF dist o]
  have "length (ps_tasks p) = length ts"
    using O(1,2) dist by (metis distinct_card distinct_map)
  moreover have "writers_ordered (ps_tasks p)"
    using O(1,4) by (simp add: writers_ordered_def task_edges_def)
  moreover have "length (ps_objective p) \<le> 16384"
    using v(2,3) py_strip_length [of objective] by simp
  ultimately show ?thesis
    using v T O(1,2,3) by (cases tasks) auto
qed

text \<open>
  C3: a plan the validator accepts satisfies the plan contract: bounded size and parallelism, every
  task well formed with an enabled project and a committing, non-pushing worker role, keys unique,
  every task after the tasks it depends on, and two pipeline tasks of one project always ordered by
  a dependency path.
\<close>

theorem validate_plan_sound:
  assumes "validate_plan roles projects allow_test require_enabled plan = Inr p"
  shows "ps_objective p \<noteq> [] \<and> py_strip (ps_objective p) = ps_objective p \<and>
    length (ps_objective p) \<le> 16384 \<and> 1 \<le> ps_max_parallel p \<and> ps_max_parallel p \<le> 16 \<and>
    1 \<le> length (ps_tasks p) \<and> length (ps_tasks p) \<le> 32 \<and>
    (\<forall>t \<in> set (ps_tasks p). task_ok roles projects allow_test require_enabled t) \<and>
    distinct (map ts_key (ps_tasks p)) \<and> dependencies_first (ps_tasks p) \<and>
    writers_ordered (ps_tasks p)"
  using assms by (rule validate_plan_facts)

theorem validate_plan_sound_witness:
  "validate_plan sample_roles sample_projects False True sample_plan = Inr sample_result \<and>
   dependencies_first (ps_tasks sample_result) \<and> writers_ordered (ps_tasks sample_result)"
  using sample_plan_valid validate_plan_sound [OF sample_plan_valid] by blast

text \<open>
  C21: the ordering phase accepts exactly the plans it should: unique keys given, it returns an
  order if and only if every dependency names a task, the graph has no cycle and the pipeline
  tasks of each project are ordered by dependency paths.
\<close>

theorem order_tasks_accepts_iff:
  assumes "distinct (map ts_key ts)"
  shows "(\<exists>ordered. order_tasks ts = Inr ordered) \<longleftrightarrow>
    dependencies_known ts \<and> acyclic (task_edges ts) \<and> writers_ordered ts"
  using order_tasks_ok [OF assms] order_tasks_complete [OF assms] by blast

theorem order_tasks_accepts_iff_witness:
  "writers_ordered [sample_spec ''tests'' [''code''], sample_spec ''code'' []] \<and>
   \<not> writers_ordered [sample_spec ''tests'' [], sample_spec ''code'' []]"
proof -
  have d: "distinct (map ts_key [sample_spec ''tests'' [''code''], sample_spec ''code'' []])"
    "distinct (map ts_key [sample_spec ''tests'' [], sample_spec ''code'' []])"
    by code_simp+
  have ok: "order_tasks [sample_spec ''tests'' [''code''], sample_spec ''code'' []]
      = Inr [sample_spec ''code'' [], sample_spec ''tests'' [''code'']]"
    by code_simp
  have bad: "order_tasks [sample_spec ''tests'' [], sample_spec ''code'' []]
      = Inl (Unordered ''demo'' ''tests'' ''code'')"
    by code_simp
  have none: "task_edges [sample_spec ''tests'' [], sample_spec ''code'' []] = {}"
    by (auto simp: task_edges_def sample_spec_def)
  have "dependencies_known [sample_spec ''tests'' [], sample_spec ''code'' []]"
    by (simp add: dependencies_known_def sample_spec_def)
  then show ?thesis
    using ok bad order_tasks_accepts_iff [OF d(1)] order_tasks_accepts_iff [OF d(2), unfolded none]
    by (simp add: acyclic_def)
qed

text \<open>
  C26: the topological sort is correct and complete: for a graph whose dependencies are all keys it
  returns a list exactly when the graph is acyclic, a returned list holds every key once with its
  dependencies before it, and an unknown dependency is the only source of a KeyError.
\<close>

theorem topological_order_correct:
  "(closed_graph tasks \<longrightarrow>
      ((\<exists>order. topological_order tasks = Inr order) \<longleftrightarrow> acyclic (dep_edges tasks))) \<and>
   (\<forall>order. topological_order tasks = Inr order \<longrightarrow> topologically_sorted tasks order) \<and>
   ((\<exists>k. topological_order tasks = Inl (KeyError k)) \<longleftrightarrow> \<not> closed_graph tasks)"
proof -
  have "(\<exists>k. topological_order tasks = Inl (KeyError k)) \<longleftrightarrow> \<not> closed_graph tasks"
    by (auto simp: topological_order_alt missing_parent_None [symmetric] split: option.splits)
  then show ?thesis
    using topological_order_iff_acyclic topological_order_sound by blast
qed

theorem topological_order_correct_witness:
  "closed_graph [(''b'', [''a'']), (''a'', [])] \<and>
   topological_order [(''b'', [''a'']), (''a'', [])] = Inr [''a'', ''b''] \<and>
   acyclic (dep_edges [(''b'', [''a'']), (''a'', [])]) \<and>
   topologically_sorted [(''b'', [''a'']), (''a'', [])] [''a'', ''b'']"
proof -
  have o: "topological_order [(''b'', [''a'']), (''a'', [])] = Inr [''a'', ''b'']"
    by code_simp
  then show ?thesis
    using topological_order_correct [of "[(''b'', [''a'']), (''a'', [])]"] by auto
qed

text \<open>
  C27: validation is idempotent: the normalised plan, as the JSON that is stored with the plan,
  passes the validator again and comes back unchanged, tasks in the same order.
\<close>

theorem validate_plan_idempotent:
  assumes "validate_plan roles projects allow_test require_enabled plan = Inr p"
  shows "validate_plan roles projects allow_test require_enabled (plan_json p) = Inr p"
proof -
  obtain objective tasks ts where v: "py_strip objective \<noteq> []" "length objective \<le> 16384"
    "ps_objective p = py_strip objective" "1 \<le> ps_max_parallel p" "ps_max_parallel p \<le> 16"
    "0 < length tasks" "length tasks \<le> 32"
    and ts: "validate_tasks roles projects allow_test require_enabled 0 [] tasks = Inr ts"
    and o: "order_tasks ts = Inr (ps_tasks p)"
    using assms by (rule validate_plan_parts)
  note T = validate_tasks_ok [OF ts]
  have dist: "distinct (map ts_key ts)" using T by blast
  note O = order_tasks_ok [OF dist o]
  have len: "length (ps_tasks p) = length ts"
    using O(1,2) dist by (metis distinct_card distinct_map)
  have "validate_tasks roles projects allow_test require_enabled 0 [] (map task_json (ps_tasks p))
      = Inr (ps_tasks p)"
    using T validate_tasks_found [OF ts] O(1,2) by (intro validate_tasks_again) auto
  moreover have "order_tasks (ps_tasks p) = Inr (ps_tasks p)"
    using dist o by (rule order_tasks_again)
  moreover have "length (py_strip objective) \<le> 16384"
    using v(2) py_strip_length [of objective] by simp
  ultimately show ?thesis
    using v T len by (simp add: validate_plan_def plan_json_def jget_def jget_default_def int_between_def)
qed

theorem validate_plan_idempotent_witness:
  "validate_plan sample_roles sample_projects False True (plan_json sample_result) = Inr sample_result"
  using sample_plan_valid by (rule validate_plan_idempotent)

end
