(* ===== verification/Orch_Db.thy ===== *)
theory Orch_Db
  imports Plan_Validation "HOL-Library.Product_Lexorder"
begin

text \<open>
  The controller database as the orchestrator uses it (\<^verbatim>\<open>migrations/009\<close>,
  \<^verbatim>\<open>migrations/010\<close> and the tables of \<^verbatim>\<open>migrations/001\<close> it joins with): one record per row, a
  table is the list of its rows in insertion order, a status column is the datatype of the values its
  CHECK constraint admits, a nullable column is an option. A JSON column holds the value whose text the
  code stores. Below the rows: the queries of \<^verbatim>\<open>scripts/hermesops-orchestrator.py\<close> on them
  and the event inserts. A transaction is a function on the database; the time \<open>now\<close> and the
  identifiers of \<^verbatim>\<open>uuid4\<close> are arguments.
\<close>

section \<open>Status columns\<close>

datatype plan_status =
  PDraft | PReady | PRunning | PBlocked | PCompleted | PFailed | PCancelled

datatype task_status =
  TPending | TReady | TRunning | TBlocked | TCompleted | TFailed | TCancelled

datatype attempt_status = ARunning | ACompleted | AFailed | AAbandoned | ACancelled

datatype objective_status =
  OQueued | OPlanning | ORunning | OPauseRequested | OPaused | OCancelRequested
  | OCompleted | OFailed | OCancelled

datatype run_status =
  RQueued | RSnapshotting | RRunning | RReviewing | RWaitingHuman | RCommitting
  | RCompleted | RFailed | RCancelled | RRecovering

datatype approval_status = APPending | APApproved | APRejected | APExpired | APCancelled

datatype integration_status = IPrepared | ICompleted | IRejected | IBlocked | IFailed

datatype integration_decision = DApprove | DReject | DBlockHuman

datatype recovery_decision = ResumeSafe | RollbackSafe | BlockHuman

datatype instance_status = NStarting | NRunning | NStopped | NFailed | NAbandoned

datatype plan_source = AI | DECLARATIVE | TEST

section \<open>Rows\<close>

record plan_row =
  p_id :: string
  p_objective :: string
  p_source :: plan_source
  p_status :: plan_status
  p_max_parallel :: int
  p_sha256 :: string
  p_plan :: plan_spec
  p_created :: string
  p_started :: "string option"
  p_heartbeat :: "string option"
  p_finished :: "string option"
  p_error :: "string option"

record task_row =
  t_id :: string
  t_plan :: string
  t_key :: string
  t_kind :: kind
  t_project :: "string option"
  t_role :: "string option"
  t_status :: task_status
  t_priority :: int
  t_instruction :: string
  t_acceptance :: "string list"
  t_marker :: "string option"
  t_max_attempts :: int
  t_attempt_count :: int
  t_result :: json
  t_failure :: "string option"
  t_created :: string
  t_started :: "string option"
  t_heartbeat :: "string option"
  t_finished :: "string option"

record dep_row =
  d_plan :: string
  d_task :: string
  d_parent :: string

record attempt_row =
  a_id :: string
  a_task :: string
  a_number :: int
  a_status :: attempt_status
  a_instance :: "string option"
  a_run :: "string option"
  a_worker :: "string option"
  a_review :: "string option"
  a_integration :: "string option"
  a_result :: json
  a_failure :: "string option"
  a_started :: string
  a_heartbeat :: string
  a_finished :: "string option"

record run_row =
  r_id :: string
  r_project :: string
  r_status :: run_status
  r_recovery :: "recovery_decision option"
  r_heartbeat :: "string option"

record approval_row =
  ap_id :: string
  ap_run :: string
  ap_status :: approval_status
  ap_resolved :: "string option"

record integration_row =
  i_id :: string
  i_run :: string
  i_decision :: integration_decision
  i_status :: integration_status
  i_failure :: "string option"
  i_finished :: "string option"

record lock_row =
  l_project :: string
  l_run :: string

record objective_row =
  o_id :: string
  o_objective :: string
  o_source :: plan_source
  o_status :: objective_status
  o_priority :: int
  o_not_before :: string
  o_projects :: "string list"
  o_max_parallel :: int
  o_planning_max :: int
  o_planning_count :: int
  o_plan :: "string option"
  o_execution :: "string option"
  o_created :: string
  o_started :: "string option"
  o_heartbeat :: string
  o_finished :: "string option"
  o_paused :: "string option"
  o_error :: "string option"

record oattempt_row =
  oa_id :: string
  oa_objective :: string
  oa_number :: int
  oa_status :: attempt_status
  oa_instance :: "string option"
  oa_execution :: "string option"
  oa_plan :: "string option"
  oa_result :: json
  oa_failure :: "string option"
  oa_started :: string
  oa_heartbeat :: string
  oa_finished :: "string option"
  oa_next :: "string option"

record oevent_row =
  oe_objective :: string
  oe_type :: string
  oe_old :: "objective_status option"
  oe_new :: "objective_status option"
  oe_payload :: json
  oe_created :: string

record event_row =
  e_type :: string
  e_severity :: string
  e_payload :: json
  e_created :: string

record instance_row =
  n_id :: string
  n_owner :: string
  n_status :: instance_status
  n_started :: string
  n_heartbeat :: string
  n_stopped :: "string option"
  n_error :: "string option"

record execution_row =
  x_id :: string
  x_outer :: string
  x_exit :: "int option"
  x_failure :: "string option"
  x_created :: string
  x_finished :: "string option"

record db =
  db_plans :: "plan_row list"
  db_tasks :: "task_row list"
  db_deps :: "dep_row list"
  db_attempts :: "attempt_row list"
  db_runs :: "run_row list"
  db_approvals :: "approval_row list"
  db_integrations :: "integration_row list"
  db_locks :: "lock_row list"
  db_objectives :: "objective_row list"
  db_oattempts :: "oattempt_row list"
  db_oevents :: "oevent_row list"
  db_events :: "event_row list"
  db_instances :: "instance_row list"
  db_executions :: "execution_row list"

section \<open>Errors\<close>

text \<open>
  \<open>Unstartable\<close> lists what \<^verbatim>\<open>reservation_ineligibility_reason\<close> returns; the database
  raises \<open>IntegrityError\<close> for a row that breaks a key or a CHECK.
\<close>

datatype ineligible =
    NotReady task_status
  | BudgetExhausted
  | PlanMissing
  | PlanNotActive plan_status
  | SeveralObjectives
  | ObjectiveNotRunning objective_status
  | HumanGate
  | PlanLimit
  | ProjectBusy

datatype orch_error =
    IntegrityError
  | KeyErr string
  | UnknownTask string
  | Unstartable ineligible
  | LostRace
  | InvalidInitialStatus
  | NotDraft
  | UnknownPlan string
  | PlanTerminal plan_status
  | TaskStillRunning
  | ObjectiveDisappeared string
  | UnexpectedObjectiveStatus objective_status

section \<open>Constants\<close>

abbreviation HUMAN_GATE_ERROR :: string where
  "HUMAN_GATE_ERROR \<equiv> ''waiting for human decision''"
abbreviation HUMAN_GATE_DEFERRED_ERROR :: string where
  "HUMAN_GATE_DEFERRED_ERROR \<equiv> ''waiting for in-flight integration before human decision''"
abbreviation CANCELLATION_RECOVERY_ERROR :: string where
  "CANCELLATION_RECOVERY_ERROR \<equiv> ''cancellation cleanup requires recovery''"
abbreviation CANCELLATION_PENDING_ERROR :: string where
  "CANCELLATION_PENDING_ERROR \<equiv> ''objective cancellation cleanup pending''"

text \<open>\<^verbatim>\<open>COALESCE(a, b)\<close>.\<close>

definition coalesce :: "'a option \<Rightarrow> 'a option \<Rightarrow> 'a option" where
  "coalesce a b = (case a of None \<Rightarrow> b | Some _ \<Rightarrow> a)"

lemma coalesce_simps [simp]: "coalesce None b = b" "coalesce (Some x) b = Some x"
  by (simp_all add: coalesce_def)

section \<open>Lookups\<close>

definition plan_with :: "db \<Rightarrow> string \<Rightarrow> plan_row option" where
  "plan_with db pid = select_one (\<lambda>p. p_id p = pid) (db_plans db)"

definition task_with :: "db \<Rightarrow> string \<Rightarrow> task_row option" where
  "task_with db tid = select_one (\<lambda>t. t_id t = tid) (db_tasks db)"

definition objective_with :: "db \<Rightarrow> string \<Rightarrow> objective_row option" where
  "objective_with db oid = select_one (\<lambda>b. o_id b = oid) (db_objectives db)"

definition run_with :: "db \<Rightarrow> string \<Rightarrow> run_row option" where
  "run_with db rid = select_one (\<lambda>r. r_id r = rid) (db_runs db)"

text \<open>The parents of a task: \<^verbatim>\<open>orchestration_dependencies\<close> joined with the parent rows.\<close>

definition parent_statuses :: "db \<Rightarrow> string \<Rightarrow> task_status list" where
  "parent_statuses db tid =
     [t_status par. dep \<leftarrow> db_deps db, d_task dep = tid, par \<leftarrow> db_tasks db, t_id par = d_parent dep]"

definition plan_statuses :: "db \<Rightarrow> string \<Rightarrow> task_status list" where
  "plan_statuses db pid = [t_status t. t \<leftarrow> db_tasks db, t_plan t = pid]"

definition running_in_plan :: "db \<Rightarrow> string \<Rightarrow> nat" where
  "running_in_plan db pid = count_where (\<lambda>t. t_plan t = pid \<and> t_status t = TRunning) (db_tasks db)"

text \<open>\<^verbatim>\<open>project_is_busy\<close>: another task of the project is running.\<close>

definition project_is_busy :: "db \<Rightarrow> string option \<Rightarrow> string \<Rightarrow> bool" where
  "project_is_busy db project tid =
     (case project of
        None \<Rightarrow> False
      | Some p \<Rightarrow>
          0 < count_where (\<lambda>t. t_project t = Some p \<and> t_status t = TRunning \<and> t_id t \<noteq> tid) (db_tasks db))"

section \<open>The human gate\<close>

text \<open>\<^verbatim>\<open>plan_has_active_human_gate\<close>: a pending approval of a run of an attempt of a task of the plan.\<close>

definition plan_has_active_human_gate :: "db \<Rightarrow> string \<Rightarrow> bool" where
  "plan_has_active_human_gate db pid =
     list_ex (\<lambda>ap. ap_status ap = APPending \<and>
        list_ex (\<lambda>a. a_run a = Some (ap_run ap) \<and>
           list_ex (\<lambda>t. t_id t = a_task a \<and> t_plan t = pid) (db_tasks db)) (db_attempts db))
       (db_approvals db)"

definition plan_is_waiting_human :: "db \<Rightarrow> string \<Rightarrow> bool" where
  "plan_is_waiting_human db pid =
     (case plan_with db pid of
        None \<Rightarrow> False
      | Some p \<Rightarrow> plan_has_active_human_gate db pid \<and> p_status p = PBlocked \<and>
                  p_error p = Some HUMAN_GATE_ERROR)"

definition plan_has_pending_human_gate :: "db \<Rightarrow> string \<Rightarrow> bool" where
  "plan_has_pending_human_gate db pid =
     (case plan_with db pid of
        None \<Rightarrow> False
      | Some p \<Rightarrow> plan_has_active_human_gate db pid \<and> p_error p = Some HUMAN_GATE_DEFERRED_ERROR)"

definition plan_has_authorized_integration_in_flight :: "db \<Rightarrow> string \<Rightarrow> bool" where
  "plan_has_authorized_integration_in_flight db pid =
     list_ex (\<lambda>t. t_plan t = pid \<and>
        list_ex (\<lambda>a. a_task a = t_id t \<and>
           list_ex (\<lambda>r. a_run a = Some (r_id r) \<and>
              (r_status r \<in> {RCommitting, RRecovering} \<or>
                 r_status r = RCompleted \<and> t_status t = TRunning) \<and>
              list_ex (\<lambda>i. i_run i = r_id r \<and> i_decision i = DApprove \<and>
                 i_status i \<in> {IPrepared, ICompleted, IFailed}) (db_integrations db))
             (db_runs db)) (db_attempts db)) (db_tasks db)"

section \<open>Events\<close>

definition opt_json :: "string option \<Rightarrow> json" where
  "opt_json v = json_of_option JStr v"

definition add_event ::
  "string \<Rightarrow> string \<Rightarrow> string option \<Rightarrow> string \<Rightarrow> string \<Rightarrow> (string \<times> json) list \<Rightarrow> db \<Rightarrow> db" where
  "add_event now pid tid event_type severity payload db =
     db\<lparr>db_events := db_events db @
          [\<lparr>e_type = event_type, e_severity = severity,
            e_payload = JObj ([(''plan_id'', JStr pid), (''orchestration_task_id'', opt_json tid)] @ payload),
            e_created = now\<rparr>]\<rparr>"

definition add_objective_event ::
  "string \<Rightarrow> string \<Rightarrow> string \<Rightarrow> objective_status option \<Rightarrow> objective_status option \<Rightarrow>
     (string \<times> json) list \<Rightarrow> db \<Rightarrow> db" where
  "add_objective_event now oid event_type old new payload db =
     db\<lparr>db_oevents := db_oevents db @
          [\<lparr>oe_objective = oid, oe_type = event_type, oe_old = old, oe_new = new,
            oe_payload = JObj payload, oe_created = now\<rparr>]\<rparr>"

lemma add_event_frame [simp]:
  "db_plans (add_event now pid tid ty sv pl db) = db_plans db"
  "db_tasks (add_event now pid tid ty sv pl db) = db_tasks db"
  "db_deps (add_event now pid tid ty sv pl db) = db_deps db"
  "db_attempts (add_event now pid tid ty sv pl db) = db_attempts db"
  "db_runs (add_event now pid tid ty sv pl db) = db_runs db"
  "db_approvals (add_event now pid tid ty sv pl db) = db_approvals db"
  "db_integrations (add_event now pid tid ty sv pl db) = db_integrations db"
  "db_locks (add_event now pid tid ty sv pl db) = db_locks db"
  "db_objectives (add_event now pid tid ty sv pl db) = db_objectives db"
  "db_oattempts (add_event now pid tid ty sv pl db) = db_oattempts db"
  "db_oevents (add_event now pid tid ty sv pl db) = db_oevents db"
  "db_executions (add_event now pid tid ty sv pl db) = db_executions db"
  "db_instances (add_event now pid tid ty sv pl db) = db_instances db"
  by (simp_all add: add_event_def)

lemma add_objective_event_frame [simp]:
  "db_plans (add_objective_event now oid ty old new pl db) = db_plans db"
  "db_tasks (add_objective_event now oid ty old new pl db) = db_tasks db"
  "db_deps (add_objective_event now oid ty old new pl db) = db_deps db"
  "db_attempts (add_objective_event now oid ty old new pl db) = db_attempts db"
  "db_runs (add_objective_event now oid ty old new pl db) = db_runs db"
  "db_approvals (add_objective_event now oid ty old new pl db) = db_approvals db"
  "db_integrations (add_objective_event now oid ty old new pl db) = db_integrations db"
  "db_locks (add_objective_event now oid ty old new pl db) = db_locks db"
  "db_objectives (add_objective_event now oid ty old new pl db) = db_objectives db"
  "db_oattempts (add_objective_event now oid ty old new pl db) = db_oattempts db"
  "db_events (add_objective_event now oid ty old new pl db) = db_events db"
  "db_executions (add_objective_event now oid ty old new pl db) = db_executions db"
  "db_instances (add_objective_event now oid ty old new pl db) = db_instances db"
  by (simp_all add: add_objective_event_def)

section \<open>Updates of one table\<close>

text \<open>\<^verbatim>\<open>UPDATE\<close> of each table the engine writes.\<close>

definition update_tasks :: "(task_row \<Rightarrow> bool) \<Rightarrow> (task_row \<Rightarrow> task_row) \<Rightarrow> db \<Rightarrow> db" where
  "update_tasks c f db = db\<lparr>db_tasks := update_where c f (db_tasks db)\<rparr>"

lemma update_tasks_frame [simp]:
  "db_tasks (update_tasks c f db) = update_where c f (db_tasks db)"
  "db_plans (update_tasks c f db) = db_plans db"
  "db_deps (update_tasks c f db) = db_deps db"
  "db_attempts (update_tasks c f db) = db_attempts db"
  "db_runs (update_tasks c f db) = db_runs db"
  "db_approvals (update_tasks c f db) = db_approvals db"
  "db_integrations (update_tasks c f db) = db_integrations db"
  "db_locks (update_tasks c f db) = db_locks db"
  "db_objectives (update_tasks c f db) = db_objectives db"
  "db_oattempts (update_tasks c f db) = db_oattempts db"
  "db_oevents (update_tasks c f db) = db_oevents db"
  "db_events (update_tasks c f db) = db_events db"
  "db_instances (update_tasks c f db) = db_instances db"
  "db_executions (update_tasks c f db) = db_executions db"
  by (simp_all add: update_tasks_def)

definition update_plans :: "(plan_row \<Rightarrow> bool) \<Rightarrow> (plan_row \<Rightarrow> plan_row) \<Rightarrow> db \<Rightarrow> db" where
  "update_plans c f db = db\<lparr>db_plans := update_where c f (db_plans db)\<rparr>"

lemma update_plans_frame [simp]:
  "db_plans (update_plans c f db) = update_where c f (db_plans db)"
  "db_tasks (update_plans c f db) = db_tasks db"
  "db_deps (update_plans c f db) = db_deps db"
  "db_attempts (update_plans c f db) = db_attempts db"
  "db_runs (update_plans c f db) = db_runs db"
  "db_approvals (update_plans c f db) = db_approvals db"
  "db_integrations (update_plans c f db) = db_integrations db"
  "db_locks (update_plans c f db) = db_locks db"
  "db_objectives (update_plans c f db) = db_objectives db"
  "db_oattempts (update_plans c f db) = db_oattempts db"
  "db_oevents (update_plans c f db) = db_oevents db"
  "db_events (update_plans c f db) = db_events db"
  "db_instances (update_plans c f db) = db_instances db"
  "db_executions (update_plans c f db) = db_executions db"
  by (simp_all add: update_plans_def)

definition update_attempts :: "(attempt_row \<Rightarrow> bool) \<Rightarrow> (attempt_row \<Rightarrow> attempt_row) \<Rightarrow> db \<Rightarrow> db" where
  "update_attempts c f db = db\<lparr>db_attempts := update_where c f (db_attempts db)\<rparr>"

lemma update_attempts_frame [simp]:
  "db_attempts (update_attempts c f db) = update_where c f (db_attempts db)"
  "db_plans (update_attempts c f db) = db_plans db"
  "db_tasks (update_attempts c f db) = db_tasks db"
  "db_deps (update_attempts c f db) = db_deps db"
  "db_runs (update_attempts c f db) = db_runs db"
  "db_approvals (update_attempts c f db) = db_approvals db"
  "db_integrations (update_attempts c f db) = db_integrations db"
  "db_locks (update_attempts c f db) = db_locks db"
  "db_objectives (update_attempts c f db) = db_objectives db"
  "db_oattempts (update_attempts c f db) = db_oattempts db"
  "db_oevents (update_attempts c f db) = db_oevents db"
  "db_events (update_attempts c f db) = db_events db"
  "db_instances (update_attempts c f db) = db_instances db"
  "db_executions (update_attempts c f db) = db_executions db"
  by (simp_all add: update_attempts_def)

definition update_objectives :: "(objective_row \<Rightarrow> bool) \<Rightarrow> (objective_row \<Rightarrow> objective_row) \<Rightarrow> db \<Rightarrow> db" where
  "update_objectives c f db = db\<lparr>db_objectives := update_where c f (db_objectives db)\<rparr>"

lemma update_objectives_frame [simp]:
  "db_objectives (update_objectives c f db) = update_where c f (db_objectives db)"
  "db_plans (update_objectives c f db) = db_plans db"
  "db_tasks (update_objectives c f db) = db_tasks db"
  "db_deps (update_objectives c f db) = db_deps db"
  "db_attempts (update_objectives c f db) = db_attempts db"
  "db_runs (update_objectives c f db) = db_runs db"
  "db_approvals (update_objectives c f db) = db_approvals db"
  "db_integrations (update_objectives c f db) = db_integrations db"
  "db_locks (update_objectives c f db) = db_locks db"
  "db_oattempts (update_objectives c f db) = db_oattempts db"
  "db_oevents (update_objectives c f db) = db_oevents db"
  "db_events (update_objectives c f db) = db_events db"
  "db_instances (update_objectives c f db) = db_instances db"
  "db_executions (update_objectives c f db) = db_executions db"
  by (simp_all add: update_objectives_def)

definition update_oattempts :: "(oattempt_row \<Rightarrow> bool) \<Rightarrow> (oattempt_row \<Rightarrow> oattempt_row) \<Rightarrow> db \<Rightarrow> db" where
  "update_oattempts c f db = db\<lparr>db_oattempts := update_where c f (db_oattempts db)\<rparr>"

lemma update_oattempts_frame [simp]:
  "db_oattempts (update_oattempts c f db) = update_where c f (db_oattempts db)"
  "db_plans (update_oattempts c f db) = db_plans db"
  "db_tasks (update_oattempts c f db) = db_tasks db"
  "db_deps (update_oattempts c f db) = db_deps db"
  "db_attempts (update_oattempts c f db) = db_attempts db"
  "db_runs (update_oattempts c f db) = db_runs db"
  "db_approvals (update_oattempts c f db) = db_approvals db"
  "db_integrations (update_oattempts c f db) = db_integrations db"
  "db_locks (update_oattempts c f db) = db_locks db"
  "db_objectives (update_oattempts c f db) = db_objectives db"
  "db_oevents (update_oattempts c f db) = db_oevents db"
  "db_events (update_oattempts c f db) = db_events db"
  "db_instances (update_oattempts c f db) = db_instances db"
  "db_executions (update_oattempts c f db) = db_executions db"
  by (simp_all add: update_oattempts_def)

definition update_runs :: "(run_row \<Rightarrow> bool) \<Rightarrow> (run_row \<Rightarrow> run_row) \<Rightarrow> db \<Rightarrow> db" where
  "update_runs c f db = db\<lparr>db_runs := update_where c f (db_runs db)\<rparr>"

lemma update_runs_frame [simp]:
  "db_runs (update_runs c f db) = update_where c f (db_runs db)"
  "db_plans (update_runs c f db) = db_plans db"
  "db_tasks (update_runs c f db) = db_tasks db"
  "db_deps (update_runs c f db) = db_deps db"
  "db_attempts (update_runs c f db) = db_attempts db"
  "db_approvals (update_runs c f db) = db_approvals db"
  "db_integrations (update_runs c f db) = db_integrations db"
  "db_locks (update_runs c f db) = db_locks db"
  "db_objectives (update_runs c f db) = db_objectives db"
  "db_oattempts (update_runs c f db) = db_oattempts db"
  "db_oevents (update_runs c f db) = db_oevents db"
  "db_events (update_runs c f db) = db_events db"
  "db_instances (update_runs c f db) = db_instances db"
  "db_executions (update_runs c f db) = db_executions db"
  by (simp_all add: update_runs_def)

definition update_approvals :: "(approval_row \<Rightarrow> bool) \<Rightarrow> (approval_row \<Rightarrow> approval_row) \<Rightarrow> db \<Rightarrow> db" where
  "update_approvals c f db = db\<lparr>db_approvals := update_where c f (db_approvals db)\<rparr>"

lemma update_approvals_frame [simp]:
  "db_approvals (update_approvals c f db) = update_where c f (db_approvals db)"
  "db_plans (update_approvals c f db) = db_plans db"
  "db_tasks (update_approvals c f db) = db_tasks db"
  "db_deps (update_approvals c f db) = db_deps db"
  "db_attempts (update_approvals c f db) = db_attempts db"
  "db_runs (update_approvals c f db) = db_runs db"
  "db_integrations (update_approvals c f db) = db_integrations db"
  "db_locks (update_approvals c f db) = db_locks db"
  "db_objectives (update_approvals c f db) = db_objectives db"
  "db_oattempts (update_approvals c f db) = db_oattempts db"
  "db_oevents (update_approvals c f db) = db_oevents db"
  "db_events (update_approvals c f db) = db_events db"
  "db_instances (update_approvals c f db) = db_instances db"
  "db_executions (update_approvals c f db) = db_executions db"
  by (simp_all add: update_approvals_def)

definition update_integrations :: "(integration_row \<Rightarrow> bool) \<Rightarrow> (integration_row \<Rightarrow> integration_row) \<Rightarrow> db \<Rightarrow> db" where
  "update_integrations c f db = db\<lparr>db_integrations := update_where c f (db_integrations db)\<rparr>"

lemma update_integrations_frame [simp]:
  "db_integrations (update_integrations c f db) = update_where c f (db_integrations db)"
  "db_plans (update_integrations c f db) = db_plans db"
  "db_tasks (update_integrations c f db) = db_tasks db"
  "db_deps (update_integrations c f db) = db_deps db"
  "db_attempts (update_integrations c f db) = db_attempts db"
  "db_runs (update_integrations c f db) = db_runs db"
  "db_approvals (update_integrations c f db) = db_approvals db"
  "db_locks (update_integrations c f db) = db_locks db"
  "db_objectives (update_integrations c f db) = db_objectives db"
  "db_oattempts (update_integrations c f db) = db_oattempts db"
  "db_oevents (update_integrations c f db) = db_oevents db"
  "db_events (update_integrations c f db) = db_events db"
  "db_instances (update_integrations c f db) = db_instances db"
  "db_executions (update_integrations c f db) = db_executions db"
  by (simp_all add: update_integrations_def)

definition update_instances :: "(instance_row \<Rightarrow> bool) \<Rightarrow> (instance_row \<Rightarrow> instance_row) \<Rightarrow> db \<Rightarrow> db" where
  "update_instances c f db = db\<lparr>db_instances := update_where c f (db_instances db)\<rparr>"

lemma update_instances_frame [simp]:
  "db_instances (update_instances c f db) = update_where c f (db_instances db)"
  "db_plans (update_instances c f db) = db_plans db"
  "db_tasks (update_instances c f db) = db_tasks db"
  "db_deps (update_instances c f db) = db_deps db"
  "db_attempts (update_instances c f db) = db_attempts db"
  "db_runs (update_instances c f db) = db_runs db"
  "db_approvals (update_instances c f db) = db_approvals db"
  "db_integrations (update_instances c f db) = db_integrations db"
  "db_locks (update_instances c f db) = db_locks db"
  "db_objectives (update_instances c f db) = db_objectives db"
  "db_oattempts (update_instances c f db) = db_oattempts db"
  "db_oevents (update_instances c f db) = db_oevents db"
  "db_events (update_instances c f db) = db_events db"
  "db_executions (update_instances c f db) = db_executions db"
  by (simp_all add: update_instances_def)

definition update_executions :: "(execution_row \<Rightarrow> bool) \<Rightarrow> (execution_row \<Rightarrow> execution_row) \<Rightarrow> db \<Rightarrow> db" where
  "update_executions c f db = db\<lparr>db_executions := update_where c f (db_executions db)\<rparr>"

lemma update_executions_frame [simp]:
  "db_executions (update_executions c f db) = update_where c f (db_executions db)"
  "db_plans (update_executions c f db) = db_plans db"
  "db_tasks (update_executions c f db) = db_tasks db"
  "db_deps (update_executions c f db) = db_deps db"
  "db_attempts (update_executions c f db) = db_attempts db"
  "db_runs (update_executions c f db) = db_runs db"
  "db_approvals (update_executions c f db) = db_approvals db"
  "db_integrations (update_executions c f db) = db_integrations db"
  "db_locks (update_executions c f db) = db_locks db"
  "db_objectives (update_executions c f db) = db_objectives db"
  "db_oattempts (update_executions c f db) = db_oattempts db"
  "db_oevents (update_executions c f db) = db_oevents db"
  "db_events (update_executions c f db) = db_events db"
  "db_instances (update_executions c f db) = db_instances db"
  by (simp_all add: update_executions_def)

end
