(* ===== verification/Orch_Tasks.thy ===== *)
theory Orch_Tasks
  imports Orch_Db
begin

text \<open>
  The transactions of \<^verbatim>\<open>scripts/hermesops-orchestrator.py\<close> that write plans, tasks and
  attempts: import of a validated plan, the refresh of task and plan states, reservation of an
  attempt, the ways a worker reports its result, the reconciliation after a restart, and the
  operator's activate and cancel. Each is a function on the database, with the statements in the
  order the code executes them. \<open>now\<close> is the clock reading of the transaction. The identifiers in the
  tables of roles and projects, which the orchestrator only reads, are arguments of the import; of the
  other foreign keys, the instance is the one \<^verbatim>\<open>register_instance\<close> inserted.
\<close>

section \<open>Import of a plan\<close>

text \<open>
  \<^verbatim>\<open>insert_plan\<close>. \<open>tids\<close> are the identifiers of \<^verbatim>\<open>uuid4\<close>, one per task;
  \<^verbatim>\<open>task_ids\<close> is a dict by key, so for equal keys the last one counts. \<open>sha256\<close> stands for the
  digest of the canonical text.
\<close>

definition plan_row_ok :: "string list \<Rightarrow> plan_row \<Rightarrow> db \<Rightarrow> bool" where
  "plan_row_ok role_ids p db \<longleftrightarrow>
     ''orchestrator'' \<in> set role_ids \<and> p_id p \<notin> p_id ` set (db_plans db) \<and> 1 \<le> p_max_parallel p \<and> p_max_parallel p \<le> 64 \<and>
     length (p_sha256 p) = 64"

definition insert_plan_row :: "string list \<Rightarrow> plan_row \<Rightarrow> db \<Rightarrow> orch_error + db" where
  "insert_plan_row role_ids p db =
     (if plan_row_ok role_ids p db then Inr (db\<lparr>db_plans := db_plans db @ [p]\<rparr>) else Inl IntegrityError)"

text \<open>A foreign key: NULL, or the identifier of a row.\<close>

definition refers_to :: "string list \<Rightarrow> string option \<Rightarrow> bool" where
  "refers_to ids v = (case v of None \<Rightarrow> True | Some k \<Rightarrow> k \<in> set ids)"

definition task_row_ok :: "string list \<Rightarrow> string list \<Rightarrow> task_row \<Rightarrow> db \<Rightarrow> bool" where
  "task_row_ok role_ids project_ids t db \<longleftrightarrow>
     refers_to project_ids (t_project t) \<and> refers_to role_ids (t_role t) \<and>
     t_id t \<notin> t_id ` set (db_tasks db) \<and>
     (t_plan t, t_key t) \<notin> (\<lambda>u. (t_plan u, t_key u)) ` set (db_tasks db) \<and>
     1 \<le> t_max_attempts t \<and> t_max_attempts t \<le> 10 \<and> 0 \<le> t_attempt_count t \<and> t_attempt_count t \<le> 10"

definition insert_task_row :: "string list \<Rightarrow> string list \<Rightarrow> task_row \<Rightarrow> db \<Rightarrow> orch_error + db" where
  "insert_task_row role_ids project_ids t db =
     (if task_row_ok role_ids project_ids t db then Inr (db\<lparr>db_tasks := db_tasks db @ [t]\<rparr>) else Inl IntegrityError)"

definition insert_dep_row :: "dep_row \<Rightarrow> db \<Rightarrow> orch_error + db" where
  "insert_dep_row d db =
     (if d \<notin> set (db_deps db) \<and> d_task d \<noteq> d_parent d
      then Inr (db\<lparr>db_deps := db_deps db @ [d]\<rparr>) else Inl IntegrityError)"

definition new_task_row :: "string \<Rightarrow> string \<Rightarrow> string \<Rightarrow> task_spec \<Rightarrow> task_row" where
  "new_task_row now pid tid ts =
     \<lparr>t_id = tid, t_plan = pid, t_key = ts_key ts, t_kind = ts_kind ts, t_project = ts_project ts,
      t_role = ts_role ts, t_status = TPending, t_priority = ts_priority ts,
      t_instruction = ts_instruction ts, t_acceptance = ts_acceptance ts, t_marker = ts_marker ts,
      t_max_attempts = ts_max_attempts ts, t_attempt_count = 0, t_result = JObj [], t_failure = None,
      t_created = now, t_started = None, t_heartbeat = None, t_finished = None\<rparr>"

fun insert_task_rows ::
  "string list \<Rightarrow> string list \<Rightarrow> string \<Rightarrow> string \<Rightarrow> (string \<Rightarrow> string option) \<Rightarrow> task_spec list \<Rightarrow> db \<Rightarrow> orch_error + db" where
  "insert_task_rows role_ids project_ids now pid ids [] db = Inr db"
| "insert_task_rows role_ids project_ids now pid ids (ts # rest) db =
     (case ids (ts_key ts) of
        None \<Rightarrow> Inl (KeyErr (ts_key ts))
      | Some tid \<Rightarrow>
          rbind (insert_task_row role_ids project_ids (new_task_row now pid tid ts) db)
            (\<lambda>db'. insert_task_rows role_ids project_ids now pid ids rest db'))"

fun insert_parent_rows ::
  "string \<Rightarrow> (string \<Rightarrow> string option) \<Rightarrow> string \<Rightarrow> string list \<Rightarrow> db \<Rightarrow> orch_error + db" where
  "insert_parent_rows pid ids tid [] db = Inr db"
| "insert_parent_rows pid ids tid (par # rest) db =
     (case ids par of
        None \<Rightarrow> Inl (KeyErr par)
      | Some parent \<Rightarrow>
          rbind (insert_dep_row \<lparr>d_plan = pid, d_task = tid, d_parent = parent\<rparr> db)
            (\<lambda>db'. insert_parent_rows pid ids tid rest db'))"

fun insert_dep_rows ::
  "string \<Rightarrow> (string \<Rightarrow> string option) \<Rightarrow> task_spec list \<Rightarrow> db \<Rightarrow> orch_error + db" where
  "insert_dep_rows pid ids [] db = Inr db"
| "insert_dep_rows pid ids (ts # rest) db =
     (case ids (ts_key ts) of
        None \<Rightarrow> Inl (KeyErr (ts_key ts))
      | Some tid \<Rightarrow>
          rbind (insert_parent_rows pid ids tid (ts_deps ts) db) (\<lambda>db'. insert_dep_rows pid ids rest db'))"

definition task_ids :: "plan_spec \<Rightarrow> string list \<Rightarrow> string \<Rightarrow> string option" where
  "task_ids plan tids = map_of (rev (zip (map ts_key (ps_tasks plan)) tids))"

definition insert_plan ::
  "(json \<Rightarrow> string) \<Rightarrow> string list \<Rightarrow> string list \<Rightarrow> string \<Rightarrow> string \<Rightarrow> string list \<Rightarrow> plan_spec \<Rightarrow> plan_source \<Rightarrow> plan_status \<Rightarrow>
     db \<Rightarrow> orch_error + db" where
  "insert_plan sha256 role_ids project_ids now pid tids plan source initial db =
     (if initial \<notin> {PDraft, PReady} then Inl InvalidInitialStatus
      else
        rbind
          (insert_plan_row role_ids
             \<lparr>p_id = pid, p_objective = ps_objective plan, p_source = source, p_status = initial,
              p_max_parallel = ps_max_parallel plan, p_sha256 = sha256 (JObj (plan_json plan)),
              p_plan = plan, p_created = now, p_started = None, p_heartbeat = Some now,
              p_finished = None, p_error = None\<rparr> db)
          (\<lambda>db1. rbind (insert_task_rows role_ids project_ids now pid (task_ids plan tids) (ps_tasks plan) db1)
            (\<lambda>db2. insert_dep_rows pid (task_ids plan tids) (ps_tasks plan) db2)))"

section \<open>Orchestrator instances\<close>

definition register_instance :: "string \<Rightarrow> string \<Rightarrow> string \<Rightarrow> db \<Rightarrow> orch_error + db" where
  "register_instance now iid owner db =
     (let db1 = update_instances (\<lambda>n. n_status n \<in> {NStarting, NRunning})
                  (\<lambda>n. n\<lparr>n_status := NAbandoned, n_stopped := Some now,
                         n_error := (case n_error n of
                             None \<Rightarrow> Some ''superseded after orchestrator restart''
                           | Some e \<Rightarrow> if e = '''' then Some ''superseded after orchestrator restart'' else Some e)\<rparr>)
                  db
      in if iid \<in> n_id ` set (db_instances db1) then Inl IntegrityError
         else Inr (db1\<lparr>db_instances := db_instances db1 @
                [\<lparr>n_id = iid, n_owner = owner, n_status = NStarting, n_started = now,
                  n_heartbeat = now, n_stopped = None, n_error = None\<rparr>]\<rparr>))"

definition update_instance ::
  "string \<Rightarrow> string \<Rightarrow> instance_status option \<Rightarrow> string option \<Rightarrow> bool \<Rightarrow> db \<Rightarrow> db" where
  "update_instance now iid status last_error stopped db =
     update_instances (\<lambda>n. n_id n = iid)
       (\<lambda>n. n\<lparr>n_heartbeat := now,
              n_status := (case status of None \<Rightarrow> n_status n | Some s \<Rightarrow> s),
              n_error := (case last_error of None \<Rightarrow> n_error n | Some e \<Rightarrow> Some e),
              n_stopped := (if stopped then Some now else n_stopped n)\<rparr>) db"

section \<open>Refresh of a plan\<close>

text \<open>
  \<^verbatim>\<open>refresh_plan_states\<close>: the tasks are a snapshot in the order of priority and creation, the
  parents of each are read when its turn comes, after the updates of the tasks before it.
\<close>

definition block_pending :: "string \<Rightarrow> string \<Rightarrow> string \<Rightarrow> db \<Rightarrow> db" where
  "block_pending now pid tid db =
     add_event now pid (Some tid) ''ORCHESTRATION_TASK_BLOCKED'' ''WARNING''
       [(''reason'', JStr ''dependency-failed'')]
       (update_tasks (\<lambda>t. t_id t = tid \<and> t_status t = TPending)
          (\<lambda>t. t\<lparr>t_status := TBlocked,
                 t_failure := Some ''dependency did not complete successfully'',
                 t_heartbeat := Some now, t_finished := Some now\<rparr>) db)"

definition ready_pending :: "string \<Rightarrow> string \<Rightarrow> db \<Rightarrow> db" where
  "ready_pending now tid db =
     update_tasks (\<lambda>t. t_id t = tid \<and> t_status t = TPending)
       (\<lambda>t. t\<lparr>t_status := TReady, t_heartbeat := Some now\<rparr>) db"

definition refresh_task :: "string \<Rightarrow> string \<Rightarrow> task_row \<Rightarrow> db \<Rightarrow> db" where
  "refresh_task now pid task db =
     (if t_status task \<noteq> TPending then db
      else let parents = parent_statuses db (t_id task)
        in if list_ex (\<lambda>s. s \<in> {TFailed, TBlocked, TCancelled}) parents
           then block_pending now pid (t_id task) db
           else if list_all (\<lambda>s. s = TCompleted) parents then ready_pending now (t_id task) db
           else db)"

definition plan_tasks :: "db \<Rightarrow> string \<Rightarrow> task_row list" where
  "plan_tasks db pid =
     sort_key (\<lambda>t. (t_priority t, t_created t)) (filter (\<lambda>t. t_plan t = pid) (db_tasks db))"

definition refresh_tasks :: "string \<Rightarrow> string \<Rightarrow> db \<Rightarrow> db" where
  "refresh_tasks now pid db = fold (refresh_task now pid) (plan_tasks db pid) db"

text \<open>The plan row after its tasks: \<open>plan\<close> is the row read at the start of the transaction.\<close>

definition settle_plan :: "string \<Rightarrow> plan_row \<Rightarrow> db \<Rightarrow> db" where
  "settle_plan now plan db =
     (let pid = p_id plan;
          statuses = plan_statuses db pid;
          gate = plan_has_active_human_gate db pid;
          set_row = (\<lambda>f. update_plans (\<lambda>p. p_id p = pid) f db)
      in if gate \<and> p_error plan = Some HUMAN_GATE_DEFERRED_ERROR then
           (if plan_has_authorized_integration_in_flight db pid
            then set_row (\<lambda>p. p\<lparr>p_heartbeat := Some now\<rparr>)
            else add_event now pid None ''ORCHESTRATION_PLAN_BLOCKED_HUMAN'' ''WARNING''
                   [(''deferred'', JBool True)]
                   (set_row (\<lambda>p. p\<lparr>p_status := PBlocked, p_heartbeat := Some now,
                                   p_error := Some HUMAN_GATE_ERROR\<rparr>)))
         else if p_status plan = PBlocked \<and>
                 (gate \<and> p_error plan = Some HUMAN_GATE_ERROR \<or>
                  p_error plan \<in> {Some CANCELLATION_RECOVERY_ERROR, Some CANCELLATION_PENDING_ERROR})
         then set_row (\<lambda>p. p\<lparr>p_heartbeat := Some now\<rparr>)
         else if statuses \<noteq> [] \<and> list_all (\<lambda>s. s = TCompleted) statuses
         then add_event now pid None ''ORCHESTRATION_PLAN_COMPLETED'' ''INFO'' []
                (set_row (\<lambda>p. p\<lparr>p_status := PCompleted, p_heartbeat := Some now,
                                p_finished := Some now, p_error := None\<rparr>))
         else if list_ex (\<lambda>s. s \<in> {TFailed, TBlocked, TCancelled}) statuses \<and>
                 \<not> list_ex (\<lambda>s. s \<in> {TReady, TRunning, TPending}) statuses
         then add_event now pid None ''ORCHESTRATION_PLAN_FAILED'' ''ERROR'' []
                (set_row (\<lambda>p. p\<lparr>p_status := PFailed, p_heartbeat := Some now,
                                p_finished := Some now, p_error := Some ''one or more tasks failed''\<rparr>))
         else set_row (\<lambda>p. p\<lparr>p_status := (if p_status p = PReady then PRunning else p_status p),
                             p_started := coalesce (p_started p) (Some now),
                             p_heartbeat := Some now\<rparr>))"

definition refresh_plan_states :: "string \<Rightarrow> string \<Rightarrow> db \<Rightarrow> db" where
  "refresh_plan_states now pid db =
     (case plan_with db pid of
        None \<Rightarrow> db
      | Some plan \<Rightarrow>
          if p_status plan \<in> {PDraft, PCompleted, PFailed, PCancelled} then db
          else settle_plan now plan (refresh_tasks now pid db))"

section \<open>Reservation of an attempt\<close>

definition reservation_ineligibility_reason :: "db \<Rightarrow> task_row \<Rightarrow> ineligible option" where
  "reservation_ineligibility_reason db task =
     (if t_status task \<noteq> TReady then Some (NotReady (t_status task))
      else if t_max_attempts task \<le> t_attempt_count task then Some BudgetExhausted
      else case plan_with db (t_plan task) of
          None \<Rightarrow> Some PlanMissing
        | Some plan \<Rightarrow>
            if p_status plan \<notin> {PReady, PRunning} then Some (PlanNotActive (p_status plan))
            else let objectives = filter (\<lambda>b. o_plan b = Some (t_plan task)) (db_objectives db)
              in if 1 < length objectives then Some SeveralObjectives
                 else if objectives \<noteq> [] \<and> o_status (hd objectives) \<noteq> ORunning
                 then Some (ObjectiveNotRunning (o_status (hd objectives)))
                 else if plan_has_active_human_gate db (t_plan task) then Some HumanGate
                 else if p_max_parallel plan \<le> int (running_in_plan db (t_plan task)) then Some PlanLimit
                 else if project_is_busy db (t_project task) (t_id task) then Some ProjectBusy
                 else None)"

definition insert_attempt :: "attempt_row \<Rightarrow> db \<Rightarrow> orch_error + db" where
  "insert_attempt a db =
     (if a_id a \<in> a_id ` set (db_attempts db) \<or>
         (a_task a, a_number a) \<in> (\<lambda>b. (a_task b, a_number b)) ` set (db_attempts db) \<or>
         a_number a < 1 \<or> 10 < a_number a
      then Inl IntegrityError
      else Inr (db\<lparr>db_attempts := db_attempts db @ [a]\<rparr>))"

definition new_attempt_row :: "string \<Rightarrow> string \<Rightarrow> string \<Rightarrow> string \<Rightarrow> int \<Rightarrow> attempt_row" where
  "new_attempt_row now aid tid iid number =
     \<lparr>a_id = aid, a_task = tid, a_number = number, a_status = ARunning, a_instance = Some iid,
      a_run = None, a_worker = None, a_review = None, a_integration = None, a_result = JObj [],
      a_failure = None, a_started = now, a_heartbeat = now, a_finished = None\<rparr>"

definition start_task :: "string \<Rightarrow> string \<Rightarrow> int \<Rightarrow> db \<Rightarrow> db" where
  "start_task now tid number db =
     update_tasks (\<lambda>t. t_id t = tid \<and> t_status t = TReady)
       (\<lambda>t. t\<lparr>t_status := TRunning, t_attempt_count := number,
              t_started := coalesce (t_started t) (Some now), t_heartbeat := Some now,
              t_failure := None\<rparr>) db"

definition reserve_attempt ::
  "string \<Rightarrow> string \<Rightarrow> string \<Rightarrow> string \<Rightarrow> db \<Rightarrow> orch_error + (int \<times> task_row \<times> db)" where
  "reserve_attempt now tid aid iid db =
     (case task_with db tid of
        None \<Rightarrow> Inl (UnknownTask tid)
      | Some task \<Rightarrow>
          case reservation_ineligibility_reason db task of
            Some reason \<Rightarrow> Inl (Unstartable reason)
          | None \<Rightarrow>
              let number = t_attempt_count task + 1 in
              if count_where (\<lambda>t. t_id t = tid \<and> t_status t = TReady) (db_tasks db) \<noteq> 1
              then Inl LostRace
              else if 10 < number then Inl IntegrityError
              else rbind (insert_attempt (new_attempt_row now aid tid iid number) (start_task now tid number db))
                (\<lambda>db'. Inr (number, task,
                   add_event now (t_plan task) (Some tid) ''ORCHESTRATION_TASK_STARTED'' ''INFO''
                     [(''attempt_id'', JStr aid), (''attempt_number'', JInt number),
                      (''kind'', JStr (kind_text (t_kind task)))] db')))"

text \<open>One beat of \<^verbatim>\<open>heartbeat_attempt\<close>, and \<^verbatim>\<open>set_attempt_links\<close>.\<close>

definition heartbeat_attempt :: "string \<Rightarrow> string \<Rightarrow> string \<Rightarrow> db \<Rightarrow> db" where
  "heartbeat_attempt now tid aid db =
     (let db1 = update_tasks (\<lambda>t. t_id t = tid \<and> t_status t = TRunning)
                  (\<lambda>t. t\<lparr>t_heartbeat := Some now\<rparr>) db;
          db2 = update_attempts (\<lambda>a. a_id a = aid \<and> a_status a = ARunning)
                  (\<lambda>a. a\<lparr>a_heartbeat := now\<rparr>) db1
      in update_plans (\<lambda>p. Some (p_id p) = map_option t_plan (task_with db2 tid))
           (\<lambda>p. p\<lparr>p_heartbeat := Some now\<rparr>) db2)"

definition set_attempt_links ::
  "string \<Rightarrow> string \<Rightarrow> string option \<Rightarrow> string option \<Rightarrow> string option \<Rightarrow> string option \<Rightarrow> db \<Rightarrow> db" where
  "set_attempt_links now aid run worker review integration db =
     (if run = None \<and> worker = None \<and> review = None \<and> integration = None then db
      else update_attempts (\<lambda>a. a_id a = aid)
        (\<lambda>a. a\<lparr>a_run := coalesce run (a_run a), a_worker := coalesce worker (a_worker a),
               a_review := coalesce review (a_review a),
               a_integration := coalesce integration (a_integration a), a_heartbeat := now\<rparr>) db)"

section \<open>Results of a worker\<close>

text \<open>The row of the attempt, closed while it is RUNNING.\<close>

definition close_attempt ::
  "string \<Rightarrow> string \<Rightarrow> attempt_status \<Rightarrow> json option \<Rightarrow> string option option \<Rightarrow> db \<Rightarrow> db" where
  "close_attempt now aid status result failure db =
     update_attempts (\<lambda>a. a_id a = aid \<and> a_status a = ARunning)
       (\<lambda>a. a\<lparr>a_status := status,
              a_result := (case result of None \<Rightarrow> a_result a | Some r \<Rightarrow> r),
              a_failure := (case failure of None \<Rightarrow> a_failure a | Some f \<Rightarrow> f),
              a_heartbeat := now, a_finished := Some now\<rparr>) db"

fun attempt_status_text :: "attempt_status \<Rightarrow> string" where
  "attempt_status_text ARunning = ''RUNNING''"
| "attempt_status_text ACompleted = ''COMPLETED''"
| "attempt_status_text AFailed = ''FAILED''"
| "attempt_status_text AAbandoned = ''ABANDONED''"
| "attempt_status_text ACancelled = ''CANCELLED''"

definition finish_running_task_blocked_by_human_gate ::
  "string \<Rightarrow> task_row \<Rightarrow> string \<Rightarrow> attempt_status \<Rightarrow> json option \<Rightarrow> string option \<Rightarrow> db \<Rightarrow> db" where
  "finish_running_task_blocked_by_human_gate now task aid status result failure db =
     add_event now (t_plan task) (Some (t_id task)) ''ORCHESTRATION_TASK_BLOCKED_HUMAN'' ''WARNING''
       [(''attempt_id'', JStr aid), (''parallel_gate'', JBool True),
        (''attempt_status'', JStr (attempt_status_text status))]
       (update_tasks (\<lambda>t. t_id t = t_id task \<and> t_status t = TRunning)
          (\<lambda>t. t\<lparr>t_status := TBlocked,
                 t_result := (case result of None \<Rightarrow> t_result t | Some r \<Rightarrow> r),
                 t_failure := Some HUMAN_GATE_ERROR,
                 t_heartbeat := Some now, t_finished := Some now\<rparr>)
         (close_attempt now aid status result (Some failure) db))"

text \<open>
  \<^verbatim>\<open>result.get("kind") == "PIPELINE" and result.get("integration", {}).get(k)\<close>: an
  \<open>integration\<close> that is not a dict has no \<^verbatim>\<open>get\<close>, which \<open>execute_task\<close> meets before
  \<open>finish_task_success\<close> does.
\<close>

type_synonym members = "(string \<times> json) list"

definition integration_member :: "members \<Rightarrow> string \<Rightarrow> json" where
  "integration_member result k =
     (case jget_default result ''integration'' (JObj []) of
        JObj ms \<Rightarrow> jget ms k
      | _ \<Rightarrow> JNull)"

definition authorized_integration :: "members \<Rightarrow> bool" where
  "authorized_integration result \<longleftrightarrow>
     jget result ''kind'' = JStr ''PIPELINE'' \<and> py_truthy (integration_member result ''integrated'')"

definition finish_task_success :: "string \<Rightarrow> task_row \<Rightarrow> string \<Rightarrow> members \<Rightarrow> db \<Rightarrow> db" where
  "finish_task_success now task aid result db =
     (if plan_has_active_human_gate db (t_plan task) \<and> \<not> authorized_integration result
      then finish_running_task_blocked_by_human_gate now task aid ACompleted (Some (JObj result)) None db
      else
        add_event now (t_plan task) (Some (t_id task)) ''ORCHESTRATION_TASK_COMPLETED'' ''INFO''
          [(''attempt_id'', JStr aid)]
          (update_tasks (\<lambda>t. t_id t = t_id task \<and> t_status t = TRunning)
             (\<lambda>t. t\<lparr>t_status := TCompleted, t_result := JObj result, t_failure := None,
                    t_heartbeat := Some now, t_finished := Some now\<rparr>)
            (close_attempt now aid ACompleted (Some (JObj result)) None db)))"

definition cancellation_error :: "string option \<Rightarrow> string option" where
  "cancellation_error e =
     (if e = Some CANCELLATION_RECOVERY_ERROR then e else Some CANCELLATION_PENDING_ERROR)"

definition plan_cancellation_requested :: "db \<Rightarrow> string \<Rightarrow> bool" where
  "plan_cancellation_requested db pid =
     list_ex (\<lambda>b. o_plan b = Some pid \<and> o_status b \<in> {OCancelRequested, OCancelled}) (db_objectives db)"

text \<open>The tasks a human gate or a recovery stops: those not started, and the reporting one.\<close>

definition stops_with :: "task_row \<Rightarrow> task_row \<Rightarrow> bool" where
  "stops_with task t \<longleftrightarrow>
     t_plan t = t_plan task \<and>
     (t_status t \<in> {TPending, TReady} \<or> t_id t = t_id task \<and> t_status t = TRunning)"

definition block_row :: "string \<Rightarrow> task_row \<Rightarrow> members \<Rightarrow> string \<Rightarrow> task_row \<Rightarrow> task_row" where
  "block_row now task result reason t =
     t\<lparr>t_status := TBlocked,
       t_result := (if t_id t = t_id task then JObj result else t_result t),
       t_failure := Some reason, t_heartbeat := Some now, t_finished := Some now\<rparr>"

definition finish_task_waiting_human :: "string \<Rightarrow> task_row \<Rightarrow> string \<Rightarrow> members \<Rightarrow> db \<Rightarrow> db" where
  "finish_task_waiting_human now task aid result db =
     (let pid = t_plan task;
          db1 = close_attempt now aid ACompleted (Some (JObj result)) None db
      in if plan_cancellation_requested db pid then
           add_event now pid (Some (t_id task))
             ''ORCHESTRATION_HUMAN_GATE_SUPERSEDED_BY_CANCELLATION'' ''WARNING''
             [(''attempt_id'', JStr aid)]
             (update_plans (\<lambda>p. p_id p = pid \<and> p_status p \<in> {PReady, PRunning, PBlocked})
                (\<lambda>p. p\<lparr>p_status := PBlocked, p_heartbeat := Some now,
                       p_error := cancellation_error (p_error p)\<rparr>)
               (update_tasks (\<lambda>t. t_id t = t_id task \<and> t_status t \<in> {TRunning, TBlocked})
                  (\<lambda>t. t\<lparr>t_status := TBlocked, t_result := JObj result,
                         t_failure := cancellation_error (t_failure t),
                         t_heartbeat := Some now, t_finished := Some now\<rparr>) db1))
         else
           let deferred = plan_has_authorized_integration_in_flight db pid;
               db2 = update_tasks (stops_with task) (block_row now task result HUMAN_GATE_ERROR) db1;
               db3 = (if deferred
                      then update_plans (\<lambda>p. p_id p = pid \<and> p_status p \<in> {PReady, PRunning})
                             (\<lambda>p. p\<lparr>p_heartbeat := Some now, p_error := Some HUMAN_GATE_DEFERRED_ERROR\<rparr>) db2
                      else update_plans (\<lambda>p. p_id p = pid \<and> p_status p \<in> {PReady, PRunning, PBlocked})
                             (\<lambda>p. p\<lparr>p_status := PBlocked, p_heartbeat := Some now,
                                    p_error := Some HUMAN_GATE_ERROR\<rparr>) db2)
           in add_event now pid (Some (t_id task)) ''ORCHESTRATION_TASK_BLOCKED_HUMAN'' ''WARNING''
                [(''attempt_id'', JStr aid), (''deferred'', JBool deferred)] db3)"

definition finish_task_cancellation_recovery ::
  "string \<Rightarrow> task_row \<Rightarrow> string \<Rightarrow> members \<Rightarrow> db \<Rightarrow> db" where
  "finish_task_cancellation_recovery now task aid result db =
     add_event now (t_plan task) (Some (t_id task)) ''ORCHESTRATION_CANCELLATION_RECOVERY_REQUIRED''
       ''ERROR'' [(''attempt_id'', JStr aid), (''run_id'', jget result ''run_id'')]
       (update_plans (\<lambda>p. p_id p = t_plan task \<and> p_status p \<in> {PReady, PRunning, PBlocked})
          (\<lambda>p. p\<lparr>p_status := PBlocked, p_heartbeat := Some now,
                 p_error := Some CANCELLATION_RECOVERY_ERROR\<rparr>)
         (update_tasks (stops_with task) (block_row now task result CANCELLATION_RECOVERY_ERROR)
           (close_attempt now aid ACompleted (Some (JObj result)) None db)))"

text \<open>
  The task goes back to READY while it has attempts left, and is FAILED otherwise; \<open>stamp\<close> says
  whether the statement sets \<open>finished_at\<close>.
\<close>

definition reschedule :: "string \<Rightarrow> task_row \<Rightarrow> string \<Rightarrow> bool \<Rightarrow> db \<Rightarrow> db" where
  "reschedule now task reason stamp db =
     (let retry = t_attempt_count task < t_max_attempts task in
      update_tasks (\<lambda>t. t_id t = t_id task)
        (\<lambda>t. t\<lparr>t_status := (if retry then TReady else TFailed), t_failure := Some reason,
               t_heartbeat := Some now,
               t_finished := (if stamp then (if retry then None else Some now) else t_finished t)\<rparr>) db)"

definition finish_task_failure :: "string \<Rightarrow> task_row \<Rightarrow> string \<Rightarrow> string \<Rightarrow> db \<Rightarrow> db" where
  "finish_task_failure now task aid error db =
     (case task_with db (t_id task) of
        None \<Rightarrow> db
      | Some current \<Rightarrow>
          if plan_has_active_human_gate db (t_plan task)
          then finish_running_task_blocked_by_human_gate now task aid AFailed None (Some error) db
          else
            let retry = t_attempt_count current < t_max_attempts current in
            add_event now (t_plan task) (Some (t_id task))
              (if retry then ''ORCHESTRATION_TASK_RETRY'' else ''ORCHESTRATION_TASK_FAILED'')
              (if retry then ''WARNING'' else ''ERROR'')
              [(''attempt_id'', JStr aid), (''failure_reason'', JStr error), (''retry'', JBool retry)]
              (reschedule now current error True (close_attempt now aid AFailed None (Some (Some error)) db)))"

text \<open>
  The end of \<^verbatim>\<open>execute_task\<close>: the outcome of the work (an error text, or the result dict)
  selects the transaction; a result whose \<open>integration\<close> is not a dict raises AttributeError, which
  is a failure of the task; the plan is refreshed last.
\<close>

fun json_type_name :: "json \<Rightarrow> string" where
  "json_type_name JNull = ''NoneType''"
| "json_type_name (JBool _) = ''bool''"
| "json_type_name (JInt _) = ''int''"
| "json_type_name (JFloat _) = ''float''"
| "json_type_name (JStr _) = ''str''"
| "json_type_name (JArr _) = ''list''"
| "json_type_name (JObj _) = ''dict''"

definition settle_task :: "string \<Rightarrow> task_row \<Rightarrow> string \<Rightarrow> string + members \<Rightarrow> db \<Rightarrow> db" where
  "settle_task now task aid outcome db =
     (case outcome of
        Inl error \<Rightarrow> finish_task_failure now task aid error db
      | Inr result \<Rightarrow>
          if jget result ''kind'' \<noteq> JStr ''PIPELINE'' then finish_task_success now task aid result db
          else case jget_default result ''integration'' (JObj []) of
              JObj ms \<Rightarrow>
                if jget ms ''action'' = JStr ''CANCEL'' \<and> jget ms ''status'' = JStr ''RECOVERING''
                then finish_task_cancellation_recovery now task aid result db
                else if jget ms ''action'' = JStr ''BLOCK_HUMAN''
                then finish_task_waiting_human now task aid result db
                else finish_task_success now task aid result db
            | v \<Rightarrow> finish_task_failure now task aid
                     (CHR 0x27 # json_type_name v @ [CHR 0x27] @ '' object has no attribute '' @
                      [CHR 0x27] @ ''get'' @ [CHR 0x27]) db)"

definition conclude_task :: "string \<Rightarrow> task_row \<Rightarrow> string \<Rightarrow> string + members \<Rightarrow> db \<Rightarrow> db" where
  "conclude_task now task aid outcome db =
     refresh_plan_states now (t_plan task) (settle_task now task aid outcome db)"

section \<open>Cancellation cleanup\<close>

text \<open>The tasks and the plans a run belongs to, through the attempts linked to it.\<close>

definition run_tasks :: "db \<Rightarrow> string \<Rightarrow> string list" where
  "run_tasks db rid = [a_task a. a \<leftarrow> db_attempts db, a_run a = Some rid]"

definition run_owners :: "db \<Rightarrow> string \<Rightarrow> task_row list" where
  "run_owners db rid =
     [t. a \<leftarrow> db_attempts db, a_run a = Some rid, t \<leftarrow> db_tasks db, t_id t = a_task a]"

definition lock_present :: "db \<Rightarrow> string \<Rightarrow> bool" where
  "lock_present db rid = list_ex (\<lambda>l. l_run l = rid) (db_locks db)"

definition mark_cancellation_cleanup_recovery :: "string \<Rightarrow> string \<Rightarrow> string \<Rightarrow> db \<Rightarrow> bool \<times> db" where
  "mark_cancellation_cleanup_recovery now rid reason db =
     (case run_with db rid of
        None \<Rightarrow> (False, db)
      | Some run \<Rightarrow>
          if r_status run = RCancelled \<and> \<not> lock_present db rid then (True, db)
          else if r_status run = RCompleted then (False, db)
          else
            let db1 = update_integrations (\<lambda>i. i_run i = rid \<and> i_status i = IPrepared)
                        (\<lambda>i. i\<lparr>i_status := IFailed, i_failure := coalesce (i_failure i) (Some reason),
                               i_finished := coalesce (i_finished i) (Some now)\<rparr>) db;
                db2 = update_runs (\<lambda>r. r_id r = rid)
                        (\<lambda>r. r\<lparr>r_status := RRecovering, r_recovery := Some RollbackSafe,
                               r_heartbeat := Some now\<rparr>) db1;
                db3 = update_approvals (\<lambda>ap. ap_run ap = rid \<and> ap_status ap = APPending)
                        (\<lambda>ap. ap\<lparr>ap_status := APCancelled,
                                 ap_resolved := coalesce (ap_resolved ap) (Some now)\<rparr>) db2;
                db4 = update_tasks
                        (\<lambda>t. t_id t \<in> set (run_tasks db3 rid) \<and>
                             t_status t \<in> {TPending, TReady, TRunning, TBlocked})
                        (\<lambda>t. t\<lparr>t_status := TBlocked, t_failure := Some CANCELLATION_RECOVERY_ERROR,
                               t_heartbeat := Some now, t_finished := Some now\<rparr>) db3;
                db5 = update_plans
                        (\<lambda>p. p_id p \<in> t_plan ` set (run_owners db4 rid) \<and>
                             p_status p \<in> {PReady, PRunning, PBlocked})
                        (\<lambda>p. p\<lparr>p_status := PBlocked, p_heartbeat := Some now,
                               p_error := Some CANCELLATION_RECOVERY_ERROR\<rparr>) db4
            in (False,
                case run_owners db5 rid of
                  [] \<Rightarrow> db5
                | t # _ \<Rightarrow>
                    add_event now (t_plan t) (Some (t_id t)) ''ORCHESTRATION_CANCELLATION_ROLLBACK_FAILED''
                      ''ERROR'' [(''run_id'', JStr rid), (''reason'', JStr reason)] db5))"

text \<open>
  \<^verbatim>\<open>rollback_run_best_effort\<close>: the transaction engine is another process. \<open>rollback\<close> is its
  effect on the database and its end: an error text when \<^verbatim>\<open>run_command\<close> raises (a timeout),
  or its return code.
\<close>

definition rollback_run_best_effort ::
  "(db \<Rightarrow> db \<times> (string + int)) \<Rightarrow> string \<Rightarrow> string option \<Rightarrow> db \<Rightarrow> bool \<times> db" where
  "rollback_run_best_effort rollback now run db =
     (case run of
        None \<Rightarrow> (True, db)
      | Some rid \<Rightarrow>
          if rid = [] then (True, db)
          else case run_with db rid of
              None \<Rightarrow> (True, db)
            | Some r \<Rightarrow>
                if r_status r \<in> {RQueued, RCompleted, RCancelled} then (True, db)
                else case rollback db of
                    (db', Inl error) \<Rightarrow> mark_cancellation_cleanup_recovery now rid error db'
                  | (db', Inr code) \<Rightarrow>
                      if code \<noteq> 0
                      then mark_cancellation_cleanup_recovery now rid
                             (''rollback exited with status '' @ dec_int code) db'
                      else case run_with db' rid of
                          None \<Rightarrow> mark_cancellation_cleanup_recovery now rid
                              ''rollback reported success without terminal cleanup'' db'
                        | Some final \<Rightarrow>
                            if r_status final = RCancelled \<and> \<not> lock_present db' rid then (True, db')
                            else mark_cancellation_cleanup_recovery now rid
                              ''rollback reported success without terminal cleanup'' db')"

text \<open>The runs \<^verbatim>\<open>cleanup_cancel_requested_human_runs\<close> rolls back, in the order of their ids.\<close>

definition cancel_requested_human_runs :: "db \<Rightarrow> string list" where
  "cancel_requested_human_runs db =
     remdups (sort [r_id r. b \<leftarrow> db_objectives db, o_status b = OCancelRequested,
        t \<leftarrow> db_tasks db, o_plan b = Some (t_plan t),
        a \<leftarrow> db_attempts db, a_task a = t_id t,
        r \<leftarrow> db_runs db, a_run a = Some (r_id r), r_status r = RWaitingHuman])"

definition cleanup_cancel_requested_human_runs ::
  "(string \<Rightarrow> db \<Rightarrow> db \<times> (string + int)) \<Rightarrow> string \<Rightarrow> db \<Rightarrow> db" where
  "cleanup_cancel_requested_human_runs rollback now db =
     fold (\<lambda>rid db. snd (rollback_run_best_effort (rollback rid) now (Some rid) db))
       (cancel_requested_human_runs db) db"

section \<open>Reconciliation after a restart\<close>

text \<open>
  \<^verbatim>\<open>reconcile_interrupted_tasks\<close>: the RUNNING tasks, each with its RUNNING attempts (one row
  with no attempt when there is none), then one pass over these rows.
\<close>

definition interrupted :: "db \<Rightarrow> (task_row \<times> attempt_row option) list" where
  "interrupted db =
     concat (map (\<lambda>t.
        (case filter (\<lambda>a. a_task a = t_id t \<and> a_status a = ARunning) (db_attempts db) of
           [] \<Rightarrow> [(t, None)]
         | as \<Rightarrow> map (\<lambda>a. (t, Some a)) as))
       (filter (\<lambda>t. t_status t = TRunning) (db_tasks db)))"

definition abandon_attempt :: "string \<Rightarrow> string \<Rightarrow> string \<Rightarrow> db \<Rightarrow> db" where
  "abandon_attempt now aid reason db =
     update_attempts (\<lambda>a. a_id a = aid)
       (\<lambda>a. a\<lparr>a_status := AAbandoned, a_failure := Some reason, a_heartbeat := now,
              a_finished := Some now\<rparr>) db"

definition reconciled_result :: "attempt_row \<Rightarrow> string \<Rightarrow> db \<Rightarrow> json" where
  "reconciled_result a rid db =
     JObj [(''kind'', JStr ''PIPELINE''), (''run_id'', JStr rid),
           (''reconciled_after_restart'', JBool True),
           (''integration_id'',
              (case select_one (\<lambda>b. a_id b = a_id a) (db_attempts db) of
                 None \<Rightarrow> JNull
               | Some b \<Rightarrow> opt_json (a_integration b)))]"

definition reconcile_row :: "string \<Rightarrow> string \<Rightarrow> task_row \<times> attempt_row option \<Rightarrow> db \<Rightarrow> db" where
  "reconcile_row now iid row db =
     (case row of
        (task, None) \<Rightarrow> reschedule now task ''missing running attempt after restart'' True db
      | (task, Some a) \<Rightarrow>
          if t_kind task \<noteq> PIPELINE then
            reschedule now task ''rescheduled after orchestrator restart'' True
              (update_attempts (\<lambda>b. a_id b = a_id a \<and> a_status b = ARunning)
                 (\<lambda>b. b\<lparr>a_status := AAbandoned, a_failure := Some ''orchestrator process restarted'',
                        a_heartbeat := now, a_finished := Some now\<rparr>) db)
          else case a_run a of
              None \<Rightarrow>
                reschedule now task ''pipeline rescheduled after restart'' False
                  (abandon_attempt now (a_id a) ''pipeline restart before transaction reservation'' db)
            | Some rid \<Rightarrow>
                case run_with db rid of
                  None \<Rightarrow>
                    reschedule now task ''pipeline run did not complete'' True
                      (abandon_attempt now (a_id a) ''pipeline run is terminal after restart'' db)
                | Some run \<Rightarrow>
                    if r_status run \<in> {RCancelled, RFailed} then
                      reschedule now task ''pipeline run did not complete'' True
                        (abandon_attempt now (a_id a) ''pipeline run is terminal after restart'' db)
                    else if r_status run = RCompleted then
                      let result = reconciled_result a rid db in
                      update_tasks (\<lambda>t. t_id t = t_id task)
                        (\<lambda>t. t\<lparr>t_status := TCompleted, t_result := result, t_failure := None,
                               t_heartbeat := Some now, t_finished := Some now\<rparr>)
                        (update_attempts (\<lambda>b. a_id b = a_id a)
                           (\<lambda>b. b\<lparr>a_status := ACompleted, a_result := result, a_heartbeat := now,
                                  a_finished := Some now\<rparr>) db)
                    else
                      update_attempts (\<lambda>b. a_id b = a_id a)
                        (\<lambda>b. b\<lparr>a_instance := Some iid, a_heartbeat := now\<rparr>) db)"

definition unsettled_plans :: "db \<Rightarrow> string list" where
  "unsettled_plans db =
     first_occurrences [t_plan t. t \<leftarrow> db_tasks db, t_status t \<notin> {TCompleted, TCancelled}]"

definition reconcile_interrupted_tasks :: "string \<Rightarrow> string \<Rightarrow> db \<Rightarrow> db" where
  "reconcile_interrupted_tasks now iid db =
     (let db1 = fold (reconcile_row now iid) (interrupted db) db
      in fold (refresh_plan_states now) (unsettled_plans db1) db1)"

section \<open>The operator's commands\<close>

definition command_activate :: "string \<Rightarrow> string \<Rightarrow> db \<Rightarrow> orch_error + db" where
  "command_activate now pid db =
     (if count_where (\<lambda>p. p_id p = pid \<and> p_status p = PDraft) (db_plans db) \<noteq> 1 then Inl NotDraft
      else Inr (refresh_plan_states now pid
        (update_plans (\<lambda>p. p_id p = pid \<and> p_status p = PDraft)
           (\<lambda>p. p\<lparr>p_status := PReady, p_heartbeat := Some now, p_error := None\<rparr>) db)))"

definition command_cancel :: "string \<Rightarrow> string \<Rightarrow> db \<Rightarrow> orch_error + db" where
  "command_cancel now pid db =
     (case plan_with db pid of
        None \<Rightarrow> Inl (UnknownPlan pid)
      | Some plan \<Rightarrow>
          if p_status plan \<in> {PCompleted, PFailed, PCancelled} then Inl (PlanTerminal (p_status plan))
          else if running_in_plan db pid \<noteq> 0 then Inl TaskStillRunning
          else Inr (update_plans (\<lambda>p. p_id p = pid)
                 (\<lambda>p. p\<lparr>p_status := PCancelled, p_heartbeat := Some now, p_finished := Some now\<rparr>)
                (update_tasks (\<lambda>t. t_plan t = pid \<and> t_status t \<in> {TPending, TReady, TBlocked})
                   (\<lambda>t. t\<lparr>t_status := TCancelled, t_heartbeat := Some now, t_finished := Some now\<rparr>) db)))"

end
