(* ===== verification/Objective_Queue.thy ===== *)
theory Objective_Queue
  imports Orch_Tasks
begin

text \<open>
  The objective queue: the sweep, the promotion and the planning transactions of
  \<^verbatim>\<open>scripts/hermesops-orchestrator.py\<close>, and the operator's side in
  \<^verbatim>\<open>scripts/hermesops-objectives.py\<close> (submit, pause, resume, cancel). Timestamps are text and
  compared as text, as SQLite does.
\<close>

section \<open>Text of the statuses\<close>

fun objective_status_text :: "objective_status \<Rightarrow> string" where
  "objective_status_text OQueued = ''QUEUED''"
| "objective_status_text OPlanning = ''PLANNING''"
| "objective_status_text ORunning = ''RUNNING''"
| "objective_status_text OPauseRequested = ''PAUSE_REQUESTED''"
| "objective_status_text OPaused = ''PAUSED''"
| "objective_status_text OCancelRequested = ''CANCEL_REQUESTED''"
| "objective_status_text OCompleted = ''COMPLETED''"
| "objective_status_text OFailed = ''FAILED''"
| "objective_status_text OCancelled = ''CANCELLED''"

fun source_text :: "plan_source \<Rightarrow> string" where
  "source_text AI = ''AI''"
| "source_text DECLARATIVE = ''DECLARATIVE''"
| "source_text TEST = ''TEST''"

definition terminal_objective :: "objective_status \<Rightarrow> bool" where
  "terminal_objective s \<longleftrightarrow> s \<in> {OCompleted, OFailed, OCancelled}"

text \<open>The status and the error an objective takes over from a terminal plan.\<close>

fun objective_of_plan :: "plan_status \<Rightarrow> objective_status option" where
  "objective_of_plan PCompleted = Some OCompleted"
| "objective_of_plan PFailed = Some OFailed"
| "objective_of_plan PCancelled = Some OCancelled"
| "objective_of_plan _ = None"

definition linked_error :: "objective_status \<Rightarrow> string option" where
  "linked_error s =
     (if s = OFailed then Some ''linked orchestration plan failed''
      else if s = OCancelled then Some ''linked orchestration plan cancelled'' else None)"

section \<open>Queries\<close>

definition objective_running_tasks :: "db \<Rightarrow> string option \<Rightarrow> nat" where
  "objective_running_tasks db plan = (case plan of None \<Rightarrow> 0 | Some pid \<Rightarrow> running_in_plan db pid)"

text \<open>The runs linked to the attempts of the tasks of a plan.\<close>

definition plan_runs :: "db \<Rightarrow> string \<Rightarrow> run_row list" where
  "plan_runs db pid =
     [r. a \<leftarrow> db_attempts db, t \<leftarrow> db_tasks db, t_id t = a_task a, t_plan t = pid,
         r \<leftarrow> db_runs db, a_run a = Some (r_id r)]"

definition cancellation_cleanup_pending :: "db \<Rightarrow> string option \<Rightarrow> bool" where
  "cancellation_cleanup_pending db plan =
     (case plan of
        None \<Rightarrow> False
      | Some pid \<Rightarrow> list_ex (\<lambda>r. r_status r \<notin> {RCompleted, RFailed, RCancelled}) (plan_runs db pid))"

definition linked_plan_status :: "db \<Rightarrow> objective_row \<Rightarrow> plan_status option" where
  "linked_plan_status db b =
     (case o_plan b of None \<Rightarrow> None | Some pid \<Rightarrow> map_option p_status (plan_with db pid))"

definition cancel_objective_plan :: "string \<Rightarrow> string option \<Rightarrow> db \<Rightarrow> db" where
  "cancel_objective_plan now plan db =
     (case plan of
        None \<Rightarrow> db
      | Some pid \<Rightarrow>
          update_plans (\<lambda>p. p_id p = pid \<and> p_status p \<notin> {PCompleted, PFailed, PCancelled})
            (\<lambda>p. p\<lparr>p_status := PCancelled, p_heartbeat := Some now, p_finished := Some now,
                   p_error := Some ''objective cancelled''\<rparr>)
           (update_tasks (\<lambda>t. t_plan t = pid \<and> t_status t \<in> {TPending, TReady, TBlocked})
              (\<lambda>t. t\<lparr>t_status := TCancelled, t_heartbeat := Some now, t_finished := Some now,
                     t_failure := coalesce (t_failure t) (Some ''objective cancelled'')\<rparr>) db))"

definition active_objective_count :: "db \<Rightarrow> nat" where
  "active_objective_count db =
     count_where (\<lambda>b. o_status b \<in> {OPlanning, ORunning, OPauseRequested, OCancelRequested})
       (db_objectives db)"

definition objective_cancellation_requested :: "db \<Rightarrow> string \<Rightarrow> bool" where
  "objective_cancellation_requested db pid =
     (case select_one (\<lambda>b. o_plan b = Some pid) (db_objectives db) of
        None \<Rightarrow> False
      | Some b \<Rightarrow> o_status b \<in> {OCancelRequested, OCancelled})"

section \<open>The sweep\<close>

text \<open>
  \<^verbatim>\<open>synchronize_objective_states\<close>: the rows and the statuses of their plans are read first, then
  each row is settled in the order of creation. \<open>sync_target\<close> is the new status and its error.
\<close>

definition sync_target ::
  "db \<Rightarrow> objective_row \<Rightarrow> plan_status option \<Rightarrow> (objective_status \<times> string option) option" where
  "sync_target db b plan =
     (let running = objective_running_tasks db (o_plan b) in
      if o_status b = OCancelRequested then
        (if running = 0 \<and> \<not> cancellation_cleanup_pending db (o_plan b)
         then Some (OCancelled, Some ''cancelled by operator'') else None)
      else if o_status b = OPauseRequested \<and> running = 0 then Some (OPaused, None)
      else case plan of
          None \<Rightarrow> None
        | Some s \<Rightarrow> map_option (\<lambda>new. (new, linked_error new)) (objective_of_plan s))"

definition sync_row :: "string \<Rightarrow> objective_row \<times> plan_status option \<Rightarrow> db \<Rightarrow> db" where
  "sync_row now row db =
     (case row of (b, plan) \<Rightarrow>
        case sync_target db b plan of
          None \<Rightarrow> update_objectives (\<lambda>c. o_id c = o_id b) (\<lambda>c. c\<lparr>o_heartbeat := now\<rparr>) db
        | Some (new, err) \<Rightarrow>
            if new = o_status b
            then update_objectives (\<lambda>c. o_id c = o_id b) (\<lambda>c. c\<lparr>o_heartbeat := now\<rparr>) db
            else
              let db1 = (if o_status b = OCancelRequested then cancel_objective_plan now (o_plan b) db else db)
              in add_objective_event now (o_id b) (''OBJECTIVE_'' @ objective_status_text new)
                   (Some (o_status b)) (Some new) [(''plan_id'', opt_json (o_plan b))]
                   (update_objectives (\<lambda>c. o_id c = o_id b)
                      (\<lambda>c. c\<lparr>o_status := new, o_heartbeat := now,
                             o_paused := (if new = OPaused then Some now else o_paused c),
                             o_finished := (if terminal_objective new then Some now else None),
                             o_error := err\<rparr>) db1))"

definition sync_rows :: "db \<Rightarrow> (objective_row \<times> plan_status option) list" where
  "sync_rows db =
     map (\<lambda>b. (b, linked_plan_status db b))
       (sort_key o_created (filter (\<lambda>b. \<not> terminal_objective (o_status b)) (db_objectives db)))"

definition synchronize_objective_states :: "string \<Rightarrow> db \<Rightarrow> db" where
  "synchronize_objective_states now db = fold (sync_row now) (sync_rows db) db"

section \<open>Dispatch\<close>

definition next_queued_objective :: "string \<Rightarrow> db \<Rightarrow> objective_row option" where
  "next_queued_objective now db =
     (case sort_key (\<lambda>b. (o_priority b, o_created b))
             (filter (\<lambda>b. o_status b = OQueued \<and> o_not_before b \<le> now) (db_objectives db)) of
        [] \<Rightarrow> None
      | b # _ \<Rightarrow> Some b)"

text \<open>
  \<^verbatim>\<open>promote_planned_objective\<close>: every source is admitted by its IN list, and every plan status
  by one of its branches.
\<close>

definition promote_planned_objective :: "string \<Rightarrow> string \<Rightarrow> db \<Rightarrow> string option \<times> db" where
  "promote_planned_objective now oid db =
     (case select_one (\<lambda>b. o_id b = oid \<and> o_status b = OQueued \<and> o_not_before b \<le> now)
             (db_objectives db) of
        None \<Rightarrow> (None, db)
      | Some b \<Rightarrow>
          case o_plan b of
            None \<Rightarrow> (None, db)
          | Some pid \<Rightarrow>
              case plan_with db pid of
                None \<Rightarrow> (None, db)
              | Some plan \<Rightarrow>
                  let db1 = (if p_status plan = PDraft
                             then update_plans (\<lambda>p. p_id p = pid \<and> p_status p = PDraft)
                                    (\<lambda>p. p\<lparr>p_status := PReady, p_heartbeat := Some now, p_error := None\<rparr>) db
                             else db);
                      new = (case objective_of_plan (p_status plan) of None \<Rightarrow> ORunning | Some s \<Rightarrow> s)
                  in if count_where (\<lambda>c. o_id c = oid \<and> o_status c = OQueued) (db_objectives db1) \<noteq> 1
                     then (None, db)
                     else (Some pid,
                       add_objective_event now oid
                         (if new = ORunning then ''OBJECTIVE_DISPATCHED''
                          else ''OBJECTIVE_'' @ objective_status_text new)
                         (Some OQueued) (Some new) [(''plan_id'', JStr pid)]
                         (update_objectives (\<lambda>c. o_id c = oid \<and> o_status c = OQueued)
                            (\<lambda>c. c\<lparr>o_status := new, o_started := coalesce (o_started c) (Some now),
                                   o_heartbeat := now,
                                   o_finished := (if terminal_objective new then Some now else None),
                                   o_paused := None, o_error := linked_error new\<rparr>) db1)))"

section \<open>Planning\<close>

definition insert_oattempt :: "oattempt_row \<Rightarrow> db \<Rightarrow> orch_error + db" where
  "insert_oattempt a db =
     (if oa_id a \<in> oa_id ` set (db_oattempts db) \<or>
         (oa_objective a, oa_number a) \<in> (\<lambda>b. (oa_objective b, oa_number b)) ` set (db_oattempts db) \<or>
         oa_number a < 1 \<or> 5 < oa_number a
      then Inl IntegrityError
      else Inr (db\<lparr>db_oattempts := db_oattempts db @ [a]\<rparr>))"

definition reserve_ai_objective ::
  "string \<Rightarrow> string \<Rightarrow> string \<Rightarrow> string \<Rightarrow> int \<Rightarrow> db \<Rightarrow> orch_error + (objective_row option \<times> db)" where
  "reserve_ai_objective now oid aid iid global_parallel db =
     (if global_parallel \<le> int (active_objective_count db) then Inr (None, db)
      else case select_one (\<lambda>b. o_id b = oid \<and> o_status b = OQueued \<and> o_source b = AI \<and>
                                o_plan b = None \<and> o_not_before b \<le> now) (db_objectives db) of
          None \<Rightarrow> Inr (None, db)
        | Some b \<Rightarrow>
            let number = o_planning_count b + 1 in
            if o_planning_max b < number then
              Inr (None, update_objectives (\<lambda>c. o_id c = o_id b)
                (\<lambda>c. c\<lparr>o_status := OFailed, o_heartbeat := now, o_finished := Some now,
                       o_error := Some ''planning attempt budget exhausted''\<rparr>) db)
            else if count_where (\<lambda>c. o_id c = o_id b \<and> o_status c = OQueued) (db_objectives db) \<noteq> 1
            then Inr (None, db)
            else if 5 < number then Inl IntegrityError
            else rbind
              (insert_oattempt
                 \<lparr>oa_id = aid, oa_objective = o_id b, oa_number = number, oa_status = ARunning,
                  oa_instance = Some iid, oa_execution = None, oa_plan = None, oa_result = JObj [],
                  oa_failure = None, oa_started = now, oa_heartbeat = now, oa_finished = None,
                  oa_next = None\<rparr>
                 (update_objectives (\<lambda>c. o_id c = o_id b \<and> o_status c = OQueued)
                    (\<lambda>c. c\<lparr>o_status := OPlanning, o_planning_count := number,
                           o_started := coalesce (o_started c) (Some now), o_heartbeat := now,
                           o_error := None\<rparr>) db))
              (\<lambda>db1. Inr (Some b,
                 add_objective_event now (o_id b) ''OBJECTIVE_PLANNING_STARTED'' (Some OQueued) (Some OPlanning)
                   [(''attempt_id'', JStr aid), (''attempt_number'', JInt number)] db1)))"

text \<open>
  The rows a planning result names: the plan, the planner execution (foreign keys), and no other
  objective with this plan (\<^verbatim>\<open>plan_id\<close> is UNIQUE).
\<close>

definition planning_rows_exist :: "string \<Rightarrow> string \<Rightarrow> db \<Rightarrow> bool" where
  "planning_rows_exist pid xid db \<longleftrightarrow>
     pid \<in> p_id ` set (db_plans db) \<and> xid \<in> x_id ` set (db_executions db)"

definition planning_links_ok :: "string \<Rightarrow> string \<Rightarrow> string \<Rightarrow> db \<Rightarrow> bool" where
  "planning_links_ok oid pid xid db \<longleftrightarrow>
     planning_rows_exist pid xid db \<and>
     list_all (\<lambda>b. o_plan b = Some pid \<longrightarrow> o_id b = oid) (db_objectives db)"

definition finish_objective_planning_success ::
  "string \<Rightarrow> string \<Rightarrow> string \<Rightarrow> string \<Rightarrow> string \<Rightarrow> members \<Rightarrow> db \<Rightarrow> orch_error + db" where
  "finish_objective_planning_success now oid aid pid xid result db =
     (case objective_with db oid of
        None \<Rightarrow> Inl (ObjectiveDisappeared oid)
      | Some b \<Rightarrow>
          let old = o_status b in
          if list_ex (\<lambda>a. oa_id a = aid \<and> oa_status a = ARunning) (db_oattempts db) \<and>
             \<not> planning_rows_exist pid xid db then Inl IntegrityError
          else if old \<notin> {OCancelRequested, OPauseRequested, OPlanning} then Inl (UnexpectedObjectiveStatus old)
          else if \<not> planning_links_ok oid pid xid db then Inl IntegrityError
          else
            let db1 = update_oattempts (\<lambda>a. oa_id a = aid \<and> oa_status a = ARunning)
                        (\<lambda>a. a\<lparr>oa_status := ACompleted, oa_execution := Some xid, oa_plan := Some pid,
                               oa_result := JObj result, oa_heartbeat := now, oa_finished := Some now\<rparr>) db;
                db2 = (if old = OCancelRequested then cancel_objective_plan now (Some pid) db1
                       else if old = OPlanning
                       then update_plans (\<lambda>p. p_id p = pid \<and> p_status p = PDraft)
                              (\<lambda>p. p\<lparr>p_status := PReady, p_heartbeat := Some now, p_error := None\<rparr>) db1
                       else db1);
                new = (if old = OCancelRequested then OCancelled
                       else if old = OPauseRequested then OPaused else ORunning);
                finished = (if old = OCancelRequested then Some now else None);
                err = (if old = OCancelRequested then Some ''cancelled by operator during planning'' else None)
            in Inr (add_objective_event now oid ''OBJECTIVE_PLANNED'' (Some old) (Some new)
                 [(''attempt_id'', JStr aid), (''plan_id'', JStr pid), (''planner_execution_id'', JStr xid)]
                 (update_objectives (\<lambda>c. o_id c = oid)
                    (\<lambda>c. c\<lparr>o_status := new, o_plan := Some pid, o_execution := Some xid,
                           o_heartbeat := now, o_finished := finished,
                           o_paused := (if new = OPaused then Some now else None), o_error := err\<rparr>) db2)))"

text \<open>\<open>later s\<close> is \<^verbatim>\<open>future_utc(s)\<close>: the text of the time \<open>s\<close> seconds after now.\<close>

definition planning_failure_target ::
  "(int \<Rightarrow> string) \<Rightarrow> int \<Rightarrow> objective_row \<Rightarrow> objective_status \<times> string option" where
  "planning_failure_target later backoff b =
     (if o_status b = OCancelRequested then (OCancelled, None)
      else if o_status b = OPauseRequested then (OPaused, None)
      else if o_planning_count b < o_planning_max b
      then (OQueued, Some (later (backoff * o_planning_count b)))
      else (OFailed, None))"

definition finish_objective_planning_failure ::
  "(int \<Rightarrow> string) \<Rightarrow> int \<Rightarrow> string \<Rightarrow> string \<Rightarrow> string \<Rightarrow> string \<Rightarrow> db \<Rightarrow> db" where
  "finish_objective_planning_failure later backoff now oid aid error db =
     (case objective_with db oid of
        None \<Rightarrow> db
      | Some b \<Rightarrow>
          case planning_failure_target later backoff b of
            (new, next) \<Rightarrow>
              add_objective_event now oid
                (if new = OQueued then ''OBJECTIVE_PLANNING_RETRY'' else ''OBJECTIVE_PLANNING_FAILED'')
                (Some (o_status b)) (Some new)
                [(''attempt_id'', JStr aid), (''error'', JStr error), (''next_attempt_at'', opt_json next)]
                (update_objectives (\<lambda>c. o_id c = oid)
                   (\<lambda>c. c\<lparr>o_status := new,
                          o_not_before := (case next of None \<Rightarrow> o_not_before c | Some n \<Rightarrow> n),
                          o_heartbeat := now,
                          o_finished := (if new \<in> {OFailed, OCancelled} then Some now else None),
                          o_paused := (if new = OPaused then Some now else o_paused c),
                          o_error := Some error\<rparr>)
                   (update_oattempts (\<lambda>a. oa_id a = aid \<and> oa_status a = ARunning)
                      (\<lambda>a. a\<lparr>oa_status := AFailed, oa_failure := Some error, oa_heartbeat := now,
                             oa_finished := Some now, oa_next := next\<rparr>) db)))"

text \<open>
  The end of \<^verbatim>\<open>execute_objective_planning\<close>: the planner is another process, its outcome an
  error text or the ids and the dict it printed; an error of the success transaction is a planning
  failure with its text.
\<close>

definition conclude_planning ::
  "(int \<Rightarrow> string) \<Rightarrow> int \<Rightarrow> (orch_error \<Rightarrow> string) \<Rightarrow> string \<Rightarrow> string \<Rightarrow> string \<Rightarrow>
     string + (string \<times> string \<times> members) \<Rightarrow> db \<Rightarrow> db" where
  "conclude_planning later backoff text now oid aid outcome db =
     (case outcome of
        Inl error \<Rightarrow> finish_objective_planning_failure later backoff now oid aid error db
      | Inr (pid, xid, result) \<Rightarrow>
          case finish_objective_planning_success now oid aid pid xid result db of
            Inr db' \<Rightarrow> db'
          | Inl e \<Rightarrow> finish_objective_planning_failure later backoff now oid aid (text e) db)"

section \<open>Reconciliation after a restart\<close>

definition reconcile_interrupted_planner_executions :: "string \<Rightarrow> db \<Rightarrow> db" where
  "reconcile_interrupted_planner_executions now db =
     update_executions (\<lambda>x. x_finished x = None)
       (\<lambda>x. x\<lparr>x_exit := coalesce (x_exit x) (Some 137),
              x_failure := coalesce (x_failure x) (Some ''orchestrator process restarted during planning''),
              x_finished := Some now\<rparr>) db"

definition interrupted_objectives :: "db \<Rightarrow> (objective_row \<times> oattempt_row option) list" where
  "interrupted_objectives db =
     concat (map (\<lambda>b.
        (case filter (\<lambda>a. oa_objective a = o_id b \<and> oa_status a = ARunning) (db_oattempts db) of
           [] \<Rightarrow> [(b, None)]
         | as \<Rightarrow> map (\<lambda>a. (b, Some a)) as))
       (filter (\<lambda>b. o_status b = OPlanning) (db_objectives db)))"

definition reconcile_objective ::
  "string \<Rightarrow> string \<Rightarrow> objective_row \<times> oattempt_row option \<Rightarrow> db \<Rightarrow> db" where
  "reconcile_objective now iid row db =
     (case row of (b, att) \<Rightarrow>
        let db1 = (case att of
                None \<Rightarrow> db
              | Some a \<Rightarrow>
                  update_oattempts (\<lambda>c. oa_id c = oa_id a \<and> oa_status c = ARunning)
                    (\<lambda>c. c\<lparr>oa_status := AAbandoned, oa_heartbeat := now, oa_finished := Some now,
                           oa_failure := Some ''orchestrator process restarted''\<rparr>) db);
            new = (if o_planning_count b < o_planning_max b then OQueued else OFailed)
        in add_objective_event now (o_id b) ''OBJECTIVE_PLANNING_ABANDONED'' (Some OPlanning) (Some new)
             [(''instance_id'', JStr iid)]
             (update_objectives (\<lambda>c. o_id c = o_id b \<and> o_status c = OPlanning)
                (\<lambda>c. c\<lparr>o_status := new, o_not_before := now, o_heartbeat := now,
                       o_finished := (if new = OFailed then Some now else None),
                       o_error := Some ''orchestrator process restarted during planning''\<rparr>) db1))"

definition reconcile_interrupted_objectives :: "string \<Rightarrow> string \<Rightarrow> db \<Rightarrow> db" where
  "reconcile_interrupted_objectives now iid db =
     fold (reconcile_objective now iid) (interrupted_objectives db) db"

section \<open>The operator's side\<close>

datatype queue_error =
    EmptyObjective
  | ObjectiveTooBig
  | PriorityRange
  | ParallelRange
  | PlanningRange
  | ConstraintFailed
  | NoProject
  | UnknownProjects "string list"
  | DisabledProjects "string list"
  | UnknownObjective string
  | CancellationPending
  | TerminalObjective objective_status
  | NotPaused
  | PlanDisappeared
  | PointOfNoReturn

definition validate_priority :: "int \<Rightarrow> queue_error + int" where
  "validate_priority n = (if - 1000 \<le> n \<and> n \<le> 1000 then Inr n else Inl PriorityRange)"

text \<open>\<^verbatim>\<open>sorted({...})\<close>: the sorted list of the distinct items.\<close>

definition sorted_set :: "string list \<Rightarrow> string list" where
  "sorted_set xs = sort (remdups xs)"

definition validate_projects :: "project_row list \<Rightarrow> string list \<Rightarrow> queue_error + string list" where
  "validate_projects projects ids =
     (let normalized = sorted_set (filter (\<lambda>s. s \<noteq> []) (map py_strip ids));
          rows = filter (\<lambda>r. pr_id r \<in> set normalized) projects;
          missing = filter (\<lambda>p. p \<notin> pr_id ` set rows) normalized;
          disabled = sort (map pr_id (filter (\<lambda>r. \<not> pr_enabled r) rows))
      in if normalized = [] then Inl NoProject
         else if missing \<noteq> [] then Inl (UnknownProjects missing)
         else if disabled \<noteq> [] then Inl (DisabledProjects disabled)
         else Inr normalized)"

definition objective_row_ok :: "objective_row \<Rightarrow> db \<Rightarrow> bool" where
  "objective_row_ok b db \<longleftrightarrow>
     o_id b \<notin> o_id ` set (db_objectives db) \<and>
     (case o_plan b of
        None \<Rightarrow> True
      | Some pid \<Rightarrow> pid \<in> p_id ` set (db_plans db) \<and>
          list_all (\<lambda>c. o_plan c \<noteq> Some pid) (db_objectives db))"

definition insert_objective ::
  "string \<Rightarrow> string \<Rightarrow> string \<Rightarrow> plan_source \<Rightarrow> int \<Rightarrow> string \<Rightarrow> string list \<Rightarrow> int \<Rightarrow> int \<Rightarrow>
     string option \<Rightarrow> db \<Rightarrow> queue_error + db" where
  "insert_objective now oid objective source priority not_before projects max_parallel planning_max plan db =
     (let text = py_strip objective in
      if text = [] then Inl EmptyObjective
      else if 16384 < length text then Inl ObjectiveTooBig
      else rbind (validate_priority priority) (\<lambda>_.
        if \<not> (1 \<le> max_parallel \<and> max_parallel \<le> 16) then Inl ParallelRange
        else if \<not> (1 \<le> planning_max \<and> planning_max \<le> 5) then Inl PlanningRange
        else
          let b = \<lparr>o_id = oid, o_objective = text, o_source = source, o_status = OQueued,
                   o_priority = priority, o_not_before = not_before, o_projects = projects,
                   o_max_parallel = max_parallel, o_planning_max = planning_max, o_planning_count = 0,
                   o_plan = plan, o_execution = None, o_created = now, o_started = None,
                   o_heartbeat = now, o_finished = None, o_paused = None, o_error = None\<rparr>
          in if \<not> objective_row_ok b db then Inl ConstraintFailed
             else Inr (add_objective_event now oid ''OBJECTIVE_SUBMITTED'' None (Some OQueued)
               [(''source'', JStr (source_text source)), (''priority'', JInt priority),
                (''not_before'', JStr not_before), (''projects'', JArr (map JStr projects)),
                (''plan_id'', opt_json plan)]
               (db\<lparr>db_objectives := db_objectives db @ [b]\<rparr>))))"

definition integration_point_of_no_return :: "db \<Rightarrow> string option \<Rightarrow> bool" where
  "integration_point_of_no_return db plan =
     (case plan of
        None \<Rightarrow> False
      | Some pid \<Rightarrow>
          list_ex (\<lambda>r. r_status r \<in> {RCommitting, RCompleted} \<or>
             list_ex (\<lambda>i. i_run i = r_id r \<and> i_decision i = DApprove \<and>
                i_status i \<in> {IPrepared, ICompleted, IFailed}) (db_integrations db))
            (plan_runs db pid))"

definition active_run_count :: "db \<Rightarrow> string option \<Rightarrow> nat" where
  "active_run_count db plan =
     (case plan of
        None \<Rightarrow> 0
      | Some pid \<Rightarrow>
          length (remdups (map r_id (filter (\<lambda>r. r_status r \<in>
             {RSnapshotting, RRunning, RReviewing, RWaitingHuman, RCommitting, RRecovering})
            (plan_runs db pid)))))"

fun resumed_status_for_plan :: "plan_status option \<Rightarrow> objective_status" where
  "resumed_status_for_plan None = OQueued"
| "resumed_status_for_plan (Some PDraft) = OQueued"
| "resumed_status_for_plan (Some PReady) = OQueued"
| "resumed_status_for_plan (Some PRunning) = OQueued"
| "resumed_status_for_plan (Some PBlocked) = ORunning"
| "resumed_status_for_plan (Some PCompleted) = OCompleted"
| "resumed_status_for_plan (Some PFailed) = OFailed"
| "resumed_status_for_plan (Some PCancelled) = OCancelled"

definition objective_pause :: "string \<Rightarrow> string \<Rightarrow> db \<Rightarrow> queue_error + db" where
  "objective_pause now oid db =
     (case objective_with db oid of
        None \<Rightarrow> Inl (UnknownObjective oid)
      | Some b \<Rightarrow>
          let old = o_status b in
          if old = OCancelRequested then Inl CancellationPending
          else if terminal_objective old then Inl (TerminalObjective old)
          else if old = OPaused then Inr db
          else
            let new = (if old = OPlanning \<or> objective_running_tasks db (o_plan b) \<noteq> 0
                       then OPauseRequested else OPaused)
            in Inr (add_objective_event now oid
                 (if new = OPauseRequested then ''OBJECTIVE_PAUSE_REQUESTED'' else ''OBJECTIVE_PAUSED'')
                 (Some old) (Some new) []
                 (update_objectives (\<lambda>c. o_id c = oid)
                    (\<lambda>c. c\<lparr>o_status := new, o_heartbeat := now,
                           o_paused := (if new = OPaused then Some now else o_paused c),
                           o_error := None\<rparr>) db)))"

definition objective_resume :: "string \<Rightarrow> string \<Rightarrow> db \<Rightarrow> queue_error + db" where
  "objective_resume now oid db =
     (case objective_with db oid of
        None \<Rightarrow> Inl (UnknownObjective oid)
      | Some b \<Rightarrow>
          if o_status b \<noteq> OPaused then Inl NotPaused
          else if o_plan b \<noteq> None \<and> linked_plan_status db b = None then Inl PlanDisappeared
          else
            let new = resumed_status_for_plan (linked_plan_status db b)
            in Inr (add_objective_event now oid ''OBJECTIVE_RESUMED'' (Some OPaused) (Some new) []
                 (update_objectives (\<lambda>c. o_id c = oid)
                    (\<lambda>c. c\<lparr>o_status := new, o_heartbeat := now, o_paused := None,
                           o_finished := (if terminal_objective new then Some now else None),
                           o_error := linked_error new\<rparr>) db)))"

definition objective_cancel :: "string \<Rightarrow> string \<Rightarrow> db \<Rightarrow> queue_error + db" where
  "objective_cancel now oid db =
     (case objective_with db oid of
        None \<Rightarrow> Inl (UnknownObjective oid)
      | Some b \<Rightarrow>
          let old = o_status b in
          if terminal_objective old then Inl (TerminalObjective old)
          else if integration_point_of_no_return db (o_plan b) then Inl PointOfNoReturn
          else
            let request = old = OPlanning \<or> objective_running_tasks db (o_plan b) \<noteq> 0 \<or>
                          active_run_count db (o_plan b) \<noteq> 0;
                new = (if request then OCancelRequested else OCancelled);
                db1 = (if request then db else cancel_objective_plan now (o_plan b) db)
            in Inr (add_objective_event now oid
                 (if request then ''OBJECTIVE_CANCEL_REQUESTED'' else ''OBJECTIVE_CANCELLED'')
                 (Some old) (Some new) []
                 (update_objectives (\<lambda>c. o_id c = oid)
                    (\<lambda>c. c\<lparr>o_status := new, o_heartbeat := now,
                           o_finished := (if request then None else Some now),
                           o_error := (if request then o_error c else Some ''cancelled by operator'')\<rparr>) db1)))"

end
