(* ===== verification/Scheduler.thy ===== *)
theory Scheduler
  imports Objective_Queue
begin

text \<open>
  The scheduler of \<^verbatim>\<open>daemon_loop\<close> in \<^verbatim>\<open>scripts/hermesops-orchestrator.py\<close>: the selection of
  the tasks to start (\<^verbatim>\<open>runnable_tasks\<close>), the plans of the sweep (\<^verbatim>\<open>active_plan_ids\<close>) and
  the dispatch of queued objectives.
\<close>

section \<open>The selection of tasks\<close>

type_synonym candidate = "task_row \<times> plan_row \<times> objective_row option"

text \<open>The rows of the join: READY tasks of active plans whose objective, if any, is RUNNING.\<close>

definition candidates :: "db \<Rightarrow> candidate list" where
  "candidates db =
     [(t, p, b). t \<leftarrow> db_tasks db, t_status t = TReady,
        p \<leftarrow> db_plans db, p_id p = t_plan t, p_status p \<in> {PReady, PRunning},
        b \<leftarrow> (case filter (\<lambda>b. o_plan b = Some (p_id p)) (db_objectives db) of
                [] \<Rightarrow> [None]
              | bs \<Rightarrow> map Some (filter (\<lambda>b. o_status b = ORunning) bs))]"

definition candidate_key :: "candidate \<Rightarrow> int \<times> int \<times> string \<times> string" where
  "candidate_key c =
     (case c of (t, p, b) \<Rightarrow>
        ((case b of None \<Rightarrow> 100 | Some o1 \<Rightarrow> o_priority o1), t_priority t,
         (case b of None \<Rightarrow> t_created t | Some o1 \<Rightarrow> o_created o1), t_created t))"

record selection =
  sel_tasks :: "string list"
  sel_projects :: "string list"
  sel_running :: "(string \<times> nat) list"

definition running_so_far :: "db \<Rightarrow> selection \<Rightarrow> string \<Rightarrow> nat" where
  "running_so_far db s pid =
     (case map_of (sel_running s) pid of None \<Rightarrow> running_in_plan db pid | Some n \<Rightarrow> n)"

text \<open>The body of the loop for one row, without its break.\<close>

definition admit :: "db \<Rightarrow> string list \<Rightarrow> bool \<Rightarrow> candidate \<Rightarrow> selection \<Rightarrow> selection option" where
  "admit db active healthy c s =
     (case c of (t, p, b) \<Rightarrow>
        if t_id t \<in> set active then None
        else if t_kind t = PIPELINE \<and> \<not> healthy then None
        else if p_max_parallel p \<le> int (running_so_far db s (t_plan t)) then None
        else if project_is_busy db (t_project t) (t_id t) then None
        else if (case t_project t of None \<Rightarrow> False | Some pr \<Rightarrow> pr \<in> set (sel_projects s)) then None
        else Some \<lparr>sel_tasks = sel_tasks s @ [t_id t],
                   sel_projects = (case t_project t of None \<Rightarrow> sel_projects s | Some pr \<Rightarrow> pr # sel_projects s),
                   sel_running = (t_plan t, running_so_far db s (t_plan t) + 1) # sel_running s\<rparr>)"

fun select_loop :: "db \<Rightarrow> string list \<Rightarrow> bool \<Rightarrow> int \<Rightarrow> candidate list \<Rightarrow> selection \<Rightarrow> selection" where
  "select_loop db active healthy capacity [] s = s"
| "select_loop db active healthy capacity (c # cs) s =
     (case admit db active healthy c s of
        None \<Rightarrow> select_loop db active healthy capacity cs s
      | Some s' \<Rightarrow>
          if capacity \<le> int (length (sel_tasks s')) then s'
          else select_loop db active healthy capacity cs s')"

definition runnable_tasks :: "string list \<Rightarrow> int \<Rightarrow> bool \<Rightarrow> db \<Rightarrow> string list" where
  "runnable_tasks active capacity healthy db =
     (if capacity \<le> 0 then []
      else sel_tasks (select_loop db active healthy capacity
             (sort_key candidate_key (candidates db))
             \<lparr>sel_tasks = [], sel_projects = [], sel_running = []\<rparr>))"

definition active_plan_ids :: "db \<Rightarrow> string list" where
  "active_plan_ids db =
     map p_id (sort_key p_created (filter (\<lambda>p. p_status p \<in> {PReady, PRunning, PBlocked}) (db_plans db)))"

definition sweep_plans :: "string \<Rightarrow> db \<Rightarrow> db" where
  "sweep_plans now db = fold (refresh_plan_states now) (active_plan_ids db) db"

section \<open>Dispatch of objectives\<close>

text \<open>
  The inner loop of a sweep. \<open>planning\<close> says whether a planner is running; a reservation starts
  one (\<open>aid\<close> is its attempt). Each round either leaves the loop or moves one QUEUED objective out
  of QUEUED, so the number of QUEUED objectives bounds the rounds; \<open>fuel\<close> counts them.
\<close>

fun dispatch_loop ::
  "nat \<Rightarrow> string \<Rightarrow> string \<Rightarrow> string \<Rightarrow> int \<Rightarrow> bool \<Rightarrow> db \<Rightarrow> (orch_error + (objective_row option \<times> db)) option" where
  "dispatch_loop 0 now iid aid slots planning db = None"
| "dispatch_loop (Suc fuel) now iid aid slots planning db =
     (if slots - int (active_objective_count db) \<le> 0 then Some (Inr (None, db))
      else case next_queued_objective now db of
          None \<Rightarrow> Some (Inr (None, db))
        | Some b \<Rightarrow>
            if o_source b = AI \<and> o_plan b = None then
              (if planning then Some (Inr (None, db))
               else case reserve_ai_objective now (o_id b) aid iid slots db of
                   Inl e \<Rightarrow> Some (Inl e)
                 | Inr (None, db') \<Rightarrow> Some (Inr (None, db'))
                 | Inr (Some c, db') \<Rightarrow>
                     map_option (map_sum id (\<lambda>(_, db2). (Some c, db2)))
                       (dispatch_loop fuel now iid aid slots True db'))
            else case promote_planned_objective now (o_id b) db of
                (None, db') \<Rightarrow> Some (Inr (None, db'))
              | (Some pid, db') \<Rightarrow>
                  dispatch_loop fuel now iid aid slots planning (refresh_plan_states now pid db'))"

definition dispatch_objectives ::
  "string \<Rightarrow> string \<Rightarrow> string \<Rightarrow> int \<Rightarrow> bool \<Rightarrow> db \<Rightarrow> (orch_error + (objective_row option \<times> db)) option" where
  "dispatch_objectives now iid aid slots planning db =
     dispatch_loop (Suc (count_where (\<lambda>b. o_status b = OQueued) (db_objectives db)))
       now iid aid slots planning db"

end
