(* ===== verification/Task_Invariant.thy ===== *)
theory Task_Invariant
  imports Scheduler
begin

text \<open>
  What every transaction of the orchestrator and of the objective queue does to the task table: the
  edges along which it moves task statuses, and the invariant of the tables that follows (keys,
  attempt budgets, one RUNNING task per project, at most \<open>max_parallel_tasks\<close> RUNNING tasks per
  plan, dependencies before dependents, one RUNNING attempt per task).
\<close>

section \<open>Edges\<close>

definition task_columns ::
  "task_row \<Rightarrow> string \<times> string \<times> string \<times> kind \<times> string option \<times> int \<times> int \<times> string \<times> int" where
  "task_columns t = (t_id t, t_plan t, t_key t, t_kind t, t_project t, t_priority t, t_max_attempts t,
                     t_created t, t_attempt_count t)"

abbreviation tasks_move :: "(task_status \<times> task_status) set \<Rightarrow> db \<Rightarrow> db \<Rightarrow> bool" where
  "tasks_move E db db' \<equiv> row_moves task_columns t_status E (db_tasks db) (db_tasks db')"

lemmas tasks_move_update = row_moves_update [where key = task_columns and status = t_status]

text \<open>The edges of the transactions.\<close>

definition refresh_edges :: "(task_status \<times> task_status) set" where
  "refresh_edges = {(TPending, TBlocked), (TPending, TReady)}"

definition stop_edges :: "(task_status \<times> task_status) set" where
  "stop_edges = {TPending, TReady, TRunning} \<times> {TBlocked}"

definition cancel_edges :: "(task_status \<times> task_status) set" where
  "cancel_edges = {TPending, TReady, TBlocked} \<times> {TCancelled}"

definition restart_edges :: "(task_status \<times> task_status) set" where
  "restart_edges = {TRunning} \<times> {TReady, TFailed, TCompleted}"

lemma trans_edges [simp]: "trans refresh_edges" "trans stop_edges" "trans cancel_edges" "trans restart_edges"
  by (auto simp: refresh_edges_def stop_edges_def cancel_edges_def restart_edges_def intro!: transI)

lemma refresh_task_moves: "tasks_move refresh_edges db (refresh_task now pid task db)"
  by (auto simp: refresh_task_def block_pending_def ready_pending_def Let_def task_columns_def
      refresh_edges_def)

lemma fold_moves:
  "(\<And>x db. x \<in> set xs \<Longrightarrow> tasks_move E db (f x db)) \<Longrightarrow> trans E \<Longrightarrow> tasks_move E db (fold f xs db)"
proof (induction xs arbitrary: db)
  case (Cons x xs)
  have "tasks_move E db (f x db)" by (rule Cons.prems) simp
  moreover have "tasks_move E (f x db) (fold f xs (f x db))" by (rule Cons.IH) (use Cons.prems in auto)
  ultimately show ?case using Cons.prems(2) by (auto intro: row_moves_trans)
qed simp

lemma settle_plan_tasks [simp]:
  "db_tasks (settle_plan now plan db) = db_tasks db"
  "db_deps (settle_plan now plan db) = db_deps db"
  "db_attempts (settle_plan now plan db) = db_attempts db"
  "db_objectives (settle_plan now plan db) = db_objectives db"
  "db_runs (settle_plan now plan db) = db_runs db"
  by (simp_all add: settle_plan_def Let_def)

lemma refresh_plan_states_moves: "tasks_move refresh_edges db (refresh_plan_states now pid db)"
  by (auto simp: refresh_plan_states_def refresh_tasks_def refresh_task_moves
      intro!: fold_moves split: option.split)

lemma close_attempt_frame [simp]:
  "db_tasks (close_attempt now aid st r f db) = db_tasks db"
  "db_plans (close_attempt now aid st r f db) = db_plans db"
  "db_deps (close_attempt now aid st r f db) = db_deps db"
  by (simp_all add: close_attempt_def)

lemma block_row_columns [simp]:
  "task_columns (block_row now task result reason t) = task_columns t"
  "t_status (block_row now task result reason t) = TBlocked"
  by (simp_all add: block_row_def task_columns_def)

lemma finish_blocked_moves:
  "tasks_move stop_edges db (finish_running_task_blocked_by_human_gate now task aid st r f db)"
  by (auto simp: finish_running_task_blocked_by_human_gate_def task_columns_def stop_edges_def)

lemma finish_task_success_moves:
  "tasks_move (insert (TRunning, TCompleted) stop_edges) db (finish_task_success now task aid result db)"
  by (auto simp: finish_task_success_def task_columns_def stop_edges_def
      intro: row_moves_mono [OF finish_blocked_moves])

lemma finish_task_waiting_human_moves:
  "tasks_move stop_edges db (finish_task_waiting_human now task aid result db)"
  by (auto simp: finish_task_waiting_human_def Let_def stops_with_def stop_edges_def task_columns_def block_row_def
      intro!: tasks_move_update)

lemma finish_task_cancellation_recovery_moves:
  "tasks_move stop_edges db (finish_task_cancellation_recovery now task aid result db)"
  by (auto simp: finish_task_cancellation_recovery_def stops_with_def stop_edges_def)

lemma mark_recovery_tasks:
  "db_tasks (snd (mark_cancellation_cleanup_recovery now rid reason db)) = db_tasks db \<or>
   db_tasks (snd (mark_cancellation_cleanup_recovery now rid reason db)) =
     update_where (\<lambda>t. t_id t \<in> set (run_tasks db rid) \<and>
                       t_status t \<in> {TPending, TReady, TRunning, TBlocked})
       (\<lambda>t. t\<lparr>t_status := TBlocked, t_failure := Some CANCELLATION_RECOVERY_ERROR,
              t_heartbeat := Some now, t_finished := Some now\<rparr>) (db_tasks db)"
  by (simp add: mark_cancellation_cleanup_recovery_def Let_def run_tasks_def split: option.split list.split)

lemma mark_recovery_moves:
  "tasks_move stop_edges db (snd (mark_cancellation_cleanup_recovery now rid reason db))"
  using mark_recovery_tasks [of now rid reason db]
proof
  assume "db_tasks (snd (mark_cancellation_cleanup_recovery now rid reason db)) = db_tasks db"
  then show ?thesis by simp
next
  assume "db_tasks (snd (mark_cancellation_cleanup_recovery now rid reason db)) =
     update_where (\<lambda>t. t_id t \<in> set (run_tasks db rid) \<and>
                       t_status t \<in> {TPending, TReady, TRunning, TBlocked})
       (\<lambda>t. t\<lparr>t_status := TBlocked, t_failure := Some CANCELLATION_RECOVERY_ERROR,
              t_heartbeat := Some now, t_finished := Some now\<rparr>) (db_tasks db)"
  then show ?thesis
    by (simp only:) (rule tasks_move_update, auto simp: task_columns_def stop_edges_def)
qed

lemma command_cancel_moves:
  "command_cancel now pid db = Inr db' \<Longrightarrow> tasks_move cancel_edges db db'"
  by (auto simp: command_cancel_def cancel_edges_def task_columns_def
      intro!: tasks_move_update split: option.split_asm if_split_asm)

lemma command_activate_moves:
  "command_activate now pid db = Inr db' \<Longrightarrow> tasks_move refresh_edges db db'"
  using refresh_plan_states_moves
  by (auto simp: command_activate_def split: if_split_asm) (metis update_plans_frame(2))

lemma cancel_objective_plan_moves: "tasks_move cancel_edges db (cancel_objective_plan now plan db)"
  by (auto simp: cancel_objective_plan_def cancel_edges_def task_columns_def
      intro!: tasks_move_update split: option.split)

lemma sync_row_moves: "tasks_move cancel_edges db (sync_row now row db)"
  using cancel_objective_plan_moves
  by (auto simp: sync_row_def Let_def split: option.split prod.split)

lemma synchronize_moves: "tasks_move cancel_edges db (synchronize_objective_states now db)"
  unfolding synchronize_objective_states_def by (rule fold_moves) (simp_all add: sync_row_moves)

lemma promote_moves: "tasks_move {} db (snd (promote_planned_objective now oid db))"
  by (auto simp: promote_planned_objective_def Let_def split: option.split)

lemma reserve_ai_moves:
  "reserve_ai_objective now oid aid iid slots db = Inr (r, db') \<Longrightarrow> db_tasks db' = db_tasks db"
  by (auto simp: reserve_ai_objective_def insert_oattempt_def Let_def
      split: if_split_asm option.split_asm)

lemma planning_success_moves:
  "finish_objective_planning_success now oid aid pid xid result db = Inr db' \<Longrightarrow>
     tasks_move cancel_edges db db'"
proof -
  assume r: "finish_objective_planning_success now oid aid pid xid result db = Inr db'"
  let ?db1 = "update_oattempts (\<lambda>a. oa_id a = aid \<and> oa_status a = ARunning)
    (\<lambda>a. a\<lparr>oa_status := ACompleted, oa_execution := Some xid, oa_plan := Some pid,
           oa_result := JObj result, oa_heartbeat := now, oa_finished := Some now\<rparr>) db"
  have "db_tasks db' = db_tasks (cancel_objective_plan now (Some pid) ?db1) \<or> db_tasks db' = db_tasks db"
    using r by (auto simp: finish_objective_planning_success_def Let_def
        split: if_split_asm option.split_asm)
  then show ?thesis
    using cancel_objective_plan_moves [of ?db1 now "Some pid"] by auto
qed

lemma planning_failure_moves:
  "db_tasks (finish_objective_planning_failure later backoff now oid aid error db) = db_tasks db"
  by (auto simp: finish_objective_planning_failure_def split: option.split prod.split)

lemma conclude_planning_moves:
  "tasks_move cancel_edges db (conclude_planning later backoff text now oid aid outcome db)"
  by (auto simp: conclude_planning_def planning_failure_moves planning_success_moves
      split: sum.split prod.split)

lemma objective_pause_moves: "objective_pause now oid db = Inr db' \<Longrightarrow> db_tasks db' = db_tasks db"
  by (auto simp: objective_pause_def Let_def split: if_split_asm option.split_asm)

lemma objective_resume_moves: "objective_resume now oid db = Inr db' \<Longrightarrow> db_tasks db' = db_tasks db"
  by (auto simp: objective_resume_def Let_def split: if_split_asm option.split_asm)

lemma objective_cancel_moves: "objective_cancel now oid db = Inr db' \<Longrightarrow> tasks_move cancel_edges db db'"
  using cancel_objective_plan_moves
  by (fastforce simp: objective_cancel_def Let_def split: if_split_asm option.split_asm)

section \<open>What a transaction keeps\<close>

definition plan_columns :: "plan_row \<Rightarrow> string \<times> int" where
  "plan_columns p = (p_id p, p_max_parallel p)"

definition attempt_columns :: "attempt_row \<Rightarrow> string \<times> string \<times> int" where
  "attempt_columns a = (a_id a, a_task a, a_number a)"

text \<open>
  The tables beside the tasks: dependencies and the limits of plans stay, attempts keep their keys
  and none starts to run.
\<close>

definition rest_quiet :: "db \<Rightarrow> db \<Rightarrow> bool" where
  "rest_quiet db db' \<longleftrightarrow>
     db_deps db' = db_deps db \<and> map plan_columns (db_plans db') = map plan_columns (db_plans db) \<and>
     row_moves attempt_columns a_status (UNIV \<times> - {ARunning}) (db_attempts db) (db_attempts db')"

lemma rest_quiet_refl [simp]: "rest_quiet db db"
  by (simp add: rest_quiet_def)

lemma rest_quiet_trans: "rest_quiet a b \<Longrightarrow> rest_quiet b c \<Longrightarrow> rest_quiet a c"
  unfolding rest_quiet_def by (auto intro!: row_moves_trans [of _ _ _ "db_attempts a" "db_attempts b"] transI)

lemma rest_quiet_same:
  "db_deps db' = db_deps db \<Longrightarrow> db_plans db' = db_plans db \<Longrightarrow> db_attempts db' = db_attempts db \<Longrightarrow>
     rest_quiet db db'"
  by (simp add: rest_quiet_def)

lemma rest_quiet_plans [intro]:
  "(\<And>p. plan_columns (f p) = plan_columns p) \<Longrightarrow> rest_quiet db (update_plans c f db)"
  by (simp add: rest_quiet_def map_update_where)

lemma rest_quiet_attempts [intro]:
  "(\<And>a. attempt_columns (f a) = attempt_columns a \<and> (a_status (f a) = a_status a \<or> a_status (f a) \<noteq> ARunning)) \<Longrightarrow>
     rest_quiet db (update_attempts c f db)"
  by (auto simp: rest_quiet_def intro!: row_moves_update)

lemma rest_quiet_after:
  "rest_quiet db x \<Longrightarrow> rest_quiet db (add_event now pid tid ty sv pl x)"
  "rest_quiet db x \<Longrightarrow> rest_quiet db (add_objective_event now oid ety old new epl x)"
  "rest_quiet db x \<Longrightarrow> rest_quiet db (update_tasks c f x)"
  "rest_quiet db x \<Longrightarrow> rest_quiet db (update_objectives c1 f1 x)"
  "rest_quiet db x \<Longrightarrow> rest_quiet db (update_oattempts c2 f2 x)"
  "rest_quiet db x \<Longrightarrow> rest_quiet db (update_runs c3 f3 x)"
  "rest_quiet db x \<Longrightarrow> rest_quiet db (update_approvals c4 f4 x)"
  "rest_quiet db x \<Longrightarrow> rest_quiet db (update_integrations c5 f5 x)"
  "rest_quiet db x \<Longrightarrow> (\<And>p. plan_columns (f6 p) = plan_columns p) \<Longrightarrow> rest_quiet db (update_plans c6 f6 x)"
  "rest_quiet db x \<Longrightarrow>
     (\<And>a. attempt_columns (f7 a) = attempt_columns a \<and> (a_status (f7 a) = a_status a \<or> a_status (f7 a) \<noteq> ARunning)) \<Longrightarrow>
     rest_quiet db (update_attempts c7 f7 x)"
  by (erule rest_quiet_trans; auto intro: rest_quiet_same)+

lemma rest_quiet_fold:
  "(\<And>x db. x \<in> set xs \<Longrightarrow> rest_quiet db (f x db)) \<Longrightarrow> rest_quiet db (fold f xs db)"
proof (induction xs arbitrary: db)
  case (Cons x xs)
  have "rest_quiet db (f x db)" by (rule Cons.prems) simp
  moreover have "rest_quiet (f x db) (fold f xs (f x db))" by (rule Cons.IH) (use Cons.prems in auto)
  ultimately show ?case by (auto intro: rest_quiet_trans)
qed simp

lemmas quiet_intros = rest_quiet_after rest_quiet_refl

lemma refresh_task_quiet: "rest_quiet db (refresh_task now pid task db)"
  by (auto simp: refresh_task_def block_pending_def ready_pending_def Let_def intro!: quiet_intros)

lemma settle_plan_quiet: "rest_quiet db (settle_plan now plan db)"
  by (auto simp: settle_plan_def Let_def plan_columns_def intro!: quiet_intros)

lemma refresh_plan_states_quiet: "rest_quiet db (refresh_plan_states now pid db)"
  by (auto simp: refresh_plan_states_def refresh_tasks_def refresh_task_quiet
      intro!: rest_quiet_trans [OF rest_quiet_fold settle_plan_quiet] split: option.split)

lemma close_attempt_quiet:
  "st \<noteq> ARunning \<Longrightarrow> rest_quiet db x \<Longrightarrow> rest_quiet db (close_attempt now aid st r f x)"
  unfolding close_attempt_def by (rule rest_quiet_after) (auto simp: attempt_columns_def)

lemma finish_quiet:
  "st \<noteq> ARunning \<Longrightarrow> rest_quiet db (finish_running_task_blocked_by_human_gate now task aid st r f db)"
  "rest_quiet db (finish_task_success now task aid result db)"
  "rest_quiet db (finish_task_waiting_human now task aid result db)"
  "rest_quiet db (finish_task_cancellation_recovery now task aid result db)"
  "rest_quiet db (finish_task_failure now task aid error db)"
  by (auto simp: finish_running_task_blocked_by_human_gate_def finish_task_success_def
      finish_task_waiting_human_def finish_task_cancellation_recovery_def finish_task_failure_def
      reschedule_def Let_def plan_columns_def intro!: quiet_intros close_attempt_quiet split: option.split)

lemma mark_recovery_quiet: "rest_quiet db (snd (mark_cancellation_cleanup_recovery now rid reason db))"
  by (auto simp: mark_cancellation_cleanup_recovery_def Let_def plan_columns_def
      intro!: quiet_intros split: option.split list.split)

lemma heartbeat_quiet: "rest_quiet db (heartbeat_attempt now tid aid db)"
  by (auto simp: heartbeat_attempt_def Let_def plan_columns_def attempt_columns_def intro!: quiet_intros)

lemma links_quiet: "rest_quiet db (set_attempt_links now aid run w rv ig db)"
  by (auto simp: set_attempt_links_def attempt_columns_def intro!: quiet_intros)

lemma reconcile_row_quiet: "rest_quiet db (reconcile_row now iid row db)"
  by (auto simp: reconcile_row_def reschedule_def abandon_attempt_def Let_def attempt_columns_def
      intro!: quiet_intros split: prod.split option.split)

lemma command_cancel_quiet: "command_cancel now pid db = Inr db' \<Longrightarrow> rest_quiet db db'"
  by (auto simp: command_cancel_def plan_columns_def intro!: quiet_intros
      split: option.split_asm if_split_asm)

lemma command_activate_quiet: "command_activate now pid db = Inr db' \<Longrightarrow> rest_quiet db db'"
  by (auto simp: command_activate_def plan_columns_def
      intro!: rest_quiet_trans [OF _ refresh_plan_states_quiet] quiet_intros split: if_split_asm)

lemma cancel_objective_plan_quiet: "rest_quiet db x \<Longrightarrow> rest_quiet db (cancel_objective_plan now plan x)"
  by (auto simp: cancel_objective_plan_def plan_columns_def intro!: quiet_intros split: option.split)

lemma sync_row_quiet: "rest_quiet db (sync_row now row db)"
  by (auto simp: sync_row_def Let_def intro!: quiet_intros cancel_objective_plan_quiet
      split: prod.split option.split)

lemma synchronize_quiet: "rest_quiet db (synchronize_objective_states now db)"
  unfolding synchronize_objective_states_def by (rule rest_quiet_fold) (rule sync_row_quiet)

lemma promote_quiet: "rest_quiet db (snd (promote_planned_objective now oid db))"
  by (auto simp: promote_planned_objective_def Let_def plan_columns_def
      intro!: quiet_intros split: option.split)

lemma reserve_ai_quiet: "reserve_ai_objective now oid aid iid slots db = Inr (r, db') \<Longrightarrow> rest_quiet db db'"
  by (auto simp: reserve_ai_objective_def insert_oattempt_def Let_def
      intro!: rest_quiet_same split: if_split_asm option.split_asm)

lemma planning_success_quiet:
  "finish_objective_planning_success now oid aid pid xid result db = Inr db' \<Longrightarrow> rest_quiet db db'"
  by (auto simp: finish_objective_planning_success_def Let_def plan_columns_def
      intro!: quiet_intros cancel_objective_plan_quiet split: if_split_asm option.split_asm)

lemma conclude_planning_quiet:
  "rest_quiet db (conclude_planning later backoff text now oid aid outcome db)"
  by (auto simp: conclude_planning_def finish_objective_planning_failure_def
      intro!: quiet_intros dest: planning_success_quiet split: sum.split prod.split option.split)

lemma objective_commands_quiet:
  "objective_pause now oid db = Inr db' \<Longrightarrow> rest_quiet db db'"
  "objective_resume now oid db = Inr db' \<Longrightarrow> rest_quiet db db'"
  "objective_cancel now oid db = Inr db' \<Longrightarrow> rest_quiet db db'"
  by (auto simp: objective_pause_def objective_resume_def objective_cancel_def Let_def
      intro!: quiet_intros cancel_objective_plan_quiet split: if_split_asm option.split_asm)

section \<open>The invariant\<close>

text \<open>The parents of a task are COMPLETED.\<close>

definition parents_done :: "db \<Rightarrow> string \<Rightarrow> bool" where
  "parents_done db tid \<longleftrightarrow> (\<forall>s \<in> set (parent_statuses db tid). s = TCompleted)"

lemma parents_done_iff:
  "parents_done db tid \<longleftrightarrow>
     (\<forall>d \<in> set (db_deps db). d_task d = tid \<longrightarrow>
        (\<forall>t \<in> set (db_tasks db). t_id t = d_parent d \<longrightarrow> t_status t = TCompleted))"
  by (auto simp: parents_done_def parent_statuses_def)

definition tables_ok :: "db \<Rightarrow> bool" where
  "tables_ok db \<longleftrightarrow>
     distinct (map t_id (db_tasks db)) \<and> distinct (map p_id (db_plans db)) \<and>
     distinct (map a_id (db_attempts db)) \<and>
     distinct (map (\<lambda>a. (a_task a, a_number a)) (db_attempts db)) \<and>
     (\<forall>t \<in> set (db_tasks db). t_plan t \<in> p_id ` set (db_plans db)) \<and>
     (\<forall>d \<in> set (db_deps db). d_task d \<in> t_id ` set (db_tasks db) \<and> d_parent d \<in> t_id ` set (db_tasks db)) \<and>
     (\<forall>a \<in> set (db_attempts db). \<exists>t \<in> set (db_tasks db).
        t_id t = a_task a \<and> 1 \<le> a_number a \<and> a_number a \<le> t_attempt_count t)"

definition budget_ok :: "db \<Rightarrow> bool" where
  "budget_ok db \<longleftrightarrow>
     (\<forall>t \<in> set (db_tasks db).
        0 \<le> t_attempt_count t \<and> t_attempt_count t \<le> t_max_attempts t \<and>
        1 \<le> t_max_attempts t \<and> t_max_attempts t \<le> 10 \<and>
        (t_status t = TPending \<longrightarrow> t_attempt_count t = 0) \<and>
        (t_status t = TReady \<longrightarrow> t_attempt_count t < t_max_attempts t))"

definition exclusive :: "db \<Rightarrow> bool" where
  "exclusive db \<longleftrightarrow>
     (\<forall>t \<in> set (db_tasks db). \<forall>u \<in> set (db_tasks db).
        t_status t = TRunning \<and> t_status u = TRunning \<and> t_project t = t_project u \<and> t_project t \<noteq> None \<longrightarrow>
        t_id t = t_id u)"

definition within_limits :: "db \<Rightarrow> bool" where
  "within_limits db \<longleftrightarrow>
     (\<forall>p \<in> set (db_plans db). int (running_in_plan db (p_id p)) \<le> p_max_parallel p)"

definition started :: "task_status set" where
  "started = {TReady, TRunning, TCompleted}"

definition deps_done :: "db \<Rightarrow> bool" where
  "deps_done db \<longleftrightarrow> (\<forall>t \<in> set (db_tasks db). t_status t \<in> started \<longrightarrow> parents_done db (t_id t))"

definition open_states :: "task_status set" where
  "open_states = {TRunning, TBlocked, TCancelled}"

definition single_attempt :: "db \<Rightarrow> bool" where
  "single_attempt db \<longleftrightarrow>
     (\<forall>a \<in> set (db_attempts db). a_status a = ARunning \<longrightarrow>
        (\<forall>t \<in> set (db_tasks db). t_id t = a_task a \<longrightarrow> t_status t \<in> open_states) \<and>
        (\<forall>b \<in> set (db_attempts db). a_status b = ARunning \<and> a_task b = a_task a \<longrightarrow> a_id b = a_id a))"

text \<open>A worker holds the row of its task as it was reserved, and the id of its attempt.\<close>

type_synonym worker = "task_row \<times> string"

definition worker_ok :: "db \<Rightarrow> worker \<Rightarrow> bool" where
  "worker_ok db w \<longleftrightarrow>
     (\<exists>t \<in> set (db_tasks db). t_id t = t_id (fst w) \<and> t_plan t = t_plan (fst w)) \<and>
     (\<forall>t \<in> set (db_tasks db). t_id t = t_id (fst w) \<longrightarrow> t_status t \<in> open_states) \<and>
     parents_done db (t_id (fst w)) \<and>
     (\<forall>a \<in> set (db_attempts db). a_status a = ARunning \<and> a_task a = t_id (fst w) \<longrightarrow> a_id a = snd w)"

definition workers_ok :: "db \<Rightarrow> worker list \<Rightarrow> bool" where
  "workers_ok db ws \<longleftrightarrow> distinct (map (\<lambda>w. t_id (fst w)) ws) \<and> (\<forall>w \<in> set ws. worker_ok db w)"

definition task_inv :: "db \<Rightarrow> bool" where
  "task_inv db \<longleftrightarrow> tables_ok db \<and> budget_ok db \<and> exclusive db \<and> within_limits db \<and> deps_done db \<and>
     single_attempt db"

lemmas task_inv_parts = tables_ok_def budget_ok_def exclusive_def within_limits_def deps_done_def
  single_attempt_def

section \<open>Preservation, clause by clause\<close>

lemma columns_eq:
  assumes "task_columns t' = task_columns t"
  shows "t_id t' = t_id t" "t_plan t' = t_plan t" "t_project t' = t_project t" "t_kind t' = t_kind t"
    "t_max_attempts t' = t_max_attempts t" "t_attempt_count t' = t_attempt_count t"
    "t_priority t' = t_priority t" "t_created t' = t_created t" "t_key t' = t_key t"
  using assms by (auto simp: task_columns_def)

lemma map_eq_via:
  assumes "map f xs = map f ys" "\<And>x y. f x = f y \<Longrightarrow> g x = g y"
  shows "map g xs = map g ys"
proof -
  have "length xs = length ys" using assms(1) by (rule map_eq_imp_length_eq)
  then show ?thesis using assms(1) by (induction rule: list_induct2) (auto intro: assms(2))
qed

lemma moves_ids:
  assumes "tasks_move E db db'"
  shows "map t_id (db_tasks db') = map t_id (db_tasks db)"
  by (rule map_eq_via [OF row_moves_keys [OF assms]]) (simp add: task_columns_def)

lemma quiet_plan_ids:
  assumes "rest_quiet db db'"
  shows "map p_id (db_plans db') = map p_id (db_plans db)"
  using assms unfolding rest_quiet_def by (auto intro!: map_eq_via [of plan_columns] simp: plan_columns_def)

lemma quiet_attempt_keys:
  assumes "rest_quiet db db'"
  shows "map attempt_columns (db_attempts db') = map attempt_columns (db_attempts db)"
  using assms unfolding rest_quiet_def by (blast intro: row_moves_keys)

lemma quiet_attempt_back:
  assumes "rest_quiet db db'" "a' \<in> set (db_attempts db')"
  obtains a where "a \<in> set (db_attempts db)" "a_id a' = a_id a" "a_task a' = a_task a"
    "a_number a' = a_number a" "a_status a' = ARunning \<Longrightarrow> a_status a = ARunning"
  using row_moves_back [of _ _ _ _ _ a'] assms unfolding rest_quiet_def attempt_columns_def by fastforce

lemma tables_ok_keep:
  assumes ok: "tables_ok db" and q: "rest_quiet db db'" and m: "tasks_move E db db'"
  shows "tables_ok db'"
proof -
  have ids: "map t_id (db_tasks db') = map t_id (db_tasks db)" using m by (rule moves_ids)
  have pids: "map p_id (db_plans db') = map p_id (db_plans db)" using q by (rule quiet_plan_ids)
  have keys: "map attempt_columns (db_attempts db') = map attempt_columns (db_attempts db)"
    using q by (rule quiet_attempt_keys)
  have aids: "map a_id (db_attempts db') = map a_id (db_attempts db)"
    by (rule map_eq_via [OF keys]) (simp add: attempt_columns_def)
  have anums: "map (\<lambda>a. (a_task a, a_number a)) (db_attempts db') = map (\<lambda>a. (a_task a, a_number a)) (db_attempts db)"
    by (rule map_eq_via [OF keys]) (simp add: attempt_columns_def)
  have idset: "t_id ` set (db_tasks db') = t_id ` set (db_tasks db)"
    using ids by (metis list.set_map)
  have pidset: "p_id ` set (db_plans db') = p_id ` set (db_plans db)"
    using pids by (metis list.set_map)
  have deps: "db_deps db' = db_deps db" using q by (simp add: rest_quiet_def)
  have "t_plan t' \<in> p_id ` set (db_plans db')" if t: "t' \<in> set (db_tasks db')" for t'
    using row_moves_back [OF m t] ok pidset columns_eq(2) unfolding tables_ok_def by metis
  moreover have "\<exists>t \<in> set (db_tasks db'). t_id t = a_task a' \<and> 1 \<le> a_number a' \<and> a_number a' \<le> t_attempt_count t"
    if a: "a' \<in> set (db_attempts db')" for a'
  proof -
    obtain a where a': "a \<in> set (db_attempts db)" "a_task a' = a_task a" "a_number a' = a_number a"
      using quiet_attempt_back [OF q a] .
    then obtain t where t: "t \<in> set (db_tasks db)" "t_id t = a_task a" "1 \<le> a_number a"
        "a_number a \<le> t_attempt_count t"
      using ok unfolding tables_ok_def by blast
    from row_moves_forth [OF m t(1)] obtain t' where "t' \<in> set (db_tasks db')" "task_columns t' = task_columns t"
      by blast
    with t a' show ?thesis by (metis columns_eq(1,6))
  qed
  ultimately show ?thesis
    using ok by (simp add: tables_ok_def ids pids aids anums idset pidset deps)
qed

lemma budget_ok_keep:
  assumes ok: "budget_ok db" and m: "tasks_move E db db'"
    and E: "\<And>s. (s, TPending) \<in> E \<Longrightarrow> s = TPending"
    and ready: "\<And>t t'. t \<in> set (db_tasks db) \<Longrightarrow> t' \<in> set (db_tasks db') \<Longrightarrow> task_columns t' = task_columns t \<Longrightarrow>
      (t_status t, TReady) \<in> E \<Longrightarrow> t_status t' = TReady \<Longrightarrow> t_attempt_count t < t_max_attempts t"
  shows "budget_ok db'"
  unfolding budget_ok_def
proof
  fix t' assume t': "t' \<in> set (db_tasks db')"
  obtain t where t: "t \<in> set (db_tasks db)" "task_columns t' = task_columns t"
      "t_status t' = t_status t \<or> (t_status t, t_status t') \<in> E"
    using row_moves_back [OF m t'] by blast
  have "t_status t' = TReady \<Longrightarrow> t_attempt_count t < t_max_attempts t"
    using t ok ready [OF t(1) t' t(2)] unfolding budget_ok_def by metis
  moreover have "t_status t' = TPending \<Longrightarrow> t_status t = TPending"
    using t(3) E by metis
  ultimately show "0 \<le> t_attempt_count t' \<and> t_attempt_count t' \<le> t_max_attempts t' \<and>
      1 \<le> t_max_attempts t' \<and> t_max_attempts t' \<le> 10 \<and>
      (t_status t' = TPending \<longrightarrow> t_attempt_count t' = 0) \<and>
      (t_status t' = TReady \<longrightarrow> t_attempt_count t' < t_max_attempts t')"
    using ok t(1) columns_eq [OF t(2)] unfolding budget_ok_def by auto
qed

lemma exclusive_keep:
  assumes ok: "exclusive db" and m: "tasks_move E db db'" and E: "\<And>s. (s, TRunning) \<in> E \<Longrightarrow> s = TRunning"
  shows "exclusive db'"
proof -
  have old: "\<exists>t \<in> set (db_tasks db). task_columns t' = task_columns t \<and> t_status t = TRunning"
    if t': "t' \<in> set (db_tasks db')" "t_status t' = TRunning" for t'
  proof -
    obtain t where "t \<in> set (db_tasks db)" "task_columns t' = task_columns t"
        "t_status t' = t_status t \<or> (t_status t, t_status t') \<in> E"
      using row_moves_back [OF m t'(1)] by blast
    with t'(2) E show ?thesis by (intro bexI [of _ t]) auto
  qed
  show ?thesis
    unfolding exclusive_def
  proof (intro ballI impI)
    fix t' u'
    assume tu: "t' \<in> set (db_tasks db')" "u' \<in> set (db_tasks db')"
      "t_status t' = TRunning \<and> t_status u' = TRunning \<and> t_project t' = t_project u' \<and> t_project t' \<noteq> None"
    obtain t where t: "t \<in> set (db_tasks db)" "task_columns t' = task_columns t" "t_status t = TRunning"
      using old [OF tu(1)] tu(3) by blast
    obtain u where u: "u \<in> set (db_tasks db)" "task_columns u' = task_columns u" "t_status u = TRunning"
      using old [OF tu(2)] tu(3) by blast
    have "t_id t = t_id u"
      using ok t(1,3) u(1,3) tu(3) columns_eq(3) [OF t(2)] columns_eq(3) [OF u(2)]
      unfolding exclusive_def by auto
    then show "t_id t' = t_id u'" using columns_eq(1) [OF t(2)] columns_eq(1) [OF u(2)] by simp
  qed
qed

lemma running_in_plan_le:
  assumes m: "tasks_move E db db'" and E: "\<And>s. (s, TRunning) \<in> E \<Longrightarrow> s = TRunning"
  shows "running_in_plan db' pid \<le> running_in_plan db pid"
  unfolding running_in_plan_def
  by (rule row_moves_count [OF m]) (use E in \<open>auto simp: task_columns_def\<close>)

lemma within_limits_keep:
  assumes ok: "within_limits db" and q: "rest_quiet db db'" and m: "tasks_move E db db'"
    and E: "\<And>s. (s, TRunning) \<in> E \<Longrightarrow> s = TRunning"
  shows "within_limits db'"
  unfolding within_limits_def
proof
  fix p' assume "p' \<in> set (db_plans db')"
  moreover have "map plan_columns (db_plans db') = map plan_columns (db_plans db)"
    using q by (simp add: rest_quiet_def)
  ultimately have "plan_columns p' \<in> plan_columns ` set (db_plans db)"
    by (metis image_eqI list.set_map)
  then obtain p where "p \<in> set (db_plans db)" "p_id p' = p_id p" "p_max_parallel p' = p_max_parallel p"
    by (auto simp: plan_columns_def)
  then show "int (running_in_plan db' (p_id p')) \<le> p_max_parallel p'"
    using running_in_plan_le [OF m E, of "p_id p"] ok unfolding within_limits_def by fastforce
qed

lemma parents_done_keep:
  assumes pd: "parents_done db tid" and d: "db_deps db' = db_deps db" and m: "tasks_move E db db'"
    and E: "\<And>s. (TCompleted, s) \<in> E \<Longrightarrow> s = TCompleted"
  shows "parents_done db' tid"
  unfolding parents_done_iff d
proof (intro ballI impI)
  fix e t' assume "e \<in> set (db_deps db)" "d_task e = tid" "t' \<in> set (db_tasks db')" "t_id t' = d_parent e"
  moreover from row_moves_back [OF m this(3)] obtain t where
    "t \<in> set (db_tasks db)" "task_columns t' = task_columns t"
    "t_status t' = t_status t \<or> (t_status t, t_status t') \<in> E" by blast
  ultimately show "t_status t' = TCompleted"
    using pd E unfolding parents_done_iff by (metis columns_eq(1))
qed

lemma deps_done_keep:
  assumes ok: "deps_done db" and d: "db_deps db' = db_deps db" and m: "tasks_move E db db'"
    and E: "\<And>s. (TCompleted, s) \<in> E \<Longrightarrow> s = TCompleted"
    and new: "\<And>t t'. t \<in> set (db_tasks db) \<Longrightarrow> t' \<in> set (db_tasks db') \<Longrightarrow> task_columns t' = task_columns t \<Longrightarrow>
      (t_status t, t_status t') \<in> E \<Longrightarrow> t_status t' \<in> started \<Longrightarrow>
      t_status t \<in> started \<or> parents_done db (t_id t)"
  shows "deps_done db'"
  unfolding deps_done_def
proof (intro ballI impI)
  fix t' assume t': "t' \<in> set (db_tasks db')" "t_status t' \<in> started"
  obtain t where t: "t \<in> set (db_tasks db)" "task_columns t' = task_columns t"
      "t_status t' = t_status t \<or> (t_status t, t_status t') \<in> E"
    using row_moves_back [OF m t'(1)] by blast
  then have "t_status t \<in> started \<or> parents_done db (t_id t)"
    using new [OF t(1) t'(1) t(2)] t' by auto
  with ok t(1) have "parents_done db (t_id t)" unfolding deps_done_def by blast
  then have "parents_done db' (t_id t)" using d m E by (rule parents_done_keep)
  with columns_eq(1) [OF t(2)] show "parents_done db' (t_id t')" by simp
qed

lemma single_attempt_keep:
  assumes ok: "single_attempt db" and q: "rest_quiet db db'" and m: "tasks_move E db db'"
    and E: "\<And>t t'. t \<in> set (db_tasks db) \<Longrightarrow> t' \<in> set (db_tasks db') \<Longrightarrow> task_columns t' = task_columns t \<Longrightarrow>
      (t_status t, t_status t') \<in> E \<Longrightarrow> t_status t \<in> open_states \<Longrightarrow> t_status t' \<notin> open_states \<Longrightarrow>
      \<forall>a \<in> set (db_attempts db'). a_task a = t_id t \<longrightarrow> a_status a \<noteq> ARunning"
  shows "single_attempt db'"
  unfolding single_attempt_def
proof (intro ballI impI conjI)
  fix a' t' assume a': "a' \<in> set (db_attempts db')" "a_status a' = ARunning"
    and t': "t' \<in> set (db_tasks db')" "t_id t' = a_task a'"
  obtain a where a: "a \<in> set (db_attempts db)" "a_task a' = a_task a" "a_status a = ARunning"
    using quiet_attempt_back [OF q a'(1)] a'(2) by metis
  obtain t where t: "t \<in> set (db_tasks db)" "task_columns t' = task_columns t"
      "t_status t' = t_status t \<or> (t_status t, t_status t') \<in> E"
    using row_moves_back [OF m t'(1)] by blast
  have id: "t_id t' = t_id t" using t(2) by (rule columns_eq)
  with t'(2) a(2) have "t_id t = a_task a" by simp
  with ok a t(1) have "t_status t \<in> open_states" unfolding single_attempt_def by blast
  then show "t_status t' \<in> open_states"
    using E [OF t(1) t'(1) t(2)] t(3) a' t'(2) id by metis
next
  fix a' b' assume a': "a' \<in> set (db_attempts db')" "a_status a' = ARunning"
    and b': "b' \<in> set (db_attempts db')" "a_status b' = ARunning \<and> a_task b' = a_task a'"
  obtain a where "a \<in> set (db_attempts db)" "a_id a' = a_id a" "a_task a' = a_task a" "a_status a = ARunning"
    using quiet_attempt_back [OF q a'(1)] a'(2) by metis
  moreover obtain b where "b \<in> set (db_attempts db)" "a_id b' = a_id b" "a_task b' = a_task b" "a_status b = ARunning"
    using quiet_attempt_back [OF q b'(1)] b'(2) by metis
  ultimately show "a_id b' = a_id a'" using ok b'(2) unfolding single_attempt_def by metis
qed

lemma worker_ok_keep:
  assumes ok: "worker_ok db w" and q: "rest_quiet db db'" and m: "tasks_move E db db'"
    and E: "\<And>s. (TCompleted, s) \<in> E \<Longrightarrow> s = TCompleted"
    and op: "\<And>t t'. t \<in> set (db_tasks db) \<Longrightarrow> t' \<in> set (db_tasks db') \<Longrightarrow> t_id t = t_id (fst w) \<Longrightarrow>
      task_columns t' = task_columns t \<Longrightarrow> (t_status t, t_status t') \<in> E \<Longrightarrow> t_status t' \<in> open_states"
  shows "worker_ok db' w"
  unfolding worker_ok_def
proof (intro conjI)
  show "\<exists>t \<in> set (db_tasks db'). t_id t = t_id (fst w) \<and> t_plan t = t_plan (fst w)"
    using ok row_moves_forth [OF m] unfolding worker_ok_def by (metis columns_eq(1,2))
  show "\<forall>t \<in> set (db_tasks db'). t_id t = t_id (fst w) \<longrightarrow> t_status t \<in> open_states"
  proof (intro ballI impI)
    fix t' assume t': "t' \<in> set (db_tasks db')" "t_id t' = t_id (fst w)"
    obtain t where t: "t \<in> set (db_tasks db)" "task_columns t' = task_columns t"
        "t_status t' = t_status t \<or> (t_status t, t_status t') \<in> E"
      using row_moves_back [OF m t'(1)] by blast
    have id: "t_id t = t_id (fst w)" using columns_eq(1) [OF t(2)] t'(2) by simp
    then show "t_status t' \<in> open_states"
      using t(3) op [OF t(1) t'(1) id t(2)] ok t(1) unfolding worker_ok_def by metis
  qed
  show "parents_done db' (t_id (fst w))"
    using ok q m E unfolding worker_ok_def rest_quiet_def by (blast intro: parents_done_keep)
  show "\<forall>a \<in> set (db_attempts db'). a_status a = ARunning \<and> a_task a = t_id (fst w) \<longrightarrow> a_id a = snd w"
    using ok quiet_attempt_back [OF q] unfolding worker_ok_def by metis
qed

end
