(* ===== verification/Transaction_Safety.thy ===== *)
theory Transaction_Safety
  imports Task_Invariant
begin

text \<open>
  Every transaction keeps the invariant of \<open>Task_Invariant\<close>, together with the workers that hold a
  reserved task: reservation adds a worker, each of the ways to report a result removes one, and the
  reconciliation after a restart treats the rows it reads as workers that end.
\<close>

section \<open>Preservation by the transactions\<close>

lemma worker_open:
  "worker_ok db w \<Longrightarrow> t \<in> set (db_tasks db) \<Longrightarrow> t_id t = t_id (fst w) \<Longrightarrow> t_status t \<in> open_states"
  by (simp add: worker_ok_def)

definition sys_inv :: "db \<Rightarrow> worker list \<Rightarrow> bool" where
  "sys_inv db ws \<longleftrightarrow> task_inv db \<and> workers_ok db ws"

lemma in_update_whereE:
  assumes "r' \<in> set (update_where c f rows)"
  obtains "r' \<in> set rows" "\<not> c r'" | r where "r \<in> set rows" "c r" "r' = f r"
  using assms by (auto simp: set_update_where split: if_splits)

text \<open>Transactions that only stop tasks.\<close>

definition safe_edges :: "(task_status \<times> task_status) set" where
  "safe_edges = (- {TCompleted}) \<times> {TBlocked, TCancelled}"

lemma safe_sub: "stop_edges \<subseteq> safe_edges" "cancel_edges \<subseteq> safe_edges" "{} \<subseteq> safe_edges"
  by (auto simp: stop_edges_def cancel_edges_def safe_edges_def)

lemma workers_ok_keep:
  assumes "workers_ok db ws" and q: "rest_quiet db db'" and m: "tasks_move safe_edges db db'"
  shows "workers_ok db' ws"
  using assms(1) unfolding workers_ok_def
  by (auto intro!: worker_ok_keep [OF _ q m] simp: safe_edges_def open_states_def)

lemma safe_inv:
  assumes inv: "sys_inv db ws" and q: "rest_quiet db db'" and m: "tasks_move safe_edges db db'"
  shows "sys_inv db' ws"
proof -
  have d: "db_deps db' = db_deps db" using q by (simp add: rest_quiet_def)
  have "tables_ok db'" "budget_ok db'" "exclusive db'" "within_limits db'" "deps_done db'" "single_attempt db'"
    using inv unfolding sys_inv_def task_inv_def
    by (auto intro: tables_ok_keep [OF _ q m]
        intro!: budget_ok_keep [OF _ m] exclusive_keep [OF _ m] within_limits_keep [OF _ q m]
          deps_done_keep [OF _ d m] single_attempt_keep [OF _ q m]
        simp: safe_edges_def started_def open_states_def)
  moreover have "workers_ok db' ws"
    using inv q m unfolding sys_inv_def by (blast intro: workers_ok_keep)
  ultimately show ?thesis by (simp add: sys_inv_def task_inv_def)
qed

lemma safe_moves: "tasks_move E db db' \<Longrightarrow> E \<subseteq> safe_edges \<Longrightarrow> rest_quiet db db' \<Longrightarrow> sys_inv db ws \<Longrightarrow> sys_inv db' ws"
  by (blast intro: safe_inv row_moves_mono)

text \<open>Transactions that leave the task rows, or only their status, are covered above; the refresh.\<close>

lemma refresh_task_ready:
  assumes "t' \<in> set (db_tasks (refresh_task now pid task db))" "t_status t' \<in> started"
  shows "t' \<in> set (db_tasks db) \<or> t_id t' = t_id task \<and> parents_done db (t_id t')"
  using assms
  by (auto simp: refresh_task_def block_pending_def ready_pending_def Let_def started_def
      parents_done_def list_all_iff elim!: in_update_whereE split: if_split_asm)

lemma refresh_task_inv:
  assumes inv: "sys_inv db ws"
  shows "sys_inv (refresh_task now pid task db) ws" (is "sys_inv ?db ws")
proof -
  note q = refresh_task_quiet [of db now pid task] and m = refresh_task_moves [of db now pid task]
  have d: "db_deps ?db = db_deps db" using q by (simp add: rest_quiet_def)
  have dd: "deps_done db" and b: "budget_ok db" and w: "workers_ok db ws"
    using inv by (auto simp: sys_inv_def task_inv_def)
  have "t_status t \<in> started \<or> parents_done db (t_id t)"
    if "t \<in> set (db_tasks db)" "t' \<in> set (db_tasks ?db)" "task_columns t' = task_columns t"
      "t_status t' \<in> started" for t t'
    using refresh_task_ready [OF that(2,4)] that(4) dd columns_eq(1) [OF that(3)]
    unfolding deps_done_def by auto
  then have "deps_done ?db"
    by (intro deps_done_keep [OF dd d m]) (auto simp: refresh_edges_def)
  moreover have "budget_ok ?db"
    using b by (intro budget_ok_keep [OF b m]) (auto simp: refresh_edges_def budget_ok_def)
  moreover have "tables_ok ?db" "exclusive ?db" "within_limits ?db" "single_attempt ?db"
    using inv unfolding sys_inv_def task_inv_def
    by (auto intro: tables_ok_keep [OF _ q m]
        intro!: exclusive_keep [OF _ m] within_limits_keep [OF _ q m] single_attempt_keep [OF _ q m]
        simp: refresh_edges_def open_states_def)
  moreover have "worker_ok ?db v" if "v \<in> set ws" for v
  proof -
    have v: "worker_ok db v" using w that by (simp add: workers_ok_def)
    show ?thesis
      by (rule worker_ok_keep [OF v q m])
        (auto simp: refresh_edges_def open_states_def dest!: worker_open [OF v])
  qed
  then have "workers_ok ?db ws" using w by (simp add: workers_ok_def)
  ultimately show ?thesis by (simp add: sys_inv_def task_inv_def)
qed

lemma fold_inv: "(\<And>x db. P db \<Longrightarrow> P (f x db)) \<Longrightarrow> P db \<Longrightarrow> P (fold f xs db)"
  by (induction xs arbitrary: db) auto

lemma refresh_inv: "sys_inv db ws \<Longrightarrow> sys_inv (refresh_plan_states now pid db) ws"
proof -
  assume inv: "sys_inv db ws"
  have r: "sys_inv (refresh_tasks now pid db) ws"
    unfolding refresh_tasks_def
    by (rule fold_inv [where P = "\<lambda>db. sys_inv db ws", OF _ inv]) (rule refresh_task_inv)
  have "sys_inv (settle_plan now plan (refresh_tasks now pid db)) ws" for plan
    by (rule safe_moves [of "{}", OF _ _ settle_plan_quiet r]) simp_all
  with inv show ?thesis by (simp add: refresh_plan_states_def split: option.split)
qed


text \<open>The ends of a worker.\<close>

lemma task_unique:
  "tables_ok db \<Longrightarrow> t \<in> set (db_tasks db) \<Longrightarrow> u \<in> set (db_tasks db) \<Longrightarrow> t_id t = t_id u \<Longrightarrow> t = u"
  unfolding tables_ok_def distinct_map by (elim conjE) (rule inj_onD)

lemma workers_remove:
  assumes "workers_ok db ws" "v \<in> set (remove1 w ws)" "w \<in> set ws"
  shows "v \<in> set ws" "t_id (fst v) \<noteq> t_id (fst w)"
proof -
  have "distinct ws" "inj_on (\<lambda>w. t_id (fst w)) (set ws)"
    using assms(1) unfolding workers_ok_def distinct_map by blast+
  then have "set (remove1 w ws) = set ws - {w}" by simp
  with assms(2) show v: "v \<in> set ws" by simp
  have "v \<noteq> w" using \<open>set (remove1 w ws) = set ws - {w}\<close> assms(2) by simp
  then show "t_id (fst v) \<noteq> t_id (fst w)"
    using \<open>inj_on (\<lambda>w. t_id (fst w)) (set ws)\<close> v assms(3) by (auto dest: inj_onD)
qed

lemma distinct_remove1_map: "distinct (map f xs) \<Longrightarrow> distinct (map f (remove1 x xs))"
  using set_remove1_subset by (induction xs) fastforce+

text \<open>
  A worker ends: its task leaves \<open>open_states\<close> along \<open>E\<close> only, other tasks move along \<open>safe_edges\<close>,
  and its attempt is closed.
\<close>

definition end_edges :: "(task_status \<times> task_status) set" where
  "end_edges = safe_edges \<union> open_states \<times> {TReady, TFailed} \<union> {(TRunning, TCompleted)}"

lemma finish_inv:
  assumes inv: "sys_inv db ws" and w: "w \<in> set ws"
    and q: "rest_quiet db db'" and m: "tasks_move end_edges db db'"
    and own: "\<And>t t'. t \<in> set (db_tasks db) \<Longrightarrow> t' \<in> set (db_tasks db') \<Longrightarrow> task_columns t' = task_columns t \<Longrightarrow>
      t_id t \<noteq> t_id (fst w) \<Longrightarrow> t_status t' = t_status t \<or> (t_status t, t_status t') \<in> safe_edges"
    and retry: "\<And>t'. t' \<in> set (db_tasks db') \<Longrightarrow> t_id t' = t_id (fst w) \<Longrightarrow> t_status t' = TReady \<Longrightarrow>
      t_attempt_count t' < t_max_attempts t'"
    and closed: "\<And>a. a \<in> set (db_attempts db') \<Longrightarrow> a_id a = snd w \<Longrightarrow> a_task a = t_id (fst w) \<Longrightarrow>
      a_status a \<noteq> ARunning"
  shows "sys_inv db' (remove1 w ws)"
proof -
  have d: "db_deps db' = db_deps db" using q by (simp add: rest_quiet_def)
  have tab: "tables_ok db" and ws: "workers_ok db ws" and wok: "worker_ok db w"
    using inv w by (auto simp: sys_inv_def task_inv_def workers_ok_def)
  have b: "budget_ok db'"
  proof (rule budget_ok_keep [OF _ m])
    show "budget_ok db" using inv by (simp add: sys_inv_def task_inv_def)
  next
    fix s assume "(s, TPending) \<in> end_edges"
    then show "s = TPending" by (auto simp: end_edges_def safe_edges_def)
  next
    fix t t' assume tt: "t \<in> set (db_tasks db)" "t' \<in> set (db_tasks db')" "task_columns t' = task_columns t"
      "(t_status t, TReady) \<in> end_edges" "t_status t' = TReady"
    have "t_id t = t_id (fst w)"
    proof (rule ccontr)
      assume "t_id t \<noteq> t_id (fst w)"
      from own [OF tt(1-3) this] tt(4,5) show False
        by (auto simp: end_edges_def safe_edges_def open_states_def)
    qed
    then show "t_attempt_count t < t_max_attempts t"
      using retry [OF tt(2)] tt(5) columns_eq [OF tt(3)] by simp
  qed
  have deps: "deps_done db'"
  proof (rule deps_done_keep [OF _ d m])
    show "deps_done db" using inv by (simp add: sys_inv_def task_inv_def)
  next
    fix s assume "(TCompleted, s) \<in> end_edges"
    then show "s = TCompleted" by (auto simp: end_edges_def safe_edges_def open_states_def)
  next
    fix t t' assume tt: "t \<in> set (db_tasks db)" "t' \<in> set (db_tasks db')" "task_columns t' = task_columns t"
      "(t_status t, t_status t') \<in> end_edges" "t_status t' \<in> started"
    show "t_status t \<in> started \<or> parents_done db (t_id t)"
    proof (cases "t_id t = t_id (fst w)")
      case True
      then show ?thesis using wok by (simp add: worker_ok_def)
    next
      case False
      then show ?thesis using own [OF tt(1-3)] tt(5) by (auto simp: safe_edges_def started_def)
    qed
  qed
  have single: "single_attempt db'"
  proof (rule single_attempt_keep [OF _ q m])
    show "single_attempt db" using inv by (simp add: sys_inv_def task_inv_def)
  next
    fix t t' assume tt: "t \<in> set (db_tasks db)" "t' \<in> set (db_tasks db')" "task_columns t' = task_columns t"
      "t_status t \<in> open_states" "t_status t' \<notin> open_states"
    have "t_id t = t_id (fst w)"
    proof (rule ccontr)
      assume "t_id t \<noteq> t_id (fst w)"
      from own [OF tt(1-3) this] tt(4,5) show False
        by (auto simp: safe_edges_def open_states_def)
    qed
    then show "\<forall>a \<in> set (db_attempts db'). a_task a = t_id t \<longrightarrow> a_status a \<noteq> ARunning"
      using wok closed quiet_attempt_back [OF q] unfolding worker_ok_def by metis
  qed
  have "tables_ok db'" "exclusive db'" "within_limits db'"
    using inv unfolding sys_inv_def task_inv_def
    by (auto intro: tables_ok_keep [OF _ q m]
        intro!: exclusive_keep [OF _ m] within_limits_keep [OF _ q m]
        simp: end_edges_def safe_edges_def)
  moreover have "worker_ok db' v" if v: "v \<in> set (remove1 w ws)" for v
  proof -
    have vok: "worker_ok db v" using workers_remove(1) [OF ws v w] ws by (simp add: workers_ok_def)
    show ?thesis
    proof (rule worker_ok_keep [OF vok q m])
      fix s assume "(TCompleted, s) \<in> end_edges"
      then show "s = TCompleted" by (auto simp: end_edges_def safe_edges_def open_states_def)
    next
      fix t t' assume tt: "t \<in> set (db_tasks db)" "t' \<in> set (db_tasks db')" "t_id t = t_id (fst v)"
        "task_columns t' = task_columns t" "(t_status t, t_status t') \<in> end_edges"
      have "t_id t \<noteq> t_id (fst w)" using workers_remove(2) [OF ws v w] tt(3) by simp
      then show "t_status t' \<in> open_states"
        using own [OF tt(1,2,4)] worker_open [OF vok tt(1,3)] by (auto simp: safe_edges_def open_states_def)
    qed
  qed
  then have "workers_ok db' (remove1 w ws)"
    using ws by (simp add: workers_ok_def distinct_remove1_map)
  ultimately show ?thesis using b deps single by (simp add: sys_inv_def task_inv_def)
qed


text \<open>Each of the four ends.\<close>

lemma closed_after:
  "st \<noteq> ARunning \<Longrightarrow> a \<in> set (db_attempts (close_attempt now aid st r f db)) \<Longrightarrow> a_id a = aid \<Longrightarrow>
     a_status a \<noteq> ARunning"
  unfolding close_attempt_def update_attempts_frame(1) set_update_where by (elim imageE) (simp split: if_split_asm)

lemma finish_safe:
  assumes inv: "sys_inv db ws" and w: "w \<in> set ws"
    and q: "rest_quiet db db'" and m: "tasks_move stop_edges db db'"
  shows "sys_inv db' (remove1 w ws)"
proof -
  have s: "sys_inv db' ws" using m safe_sub(1) q inv by (rule safe_moves)
  then have "workers_ok db' (remove1 w ws)"
    by (auto simp: sys_inv_def workers_ok_def distinct_remove1_map dest: notin_set_remove1)
  with s show ?thesis by (simp add: sys_inv_def)
qed

lemma finish_task_success_inv:
  assumes inv: "sys_inv db ws" and w: "(task, aid) \<in> set ws"
  shows "sys_inv (finish_task_success now task aid result db) (remove1 (task, aid) ws)"
    (is "sys_inv ?db _")
proof (rule finish_inv [OF inv w finish_quiet(2)])
  show "tasks_move end_edges db ?db"
    by (rule row_moves_mono [OF finish_task_success_moves])
      (auto simp: end_edges_def stop_edges_def safe_edges_def)
next
  fix t t' assume tt: "t \<in> set (db_tasks db)" "t' \<in> set (db_tasks ?db)" "task_columns t' = task_columns t"
    "t_id t \<noteq> t_id (fst (task, aid))"
  have "t' \<in> set (db_tasks db)"
    using tt(2,4) columns_eq(1) [OF tt(3)]
    by (auto simp: finish_task_success_def finish_running_task_blocked_by_human_gate_def
        elim!: in_update_whereE split: if_split_asm)
  then have "t' = t" using inv tt(1) columns_eq(1) [OF tt(3)]
    by (auto simp: sys_inv_def task_inv_def intro: task_unique)
  then show "t_status t' = t_status t \<or> (t_status t, t_status t') \<in> safe_edges" by simp
next
  fix t' assume t': "t' \<in> set (db_tasks ?db)" "t_status t' = TReady"
  have "t' \<in> set (db_tasks db)"
    using t' by (auto simp: finish_task_success_def finish_running_task_blocked_by_human_gate_def
        elim!: in_update_whereE split: if_split_asm)
  with t' inv show "t_attempt_count t' < t_max_attempts t'"
    by (auto simp: sys_inv_def task_inv_def budget_ok_def)
next
  fix a assume "a \<in> set (db_attempts ?db)" "a_id a = snd (task, aid)"
  then show "a_status a \<noteq> ARunning"
    by (auto simp: finish_task_success_def finish_running_task_blocked_by_human_gate_def
        dest: closed_after [rotated] split: if_split_asm)
qed


lemma reschedule_tasks:
  "db_tasks (reschedule now c reason stamp db) =
     update_where (\<lambda>t. t_id t = t_id c)
       (\<lambda>t. t\<lparr>t_status := (if t_attempt_count c < t_max_attempts c then TReady else TFailed),
              t_failure := Some reason, t_heartbeat := Some now,
              t_finished := (if stamp then (if t_attempt_count c < t_max_attempts c then None else Some now)
                             else t_finished t)\<rparr>) (db_tasks db)"
  by (simp add: reschedule_def Let_def)

lemma reschedule_moves:
  assumes "tables_ok db" "c \<in> set (db_tasks db)" "t_status c \<in> open_states" "db_tasks x = db_tasks db"
  shows "tasks_move end_edges db (reschedule now c reason stamp x)"
proof -
  have "t_status t \<in> open_states" if "t \<in> set (db_tasks db)" "t_id t = t_id c" for t
    using task_unique [OF assms(1) that(1) assms(2) that(2)] assms(3) by simp
  then show ?thesis
    unfolding reschedule_tasks assms(4)
    by (intro row_moves_update) (auto simp: task_columns_def end_edges_def)
qed

lemma reschedule_other:
  "t' \<in> set (db_tasks (reschedule now c reason stamp db)) \<Longrightarrow> t_id t' \<noteq> t_id c \<Longrightarrow> t' \<in> set (db_tasks db)"
  unfolding reschedule_tasks by (auto elim!: in_update_whereE)

lemma reschedule_ready:
  assumes "tables_ok db" "c \<in> set (db_tasks db)" "db_tasks x = db_tasks db"
    "t' \<in> set (db_tasks (reschedule now c reason stamp x))" "t_id t' = t_id c" "t_status t' = TReady"
  shows "t_attempt_count t' < t_max_attempts t'"
  using assms(4) unfolding reschedule_tasks assms(3)
proof (cases rule: in_update_whereE)
  case 1
  with assms(5) show ?thesis by simp
next
  case (2 r)
  have "r = c" using assms(1) 2(1) assms(2) 2(2) by (rule task_unique)
  with 2(3) assms(6) show ?thesis by (auto split: if_split_asm)
qed

lemma reschedule_inv:
  assumes inv: "sys_inv db ws" and w: "w \<in> set ws" and c: "c \<in> set (db_tasks db)" "t_id c = t_id (fst w)"
    and x: "db_tasks x = db_tasks db" and q: "rest_quiet db x"
    and closed: "\<And>a. a \<in> set (db_attempts x) \<Longrightarrow> a_id a = snd w \<Longrightarrow> a_task a = t_id (fst w) \<Longrightarrow>
      a_status a \<noteq> ARunning"
  shows "sys_inv (reschedule now c reason stamp x) (remove1 w ws)" (is "sys_inv ?db _")
proof -
  have tab: "tables_ok db" and open_c: "t_status c \<in> open_states"
    using inv w c by (auto simp: sys_inv_def task_inv_def workers_ok_def dest: worker_open)
  show ?thesis
  proof (rule finish_inv [OF inv w])
    show "rest_quiet db ?db" using q unfolding reschedule_def Let_def by (rule rest_quiet_after)
    show "tasks_move end_edges db ?db" using tab c(1) open_c x by (rule reschedule_moves)
  next
    fix t t' assume tt: "t \<in> set (db_tasks db)" "t' \<in> set (db_tasks ?db)" "task_columns t' = task_columns t"
      "t_id t \<noteq> t_id (fst w)"
    have "t' \<in> set (db_tasks db)"
      using reschedule_other [OF tt(2)] tt(4) columns_eq(1) [OF tt(3)] c(2) x by simp
    then have "t' = t" using tt(1) columns_eq(1) [OF tt(3)] tab by (auto intro: task_unique)
    then show "t_status t' = t_status t \<or> (t_status t, t_status t') \<in> safe_edges" by simp
  next
    fix t' assume "t' \<in> set (db_tasks ?db)" "t_id t' = t_id (fst w)" "t_status t' = TReady"
    then show "t_attempt_count t' < t_max_attempts t'"
      using c(2) by (auto intro: reschedule_ready [OF tab c(1) x])
  next
    fix a assume "a \<in> set (db_attempts ?db)" "a_id a = snd w" "a_task a = t_id (fst w)"
    then show "a_status a \<noteq> ARunning" using closed by (simp add: reschedule_def Let_def)
  qed
qed

lemma sys_inv_event [simp]: "sys_inv (add_event now pid tid ty sv pl db) ws = sys_inv db ws"
  by (simp add: sys_inv_def task_inv_def task_inv_parts workers_ok_def worker_ok_def parents_done_def
      parent_statuses_def running_in_plan_def)

lemma task_with_Some: "task_with db tid = Some t \<Longrightarrow> t \<in> set (db_tasks db) \<and> t_id t = tid"
  unfolding task_with_def by (rule select_one_Some)

lemma sys_inv_remove: "sys_inv db ws \<Longrightarrow> sys_inv db (remove1 w ws)"
  by (auto simp: sys_inv_def workers_ok_def distinct_remove1_map dest: notin_set_remove1)

lemma finish_blocked_inv:
  assumes "sys_inv db ws" "(task, aid) \<in> set ws" "st \<noteq> ARunning"
  shows "sys_inv (finish_running_task_blocked_by_human_gate now task aid st r f db) (remove1 (task, aid) ws)"
  using assms
  by (intro finish_safe [OF _ _ finish_quiet(1) finish_blocked_moves])
    auto

lemma finish_task_failure_inv:
  assumes inv: "sys_inv db ws" and w: "(task, aid) \<in> set ws"
  shows "sys_inv (finish_task_failure now task aid error db) (remove1 (task, aid) ws)"
proof (cases "task_with db (t_id task)")
  case None
  then show ?thesis using sys_inv_remove [OF inv] by (simp add: finish_task_failure_def)
next
  case (Some c)
  have "sys_inv (reschedule now c error True (close_attempt now aid AFailed None (Some (Some error)) db))
          (remove1 (task, aid) ws)"
    by (rule reschedule_inv [OF inv w])
      (use task_with_Some [OF Some] in \<open>auto intro: close_attempt_quiet dest: closed_after [rotated]\<close>)
  with Some show ?thesis
    using finish_blocked_inv [OF inv w] by (simp add: finish_task_failure_def Let_def)
qed

lemma finish_waiting_inv:
  assumes "sys_inv db ws" "(task, aid) \<in> set ws"
  shows "sys_inv (finish_task_waiting_human now task aid result db) (remove1 (task, aid) ws)"
    "sys_inv (finish_task_cancellation_recovery now task aid result db) (remove1 (task, aid) ws)"
  using finish_safe [OF assms finish_quiet(3) finish_task_waiting_human_moves]
    finish_safe [OF assms finish_quiet(4) finish_task_cancellation_recovery_moves] by auto

lemma settle_task_inv:
  assumes "sys_inv db ws" "(task, aid) \<in> set ws"
  shows "sys_inv (settle_task now task aid outcome db) (remove1 (task, aid) ws)"
  using finish_task_success_inv [OF assms] finish_task_failure_inv [OF assms] finish_waiting_inv [OF assms]
  by (simp add: settle_task_def split: sum.split json.split)

lemma conclude_task_inv:
  "sys_inv db ws \<Longrightarrow> (task, aid) \<in> set ws \<Longrightarrow> sys_inv (conclude_task now task aid outcome db) (remove1 (task, aid) ws)"
  unfolding conclude_task_def by (rule refresh_inv) (rule settle_task_inv)


text \<open>
  The restart. The rows \<^verbatim>\<open>interrupted\<close> reads act like workers that end: each row is the task as
  it is in the table, RUNNING, with its only RUNNING attempt or none.
\<close>

fun row_worker :: "task_row \<times> attempt_row option \<Rightarrow> worker" where
  "row_worker (t, None) = (t, [])"
| "row_worker (t, Some a) = (t, a_id a)"

definition row_current :: "db \<Rightarrow> task_row \<times> attempt_row option \<Rightarrow> bool" where
  "row_current db row \<longleftrightarrow>
     fst row \<in> set (db_tasks db) \<and> t_status (fst row) = TRunning \<and>
     (snd row = None \<longrightarrow> (\<forall>a \<in> set (db_attempts db). a_task a = t_id (fst row) \<longrightarrow> a_status a \<noteq> ARunning))"

lemma fst_row_worker [simp]: "fst (row_worker row) = fst row"
  by (cases row rule: row_worker.cases) auto

lemma reconcile_row_other:
  "t \<in> set (db_tasks db) \<Longrightarrow> t_id t \<noteq> t_id (fst row) \<Longrightarrow> t \<in> set (db_tasks (reconcile_row now iid row db))"
  by (cases row rule: row_worker.cases)
    (auto simp: reconcile_row_def reschedule_tasks abandon_attempt_def Let_def set_update_where image_iff
      split: option.split)

lemma row_current_keep:
  assumes "row_current db row" "t_id (fst row) \<noteq> t_id (fst row')"
  shows "row_current (reconcile_row now iid row' db) row"
proof -
  have "a_status a \<noteq> ARunning"
    if "a \<in> set (db_attempts (reconcile_row now iid row' db))" "a_task a = t_id (fst row)" "snd row = None" for a
    using quiet_attempt_back [OF reconcile_row_quiet that(1)] assms(1) that(2,3)
    unfolding row_current_def by metis
  then show ?thesis
    using assms reconcile_row_other unfolding row_current_def by blast
qed

lemma reconcile_complete_inv:
  assumes inv: "sys_inv db ws" and w: "(task, aid) \<in> set ws"
    and task: "task \<in> set (db_tasks db)" "t_status task = TRunning"
  shows "sys_inv
     (update_tasks (\<lambda>t. t_id t = t_id task)
        (\<lambda>t. t\<lparr>t_status := TCompleted, t_result := result, t_failure := None,
               t_heartbeat := Some now, t_finished := Some now\<rparr>)
        (update_attempts (\<lambda>b. a_id b = aid)
           (\<lambda>b. b\<lparr>a_status := ACompleted, a_result := result, a_heartbeat := now,
                  a_finished := Some now\<rparr>) db)) (remove1 (task, aid) ws)" (is "sys_inv ?db _")
proof (rule finish_inv [OF inv w])
  have tab: "tables_ok db" using inv by (simp add: sys_inv_def task_inv_def)
  show "rest_quiet db ?db" by (auto simp: attempt_columns_def intro!: quiet_intros)
  show "tasks_move end_edges db ?db"
    using task_unique [OF tab _ task(1)] task(2)
    by (auto simp: task_columns_def end_edges_def intro!: row_moves_update)
next
  fix t t' assume tt: "t \<in> set (db_tasks db)" "t' \<in> set (db_tasks ?db)" "task_columns t' = task_columns t"
    "t_id t \<noteq> t_id (fst (task, aid))"
  have "t' \<in> set (db_tasks db)"
    using tt(2,4) columns_eq(1) [OF tt(3)] by (auto elim!: in_update_whereE)
  then have "t' = t" using inv tt(1) columns_eq(1) [OF tt(3)]
    by (auto simp: sys_inv_def task_inv_def intro: task_unique)
  then show "t_status t' = t_status t \<or> (t_status t, t_status t') \<in> safe_edges" by simp
next
  fix t' assume "t' \<in> set (db_tasks ?db)" "t_id t' = t_id (fst (task, aid))" "t_status t' = TReady"
  then show "t_attempt_count t' < t_max_attempts t'" by (auto elim!: in_update_whereE)
next
  fix a assume "a \<in> set (db_attempts ?db)" "a_id a = snd (task, aid)"
  then show "a_status a \<noteq> ARunning"
    by (simp add: set_update_where) (elim imageE, simp split: if_split_asm)
qed

lemma reconcile_row_inv:
  assumes inv: "sys_inv db ws" and w: "row_worker row \<in> set ws" and cur: "row_current db row"
  shows "sys_inv (reconcile_row now iid row db) (remove1 (row_worker row) ws)"
proof (cases row rule: row_worker.cases)
  case (1 t)
  have "sys_inv (reschedule now t ''missing running attempt after restart'' True db) (remove1 (t, []) ws)"
    by (rule reschedule_inv [OF inv]) (use w cur 1 in \<open>auto simp: row_current_def\<close>)
  with 1 show ?thesis by (simp add: reconcile_row_def)
next
  case (2 t a)
  have t: "t \<in> set (db_tasks db)" "t_status t = TRunning" and w': "(t, a_id a) \<in> set ws"
    using cur w 2 by (auto simp: row_current_def)
  have resch: "sys_inv (reschedule now t reason stamp x) (remove1 (t, a_id a) ws)"
    if "db_tasks x = db_tasks db" "rest_quiet db x"
      "\<And>b. b \<in> set (db_attempts x) \<Longrightarrow> a_id b = a_id a \<Longrightarrow> a_status b \<noteq> ARunning" for reason stamp x
    by (rule reschedule_inv [OF inv w' t(1)]) (use that in auto)
  have ab: "sys_inv (reschedule now t reason stamp (abandon_attempt now (a_id a) why db)) (remove1 (t, a_id a) ws)"
    for reason stamp why
    by (rule resch) (auto simp: abandon_attempt_def attempt_columns_def set_update_where
        intro!: quiet_intros split: if_split_asm)
  have cl: "sys_inv (reschedule now t reason stamp (update_attempts (\<lambda>b. a_id b = a_id a \<and> a_status b = ARunning)
      (\<lambda>b. b\<lparr>a_status := AAbandoned, a_failure := why, a_heartbeat := now, a_finished := Some now\<rparr>) db))
      (remove1 (t, a_id a) ws)" for reason stamp why
    by (rule resch) (auto simp: attempt_columns_def set_update_where intro!: quiet_intros split: if_split_asm)
  have keep: "sys_inv (update_attempts (\<lambda>b. a_id b = a_id a)
      (\<lambda>b. b\<lparr>a_instance := Some iid, a_heartbeat := now\<rparr>) db) (remove1 (t, a_id a) ws)"
    by (rule sys_inv_remove, rule safe_moves [of "{}", OF _ _ _ inv])
      (auto simp: attempt_columns_def intro!: quiet_intros)
  show ?thesis
    using ab cl keep reconcile_complete_inv [OF inv w' t]
    by (simp add: 2 reconcile_row_def Let_def split: option.split)
qed

lemma reconcile_fold_inv:
  assumes "sys_inv db (map row_worker rows)" "\<forall>row \<in> set rows. row_current db row"
  shows "sys_inv (fold (reconcile_row now iid) rows db) []"
  using assms
proof (induction rows arbitrary: db)
  case (Cons row rows)
  let ?db = "reconcile_row now iid row db"
  have "sys_inv ?db (map row_worker rows)"
    using reconcile_row_inv [OF Cons.prems(1), of row now iid] Cons.prems(2) by simp
  moreover have "row_current ?db r" if "r \<in> set rows" for r
  proof (rule row_current_keep)
    show "row_current db r" using Cons.prems(2) that by simp
    show "t_id (fst r) \<noteq> t_id (fst row)"
      using Cons.prems(1) that by (auto simp: sys_inv_def workers_ok_def image_iff)
  qed
  ultimately show ?case using Cons.IH by simp
qed simp

lemma set_left_join:
  "set (case xs of [] \<Rightarrow> [(t, None)] | y # ys \<Rightarrow> map (\<lambda>a. (t, Some a)) (y # ys)) =
     (if xs = [] then {(t, None)} else (\<lambda>a. (t, Some a)) ` set xs)"
  by (cases xs) auto

lemma set_interrupted:
  "set (interrupted db) =
     (\<Union>t \<in> {t \<in> set (db_tasks db). t_status t = TRunning}.
        let as = filter (\<lambda>a. a_task a = t_id t \<and> a_status a = ARunning) (db_attempts db)
        in if as = [] then {(t, None)} else (\<lambda>a. (t, Some a)) ` set as)"
  unfolding interrupted_def set_concat set_map image_image set_left_join set_filter Let_def ..

lemma interrupted_in:
  "row \<in> set (interrupted db) \<Longrightarrow> row_current db row"
  by (auto simp: set_interrupted Let_def row_current_def filter_empty_conv split: if_split_asm)

lemma interrupted_attempt:
  "(t, Some a) \<in> set (interrupted db) \<Longrightarrow> a \<in> set (db_attempts db) \<and> a_task a = t_id t \<and> a_status a = ARunning"
  by (auto simp: set_interrupted Let_def split: if_split_asm)

lemma at_most_one:
  assumes "distinct (map f xs)" "\<And>x y. x \<in> set xs \<Longrightarrow> y \<in> set xs \<Longrightarrow> f x = f y"
  shows "length xs \<le> 1"
proof (cases xs)
  case (Cons x ys)
  show ?thesis
  proof (cases ys)
    case (Cons y zs)
    then show ?thesis using assms(1) assms(2) [of x y] \<open>xs = x # ys\<close> by simp
  qed (use Cons in simp)
qed simp

lemma single_running:
  assumes "single_attempt db" "distinct (map a_id (db_attempts db))"
  shows "length (filter (\<lambda>a. a_task a = tid \<and> a_status a = ARunning) (db_attempts db)) \<le> 1"
proof -
  let ?as = "filter (\<lambda>a. a_task a = tid \<and> a_status a = ARunning) (db_attempts db)"
  have "distinct (map a_id ?as)" using assms(2) by (rule distinct_map_filter)
  moreover have "a_id a = a_id b" if "a \<in> set ?as" "b \<in> set ?as" for a b
    using assms(1) that unfolding single_attempt_def by auto
  ultimately show ?thesis by (rule at_most_one)
qed

lemma interrupted_distinct:
  assumes "single_attempt db" "distinct (map a_id (db_attempts db))" "distinct (map t_id (db_tasks db))"
  shows "distinct (map (\<lambda>row. t_id (fst row)) (interrupted db))"
proof -
  have one: "map (\<lambda>row. t_id (fst row))
      (case filter (\<lambda>a. a_task a = t_id t \<and> a_status a = ARunning) (db_attempts db) of
         [] \<Rightarrow> [(t, None)] | as \<Rightarrow> map (\<lambda>a. (t, Some a)) as) = [t_id t]" for t
    using single_running [OF assms(1,2), of "t_id t"]
    by (auto split: list.split simp: le_Suc_eq)
  have "map (\<lambda>row. t_id (fst row)) (interrupted db) = map t_id (filter (\<lambda>t. t_status t = TRunning) (db_tasks db))"
    unfolding interrupted_def map_concat map_map o_def one by simp
  then show ?thesis using assms(3) by (simp add: distinct_map_filter)
qed

lemma restart_workers:
  assumes inv: "task_inv db"
  shows "sys_inv db (map row_worker (interrupted db))"
proof -
  have p: "single_attempt db" "distinct (map a_id (db_attempts db))" "distinct (map t_id (db_tasks db))"
    and tab: "tables_ok db" and dd: "deps_done db"
    using inv by (auto simp: task_inv_def tables_ok_def)
  have "worker_ok db (row_worker row)" if row: "row \<in> set (interrupted db)" for row
  proof -
    have cur: "row_current db row" using row by (rule interrupted_in)
    then have t: "fst row \<in> set (db_tasks db)" "t_status (fst row) = TRunning"
      by (auto simp: row_current_def)
    have u: "t = fst row" if "t \<in> set (db_tasks db)" "t_id t = t_id (fst row)" for t
      using tab that(1) t(1) that(2) by (rule task_unique)
    have "a_id a = snd (row_worker row)"
      if a: "a \<in> set (db_attempts db)" "a_status a = ARunning" "a_task a = t_id (fst row)" for a
    proof (cases row rule: row_worker.cases)
      case (1 t)
      then show ?thesis using cur a by (auto simp: row_current_def)
    next
      case (2 t b)
      then show ?thesis using interrupted_attempt [of t b db] row p(1) a
        unfolding single_attempt_def by fastforce
    qed
    then show ?thesis
      using t u dd unfolding worker_ok_def deps_done_def started_def open_states_def by auto
  qed
  moreover have "distinct (map (\<lambda>w. t_id (fst w)) (map row_worker (interrupted db)))"
    using interrupted_distinct [OF p] by (simp add: o_def)
  ultimately show ?thesis using inv by (simp add: sys_inv_def workers_ok_def)
qed

lemma reconcile_inv:
  assumes "sys_inv db ws"
  shows "sys_inv (reconcile_interrupted_tasks now iid db) []"
proof -
  have "sys_inv (fold (reconcile_row now iid) (interrupted db) db) []"
    by (rule reconcile_fold_inv)
      (use assms restart_workers interrupted_in in \<open>auto simp: sys_inv_def\<close>)
  then show ?thesis
    unfolding reconcile_interrupted_tasks_def Let_def
    by (rule fold_inv [rotated]) (rule refresh_inv)
qed

section \<open>Reservation\<close>

lemma count_where_update_add:
  "count_where d (update_where c f rows) \<le> count_where d rows + count_where c rows"
  by (induction rows) auto

lemma reserve_attempt_cases:
  assumes "reserve_attempt now tid aid iid db = Inr (n, task, db')"
  obtains plan where "task_with db tid = Some task" "reservation_ineligibility_reason db task = None"
    "n = t_attempt_count task + 1"
    "count_where (\<lambda>t. t_id t = tid \<and> t_status t = TReady) (db_tasks db) = 1"
    "aid \<notin> a_id ` set (db_attempts db)"
    "(tid, n) \<notin> (\<lambda>b. (a_task b, a_number b)) ` set (db_attempts db)" "1 \<le> n" "n \<le> 10"
    "db_tasks db' = db_tasks (start_task now tid n db)"
    "db_attempts db' = db_attempts db @ [new_attempt_row now aid tid iid n]"
    "db_plans db' = db_plans db" "db_deps db' = db_deps db"
    "plan_with db (t_plan task) = Some plan" "t_status task = TReady"
    "t_attempt_count task < t_max_attempts task"
    "int (running_in_plan db (t_plan task)) < p_max_parallel plan"
    "\<not> project_is_busy db (t_project task) (t_id task)"
proof -
  have i: "reservation_ineligibility_reason db task = None"
    using assms by (auto simp: reserve_attempt_def Let_def split: option.split_asm if_split_asm)
  then obtain plan where plan: "plan_with db (t_plan task) = Some plan"
      "int (running_in_plan db (t_plan task)) < p_max_parallel plan"
      "t_status task = TReady" "t_attempt_count task < t_max_attempts task"
      "\<not> project_is_busy db (t_project task) (t_id task)"
    by (auto simp: reservation_ineligibility_reason_def Let_def split: if_split_asm option.split_asm)
  show ?thesis
    by (rule that [OF _ i _ _ _ _ _ _ _ _ _ _ plan(1,3,4,2,5)];
      use assms in \<open>auto simp: reserve_attempt_def insert_attempt_def start_task_def new_attempt_row_def Let_def
        split: option.split_asm if_split_asm\<close>)
qed

lemma start_task_row:
  assumes "tables_ok db" "task_with db tid = Some task" "t_status task = TReady"
  shows "set (db_tasks (start_task now tid n db)) =
     insert (task\<lparr>t_status := TRunning, t_attempt_count := n, t_started := coalesce (t_started task) (Some now),
                 t_heartbeat := Some now, t_failure := None\<rparr>) (set (db_tasks db) - {task})"
proof -
  have t: "task \<in> set (db_tasks db)" "t_id task = tid" using task_with_Some [OF assms(2)] by auto
  have "t_id t = tid \<and> t_status t = TReady \<longleftrightarrow> t = task" if "t \<in> set (db_tasks db)" for t
    using task_unique [OF assms(1) that t(1)] t assms(3) by auto
  then show ?thesis
    using t by (auto simp: start_task_def set_update_where)
qed

lemma reserve_inv:
  assumes inv: "sys_inv db ws" and r: "reserve_attempt now tid aid iid db = Inr (n, task, db')"
  shows "sys_inv db' (ws @ [(task, aid)])"
  using r
proof (cases rule: reserve_attempt_cases)
  case (1 plan)
  have tab: "tables_ok db" and bud: "budget_ok db" and exc: "exclusive db" and lim: "within_limits db"
    and dd: "deps_done db" and sing: "single_attempt db" and wok: "workers_ok db ws"
    using inv by (auto simp: sys_inv_def task_inv_def)
  have t: "task \<in> set (db_tasks db)" "t_id task = tid" using task_with_Some [OF 1(1)] by auto
  define run where "run = task\<lparr>t_status := TRunning, t_attempt_count := n,
    t_started := coalesce (t_started task) (Some now), t_heartbeat := Some now, t_failure := None\<rparr>"
  have tasks: "set (db_tasks db') = insert run (set (db_tasks db) - {task})"
    using start_task_row [OF tab 1(1,14)] 1(9) by (simp add: run_def)
  have run: "t_id run = tid" "t_plan run = t_plan task" "t_project run = t_project task"
    "t_status run = TRunning" "t_attempt_count run = n" "t_max_attempts run = t_max_attempts task"
    by (simp_all add: run_def t)
  have ids: "map t_id (db_tasks db') = map t_id (db_tasks db)"
    by (simp add: 1(9) start_task_def map_update_where)
  have idset: "t_id ` set (db_tasks db') = t_id ` set (db_tasks db)" using ids by (metis list.set_map)
  have other: "t_id u \<noteq> tid" if "u \<in> set (db_tasks db)" "u \<noteq> task" for u
    using task_unique [OF tab that(1) t(1)] t(2) that(2) by auto
  have pd: "parents_done db' x" if "parents_done db x" for x
    unfolding parents_done_iff 1(12) tasks
  proof (intro ballI impI)
    fix e u assume e: "e \<in> set (db_deps db)" "d_task e = x" "u \<in> insert run (set (db_tasks db) - {task})"
      "t_id u = d_parent e"
    have "u \<noteq> run"
      using that e t 1(14) run(1) unfolding parents_done_iff by fastforce
    then show "t_status u = TCompleted" using that e unfolding parents_done_iff by blast
  qed
  have "tables_ok db'"
    unfolding tables_ok_def
  proof (intro conjI)
    show "distinct (map t_id (db_tasks db'))" "distinct (map p_id (db_plans db'))"
      "distinct (map a_id (db_attempts db'))"
      "distinct (map (\<lambda>a. (a_task a, a_number a)) (db_attempts db'))"
      using tab 1(5,6) by (auto simp: tables_ok_def ids 1(10,11) new_attempt_row_def)
    show "\<forall>u \<in> set (db_tasks db'). t_plan u \<in> p_id ` set (db_plans db')"
      using tab t(1) run(2) by (auto simp: tables_ok_def tasks 1(11))
    show "\<forall>d \<in> set (db_deps db'). d_task d \<in> t_id ` set (db_tasks db') \<and> d_parent d \<in> t_id ` set (db_tasks db')"
      using tab by (simp add: tables_ok_def idset 1(12))
    show "\<forall>a \<in> set (db_attempts db'). \<exists>u \<in> set (db_tasks db').
        t_id u = a_task a \<and> 1 \<le> a_number a \<and> a_number a \<le> t_attempt_count u"
    proof
      fix a assume a: "a \<in> set (db_attempts db')"
      show "\<exists>u \<in> set (db_tasks db'). t_id u = a_task a \<and> 1 \<le> a_number a \<and> a_number a \<le> t_attempt_count u"
      proof (cases "a \<in> set (db_attempts db)")
        case True
        then obtain u where u: "u \<in> set (db_tasks db)" "t_id u = a_task a" "1 \<le> a_number a"
            "a_number a \<le> t_attempt_count u"
          using tab unfolding tables_ok_def by blast
        show ?thesis
        proof (cases "u = task")
          case True
          then show ?thesis using u run t(2) 1(3) by (intro bexI [of _ run]) (auto simp: tasks)
        next
          case False
          then show ?thesis using u by (auto simp: tasks)
        qed
      next
        case False
        with a have "a = new_attempt_row now aid tid iid n" by (simp add: 1(10))
        then show ?thesis using run 1(7) by (auto simp: tasks new_attempt_row_def)
      qed
    qed
  qed
  moreover have "budget_ok db'"
    using bud t(1) 1(3,8,15) run unfolding budget_ok_def tasks by (auto simp: run_def)
  moreover have "exclusive db'"
    unfolding exclusive_def
  proof (intro ballI impI)
    fix u v
    assume uv: "u \<in> set (db_tasks db')" "v \<in> set (db_tasks db')"
      "t_status u = TRunning \<and> t_status v = TRunning \<and> t_project u = t_project v \<and> t_project u \<noteq> None"
    have free: "t_id w = tid"
      if "w \<in> set (db_tasks db)" "t_status w = TRunning" "t_project w = t_project task" "t_project task \<noteq> None" for w
      using 1(17) that t(2) by (auto simp: project_is_busy_def count_where_0_iff split: option.splits)
    show "t_id u = t_id v"
    proof (cases "u = run")
      case u: True
      show ?thesis
      proof (cases "v = run")
        case False
        then have "v \<in> set (db_tasks db)" using uv(2) by (simp add: tasks)
        moreover have "t_status v = TRunning" "t_project v = t_project task" "t_project task \<noteq> None"
          using uv(3) u run(3) by metis+
        ultimately have "t_id v = tid" by (rule free)
        then show ?thesis using u run(1) by simp
      qed (simp add: u)
    next
      case False
      then have u: "u \<in> set (db_tasks db)" using uv(1) by (simp add: tasks)
      show ?thesis
      proof (cases "v = run")
        case True
        then have "t_status u = TRunning" "t_project u = t_project task" "t_project task \<noteq> None"
          using uv(3) run(3) by metis+
        with u have "t_id u = tid" by (intro free)
        then show ?thesis using True run(1) by simp
      next
        case False
        then have "v \<in> set (db_tasks db)" using uv(2) by (simp add: tasks)
        with exc u uv(3) show ?thesis unfolding exclusive_def by blast
      qed
    qed
  qed
  moreover have "within_limits db'"
    unfolding within_limits_def 1(11)
  proof
    fix p assume p: "p \<in> set (db_plans db)"
    show "int (running_in_plan db' (p_id p)) \<le> p_max_parallel p"
    proof (cases "p_id p = t_plan task")
      case True
      have pl: "plan \<in> set (db_plans db)" "p_id plan = t_plan task"
        using select_one_Some [of _ "db_plans db"] 1(13) by (auto simp: plan_with_def)
      moreover have "inj_on p_id (set (db_plans db))" using tab unfolding tables_ok_def distinct_map by blast
      ultimately have "p = plan" using True p by (metis inj_onD)
      moreover have "running_in_plan db' (p_id p) \<le> running_in_plan db (p_id p) + 1"
        unfolding running_in_plan_def 1(9) start_task_def update_tasks_frame
        using count_where_update_add 1(4) by (metis (no_types, lifting))
      ultimately show ?thesis using 1(16) pl(2) by simp
    next
      case False
      have "count_where (\<lambda>u. t_plan u = p_id p \<and> t_status u = TRunning) (db_tasks db') \<le>
            count_where (\<lambda>u. t_plan u = p_id p \<and> t_status u = TRunning) (db_tasks db)"
        unfolding 1(9) start_task_def update_tasks_frame
        by (rule count_where_update_le)
          (use False task_unique [OF tab _ t(1)] t(2) in fastforce)
      then show ?thesis using lim p unfolding within_limits_def running_in_plan_def by fastforce
    qed
  qed
  moreover have "deps_done db'"
    using dd pd t(1) run(1) t(2) 1(14) unfolding deps_done_def tasks started_def by auto
  moreover have no: "a_status a \<noteq> ARunning" if "a \<in> set (db_attempts db)" "a_task a = tid" for a
    using sing that t 1(14) unfolding single_attempt_def open_states_def by fastforce
  moreover have "single_attempt db'"
    unfolding single_attempt_def
  proof (intro ballI impI conjI)
    fix a u assume "a \<in> set (db_attempts db')" "a_status a = ARunning" "u \<in> set (db_tasks db')" "t_id u = a_task a"
    then show "t_status u \<in> open_states"
      using sing run other no unfolding tasks single_attempt_def 1(10) open_states_def
      by (auto simp: new_attempt_row_def)
  next
    fix a b assume ab: "a \<in> set (db_attempts db')" "a_status a = ARunning"
      "b \<in> set (db_attempts db')" "a_status b = ARunning \<and> a_task b = a_task a"
    let ?new = "new_attempt_row now aid tid iid n"
    have new: "a_task ?new = tid" by (simp add: new_attempt_row_def)
    have old: "x = ?new \<or> x \<in> set (db_attempts db) \<and> a_task x \<noteq> tid"
      if "x \<in> set (db_attempts db')" "a_status x = ARunning" for x
      using that no [of x] by (auto simp: 1(10))
    show "a_id b = a_id a"
    proof (cases "a = ?new")
      case True
      then show ?thesis using old [OF ab(3)] ab(4) new by auto
    next
      case False
      then have "a \<in> set (db_attempts db)" "a_task a \<noteq> tid" using old [OF ab(1,2)] by auto
      moreover have "b \<in> set (db_attempts db)" using old [OF ab(3)] ab(4) new calculation(2) by auto
      ultimately show ?thesis using sing ab(2,4) unfolding single_attempt_def by blast
    qed
  qed
  moreover have "workers_ok db' (ws @ [(task, aid)])"
    unfolding workers_ok_def
  proof (intro conjI ballI)
    have ne: "t_id (fst w) \<noteq> tid" if "w \<in> set ws" for w
      using worker_open [of db w task] wok that t 1(14) unfolding workers_ok_def open_states_def by fastforce
    then show "distinct (map (\<lambda>w. t_id (fst w)) (ws @ [(task, aid)]))"
      using wok t(2) by (simp add: workers_ok_def) blast
    fix w assume w: "w \<in> set (ws @ [(task, aid)])"
    show "worker_ok db' w"
    proof (cases "w \<in> set ws")
      case True
      then have w: "worker_ok db w" using wok by (simp add: workers_ok_def)
      show ?thesis
        unfolding worker_ok_def
      proof (intro conjI)
        show "\<exists>u \<in> set (db_tasks db'). t_id u = t_id (fst w) \<and> t_plan u = t_plan (fst w)"
        proof -
          obtain u where "u \<in> set (db_tasks db)" "t_id u = t_id (fst w)" "t_plan u = t_plan (fst w)"
            using w unfolding worker_ok_def by blast
          moreover from this have "u \<noteq> task" using ne [OF True] t(2) by auto
          ultimately show ?thesis by (auto simp: tasks)
        qed
        show "\<forall>u \<in> set (db_tasks db'). t_id u = t_id (fst w) \<longrightarrow> t_status u \<in> open_states"
          using w ne [OF True] run(1) unfolding worker_ok_def tasks by auto
        show "parents_done db' (t_id (fst w))" using w pd by (simp add: worker_ok_def)
        show "\<forall>a \<in> set (db_attempts db'). a_status a = ARunning \<and> a_task a = t_id (fst w) \<longrightarrow> a_id a = snd w"
          using w ne [OF True] by (auto simp: worker_ok_def 1(10) new_attempt_row_def)
      qed
    next
      case False
      with w have w: "w = (task, aid)" by simp
      show ?thesis
        unfolding worker_ok_def w tasks
        using run t other pd dd 1(14) no
        by (auto simp: 1(10) new_attempt_row_def open_states_def deps_done_def started_def)
    qed
  qed
  ultimately show ?thesis by (simp add: sys_inv_def task_inv_def)
qed

section \<open>Import of a plan\<close>

lemma insert_plan_row_inv:
  assumes inv: "sys_inv db ws" and r: "insert_plan_row role_ids p db = Inr db'"
  shows "sys_inv db' ws"
proof -
  have ok: "plan_row_ok role_ids p db" and db': "db' = db\<lparr>db_plans := db_plans db @ [p]\<rparr>"
    using r by (auto simp: insert_plan_row_def split: if_split_asm)
  have "running_in_plan db (p_id p) = 0"
    using inv ok unfolding running_in_plan_def count_where_0_iff sys_inv_def task_inv_def
      tables_ok_def plan_row_ok_def by metis
  then have "within_limits db'"
    using inv ok unfolding sys_inv_def task_inv_def within_limits_def running_in_plan_def plan_row_ok_def db'
    by auto
  moreover have "tables_ok db'"
    using inv ok unfolding sys_inv_def task_inv_def tables_ok_def plan_row_ok_def db' by auto
  moreover have "budget_ok db' = budget_ok db" "exclusive db' = exclusive db" "deps_done db' = deps_done db"
    "single_attempt db' = single_attempt db" "workers_ok db' ws = workers_ok db ws"
    by (simp_all add: db' budget_ok_def exclusive_def deps_done_def single_attempt_def
        workers_ok_def worker_ok_def parents_done_def parent_statuses_def)
  ultimately show ?thesis using inv by (simp add: sys_inv_def task_inv_def)
qed

lemma tables_ok_attempt:
  "tables_ok db \<Longrightarrow> a \<in> set (db_attempts db) \<Longrightarrow>
     \<exists>t \<in> set (db_tasks db). t_id t = a_task a \<and> 1 \<le> a_number a \<and> a_number a \<le> t_attempt_count t"
  by (simp add: tables_ok_def)

lemma insert_task_row_inv:
  assumes inv: "sys_inv db ws" and r: "insert_task_row role_ids project_ids t db = Inr db'"
    and t: "t_status t = TPending" "t_attempt_count t = 0" "t_plan t \<in> p_id ` set (db_plans db)"
  shows "sys_inv db' ws"
proof -
  have ok: "task_row_ok role_ids project_ids t db" and db': "db' = db\<lparr>db_tasks := db_tasks db @ [t]\<rparr>"
    using r by (auto simp: insert_task_row_def split: if_split_asm)
  have fresh: "t_id t \<notin> t_id ` set (db_tasks db)" using ok by (simp add: task_row_ok_def)
  have tab: "tables_ok db" and wok: "workers_ok db ws" using inv by (auto simp: sys_inv_def task_inv_def)
  have dep: "d_parent d \<noteq> t_id t \<and> d_task d \<noteq> t_id t" if "d \<in> set (db_deps db)" for d
    using tab fresh that unfolding tables_ok_def by metis
  have pd: "parents_done db' x \<longleftrightarrow> parents_done db x" for x
  proof -
    have "(\<forall>u \<in> set (db_tasks db @ [t]). t_id u = d_parent d \<longrightarrow> t_status u = TCompleted) \<longleftrightarrow>
          (\<forall>u \<in> set (db_tasks db). t_id u = d_parent d \<longrightarrow> t_status u = TCompleted)"
      if "d \<in> set (db_deps db)" for d
      using dep [OF that] by auto
    then show ?thesis unfolding parents_done_iff db' by simp
  qed
  have att: "a_task a \<noteq> t_id t" if a: "a \<in> set (db_attempts db)" for a
  proof -
    obtain u where "u \<in> set (db_tasks db)" "t_id u = a_task a"
      using tables_ok_attempt [OF tab a] by blast
    then show ?thesis using fresh by (metis image_eqI)
  qed
  have tab': "tables_ok db'"
    using tab fresh t(3) unfolding tables_ok_def db' by auto
  have bud: "budget_ok db'"
    using inv ok t unfolding sys_inv_def task_inv_def budget_ok_def task_row_ok_def db' by auto
  have exc: "exclusive db'"
    unfolding exclusive_def
  proof (intro ballI impI)
    fix u v assume uv: "u \<in> set (db_tasks db')" "v \<in> set (db_tasks db')"
      "t_status u = TRunning \<and> t_status v = TRunning \<and> t_project u = t_project v \<and> t_project u \<noteq> None"
    have "u \<noteq> t" "v \<noteq> t" using uv(3) t(1) by auto
    then have "u \<in> set (db_tasks db)" "v \<in> set (db_tasks db)" using uv(1,2) by (auto simp: db')
    moreover have "exclusive db" using inv by (simp add: sys_inv_def task_inv_def)
    ultimately show "t_id u = t_id v" using uv(3) unfolding exclusive_def by blast
  qed
  have lim: "within_limits db'"
    using inv t(1) unfolding sys_inv_def task_inv_def within_limits_def running_in_plan_def db' by simp
  have dd: "deps_done db'"
    using inv t(1) pd unfolding sys_inv_def task_inv_def deps_done_def by (auto simp: started_def db')
  have sing: "single_attempt db'"
  proof -
    have old: "single_attempt db" using inv by (simp add: sys_inv_def task_inv_def)
    show ?thesis
      unfolding single_attempt_def
    proof (intro ballI impI conjI)
      fix a u assume au: "a \<in> set (db_attempts db')" "a_status a = ARunning" "u \<in> set (db_tasks db')" "t_id u = a_task a"
      then have "a \<in> set (db_attempts db)" by (simp add: db')
      moreover from att [OF this] have "u \<in> set (db_tasks db)" using au(3,4) by (auto simp: db')
      ultimately show "t_status u \<in> open_states" using old au(2,4) unfolding single_attempt_def by blast
    next
      fix a b assume ab: "a \<in> set (db_attempts db')" "a_status a = ARunning" "b \<in> set (db_attempts db')"
        "a_status b = ARunning \<and> a_task b = a_task a"
      have "a \<in> set (db_attempts db)" "b \<in> set (db_attempts db)" using ab(1,3) by (simp_all add: db')
      with ab(2,4) old show "a_id b = a_id a" unfolding single_attempt_def by blast
    qed
  qed
  have "worker_ok db' w" if "w \<in> set ws" for w
  proof -
    have w: "worker_ok db w" using wok that by (simp add: workers_ok_def)
    then have ne: "t_id (fst w) \<noteq> t_id t" using fresh unfolding worker_ok_def by (metis image_eqI)
    show ?thesis
      using w ne unfolding worker_ok_def pd by (simp add: db')
  qed
  then have "workers_ok db' ws" using wok by (simp add: workers_ok_def)
  with tab' bud exc lim dd sing show ?thesis by (simp add: sys_inv_def task_inv_def)
qed

text \<open>A dependency of a task that has not started.\<close>

lemma insert_dep_row_inv:
  assumes inv: "sys_inv db ws" and r: "insert_dep_row d db = Inr db'"
    and t: "t \<in> set (db_tasks db)" "t_id t = d_task d" "t_status t = TPending"
    and p: "d_parent d \<in> t_id ` set (db_tasks db)"
  shows "sys_inv db' ws"
proof -
  have db': "db' = db\<lparr>db_deps := db_deps db @ [d]\<rparr>"
    using r by (auto simp: insert_dep_row_def split: if_split_asm)
  have tab: "tables_ok db" and wok: "workers_ok db ws" using inv by (auto simp: sys_inv_def task_inv_def)
  have pd: "parents_done db' x \<longleftrightarrow> parents_done db x" if "x \<noteq> d_task d" for x
    using that unfolding parents_done_iff db' by auto
  have ne: "t_id u \<noteq> d_task d" if "u \<in> set (db_tasks db)" "t_status u \<noteq> TPending" for u
    using task_unique [OF tab that(1) t(1)] t(2,3) that(2) by auto
  have tab': "tables_ok db'"
    using tab p imageI [OF t(1), of t_id] t(2) unfolding tables_ok_def db' by simp
  have dd: "deps_done db'"
  proof -
    have "parents_done db' (t_id u)" if "u \<in> set (db_tasks db)" "t_status u \<in> started" for u
      using inv that ne [OF that(1)] pd unfolding sys_inv_def task_inv_def deps_done_def started_def by auto
    then show ?thesis by (simp add: deps_done_def db')
  qed
  have "worker_ok db' w" if "w \<in> set ws" for w
  proof -
    have w: "worker_ok db w" using wok that by (simp add: workers_ok_def)
    have "t_id (fst w) \<noteq> d_task d"
      using worker_open [OF w t(1)] t(2,3) by (auto simp: open_states_def)
    then have "parents_done db' (t_id (fst w))" using pd w by (simp add: worker_ok_def)
    with w show ?thesis by (simp add: worker_ok_def db')
  qed
  then have "workers_ok db' ws" using wok by (simp add: workers_ok_def)
  moreover have "budget_ok db' = budget_ok db" "exclusive db' = exclusive db"
    "within_limits db' = within_limits db" "single_attempt db' = single_attempt db"
    by (simp_all add: db' budget_ok_def exclusive_def within_limits_def single_attempt_def running_in_plan_def)
  ultimately show ?thesis using inv tab' dd by (simp add: sys_inv_def task_inv_def)
qed

definition pending_ids :: "db \<Rightarrow> string set" where
  "pending_ids db = t_id ` {t \<in> set (db_tasks db). t_status t = TPending}"

lemma insert_task_rows_inv:
  assumes "insert_task_rows role_ids project_ids now pid ids tss db = Inr db'" "sys_inv db ws" "pid \<in> p_id ` set (db_plans db)"
  shows "sys_inv db' ws \<and> pending_ids db \<subseteq> pending_ids db' \<and>
         (\<forall>ts \<in> set tss. \<exists>tid. ids (ts_key ts) = Some tid \<and> tid \<in> pending_ids db')"
  using assms
proof (induction role_ids project_ids now pid ids tss db rule: insert_task_rows.induct)
  case (2 role_ids project_ids now pid ids ts rest db)
  from "2.prems"(1) obtain tid db1 where r: "ids (ts_key ts) = Some tid"
      "insert_task_row role_ids project_ids (new_task_row now pid tid ts) db = Inr db1"
      "insert_task_rows role_ids project_ids now pid ids rest db1 = Inr db'"
    by (auto split: option.split_asm)
  have "sys_inv db1 ws"
    using "2.prems"(2,3) by (auto intro!: insert_task_row_inv [OF _ r(2)] simp: new_task_row_def)
  moreover have db1: "db1 = db\<lparr>db_tasks := db_tasks db @ [new_task_row now pid tid ts]\<rparr>"
    using r(2) by (auto simp: insert_task_row_def split: if_split_asm)
  ultimately have "sys_inv db' ws \<and> pending_ids db1 \<subseteq> pending_ids db' \<and>
      (\<forall>ts \<in> set rest. \<exists>tid. ids (ts_key ts) = Some tid \<and> tid \<in> pending_ids db')"
    using "2.IH" [OF r(1) r(2) r(3)] "2.prems"(3) by simp
  moreover have "pending_ids db \<subseteq> pending_ids db1"
    by (auto simp: db1 pending_ids_def)
  moreover have "tid \<in> pending_ids db1"
    unfolding pending_ids_def by (rule image_eqI [of _ _ "new_task_row now pid tid ts"])
      (simp_all add: db1 new_task_row_def)
  ultimately show ?case using r(1) by auto
qed simp

lemma insert_parent_rows_inv:
  assumes "insert_parent_rows pid ids tid ps db = Inr db'" "sys_inv db ws"
    "tid \<in> pending_ids db" "\<And>k i. ids k = Some i \<Longrightarrow> i \<in> pending_ids db"
  shows "sys_inv db' ws \<and> db_tasks db' = db_tasks db"
  using assms
proof (induction pid ids tid ps db rule: insert_parent_rows.induct)
  case (2 pid ids tid par rest db)
  from "2.prems"(1) obtain parent db1 where r: "ids par = Some parent"
      "insert_dep_row \<lparr>d_plan = pid, d_task = tid, d_parent = parent\<rparr> db = Inr db1"
      "insert_parent_rows pid ids tid rest db1 = Inr db'"
    by (auto split: option.split_asm)
  obtain t where t: "t \<in> set (db_tasks db)" "t_id t = tid" "t_status t = TPending"
    using "2.prems"(3) by (auto simp: pending_ids_def)
  have "parent \<in> t_id ` set (db_tasks db)" using "2.prems"(4) [OF r(1)] by (auto simp: pending_ids_def)
  then have "sys_inv db1 ws"
    using insert_dep_row_inv [OF "2.prems"(2) r(2) t(1)] t by simp
  moreover have tasks: "db_tasks db1 = db_tasks db"
    using r(2) by (auto simp: insert_dep_row_def split: if_split_asm)
  ultimately have "sys_inv db' ws \<and> db_tasks db' = db_tasks db1"
    using "2.IH" [OF r(1,2,3)] "2.prems"(3,4) by (simp add: pending_ids_def)
  with tasks show ?case by simp
qed simp

lemma insert_dep_rows_inv:
  assumes "insert_dep_rows pid ids tss db = Inr db'" "sys_inv db ws" "\<And>k i. ids k = Some i \<Longrightarrow> i \<in> pending_ids db"
  shows "sys_inv db' ws"
  using assms
proof (induction pid ids tss db rule: insert_dep_rows.induct)
  case (2 pid ids ts rest db)
  from "2.prems"(1) obtain tid db1 where r: "ids (ts_key ts) = Some tid"
      "insert_parent_rows pid ids tid (ts_deps ts) db = Inr db1" "insert_dep_rows pid ids rest db1 = Inr db'"
    by (auto split: option.split_asm)
  have "sys_inv db1 ws \<and> db_tasks db1 = db_tasks db"
    using insert_parent_rows_inv [OF r(2) "2.prems"(2)] "2.prems"(3) r(1) by blast
  then show ?case using "2.IH" [OF r(1,2,3)] "2.prems"(3) by (simp add: pending_ids_def)
qed simp

lemma insert_plan_inv:
  assumes inv: "sys_inv db ws" and r: "insert_plan sha role_ids project_ids now pid tids plan source initial db = Inr db'"
  shows "sys_inv db' ws"
proof -
  obtain p db1 db2 where s: "insert_plan_row role_ids p db = Inr db1" "p_id p = pid"
      "insert_task_rows role_ids project_ids now pid (task_ids plan tids) (ps_tasks plan) db1 = Inr db2"
      "insert_dep_rows pid (task_ids plan tids) (ps_tasks plan) db2 = Inr db'"
    using r by (auto simp: insert_plan_def split: if_split_asm)
  have pid: "pid \<in> p_id ` set (db_plans db1)"
    using s(1,2) by (auto simp: insert_plan_row_def split: if_split_asm)
  note rows = insert_task_rows_inv [OF s(3) insert_plan_row_inv [OF inv s(1)] pid]
  have "i \<in> pending_ids db2" if "task_ids plan tids k = Some i" for k i
  proof -
    have "k \<in> ts_key ` set (ps_tasks plan)"
      using that map_of_SomeD [of _ k i] set_zip_leftD unfolding task_ids_def by fastforce
    with rows that show ?thesis by fastforce
  qed
  then show ?thesis using insert_dep_rows_inv [OF s(4)] rows by blast
qed

end
