(* ===== verification/Orch_System.thy ===== *)
theory Orch_System
  imports Transaction_Safety
begin

text \<open>
  The orchestrator as a transition system. A state is the database and the workers: the threads of
  the task executor between \<^verbatim>\<open>reserve_attempt\<close> and the transaction that reports their result. A
  step is one transaction of the orchestrator, of \<^verbatim>\<open>scripts/hermesops-objectives.py\<close> or of
  another process; a plan is imported as its callers do it, after \<^verbatim>\<open>validate_plan\<close>. The other processes of the controller write runs, approvals, integrations, locks,
  objectives, events, instances and executions as they like (\<open>external\<close>), and cancel the plan of an
  objective (\<open>api_cancel\<close>, the statement of \<^verbatim>\<open>controller_api/objective_commands.py\<close>); they do not
  write plans, tasks, dependencies or attempts otherwise. A crash loses the workers; the
  reconciliation of the next start runs while there is none.
\<close>

section \<open>Steps\<close>

type_synonym sys = "db \<times> worker list"

definition empty_db :: db where
  "empty_db = \<lparr>db_plans = [], db_tasks = [], db_deps = [], db_attempts = [], db_runs = [], db_approvals = [],
     db_integrations = [], db_locks = [], db_objectives = [], db_oattempts = [], db_oevents = [],
     db_events = [], db_instances = [], db_executions = []\<rparr>"

definition sys_init :: "sys \<Rightarrow> bool" where
  "sys_init s \<longleftrightarrow> s = (empty_db, [])"

definition external_change :: "db \<Rightarrow> db \<Rightarrow> bool" where
  "external_change db db' \<longleftrightarrow>
     db_plans db' = db_plans db \<and> db_tasks db' = db_tasks db \<and> db_deps db' = db_deps db \<and>
     db_attempts db' = db_attempts db"

inductive sys_step :: "sys \<Rightarrow> sys \<Rightarrow> bool" where
  import_plan: "validate_plan roles projects allow_test require_enabled raw = Inr plan \<Longrightarrow>
    insert_plan sha role_ids project_ids now pid tids plan source initial db = Inr db' \<Longrightarrow> sys_step (db, ws) (db', ws)"
| activate: "command_activate now pid db = Inr db' \<Longrightarrow> sys_step (db, ws) (db', ws)"
| cancel_plan: "command_cancel now pid db = Inr db' \<Longrightarrow> sys_step (db, ws) (db', ws)"
| refresh: "sys_step (db, ws) (refresh_plan_states now pid db, ws)"
| reserve: "reserve_attempt now tid aid iid db = Inr (n, task, db') \<Longrightarrow>
    sys_step (db, ws) (db', ws @ [(task, aid)])"
| heartbeat: "(task, aid) \<in> set ws \<Longrightarrow> sys_step (db, ws) (heartbeat_attempt now (t_id task) aid db, ws)"
| links: "(task, aid) \<in> set ws \<Longrightarrow> sys_step (db, ws) (set_attempt_links now aid run worker review integ db, ws)"
| conclude: "(task, aid) \<in> set ws \<Longrightarrow>
    sys_step (db, ws) (settle_task now task aid outcome db, remove1 (task, aid) ws)"
| cleanup: "sys_step (db, ws) (snd (mark_cancellation_cleanup_recovery now rid reason db), ws)"
| crash: "sys_step (db, ws) (db, [])"
| restart: "sys_step (db, []) (reconcile_interrupted_tasks now iid db, [])"
| restart_objectives: "sys_step (db, []) (reconcile_interrupted_objectives now iid db, [])"
| synchronize: "sys_step (db, ws) (synchronize_objective_states now db, ws)"
| promote: "sys_step (db, ws) (snd (promote_planned_objective now oid db), ws)"
| plan_objective: "reserve_ai_objective now oid aid iid slots db = Inr (r, db') \<Longrightarrow> sys_step (db, ws) (db', ws)"
| planned: "sys_step (db, ws) (conclude_planning later backoff text now oid aid poutcome db, ws)"
| pause: "objective_pause now oid db = Inr db' \<Longrightarrow> sys_step (db, ws) (db', ws)"
| resume: "objective_resume now oid db = Inr db' \<Longrightarrow> sys_step (db, ws) (db', ws)"
| cancel_objective: "objective_cancel now oid db = Inr db' \<Longrightarrow> sys_step (db, ws) (db', ws)"
| api_cancel: "sys_step (db, ws) (cancel_objective_plan now plan_id db, ws)"
| external: "external_change db db' \<Longrightarrow> sys_step (db, ws) (db', ws)"

inductive_cases sys_stepE: "sys_step s s'"

section \<open>Every step keeps the invariant\<close>

lemma external_inv: "external_change db db' \<Longrightarrow> sys_inv db ws \<Longrightarrow> sys_inv db' ws"
  by (rule safe_moves [of "{}"]) (auto simp: external_change_def intro: rest_quiet_same)

lemma heartbeat_inv: "sys_inv db ws \<Longrightarrow> sys_inv (heartbeat_attempt now tid aid db) ws"
  by (rule safe_moves [of "{}", OF _ _ heartbeat_quiet])
    (auto simp: heartbeat_attempt_def Let_def task_columns_def intro!: row_moves_update)

lemma links_inv: "sys_inv db ws \<Longrightarrow> sys_inv (set_attempt_links now aid run w rv ig db) ws"
  by (rule safe_moves [of "{}", OF _ _ links_quiet]) (auto simp: set_attempt_links_def)

lemma activate_inv:
  assumes "sys_inv db ws" "command_activate now pid db = Inr db'"
  shows "sys_inv db' ws"
proof -
  let ?db = "update_plans (\<lambda>p. p_id p = pid \<and> p_status p = PDraft)
    (\<lambda>p. p\<lparr>p_status := PReady, p_heartbeat := Some now, p_error := None\<rparr>) db"
  have "sys_inv ?db ws"
    by (rule safe_moves [of "{}", OF _ _ _ assms(1)]) (auto simp: plan_columns_def)
  moreover have "db' = refresh_plan_states now pid ?db"
    using assms(2) by (auto simp: command_activate_def split: if_split_asm)
  ultimately show ?thesis using refresh_inv by simp
qed

lemma reconcile_objectives_inv: "sys_inv db ws \<Longrightarrow> sys_inv (reconcile_interrupted_objectives now iid db) ws"
  unfolding reconcile_interrupted_objectives_def
proof (rule fold_inv [where P = "\<lambda>db. sys_inv db ws"])
  fix row db assume "sys_inv db ws"
  then show "sys_inv (reconcile_objective now iid row db) ws"
    by (rule safe_moves [of "{}", rotated -1])
      (auto simp: reconcile_objective_def Let_def intro!: rest_quiet_same split: prod.split option.split)
qed

lemma reserve_ai_inv:
  "sys_inv db ws \<Longrightarrow> reserve_ai_objective now oid aid iid slots db = Inr (r, db') \<Longrightarrow> sys_inv db' ws"
  by (rule safe_moves [of "{}", OF _ _ reserve_ai_quiet]) (auto dest: reserve_ai_moves)

lemma objective_commands_inv:
  "sys_inv db ws \<Longrightarrow> objective_pause now oid db = Inr db' \<Longrightarrow> sys_inv db' ws"
  "sys_inv db ws \<Longrightarrow> objective_resume now oid db = Inr db' \<Longrightarrow> sys_inv db' ws"
  "sys_inv db ws \<Longrightarrow> objective_cancel now oid db = Inr db' \<Longrightarrow> sys_inv db' ws"
  by (rule safe_moves [of "{}", OF _ _ objective_commands_quiet(1)], auto dest: objective_pause_moves)
    (rule safe_moves [of "{}", OF _ _ objective_commands_quiet(2)], auto dest: objective_resume_moves,
     rule safe_moves [OF objective_cancel_moves safe_sub(2) objective_commands_quiet(3)], auto)

lemmas quiet_steps =
  safe_moves [OF cancel_objective_plan_moves safe_sub(2) cancel_objective_plan_quiet [OF rest_quiet_refl]]
  safe_moves [OF synchronize_moves safe_sub(2) synchronize_quiet]
  safe_moves [OF promote_moves safe_sub(3) promote_quiet]
  safe_moves [OF conclude_planning_moves safe_sub(2) conclude_planning_quiet]
  safe_moves [OF mark_recovery_moves safe_sub(1) mark_recovery_quiet]
  safe_moves [OF command_cancel_moves safe_sub(2) command_cancel_quiet]

lemma sys_step_inv:
  assumes "sys_inv (fst s) (snd s)" "sys_step s s'"
  shows "sys_inv (fst s') (snd s')"
  using assms(2,1)
proof cases
  case crash
  then show ?thesis using assms(1) by (auto simp: sys_inv_def workers_ok_def)
qed (use assms(1) in \<open>auto intro: insert_plan_inv activate_inv quiet_steps refresh_inv reserve_inv
      heartbeat_inv links_inv settle_task_inv reconcile_inv reconcile_objectives_inv reserve_ai_inv
      objective_commands_inv external_inv\<close>)

lemma sys_init_inv: "sys_init s \<Longrightarrow> sys_inv (fst s) (snd s)"
  by (auto simp: sys_init_def empty_db_def sys_inv_def task_inv_def task_inv_parts workers_ok_def)

interpretation orchestrator: invariant_system sys_init sys_step "\<lambda>s. sys_inv (fst s) (snd s)"
  by unfold_locales (auto intro: sys_init_inv sys_step_inv)

end
