(* ===== verification/Orch_Safety.thy ===== *)
theory Orch_Safety
  imports Orch_System
begin

text \<open>
  The lifecycle of tasks under every step of the system, and what holds in every reachable state:
  exclusive projects and plan limits, dependencies before dependents, attempt budgets, final
  statuses, and reservations that fail only for the reasons the code lists.
\<close>

section \<open>The lifecycle of a task\<close>

definition task_identity ::
  "task_row \<Rightarrow> string \<times> string \<times> string \<times> kind \<times> string option \<times> int \<times> int \<times> string" where
  "task_identity t = (t_id t, t_plan t, t_key t, t_kind t, t_project t, t_priority t, t_max_attempts t,
                      t_created t)"

text \<open>
  The lifecycle of a task. The last part is the late report: a worker whose task was blocked or
  cancelled meanwhile fails, and \<^verbatim>\<open>finish_task_failure\<close> writes its verdict over that status.
\<close>

definition task_lifecycle :: "(task_status \<times> task_status) set" where
  "task_lifecycle =
     {TPending} \<times> {TReady, TBlocked, TCancelled} \<union>
     {TReady} \<times> {TRunning, TBlocked, TCancelled} \<union>
     {TRunning} \<times> {TCompleted, TReady, TFailed, TBlocked} \<union>
     {TBlocked} \<times> {TCancelled} \<union>
     {TBlocked, TCancelled} \<times> {TReady, TFailed}"

interpretation task_table: lifecycle task_identity t_status task_lifecycle "{TCompleted, TFailed}"
  by unfold_locales (auto simp: task_lifecycle_def)

definition tasks_follow :: "db \<Rightarrow> db \<Rightarrow> bool" where
  "tasks_follow db db' \<longleftrightarrow>
     (\<exists>rows new. row_moves task_identity t_status task_lifecycle (db_tasks db) rows \<and>
        db_tasks db' = rows @ new \<and> (\<forall>t \<in> set new. t_plan t \<notin> p_id ` set (db_plans db)))"

lemma tasks_followI:
  "row_moves task_identity t_status task_lifecycle (db_tasks db) (db_tasks db') \<Longrightarrow> tasks_follow db db'"
  unfolding tasks_follow_def by (intro exI [of _ "db_tasks db'"] exI [of _ "[]"]) simp

lemma row_moves_coarse:
  assumes "row_moves key status E rows rows'" "E \<subseteq> F" "\<And>r r'. key r' = key r \<Longrightarrow> key2 r' = key2 r"
  shows "row_moves key2 status F rows rows'"
  using assms(1) unfolding row_moves_def by (rule list_all2_mono) (use assms(2) in \<open>blast intro: assms(3)\<close>)

lemma follow_moves:
  assumes "tasks_move E db db'" "E \<subseteq> task_lifecycle"
  shows "tasks_follow db db'"
proof -
  have "row_moves task_identity t_status task_lifecycle (db_tasks db) (db_tasks db')"
    using assms by (rule row_moves_coarse) (simp add: task_columns_def task_identity_def)
  then show ?thesis by (rule tasks_followI)
qed

lemma lifecycle_sub:
  "refresh_edges \<subseteq> task_lifecycle" "stop_edges \<subseteq> task_lifecycle" "cancel_edges \<subseteq> task_lifecycle"
  "insert (TRunning, TCompleted) stop_edges \<subseteq> task_lifecycle" "{} \<subseteq> task_lifecycle"
  "refresh_edges \<union> restart_edges \<subseteq> task_lifecycle"
  by (auto simp: refresh_edges_def stop_edges_def cancel_edges_def restart_edges_def task_lifecycle_def)

lemma reschedule_moves_from:
  assumes "tables_ok db" "c \<in> set (db_tasks db)" "t_status c \<in> S" "db_tasks x = db_tasks db"
  shows "tasks_move (S \<times> {TReady, TFailed}) db (reschedule now c reason stamp x)"
proof -
  have "t_status t \<in> S" if "t \<in> set (db_tasks db)" "t_id t = t_id c" for t
    using task_unique [OF assms(1) that(1) assms(2) that(2)] assms(3) by simp
  then show ?thesis
    unfolding reschedule_tasks assms(4)
    by (intro row_moves_update) (auto simp: task_columns_def)
qed

lemma settle_follow:
  assumes inv: "sys_inv db ws" and w: "(task, aid) \<in> set ws"
  shows "tasks_follow db (settle_task now task aid outcome db)"
proof -
  have fail: "tasks_follow db (finish_task_failure now task aid e db)" for e
  proof (cases "task_with db (t_id task)")
    case None
    then show ?thesis by (intro follow_moves [of "{}"]) (simp_all add: finish_task_failure_def)
  next
    case (Some c)
    have c: "c \<in> set (db_tasks db)" "t_id c = t_id task" using task_with_Some [OF Some] by auto
    then have "t_status c \<in> open_states" "tables_ok db"
      using inv w worker_open [of db "(task, aid)" c]
      by (auto simp: sys_inv_def task_inv_def workers_ok_def)
    then have "tasks_move (open_states \<times> {TReady, TFailed}) db
        (reschedule now c e True (close_attempt now aid AFailed None (Some (Some e)) db))"
      using c(1) by (intro reschedule_moves_from) auto
    then have "tasks_follow db (reschedule now c e True (close_attempt now aid AFailed None (Some (Some e)) db))"
      by (rule follow_moves) (auto simp: open_states_def task_lifecycle_def)
    moreover have "tasks_follow db (finish_running_task_blocked_by_human_gate now task aid AFailed None (Some e) db)"
      by (rule follow_moves [OF finish_blocked_moves lifecycle_sub(2)])
    ultimately show ?thesis using Some
      by (simp add: finish_task_failure_def Let_def tasks_follow_def)
  qed
  have "tasks_follow db (finish_task_success now task aid r db)" for r
    by (rule follow_moves [OF finish_task_success_moves lifecycle_sub(4)])
  moreover have "tasks_follow db (finish_task_waiting_human now task aid r db)" for r
    by (rule follow_moves [OF finish_task_waiting_human_moves lifecycle_sub(2)])
  moreover have "tasks_follow db (finish_task_cancellation_recovery now task aid r db)" for r
    by (rule follow_moves [OF finish_task_cancellation_recovery_moves lifecycle_sub(2)])
  ultimately show ?thesis using fail
    by (simp add: settle_task_def split: sum.split json.split)
qed

lemma reserve_follow:
  assumes inv: "sys_inv db ws" and r: "reserve_attempt now tid aid iid db = Inr (n, task, db')"
  shows "tasks_follow db db'"
  using r
proof (cases rule: reserve_attempt_cases)
  case (1 plan)
  have "row_moves task_identity t_status task_lifecycle (db_tasks db) (db_tasks db')"
    unfolding 1(9) start_task_def update_tasks_frame
    by (rule row_moves_update) (auto simp: task_identity_def task_lifecycle_def)
  then show ?thesis by (rule tasks_followI)
qed

lemma insert_rows_follow:
  "insert_task_rows role_ids project_ids now pid ids tss db = Inr db' \<Longrightarrow>
     \<exists>new. db_tasks db' = db_tasks db @ new \<and> (\<forall>t \<in> set new. t_plan t = pid)"
proof (induction role_ids project_ids now pid ids tss db rule: insert_task_rows.induct)
  case (2 role_ids project_ids now pid ids ts rest db)
  then obtain tid db1 where r: "ids (ts_key ts) = Some tid"
      "insert_task_row role_ids project_ids (new_task_row now pid tid ts) db = Inr db1" "insert_task_rows role_ids project_ids now pid ids rest db1 = Inr db'"
    by (auto split: option.split_asm)
  have "db_tasks db1 = db_tasks db @ [new_task_row now pid tid ts]"
    using r(2) by (auto simp: insert_task_row_def split: if_split_asm)
  moreover obtain new where "db_tasks db' = db_tasks db1 @ new" "\<forall>t \<in> set new. t_plan t = pid"
    using "2.IH" [OF r] by blast
  ultimately show ?case by (intro exI [of _ "new_task_row now pid tid ts # new"]) (simp add: new_task_row_def)
qed simp

lemma insert_parents_tasks: "insert_parent_rows pid ids tid ps db = Inr db' \<Longrightarrow> db_tasks db' = db_tasks db"
proof (induction pid ids tid ps db rule: insert_parent_rows.induct)
  case (2 pid ids tid par rest db)
  then show ?case by (fastforce simp: insert_dep_row_def split: option.split_asm if_split_asm)
qed simp

lemma insert_deps_tasks: "insert_dep_rows pid ids tss db = Inr db' \<Longrightarrow> db_tasks db' = db_tasks db"
proof (induction pid ids tss db rule: insert_dep_rows.induct)
  case (2 pid ids ts rest db)
  then show ?case by (fastforce dest: insert_parents_tasks split: option.split_asm)
qed simp

lemma insert_plan_follow:
  assumes "insert_plan sha role_ids project_ids now pid tids plan source initial db = Inr db'"
  shows "tasks_follow db db'"
proof -
  obtain p db1 db2 where s: "insert_plan_row role_ids p db = Inr db1" "p_id p = pid"
      "insert_task_rows role_ids project_ids now pid (task_ids plan tids) (ps_tasks plan) db1 = Inr db2"
      "insert_dep_rows pid (task_ids plan tids) (ps_tasks plan) db2 = Inr db'"
    using assms by (auto simp: insert_plan_def split: if_split_asm)
  have p: "pid \<notin> p_id ` set (db_plans db)" "db_tasks db1 = db_tasks db"
    using s(1,2) by (auto simp: insert_plan_row_def plan_row_ok_def split: if_split_asm)
  obtain new where "db_tasks db' = db_tasks db @ new" "\<forall>t \<in> set new. t_plan t = pid"
    using insert_rows_follow [OF s(3)] insert_deps_tasks [OF s(4)] p(2) by auto
  then show ?thesis
    unfolding tasks_follow_def using p(1) by (intro exI [of _ "db_tasks db"] exI [of _ new]) auto
qed

lemma reconcile_row_moves:
  assumes tab: "tables_ok db" and cur: "row_current db row"
  shows "tasks_move restart_edges db (reconcile_row now iid row db)"
proof (cases row rule: row_worker.cases)
  case (1 t)
  have "tasks_move ({TRunning} \<times> {TReady, TFailed}) db
      (reschedule now t ''missing running attempt after restart'' True db)"
    by (rule reschedule_moves_from [OF tab]) (use cur 1 in \<open>auto simp: row_current_def\<close>)
  then show ?thesis
    by (simp add: 1 reconcile_row_def) (erule row_moves_mono, auto simp: restart_edges_def)
next
  case (2 t a)
  have t: "t \<in> set (db_tasks db)" "t_status t = TRunning" using cur 2 by (auto simp: row_current_def)
  have re: "tasks_move restart_edges db (reschedule now t reason stamp x)"
    if "db_tasks x = db_tasks db" for reason stamp x
    using reschedule_moves_from [OF tab t(1) _ that, of "{TRunning}" now reason stamp] t(2)
    by (auto elim!: row_moves_mono simp: restart_edges_def)
  have co: "row_moves task_columns t_status restart_edges (db_tasks db)
      (update_where (\<lambda>u. t_id u = t_id t)
        (\<lambda>u. u\<lparr>t_status := TCompleted, t_result := r, t_failure := None, t_heartbeat := Some now,
               t_finished := Some now\<rparr>) (db_tasks db))" for r
    using task_unique [OF tab _ t(1)] t(2)
    by (intro row_moves_update) (auto simp: task_columns_def restart_edges_def)
  show ?thesis
    using re co by (simp add: 2 reconcile_row_def Let_def abandon_attempt_def split: option.split)
qed

lemma reconcile_fold_moves:
  assumes "sys_inv db (map row_worker rows)" "\<forall>row \<in> set rows. row_current db row"
  shows "tasks_move restart_edges db (fold (reconcile_row now iid) rows db)"
  using assms
proof (induction rows arbitrary: db)
  case (Cons row rows)
  let ?db = "reconcile_row now iid row db"
  have "tasks_move restart_edges db ?db"
    using Cons.prems by (intro reconcile_row_moves) (auto simp: sys_inv_def task_inv_def)
  moreover have "sys_inv ?db (map row_worker rows)"
    using reconcile_row_inv [OF Cons.prems(1), of row now iid] Cons.prems(2) by simp
  moreover have "row_current ?db r" if "r \<in> set rows" for r
  proof (rule row_current_keep)
    show "row_current db r" using Cons.prems(2) that by simp
    show "t_id (fst r) \<noteq> t_id (fst row)"
      using Cons.prems(1) that by (auto simp: sys_inv_def workers_ok_def image_iff)
  qed
  ultimately have "tasks_move restart_edges ?db (fold (reconcile_row now iid) rows ?db)"
    using Cons.IH by blast
  with \<open>tasks_move restart_edges db ?db\<close> show ?case by (auto intro: row_moves_trans)
qed simp

lemma reconcile_follow:
  assumes "sys_inv db ws"
  shows "tasks_follow db (reconcile_interrupted_tasks now iid db)"
proof (rule follow_moves [OF _ lifecycle_sub(6)])
  let ?E = "refresh_edges \<union> restart_edges"
  have t: "trans ?E" by (auto simp: refresh_edges_def restart_edges_def intro!: transI)
  let ?db = "fold (reconcile_row now iid) (interrupted db) db"
  have "tasks_move restart_edges db ?db"
    by (rule reconcile_fold_moves)
      (use assms restart_workers interrupted_in in \<open>auto simp: sys_inv_def\<close>)
  then have a: "tasks_move ?E db ?db" by (rule row_moves_mono) simp
  have "tasks_move ?E ?db (fold (refresh_plan_states now) (unsettled_plans ?db) ?db)"
    by (rule fold_moves [OF _ t]) (rule row_moves_mono [OF refresh_plan_states_moves], simp)
  with a t show "tasks_move ?E db (reconcile_interrupted_tasks now iid db)"
    unfolding reconcile_interrupted_tasks_def Let_def by (blast intro: row_moves_trans)
qed

lemma reconcile_objectives_tasks: "db_tasks (reconcile_interrupted_objectives now iid db) = db_tasks db"
  unfolding reconcile_interrupted_objectives_def
  by (rule fold_inv [where P = "\<lambda>x. db_tasks x = db_tasks db"])
    (auto simp: reconcile_objective_def Let_def split: prod.split option.split)

lemma follow_same: "db_tasks db' = db_tasks db \<Longrightarrow> tasks_follow db db'"
  by (rule follow_moves [OF _ lifecycle_sub(5)]) simp

lemmas follow_steps =
  follow_moves [OF cancel_objective_plan_moves lifecycle_sub(3)]
  follow_moves [OF synchronize_moves lifecycle_sub(3)]
  follow_moves [OF promote_moves lifecycle_sub(5)]
  follow_moves [OF conclude_planning_moves lifecycle_sub(3)]
  follow_moves [OF mark_recovery_moves lifecycle_sub(2)]
  follow_moves [OF command_cancel_moves lifecycle_sub(3)]
  follow_moves [OF objective_cancel_moves lifecycle_sub(3)]
  follow_moves [OF refresh_plan_states_moves lifecycle_sub(1)]
  follow_moves [OF command_activate_moves lifecycle_sub(1)]
  follow_same [OF reconcile_objectives_tasks] follow_same [OF reserve_ai_moves]
  follow_same [OF objective_pause_moves] follow_same [OF objective_resume_moves]

lemma heartbeat_follow: "tasks_follow db (heartbeat_attempt now tid aid db)"
  by (rule follow_moves [OF _ lifecycle_sub(5)])
    (auto simp: heartbeat_attempt_def Let_def task_columns_def intro!: row_moves_update)

lemma sys_step_follow:
  assumes "sys_inv (fst s) (snd s)" "sys_step s s'"
  shows "tasks_follow (fst s) (fst s')"
  using assms(2,1)
proof cases
  case (links db task aid ws)
  then show ?thesis by (auto intro!: follow_same simp: set_attempt_links_def)
qed (use assms(1) in \<open>auto intro: follow_steps settle_follow reserve_follow insert_plan_follow reconcile_follow
      heartbeat_follow follow_same simp: external_change_def\<close>)

lemma finished_kept:
  assumes "tasks_follow db db'" "t \<in> set (db_tasks db)" "t_status t \<in> {TCompleted, TFailed}"
  shows "\<exists>t' \<in> set (db_tasks db'). task_identity t' = task_identity t \<and> t_status t' = t_status t"
  using assms task_table.final_kept unfolding tasks_follow_def by fastforce

section \<open>A sample run\<close>

definition run_node :: "string \<Rightarrow> string list \<Rightarrow> task_spec" where
  "run_node k deps =
     \<lparr>ts_key = k, ts_kind = NOOP, ts_project = Some ''site'', ts_role = None, ts_instruction = ''go'',
      ts_acceptance = [], ts_marker = None, ts_deps = deps, ts_priority = 100, ts_max_attempts = 2,
      ts_duration = None\<rparr>"

definition run_graph :: plan_spec where
  "run_graph =
     \<lparr>ps_objective = ''ship'', ps_max_parallel = 2, ps_tasks = [run_node ''a'' [], run_node ''b'' [''a'']]\<rparr>"

definition right :: "'e + 'a \<Rightarrow> 'a \<Rightarrow> 'a" where
  "right r d = (case r of Inr x \<Rightarrow> x | Inl _ \<Rightarrow> d)"

definition run_db1 :: db where
  "run_db1 = right (insert_plan (\<lambda>_. replicate 64 CHR ''0'') [''orchestrator''] [''site''] ''t0'' ''p'' [''A'', ''B''] run_graph DECLARATIVE
     PReady empty_db) empty_db"

definition run_db2 :: db where
  "run_db2 = refresh_plan_states ''t1'' ''p'' run_db1"

definition run_started :: "int \<times> task_row \<times> db" where
  "run_started = right (reserve_attempt ''t2'' ''A'' ''at'' ''i'' run_db2)
     (0, hd (db_tasks run_db2), run_db2)"

definition run_task :: task_row where
  "run_task = fst (snd run_started)"

definition run_db3 :: db where
  "run_db3 = snd (snd run_started)"

lemma right_Inr: "\<not> isl r \<Longrightarrow> r = Inr (right r d)"
  by (cases r) (simp_all add: right_def)

lemma run_insert:
  "insert_plan (\<lambda>_. replicate 64 CHR ''0'') [''orchestrator''] [''site''] ''t0'' ''p'' [''A'', ''B''] run_graph DECLARATIVE PReady empty_db
     = Inr run_db1"
  unfolding run_db1_def by (rule right_Inr) code_simp

lemma run_reserve_ok: "reserve_attempt ''t2'' ''A'' ''at'' ''i'' run_db2 = Inr (1, run_task, run_db3)"
proof -
  have "\<not> isl (reserve_attempt ''t2'' ''A'' ''at'' ''i'' run_db2)" "fst run_started = 1" by code_simp+
  then show ?thesis
    unfolding run_task_def run_db3_def run_started_def
    by (metis prod.collapse right_Inr)
qed

lemma run_valid: "validate_plan [] [\<lparr>pr_id = ''site'', pr_enabled = True\<rparr>] True True (plan_json run_graph) = Inr run_graph"
  by code_simp

lemma run_reachable2: "sys_step\<^sup>*\<^sup>* (empty_db, []) (run_db2, [])"
  unfolding run_db2_def
  using import_plan [OF run_valid run_insert] refresh by (blast intro: rtranclp.intros)

lemma run_reachable3: "sys_step\<^sup>*\<^sup>* (empty_db, []) (run_db3, [(run_task, ''at'')])"
  using run_reachable2 reserve [OF run_reserve_ok, of "[]"] by (auto intro: rtranclp.rtrancl_into_rtrancl)

lemma run_init: "sys_init (empty_db, [])"
  by (simp add: sys_init_def)

definition run_db4 :: db where
  "run_db4 = settle_task ''t3'' run_task ''at'' (Inr [(''kind'', JStr ''NOOP'')]) run_db3"

definition run_db5 :: db where
  "run_db5 = refresh_plan_states ''t4'' ''p'' run_db4"

lemma run_reachable5: "sys_step\<^sup>*\<^sup>* (empty_db, []) (run_db5, [])"
proof -
  have "sys_step (run_db3, [(run_task, ''at'')]) (run_db4, [])"
    unfolding run_db4_def using conclude [of run_task "''at''" "[(run_task, ''at'')]"] by simp
  then show ?thesis
    unfolding run_db5_def using run_reachable3 refresh by (blast intro: rtranclp.rtrancl_into_rtrancl)
qed

lemma run_end:
  "map (\<lambda>t. (t_id t, t_status t)) (db_tasks run_db5) = [(''A'', TCompleted), (''B'', TReady)]"
  "db_deps run_db5 = [\<lparr>d_plan = ''p'', d_task = ''B'', d_parent = ''A''\<rparr>]"
  by code_simp+

section \<open>Reachable states\<close>

lemma count_unique:
  "distinct (map f rows) \<Longrightarrow> r \<in> set rows \<Longrightarrow> count_where (\<lambda>x. f x = f r \<and> g x = g r) rows = 1"
proof (induction rows)
  case (Cons y ys)
  show ?case
  proof (cases "y = r")
    case True
    have "count_where (\<lambda>x. f x = f r \<and> g x = g r) ys = 0"
      using Cons.prems(1) True by (auto simp: count_where_0_iff image_iff)
    with True show ?thesis by simp
  next
    case False
    then have "f y \<noteq> f r" using Cons.prems by (auto simp: image_iff)
    with False Cons show ?thesis by simp
  qed
qed simp

lemma reachable_sys_inv:
  assumes "sys_init s" "sys_step\<^sup>*\<^sup>* s (db, ws)"
  shows "sys_inv db ws"
  using orchestrator.reachable_inv [OF assms] by simp

text \<open>
  C1: In every reachable state two RUNNING tasks of one project are the same task, and a plan never
  has more RUNNING tasks than its \<open>max_parallel_tasks\<close>, whatever the interleaving of reservations,
  worker results, operator commands, crashes and restarts.
\<close>

theorem reachable_exclusion:
  assumes "sys_init s" "sys_step\<^sup>*\<^sup>* s (db, ws)"
  shows "(\<forall>t \<in> set (db_tasks db). \<forall>u \<in> set (db_tasks db).
            t_status t = TRunning \<and> t_status u = TRunning \<and> t_project t = t_project u \<and> t_project t \<noteq> None \<longrightarrow>
            t_id t = t_id u) \<and>
         (\<forall>p \<in> set (db_plans db). int (running_in_plan db (p_id p)) \<le> p_max_parallel p)"
  using reachable_sys_inv [OF assms]
  unfolding sys_inv_def task_inv_def exclusive_def within_limits_def by blast

theorem reachable_exclusion_witness:
  "(\<exists>t \<in> set (db_tasks run_db3). t_id t = ''A'' \<and> t_status t = TRunning \<and>
      \<not> (\<exists>u \<in> set (db_tasks run_db3).
           t_status u = TRunning \<and> t_project u = Some ''site'' \<and> t_id u \<noteq> ''A'')) \<and>
   (\<exists>p \<in> set (db_plans run_db3). p_id p = ''p'' \<and> int (running_in_plan run_db3 ''p'') \<le> p_max_parallel p)"
proof -
  note e = reachable_exclusion [OF run_init run_reachable3]
  have m: "map (\<lambda>t. (t_id t, t_status t, t_project t)) (db_tasks run_db3) =
      [(''A'', TRunning, Some ''site''), (''B'', TPending, Some ''site'')]" by code_simp
  then obtain t where t: "t \<in> set (db_tasks run_db3)" "t_id t = ''A''" "t_status t = TRunning"
    "t_project t = Some ''site''"
    by (cases "db_tasks run_db3") auto
  have "map p_id (db_plans run_db3) = [''p'']" by code_simp
  then obtain p where p: "p \<in> set (db_plans run_db3)" "p_id p = ''p''"
    by (cases "db_plans run_db3") auto
  have "\<not> (\<exists>u \<in> set (db_tasks run_db3).
           t_status u = TRunning \<and> t_project u = Some ''site'' \<and> t_id u \<noteq> ''A'')"
    using e t by (metis option.distinct(1))
  moreover have "int (running_in_plan run_db3 ''p'') \<le> p_max_parallel p"
    using e p by metis
  ultimately show ?thesis using t p by blast
qed

text \<open>
  C9: In every reachable state each dependency of a READY, RUNNING or COMPLETED task is a COMPLETED
  task.
\<close>

theorem reachable_dependency_order:
  assumes "sys_init s" "sys_step\<^sup>*\<^sup>* s (db, ws)"
    and "t \<in> set (db_tasks db)" "t_status t \<in> {TReady, TRunning, TCompleted}"
    and "d \<in> set (db_deps db)" "d_task d = t_id t"
  shows "\<exists>par \<in> set (db_tasks db). t_id par = d_parent d \<and> t_status par = TCompleted"
proof -
  have inv: "tables_ok db" "deps_done db"
    using reachable_sys_inv [OF assms(1,2)] by (auto simp: sys_inv_def task_inv_def)
  have "d_parent d \<in> t_id ` set (db_tasks db)" using inv(1) assms(5) by (simp add: tables_ok_def)
  then obtain par where par: "par \<in> set (db_tasks db)" "t_id par = d_parent d" by auto
  have "parents_done db (t_id t)" using inv(2) assms(3,4) by (auto simp: deps_done_def started_def)
  then show ?thesis using par assms(5,6) unfolding parents_done_iff by blast
qed

theorem reachable_dependency_order_witness:
  "\<exists>par \<in> set (db_tasks run_db5). t_id par = ''A'' \<and> t_status par = TCompleted"
proof -
  have len: "length (db_tasks run_db5) = 2"
    using arg_cong [OF run_end(1), of length] by simp
  have b: "db_tasks run_db5 ! 1 \<in> set (db_tasks run_db5)" using len by simp
  have "(t_id (db_tasks run_db5 ! 1), t_status (db_tasks run_db5 ! 1)) = (''B'', TReady)"
    using arg_cong [OF run_end(1), of "\<lambda>xs. xs ! 1"] len by simp
  then show ?thesis
    using reachable_dependency_order [OF run_init run_reachable5 b, of "\<lparr>d_plan = ''p'', d_task = ''B'', d_parent = ''A''\<rparr>"]
    by (simp add: run_end(2))
qed

text \<open>
  C19: In every reachable state each task has used between 0 and \<open>max_attempts\<close> attempts, the attempts
  recorded for a task have distinct numbers between 1 and the count in its row, and at most one of
  them is RUNNING.
\<close>

theorem reachable_attempts:
  assumes "sys_init s" "sys_step\<^sup>*\<^sup>* s (db, ws)" and t: "t \<in> set (db_tasks db)"
  shows "0 \<le> t_attempt_count t \<and> t_attempt_count t \<le> t_max_attempts t \<and> t_max_attempts t \<le> 10 \<and>
         (\<forall>a \<in> set (db_attempts db). a_task a = t_id t \<longrightarrow> 1 \<le> a_number a \<and> a_number a \<le> t_attempt_count t) \<and>
         (\<forall>a \<in> set (db_attempts db). \<forall>b \<in> set (db_attempts db).
            a_task a = t_id t \<and> a_task b = t_id t \<and>
            (a_number a = a_number b \<or> a_status a = ARunning \<and> a_status b = ARunning) \<longrightarrow> a = b)"
proof -
  have inv: "tables_ok db" "budget_ok db" "single_attempt db"
    using reachable_sys_inv [OF assms(1,2)] by (auto simp: sys_inv_def task_inv_def)
  have ids: "inj_on a_id (set (db_attempts db))" "inj_on (\<lambda>a. (a_task a, a_number a)) (set (db_attempts db))"
    using inv(1) unfolding tables_ok_def distinct_map by blast+
  have num: "1 \<le> a_number a \<and> a_number a \<le> t_attempt_count t"
    if a: "a \<in> set (db_attempts db)" "a_task a = t_id t" for a
    using tables_ok_attempt [OF inv(1) a(1)] a(2) task_unique [OF inv(1) _ t] by metis
  have one: "a = b" if "a \<in> set (db_attempts db)" "b \<in> set (db_attempts db)" "a_task a = t_id t" "a_task b = t_id t"
      "a_number a = a_number b \<or> a_status a = ARunning \<and> a_status b = ARunning" for a b
  proof -
    have "a_status a = ARunning \<and> a_status b = ARunning \<Longrightarrow> a_id b = a_id a"
      using inv(3) that unfolding single_attempt_def by metis
    then show ?thesis using that ids unfolding inj_on_def by (metis (no_types, lifting))
  qed
  show ?thesis
    using inv(2) t num one unfolding budget_ok_def by blast
qed

theorem reachable_attempts_witness:
  "\<exists>t \<in> set (db_tasks run_db3). t_id t = ''A'' \<and> t_status t = TRunning \<and> t_attempt_count t \<le> 2"
proof -
  have m: "map (\<lambda>t. (t_id t, t_status t, t_max_attempts t)) (db_tasks run_db3) =
      [(''A'', TRunning, 2), (''B'', TPending, 2)]" by code_simp
  then obtain t where t: "t \<in> set (db_tasks run_db3)" "t_id t = ''A''" "t_status t = TRunning" "t_max_attempts t = 2"
    by (cases "db_tasks run_db3") auto
  then show ?thesis
    using reachable_attempts [OF run_init run_reachable3 t(1)] by auto
qed

text \<open>
  C20: COMPLETED and FAILED are final: a task that has reached one of them keeps it, and its identity,
  in every later state.
\<close>

theorem finished_tasks_final:
  assumes "sys_init s" "sys_step\<^sup>*\<^sup>* s (db, ws)" "sys_step\<^sup>*\<^sup>* (db, ws) (db', ws')"
    and "t \<in> set (db_tasks db)" "t_status t \<in> {TCompleted, TFailed}"
  shows "\<exists>t' \<in> set (db_tasks db'). task_identity t' = task_identity t \<and> t_status t' = t_status t"
  using assms(3)
proof (induction "(db', ws')" arbitrary: db' ws' rule: rtranclp_induct)
  case base
  then show ?case using assms(4) by auto
next
  case (step y)
  obtain db1 ws1 where y: "y = (db1, ws1)" by (cases y)
  then obtain t1 where t1: "t1 \<in> set (db_tasks db1)" "task_identity t1 = task_identity t" "t_status t1 = t_status t"
    using step.hyps(3) by blast
  have "sys_step\<^sup>*\<^sup>* s (db1, ws1)" using assms(2) step.hyps(1) y by simp
  then have "sys_inv db1 ws1" using assms(1) by (blast intro: reachable_sys_inv)
  then have "tasks_follow db1 db'" using sys_step_follow [of "(db1, ws1)"] step.hyps(2) y by auto
  then show ?case using finished_kept [of db1 db' t1] t1 assms(5) by auto
qed

theorem finished_tasks_final_witness:
  "\<exists>t' \<in> set (db_tasks run_db5). t_id t' = ''A'' \<and> t_status t' = TCompleted"
proof -
  have m: "map (\<lambda>t. (t_id t, t_status t)) (db_tasks run_db5) = [(''A'', TCompleted), (''B'', TReady)]"
    by (rule run_end)
  then obtain t where t: "t \<in> set (db_tasks run_db5)" "t_id t = ''A''" "t_status t = TCompleted"
    by (cases "db_tasks run_db5") auto
  then show ?thesis
    using finished_tasks_final [OF run_init run_reachable5 rtranclp.rtrancl_refl, of t]
    by (auto simp: task_identity_def)
qed

text \<open>
  C28: In a reachable state a reservation with a fresh attempt id fails only for a reason that
  \<open>reservation_ineligibility_reason\<close> gives: the guarded UPDATE always finds its row, and the key and
  the CHECK of \<open>orchestration_attempts\<close> admit the new row.
\<close>

theorem reserve_attempt_outcome:
  assumes "sys_init s" "sys_step\<^sup>*\<^sup>* s (db, ws)" "task_with db tid = Some t" "aid \<notin> a_id ` set (db_attempts db)"
  shows "(case reservation_ineligibility_reason db t of
            Some reason \<Rightarrow> reserve_attempt now tid aid iid db = Inl (Unstartable reason)
          | None \<Rightarrow> \<exists>db'. reserve_attempt now tid aid iid db = Inr (t_attempt_count t + 1, t, db') \<and>
              db_tasks db' = db_tasks (start_task now tid (t_attempt_count t + 1) db) \<and>
              db_attempts db' = db_attempts db @ [new_attempt_row now aid tid iid (t_attempt_count t + 1)])"
proof (cases "reservation_ineligibility_reason db t")
  case (Some reason)
  then show ?thesis using assms(3) by (simp add: reserve_attempt_def)
next
  case None
  have inv: "tables_ok db" "budget_ok db"
    using reachable_sys_inv [OF assms(1,2)] by (auto simp: sys_inv_def task_inv_def)
  have t: "t \<in> set (db_tasks db)" "t_id t = tid" using task_with_Some [OF assms(3)] by auto
  have ready: "t_status t = TReady" "t_attempt_count t < t_max_attempts t"
    using None by (auto simp: reservation_ineligibility_reason_def split: if_split_asm)
  have count: "count_where (\<lambda>u. t_id u = tid \<and> t_status u = TReady) (db_tasks db) = 1"
    using count_unique [of t_id "db_tasks db" t t_status] inv(1) t ready(1) by (simp add: tables_ok_def)
  have bounds: "\<not> 10 < t_attempt_count t + 1" "\<not> t_attempt_count t + 1 < 1"
    using inv(2) t(1) ready(2) unfolding budget_ok_def by force+
  have fresh: "(tid, t_attempt_count t + 1) \<notin> (\<lambda>b. (a_task b, a_number b)) ` set (db_attempts db)"
  proof
    assume "(tid, t_attempt_count t + 1) \<in> (\<lambda>b. (a_task b, a_number b)) ` set (db_attempts db)"
    then obtain b where b: "b \<in> set (db_attempts db)" "a_task b = tid" "a_number b = t_attempt_count t + 1" by auto
    obtain u where "u \<in> set (db_tasks db)" "t_id u = a_task b" "a_number b \<le> t_attempt_count u"
      using tables_ok_attempt [OF inv(1) b(1)] by blast
    then show False using task_unique [OF inv(1) _ t(1)] t(2) b(2,3) by fastforce
  qed
  show ?thesis
    using None assms(3,4) count bounds fresh
    by (simp add: reserve_attempt_def insert_attempt_def new_attempt_row_def start_task_def Let_def)
qed

theorem reserve_attempt_outcome_witness:
  "\<exists>t db'. task_with run_db2 ''A'' = Some t \<and>
     reserve_attempt ''t2'' ''A'' ''at'' ''i'' run_db2 = Inr (t_attempt_count t + 1, t, db')"
proof -
  have t: "task_with run_db2 ''A'' \<noteq> None" and f: "''at'' \<notin> a_id ` set (db_attempts run_db2)"
    and r: "map_option (\<lambda>t. reservation_ineligibility_reason run_db2 t) (task_with run_db2 ''A'') = Some None"
    by code_simp+
  obtain t where t: "task_with run_db2 ''A'' = Some t" using t by blast
  then have "reservation_ineligibility_reason run_db2 t = None" using r by simp
  then show ?thesis
    using reserve_attempt_outcome [OF run_init run_reachable2 t f, of "''t2''" "''i''"] t by auto
qed

end
