(* ===== verification/Orch_Plans.thy ===== *)
theory Orch_Plans
  imports Orch_Safety
begin

text \<open>
  The lifecycle of plans under every step of the system: COMPLETED, FAILED and CANCELLED are final,
  and a plan is COMPLETED only over COMPLETED tasks.
\<close>

section \<open>The lifecycle of a plan\<close>

definition plan_lifecycle :: "(plan_status \<times> plan_status) set" where
  "plan_lifecycle =
     {PDraft} \<times> {PReady, PCancelled} \<union>
     {PReady} \<times> {PRunning, PBlocked, PCompleted, PFailed, PCancelled} \<union>
     {PRunning} \<times> {PBlocked, PCompleted, PFailed, PCancelled} \<union>
     {PBlocked} \<times> {PCompleted, PFailed, PCancelled}"

definition plan_final :: "plan_status set" where
  "plan_final = {PCompleted, PFailed, PCancelled}"

lemma plan_final_trancl: "(a, b) \<in> plan_lifecycle\<^sup>+ \<Longrightarrow> a \<notin> plan_final"
  by (induction rule: trancl_induct) (auto simp: plan_lifecycle_def plan_final_def)

interpretation plan_table: lifecycle p_id p_status "plan_lifecycle\<^sup>+" plan_final
  by unfold_locales (auto dest: plan_final_trancl)

abbreviation plans_move :: "(plan_status \<times> plan_status) set \<Rightarrow> db \<Rightarrow> db \<Rightarrow> bool" where
  "plans_move E db db' \<equiv> row_moves p_id p_status E (db_plans db) (db_plans db')"

text \<open>The edges that do not complete a plan: all but those of the refresh.\<close>

definition plan_safe :: "(plan_status \<times> plan_status) set" where
  "plan_safe = {(a, b). (a, b) \<in> plan_lifecycle\<^sup>+ \<and> b \<noteq> PCompleted}"

lemma plan_safe_trans [simp]: "trans plan_safe"
  by (auto simp: plan_safe_def intro!: transI)

lemma plan_safe_edges [simp]:
  "(PDraft, PReady) \<in> plan_safe" "(PReady, PRunning) \<in> plan_safe" "(PReady, PBlocked) \<in> plan_safe"
  "(PRunning, PBlocked) \<in> plan_safe"
  "s \<notin> plan_final \<Longrightarrow> (s, PCancelled) \<in> plan_safe"
  "s \<in> {PReady, PRunning, PBlocked} \<Longrightarrow> (s, PFailed) \<in> plan_safe"
  by (cases s; auto simp: plan_safe_def plan_lifecycle_def plan_final_def intro!: r_into_trancl)+

lemma plans_move_trans:
  "plans_move plan_safe a b \<Longrightarrow> plans_move plan_safe b c \<Longrightarrow> plans_move plan_safe a c"
  by (rule row_moves_trans) simp_all

lemma plans_move_same: "db_plans db' = db_plans db \<Longrightarrow> plans_move E db db'"
  by simp

lemma plans_move_update:
  assumes "plans_move plan_safe db x"
    and "\<And>p. c p \<Longrightarrow> p_id (f p) = p_id p \<and> (p_status (f p) = p_status p \<or> (p_status p, p_status (f p)) \<in> plan_safe)"
  shows "plans_move plan_safe db (update_plans c f x)"
  by (rule plans_move_trans [OF assms(1)]) (use assms(2) in \<open>auto intro!: row_moves_update\<close>)

lemma active_blocked: "s \<in> {PReady, PRunning, PBlocked} \<Longrightarrow> PBlocked = s \<or> (s, PBlocked) \<in> plan_safe"
  by auto

lemma not_final: "s \<notin> {PCompleted, PFailed, PCancelled} \<Longrightarrow> (s, PCancelled) \<in> plan_safe"
  by (simp add: plan_final_def)

lemma close_plans: "plans_move plan_safe db x \<Longrightarrow> plans_move plan_safe db (close_attempt now aid st r f x)"
  by simp

lemma finish_plans:
  "plans_move plan_safe db (finish_running_task_blocked_by_human_gate now task aid st r f db)"
  "plans_move plan_safe db (finish_task_success now task aid result db)"
  "plans_move plan_safe db (finish_task_failure now task aid error db)"
  by (simp_all add: finish_running_task_blocked_by_human_gate_def finish_task_success_def
      finish_task_failure_def reschedule_def Let_def split: option.split)

lemma waiting_plans: "plans_move plan_safe db (finish_task_waiting_human now task aid result db)"
  unfolding finish_task_waiting_human_def Let_def
  by (auto intro!: row_moves_update simp: active_blocked)

lemma recovery_plans: "plans_move plan_safe db (finish_task_cancellation_recovery now task aid result db)"
  unfolding finish_task_cancellation_recovery_def by (auto intro!: row_moves_update simp: active_blocked)

lemma settle_plans: "plans_move plan_safe db (settle_task now task aid outcome db)"
  unfolding settle_task_def
  by (simp add: finish_plans waiting_plans recovery_plans split: sum.split json.split)

lemma block_plans:
  "plans_move plan_safe db x \<Longrightarrow>
   plans_move plan_safe db (update_plans (\<lambda>p. c p \<and> p_status p \<in> {PReady, PRunning, PBlocked})
     (\<lambda>p. p\<lparr>p_status := PBlocked, p_heartbeat := Some now, p_error := Some e\<rparr>) x)"
  by (rule plans_move_update) auto

lemma mark_plans: "plans_move plan_safe db (snd (mark_cancellation_cleanup_recovery now rid reason db))"
  unfolding mark_cancellation_cleanup_recovery_def Let_def
  by (simp add: block_plans del: update_plans_frame(1) insert_iff split: option.split list.split)

lemma cancel_objective_plans: "plans_move plan_safe db x \<Longrightarrow> plans_move plan_safe db (cancel_objective_plan now plan x)"
  unfolding cancel_objective_plan_def
  by (auto simp: not_final intro!: plans_move_update [where x = "update_tasks _ _ x", simplified] split: option.split)

lemma sync_row_plans: "plans_move plan_safe db (sync_row now row db)"
  using cancel_objective_plans [of db db]
  by (auto simp: sync_row_def Let_def split: prod.split option.split)

lemma fold_plans:
  "(\<And>x db. x \<in> set xs \<Longrightarrow> plans_move plan_safe db (f x db)) \<Longrightarrow> plans_move plan_safe db (fold f xs db)"
proof (induction xs arbitrary: db)
  case (Cons x xs)
  have "plans_move plan_safe db (f x db)" by (rule Cons.prems) simp
  moreover have "plans_move plan_safe (f x db) (fold f xs (f x db))" by (rule Cons.IH) (use Cons.prems in auto)
  ultimately show ?case by (auto intro: plans_move_trans)
qed simp

lemma synchronize_plans: "plans_move plan_safe db (synchronize_objective_states now db)"
  unfolding synchronize_objective_states_def by (rule fold_plans) (rule sync_row_plans)

lemma promote_plans: "plans_move plan_safe db (snd (promote_planned_objective now oid db))"
  unfolding promote_planned_objective_def Let_def by (auto intro!: row_moves_update split: option.split)

lemma reserve_ai_plans: "reserve_ai_objective now oid aid iid slots db = Inr (r, db') \<Longrightarrow> db_plans db' = db_plans db"
  by (auto simp: reserve_ai_objective_def insert_oattempt_def Let_def split: if_split_asm option.split_asm)

lemma planning_success_plans:
  assumes "finish_objective_planning_success now oid aid pid xid result db = Inr db'"
  shows "plans_move plan_safe db db'"
proof -
  let ?db1 = "update_oattempts (\<lambda>a. oa_id a = aid \<and> oa_status a = ARunning)
    (\<lambda>a. a\<lparr>oa_status := ACompleted, oa_execution := Some xid, oa_plan := Some pid,
           oa_result := JObj result, oa_heartbeat := now, oa_finished := Some now\<rparr>) db"
  have "db_plans db' = db_plans (cancel_objective_plan now (Some pid) ?db1) \<or> db_plans db' = db_plans db \<or>
    db_plans db' = update_where (\<lambda>p. p_id p = pid \<and> p_status p = PDraft)
      (\<lambda>p. p\<lparr>p_status := PReady, p_heartbeat := Some now, p_error := None\<rparr>) (db_plans db)"
    using assms by (auto simp: finish_objective_planning_success_def Let_def
        split: if_split_asm option.split_asm)
  then show ?thesis
    using cancel_objective_plans [of db ?db1 now "Some pid"] by (auto intro!: row_moves_update)
qed

lemma conclude_planning_plans: "plans_move plan_safe db (conclude_planning later backoff text now oid aid outcome db)"
  unfolding conclude_planning_def finish_objective_planning_failure_def
  by (auto simp: planning_success_plans split: sum.split prod.split option.split)

lemma objective_commands_plans:
  "objective_pause now oid db = Inr db' \<Longrightarrow> plans_move plan_safe db db'"
  "objective_resume now oid db = Inr db' \<Longrightarrow> plans_move plan_safe db db'"
  "objective_cancel now oid db = Inr db' \<Longrightarrow> plans_move plan_safe db db'"
  using cancel_objective_plans [of db db]
  by (auto simp: objective_pause_def objective_resume_def objective_cancel_def Let_def
      split: if_split_asm option.split_asm)

lemma plan_unique:
  assumes "tables_ok db" "plan_with db pid = Some plan" "p \<in> set (db_plans db)" "p_id p = pid"
  shows "p = plan"
proof -
  have "plan \<in> set (db_plans db)" "p_id plan = pid"
    using select_one_Some [OF assms(2) [unfolded plan_with_def]] by auto
  moreover have "inj_on p_id (set (db_plans db))" using assms(1) unfolding tables_ok_def distinct_map by blast
  ultimately show ?thesis using assms(3,4) by (auto dest: inj_onD)
qed

lemma command_cancel_plans:
  assumes "tables_ok db" "command_cancel now pid db = Inr db'"
  shows "plans_move plan_safe db db'"
proof -
  obtain plan where plan: "plan_with db pid = Some plan" "p_status plan \<notin> plan_final"
      "db_plans db' = update_where (\<lambda>p. p_id p = pid)
         (\<lambda>p. p\<lparr>p_status := PCancelled, p_heartbeat := Some now, p_finished := Some now\<rparr>) (db_plans db)"
    using assms(2) by (auto simp: command_cancel_def plan_final_def split: option.split_asm if_split_asm)
  have "p_status p \<notin> plan_final" if "p \<in> set (db_plans db)" "p_id p = pid" for p
    using plan_unique [OF assms(1) plan(1) that] plan(2) by simp
  then show ?thesis unfolding plan(3) by (intro row_moves_update) auto
qed

section \<open>A completed plan\<close>

definition completed_ok :: "db \<Rightarrow> bool" where
  "completed_ok db \<longleftrightarrow>
     (\<forall>p \<in> set (db_plans db). p_status p = PCompleted \<longrightarrow>
        plan_statuses db (p_id p) \<noteq> [] \<and> (\<forall>s \<in> set (plan_statuses db (p_id p)). s = TCompleted))"

lemma set_plan_statuses: "set (plan_statuses db pid) = t_status ` {t \<in> set (db_tasks db). t_plan t = pid}"
  by (auto simp: plan_statuses_def)

lemma plan_statuses_nonempty: "plan_statuses db pid \<noteq> [] \<longleftrightarrow> (\<exists>t \<in> set (db_tasks db). t_plan t = pid)"
  using set_plan_statuses [of db pid] by (metis (mono_tags, lifting) Collect_empty_eq empty_set image_is_empty set_empty)

lemma identity_eq:
  assumes "task_identity t' = task_identity t"
  shows "t_id t' = t_id t" "t_plan t' = t_plan t"
  using assms by (auto simp: task_identity_def)

lemma completed_keep:
  assumes ok: "completed_ok db" and f: "tasks_follow db db'"
    and p: "\<And>p'. p' \<in> set (db_plans db') \<Longrightarrow> p_status p' = PCompleted \<Longrightarrow>
      (\<exists>p \<in> set (db_plans db). p_id p = p_id p' \<and> p_status p = PCompleted) \<or>
      plan_statuses db' (p_id p') \<noteq> [] \<and> (\<forall>s \<in> set (plan_statuses db' (p_id p')). s = TCompleted)"
  shows "completed_ok db'"
  unfolding completed_ok_def
proof (intro ballI impI)
  fix p' assume p': "p' \<in> set (db_plans db')" "p_status p' = PCompleted"
  show "plan_statuses db' (p_id p') \<noteq> [] \<and> (\<forall>s \<in> set (plan_statuses db' (p_id p')). s = TCompleted)"
  proof (cases "\<exists>p \<in> set (db_plans db). p_id p = p_id p' \<and> p_status p = PCompleted")
    case True
    then obtain q where q: "q \<in> set (db_plans db)" "p_id q = p_id p'" "p_status q = PCompleted" by blast
    obtain rows new where rn: "row_moves task_identity t_status task_lifecycle (db_tasks db) rows"
        "db_tasks db' = rows @ new" "\<forall>t \<in> set new. t_plan t \<notin> p_id ` set (db_plans db)"
      using f unfolding tasks_follow_def by blast
    have old: "t_status t = TCompleted" if "t \<in> set (db_tasks db)" "t_plan t = p_id p'" for t
    proof -
      have "t_status t \<in> set (plan_statuses db (p_id q))"
        using that q(2) by (auto simp: set_plan_statuses)
      then show ?thesis using ok q(1,3) unfolding completed_ok_def by blast
    qed
    obtain t where t: "t \<in> set (db_tasks db)" "t_plan t = p_id p'"
    proof -
      have "plan_statuses db (p_id q) \<noteq> []" using ok q(1,3) unfolding completed_ok_def by blast
      with that show ?thesis unfolding plan_statuses_nonempty using q(2) by auto
    qed
    from row_moves_forth [OF rn(1) t(1)] obtain u where "u \<in> set rows" "task_identity u = task_identity t" by blast
    then have "u \<in> set (db_tasks db')" "t_plan u = p_id p'"
      using t(2) rn(2) identity_eq(2) [of u t] by auto
    then have ne: "plan_statuses db' (p_id p') \<noteq> []" unfolding plan_statuses_nonempty by blast
    have "t_status u = TCompleted" if u: "u \<in> set (db_tasks db')" "t_plan u = p_id p'" for u
    proof -
      have "u \<notin> set new" using rn(3) u(2) q(1,2) by (metis image_eqI)
      then have "u \<in> set rows" using u(1) rn(2) by auto
      from row_moves_back [OF rn(1) this] obtain t where "t \<in> set (db_tasks db)" "task_identity u = task_identity t"
          "t_status u = t_status t \<or> (t_status t, t_status u) \<in> task_lifecycle" by blast
      moreover from this have "t_status t = TCompleted" using old identity_eq(2) u(2) by metis
      ultimately show ?thesis by (auto simp: task_lifecycle_def)
    qed
    with ne show ?thesis by (auto simp: set_plan_statuses)
  qed (use p [OF p'] in blast)
qed

lemma completed_safe:
  assumes "completed_ok db" "tasks_follow db db'" "plans_move plan_safe db db'"
  shows "completed_ok db'"
proof (rule completed_keep [OF assms(1,2)])
  fix p' assume "p' \<in> set (db_plans db')" "p_status p' = PCompleted"
  then show "(\<exists>p \<in> set (db_plans db). p_id p = p_id p' \<and> p_status p = PCompleted) \<or>
      plan_statuses db' (p_id p') \<noteq> [] \<and> (\<forall>s \<in> set (plan_statuses db' (p_id p')). s = TCompleted)"
    using row_moves_back [OF assms(3)] by (fastforce simp: plan_safe_def)
qed

text \<open>The refresh writes the row of its plan, from one of the active statuses.\<close>

lemma refresh_task_plans [simp]: "db_plans (refresh_task now pid task db) = db_plans db"
  by (simp add: refresh_task_def block_pending_def ready_pending_def Let_def)

lemma refresh_tasks_plans [simp]: "db_plans (refresh_tasks now pid db) = db_plans db"
  unfolding refresh_tasks_def
  by (rule fold_inv [where P = "\<lambda>x. db_plans x = db_plans db"]) simp_all

lemma settle_plan_status:
  obtains f where "db_plans (settle_plan now plan db) = update_where (\<lambda>p. p_id p = p_id plan) f (db_plans db)"
    "\<And>p. p_id (f p) = p_id p"
    "\<And>p. p_status (f p) = p_status p \<or> p_status (f p) = PBlocked \<or> p_status (f p) = PFailed \<or>
       p_status p = PReady \<and> p_status (f p) = PRunning \<or>
       p_status (f p) = PCompleted \<and> plan_statuses db (p_id plan) \<noteq> [] \<and>
         (\<forall>s \<in> set (plan_statuses db (p_id plan)). s = TCompleted)"
proof -
  have "\<exists>f. db_plans (settle_plan now plan db) = update_where (\<lambda>p. p_id p = p_id plan) f (db_plans db) \<and>
    (\<forall>p. p_id (f p) = p_id p) \<and>
    (\<forall>p. p_status (f p) = p_status p \<or> p_status (f p) = PBlocked \<or> p_status (f p) = PFailed \<or>
       p_status p = PReady \<and> p_status (f p) = PRunning \<or>
       p_status (f p) = PCompleted \<and> plan_statuses db (p_id plan) \<noteq> [] \<and>
         (\<forall>s \<in> set (plan_statuses db (p_id plan)). s = TCompleted))"
    unfolding settle_plan_def Let_def list_all_iff
    by (simp only: if_distrib [of db_plans] add_event_frame update_plans_frame split: if_split)
      (intro conjI impI; rule exI, (rule conjI, rule refl), simp)
  with that show ?thesis by blast
qed

lemma refresh_completed:
  assumes inv: "sys_inv db ws" and ok: "completed_ok db"
  shows "completed_ok (refresh_plan_states now pid db)"
    and "plans_move (plan_lifecycle\<^sup>+) db (refresh_plan_states now pid db)"
proof -
  have "completed_ok (refresh_plan_states now pid db) \<and> plans_move (plan_lifecycle\<^sup>+) db (refresh_plan_states now pid db)"
  proof (cases "refresh_plan_states now pid db = db")
    case False
    then obtain plan where plan: "plan_with db pid = Some plan" "p_status plan \<in> {PReady, PRunning, PBlocked}"
        "refresh_plan_states now pid db = settle_plan now plan (refresh_tasks now pid db)"
      unfolding refresh_plan_states_def
      by (cases "plan_with db pid"; cases "p_status (the (plan_with db pid))") auto
    have pid: "p_id plan = pid" using select_one_Some [OF plan(1) [unfolded plan_with_def]] by simp
    let ?d = "refresh_tasks now pid db"
    obtain f where f: "db_plans (settle_plan now plan ?d) = update_where (\<lambda>p. p_id p = p_id plan) f (db_plans db)"
      "\<And>p. p_id (f p) = p_id p"
      "\<And>p. p_status (f p) = p_status p \<or> p_status (f p) = PBlocked \<or> p_status (f p) = PFailed \<or>
         p_status p = PReady \<and> p_status (f p) = PRunning \<or>
         p_status (f p) = PCompleted \<and> plan_statuses ?d (p_id plan) \<noteq> [] \<and>
           (\<forall>s \<in> set (plan_statuses ?d (p_id plan)). s = TCompleted)"
      using settle_plan_status [of now plan ?d] by auto
    have tab: "tables_ok db" using inv by (simp add: sys_inv_def task_inv_def)
    have active: "p_status p \<in> {PReady, PRunning, PBlocked}" if "p \<in> set (db_plans db)" "p_id p = p_id plan" for p
      using plan_unique [OF tab plan(1) that(1)] that(2) pid plan(2) by simp
    have st: "plan_statuses (settle_plan now plan ?d) x = plan_statuses ?d x" for x
      by (simp add: plan_statuses_def)
    have "plans_move (plan_lifecycle\<^sup>+) db (settle_plan now plan ?d)"
      unfolding f(1)
    proof (rule row_moves_update)
      fix p assume p: "p \<in> set (db_plans db)" "p_id p = p_id plan"
      show "p_id (f p) = p_id p \<and> (p_status (f p) = p_status p \<or> (p_status p, p_status (f p)) \<in> plan_lifecycle\<^sup>+)"
        using f(2,3) [of p] active [OF p]
        by (auto simp: plan_lifecycle_def intro!: r_into_trancl)
    qed
    moreover have "completed_ok (settle_plan now plan ?d)"
    proof (rule completed_keep [OF ok])
      show "tasks_follow db (settle_plan now plan ?d)"
        using follow_moves [OF refresh_plan_states_moves lifecycle_sub(1), of db now pid] plan(3) by simp
    next
      fix p' assume p': "p' \<in> set (db_plans (settle_plan now plan ?d))" "p_status p' = PCompleted"
      show "(\<exists>p \<in> set (db_plans db). p_id p = p_id p' \<and> p_status p = PCompleted) \<or>
        plan_statuses (settle_plan now plan ?d) (p_id p') \<noteq> [] \<and>
        (\<forall>s \<in> set (plan_statuses (settle_plan now plan ?d) (p_id p')). s = TCompleted)"
        using p'(1) [unfolded f(1)]
      proof (cases rule: in_update_whereE)
        case 1
        then show ?thesis using p'(2) by auto
      next
        case (2 p)
        then show ?thesis using f(2,3) [of p] p'(2) active [OF 2(1,2)] by (auto simp: st)
      qed
    qed
    ultimately show ?thesis using plan(3) by simp
  qed (use ok in simp)
  then show "completed_ok (refresh_plan_states now pid db)"
    "plans_move (plan_lifecycle\<^sup>+) db (refresh_plan_states now pid db)" by auto
qed

text \<open>Every step: plans keep to their lifecycle, completed plans have only COMPLETED tasks.\<close>

definition plans_follow :: "db \<Rightarrow> db \<Rightarrow> bool" where
  "plans_follow db db' \<longleftrightarrow>
     (\<exists>rows new. row_moves p_id p_status (plan_lifecycle\<^sup>+) (db_plans db) rows \<and> db_plans db' = rows @ new)"

definition step_good :: "db \<Rightarrow> db \<Rightarrow> bool" where
  "step_good db db' \<longleftrightarrow> plans_follow db db' \<and> (completed_ok db \<longrightarrow> completed_ok db')"

lemma plans_followI: "plans_move (plan_lifecycle\<^sup>+) db db' \<Longrightarrow> plans_follow db db'"
  unfolding plans_follow_def by (intro exI [of _ "db_plans db'"] exI [of _ "[]"]) simp

lemma safe_good: "plans_move plan_safe db db' \<Longrightarrow> tasks_follow db db' \<Longrightarrow> step_good db db'"
  unfolding step_good_def
  by (auto intro: completed_safe intro!: plans_followI elim!: row_moves_mono simp: plan_safe_def)

lemma same_good:
  "db_plans db' = db_plans db \<Longrightarrow> tasks_follow db db' \<Longrightarrow> step_good db db'"
  by (rule safe_good) simp_all

lemma refresh_good: "sys_inv db ws \<Longrightarrow> completed_ok db \<Longrightarrow> step_good db (refresh_plan_states now pid db)"
  unfolding step_good_def by (auto intro: refresh_completed plans_followI)

lemma insert_rows_plans: "insert_task_rows role_ids project_ids now pid ids tss x = Inr y \<Longrightarrow> db_plans y = db_plans x"
proof (induction now pid ids tss x rule: insert_task_rows.induct)
  case (2 role_ids project_ids now pid ids ts rest x)
  then show ?case by (fastforce simp: insert_task_row_def split: option.split_asm if_split_asm)
qed simp

lemma insert_parents_plans: "insert_parent_rows pid ids tid ps x = Inr y \<Longrightarrow> db_plans y = db_plans x"
proof (induction pid ids tid ps x rule: insert_parent_rows.induct)
  case (2 pid ids tid par rest x)
  then show ?case by (fastforce simp: insert_dep_row_def split: option.split_asm if_split_asm)
qed simp

lemma insert_deps_plans: "insert_dep_rows pid ids tss x = Inr y \<Longrightarrow> db_plans y = db_plans x"
proof (induction pid ids tss x rule: insert_dep_rows.induct)
  case (2 pid ids ts rest x)
  then show ?case by (fastforce dest: insert_parents_plans split: option.split_asm)
qed simp

lemma insert_plan_good:
  assumes "insert_plan sha role_ids project_ids now pid tids plan source initial db = Inr db'"
  shows "step_good db db'"
proof -
  obtain p db1 db2 where s: "insert_plan_row role_ids p db = Inr db1" "p_status p \<in> {PDraft, PReady}"
      "insert_task_rows role_ids project_ids now pid (task_ids plan tids) (ps_tasks plan) db1 = Inr db2"
      "insert_dep_rows pid (task_ids plan tids) (ps_tasks plan) db2 = Inr db'"
    using assms by (auto simp: insert_plan_def split: if_split_asm)
  have pl: "db_plans db' = db_plans db @ [p]"
    using s(1) insert_rows_plans [OF s(3)] insert_deps_plans [OF s(4)] by (auto simp: insert_plan_row_def split: if_split_asm)
  have "completed_ok db \<Longrightarrow> completed_ok db'"
    by (rule completed_keep [OF _ insert_plan_follow [OF assms]]) (use s(2) in \<open>auto simp: pl\<close>)
  then show ?thesis
    unfolding step_good_def plans_follow_def pl
    by (intro conjI exI [of _ "db_plans db"] exI [of _ "[p]"]) auto
qed

lemma plans_follow_trans:
  assumes "plans_move (plan_lifecycle\<^sup>+) a b" "plans_move (plan_lifecycle\<^sup>+) b c"
  shows "plans_move (plan_lifecycle\<^sup>+) a c"
  using assms by (rule row_moves_trans) simp

lemma refreshes_good:
  assumes "sys_inv db ws" "completed_ok db"
  shows "completed_ok (fold (refresh_plan_states now) pids db) \<and>
         plans_move (plan_lifecycle\<^sup>+) db (fold (refresh_plan_states now) pids db)"
  using assms
proof (induction pids arbitrary: db)
  case (Cons pid pids)
  have "sys_inv (refresh_plan_states now pid db) ws" using Cons.prems(1) by (rule refresh_inv)
  note rest = Cons.IH [OF this refresh_completed(1) [OF Cons.prems]]
  then show ?case
    using plans_follow_trans [OF refresh_completed(2) [OF Cons.prems]] by auto
qed simp

lemma reconcile_row_plans [simp]: "db_plans (reconcile_row now iid row db) = db_plans db"
  by (auto simp: reconcile_row_def reschedule_def abandon_attempt_def Let_def
      split: prod.split option.split)

lemma reconcile_good:
  assumes "sys_inv db ws" "completed_ok db"
  shows "step_good db (reconcile_interrupted_tasks now iid db)"
proof -
  let ?d = "fold (reconcile_row now iid) (interrupted db) db"
  have start: "sys_inv db (map row_worker (interrupted db))" "\<forall>row \<in> set (interrupted db). row_current db row"
    using assms(1) restart_workers interrupted_in by (auto simp: sys_inv_def)
  have pl: "db_plans ?d = db_plans db"
    by (rule fold_inv [where P = "\<lambda>x. db_plans x = db_plans db"]) simp_all
  have "tasks_follow db ?d"
    by (rule follow_moves [OF reconcile_fold_moves [OF start]])
      (auto simp: restart_edges_def task_lifecycle_def)
  then have "completed_ok ?d" using completed_safe [OF assms(2)] pl by simp
  then have "completed_ok (reconcile_interrupted_tasks now iid db)"
    "plans_move (plan_lifecycle\<^sup>+) ?d (reconcile_interrupted_tasks now iid db)"
    using refreshes_good [OF reconcile_fold_inv [OF start]]
    unfolding reconcile_interrupted_tasks_def Let_def by auto
  then show ?thesis unfolding step_good_def by (auto intro: plans_followI simp: pl)
qed

lemma activate_good:
  assumes "sys_inv db ws" "completed_ok db" "command_activate now pid db = Inr db'"
  shows "step_good db db'"
proof -
  let ?d = "update_plans (\<lambda>p. p_id p = pid \<and> p_status p = PDraft)
    (\<lambda>p. p\<lparr>p_status := PReady, p_heartbeat := Some now, p_error := None\<rparr>) db"
  have d: "db' = refresh_plan_states now pid ?d"
    using assms(3) by (auto simp: command_activate_def split: if_split_asm)
  have m: "plans_move plan_safe db ?d" by (auto intro!: row_moves_update)
  have "sys_inv ?d ws"
    by (rule safe_moves [of "{}", OF _ _ _ assms(1)]) (auto simp: plan_columns_def)
  moreover have "completed_ok ?d"
    using completed_safe [OF assms(2) follow_same m] by simp
  ultimately have "completed_ok db'" "plans_move (plan_lifecycle\<^sup>+) ?d db'"
    unfolding d by (rule refresh_completed)+
  moreover have "plans_move (plan_lifecycle\<^sup>+) db ?d"
    using m by (rule row_moves_mono) (auto simp: plan_safe_def)
  ultimately show ?thesis unfolding step_good_def by (blast intro: plans_followI plans_follow_trans)
qed

lemma reconcile_objectives_plans: "db_plans (reconcile_interrupted_objectives now iid db) = db_plans db"
  unfolding reconcile_interrupted_objectives_def
  by (rule fold_inv [where P = "\<lambda>x. db_plans x = db_plans db"])
    (auto simp: reconcile_objective_def Let_def split: prod.split option.split)

lemma links_plans: "db_plans (set_attempt_links now aid run w rv ig db) = db_plans db"
  by (simp add: set_attempt_links_def)

lemma heartbeat_plans: "plans_move plan_safe db (heartbeat_attempt now tid aid db)"
  by (auto simp: heartbeat_attempt_def Let_def intro!: row_moves_update)

lemma step_plans_good:
  assumes inv: "sys_inv (fst s) (snd s)" and ok: "completed_ok (fst s)" and st: "sys_step s s'"
  shows "step_good (fst s) (fst s')"
proof -
  have f: "tasks_follow (fst s) (fst s')" using inv st by (rule sys_step_follow)
  have tab: "tables_ok (fst s)" using inv by (simp add: sys_inv_def task_inv_def)
  from st show ?thesis
  proof cases
    case (reserve now tid aid iid db n task db' ws)
    then show ?thesis using f by (auto intro: same_good elim: reserve_attempt_cases)
  qed (use inv ok f tab in \<open>auto intro: safe_good same_good insert_plan_good activate_good refresh_good
      reconcile_good settle_plans mark_plans synchronize_plans promote_plans conclude_planning_plans
      objective_commands_plans command_cancel_plans reserve_ai_plans cancel_objective_plans
      reconcile_objectives_plans links_plans heartbeat_plans simp: external_change_def\<close>)
qed

interpretation plan_system: invariant_system sys_init sys_step
  "\<lambda>s. sys_inv (fst s) (snd s) \<and> completed_ok (fst s)"
proof unfold_locales
  fix s assume "sys_init s"
  then show "sys_inv (fst s) (snd s) \<and> completed_ok (fst s)"
    using sys_init_inv by (auto simp: sys_init_def completed_ok_def empty_db_def)
next
  fix s s' assume "sys_inv (fst s) (snd s) \<and> completed_ok (fst s)" "sys_step s s'"
  then show "sys_inv (fst s') (snd s') \<and> completed_ok (fst s')"
    using sys_step_inv step_plans_good unfolding step_good_def by blast
qed

section \<open>Reachable plans\<close>

definition run_db6 :: db where
  "run_db6 = snd (snd (right (reserve_attempt ''t5'' ''B'' ''bt'' ''i'' run_db5) (0, run_task, run_db5)))"

definition run_task_b :: task_row where
  "run_task_b = fst (snd (right (reserve_attempt ''t5'' ''B'' ''bt'' ''i'' run_db5) (0, run_task, run_db5)))"

definition run_db7 :: db where
  "run_db7 = refresh_plan_states ''t7'' ''p'' (settle_task ''t6'' run_task_b ''bt'' (Inr []) run_db6)"

lemma run_reachable7: "sys_step\<^sup>*\<^sup>* (empty_db, []) (run_db7, [])"
proof -
  have "\<not> isl (reserve_attempt ''t5'' ''B'' ''bt'' ''i'' run_db5)" by code_simp
  then have r: "reserve_attempt ''t5'' ''B'' ''bt'' ''i'' run_db5 =
      Inr (fst (right (reserve_attempt ''t5'' ''B'' ''bt'' ''i'' run_db5) (0, run_task, run_db5)), run_task_b, run_db6)"
    unfolding run_db6_def run_task_b_def by (metis prod.collapse right_Inr)
  have "sys_step (run_db6, [(run_task_b, ''bt'')]) (settle_task ''t6'' run_task_b ''bt'' (Inr []) run_db6, [])"
    using conclude [of run_task_b "''bt''" "[(run_task_b, ''bt'')]"] by simp
  moreover have "sys_step (run_db5, []) (run_db6, [(run_task_b, ''bt'')])" using reserve [OF r, of "[]"] by simp
  ultimately show ?thesis
    unfolding run_db7_def using run_reachable5 refresh
    by (blast intro: rtranclp.rtrancl_into_rtrancl)
qed

lemma run_plan_done: "map (\<lambda>p. (p_id p, p_status p)) (db_plans run_db7) = [(''p'', PCompleted)]"
  by code_simp

text \<open>
  C23: In every reachable state a COMPLETED plan has tasks, and all of them are COMPLETED.
\<close>

theorem completed_plan_done:
  assumes "sys_init s" "sys_step\<^sup>*\<^sup>* s (db, ws)" "p \<in> set (db_plans db)" "p_status p = PCompleted"
  shows "plan_statuses db (p_id p) \<noteq> [] \<and> (\<forall>st \<in> set (plan_statuses db (p_id p)). st = TCompleted)"
  using plan_system.reachable_inv [OF assms(1,2)] assms(3,4) unfolding completed_ok_def by auto

theorem completed_plan_done_witness:
  "plan_statuses run_db7 ''p'' \<noteq> [] \<and> filter (\<lambda>st. st \<noteq> TCompleted) (plan_statuses run_db7 ''p'') = []"
proof -
  obtain p where "p \<in> set (db_plans run_db7)" "p_id p = ''p''" "p_status p = PCompleted"
    using run_plan_done by (cases "db_plans run_db7") auto
  then show ?thesis using completed_plan_done [OF run_init run_reachable7, of p] by (simp add: filter_empty_conv)
qed

text \<open>
  C29: COMPLETED, FAILED and CANCELLED are final for a plan: in every later state a plan with its id has
  the same status.
\<close>

theorem finished_plans_final:
  assumes "sys_init s" "sys_step\<^sup>*\<^sup>* s (db, ws)" "sys_step\<^sup>*\<^sup>* (db, ws) (db', ws')"
    and "p \<in> set (db_plans db)" "p_status p \<in> {PCompleted, PFailed, PCancelled}"
  shows "\<exists>p' \<in> set (db_plans db'). p_id p' = p_id p \<and> p_status p' = p_status p"
  using assms(3)
proof (induction "(db', ws')" arbitrary: db' ws' rule: rtranclp_induct)
  case base
  then show ?case using assms(4) by auto
next
  case (step y)
  obtain db1 ws1 where y: "y = (db1, ws1)" by (cases y)
  then obtain p1 where p1: "p1 \<in> set (db_plans db1)" "p_id p1 = p_id p" "p_status p1 = p_status p"
    using step.hyps(3) by blast
  have "sys_step\<^sup>*\<^sup>* s (db1, ws1)" using assms(2) step.hyps(1) y by simp
  then have "step_good db1 db'"
    using plan_system.reachable_inv [OF assms(1)] step_plans_good [of "(db1, ws1)" "(db', ws')"] step.hyps(2) y
    by fastforce
  then show ?case
    using plan_table.final_kept [of "db_plans db1" _ p1] p1 assms(5)
    unfolding step_good_def plans_follow_def plan_final_def by fastforce
qed

theorem finished_plans_final_witness:
  "\<exists>p' \<in> set (db_plans run_db7). p_id p' = ''p'' \<and> p_status p' = PCompleted"
proof -
  obtain p where "p \<in> set (db_plans run_db7)" "p_id p = ''p''" "p_status p = PCompleted"
    using run_plan_done by (cases "db_plans run_db7") auto
  then show ?thesis
    using finished_plans_final [OF run_init run_reachable7 rtranclp.rtrancl_refl, of p] by simp
qed

end
