(* ===== verification/Plan_Import.thy ===== *)
theory Plan_Import
  imports Orch_System
begin

text \<open>
  \<^verbatim>\<open>insert_plan\<close> on the plans \<^verbatim>\<open>validate_plan\<close> returns: with fresh identifiers, and while the roles and
  projects of the validation are in their tables, no statement of the transaction can fail, and the rows it leaves are the plan, task by task and edge by edge.
\<close>

section \<open>The rows\<close>







section \<open>The transaction\<close>








text \<open>Without one of them the transaction fails: the keys are checked row by row.\<close>

lemma insert_plan_without_role:
  "''orchestrator'' \<notin> set role_ids \<Longrightarrow> initial \<in> {PDraft, PReady} \<Longrightarrow>
     insert_plan sha256 role_ids project_ids now pid tids plan source initial db = Inl IntegrityError"
  by (simp add: insert_plan_def insert_plan_row_def plan_row_ok_def)

end
