(* ===== verification/WebSocket_Frames.thy ===== *)
theory WebSocket_Frames
  imports Prelude "HOL-Library.Word"
begin

text \<open>
  The frame codec of \<^verbatim>\<open>controller_api/websocket_transport.py\<close>: \<^verbatim>\<open>_read_exact\<close>,
  \<^verbatim>\<open>read_client_frame\<close>, \<^verbatim>\<open>encode_client_frame\<close>, \<^verbatim>\<open>encode_server_frame\<close> and the
  payload of \<^verbatim>\<open>send_close\<close>. A byte is an 8-bit word. The stream of a connection is the list of
  the pieces its \<^verbatim>\<open>read\<close> calls deliver; an empty piece, and the end of the list, is the end of
  the stream. The theorems: what the encoder writes the reader reads back, however the bytes are cut
  into pieces; every frame the reader accepts is the canonical encoding of what it returns; and a
  close frame always fits and carries well-formed UTF-8.
\<close>

unbundle bit_operations_syntax

section \<open>Bytes\<close>

type_synonym byte = "8 word"

text \<open>\<^verbatim>\<open>struct.pack\<close> and \<^verbatim>\<open>struct.unpack\<close> with format \<^verbatim>\<open>!H\<close> (2 bytes) and \<^verbatim>\<open>!Q\<close> (8 bytes).\<close>

fun pack :: "nat \<Rightarrow> nat \<Rightarrow> byte list" where
  "pack 0 n = []"
| "pack (Suc k) n = pack k (n div 256) @ [word_of_nat (n mod 256)]"

definition unpack :: "byte list \<Rightarrow> nat" where
  "unpack bs = foldl (\<lambda>n b. 256 * n + unat b) 0 bs"

lemma length_pack [simp]: "length (pack k n) = k"
  by (induction k n rule: pack.induct) simp_all

lemma unpack_append [simp]: "unpack (bs @ [b]) = 256 * unpack bs + unat b"
  by (simp add: unpack_def)

lemma unpack_Nil [simp]: "unpack [] = 0"
  by (simp add: unpack_def)

lemma unat_byte_lt [simp]: "unat (b :: byte) < 256"
  using unsigned_less [of b, where ?'a = nat] by simp

lemma unat_byte_of_nat [simp]: "n < 256 \<Longrightarrow> unat (word_of_nat n :: byte) = n"
  by (simp add: unat_of_nat)

lemma unpack_pack [simp]: "n < 256 ^ k \<Longrightarrow> unpack (pack k n) = n"
  by (induction k n rule: pack.induct) (simp_all add: less_mult_imp_div_less mult.commute)

lemma unpack_bound: "unpack bs < 256 ^ length bs"
proof (induction bs rule: rev_induct)
  case (snoc b bs)
  have "256 * unpack bs + unat b < 256 * Suc (unpack bs)" by simp
  also have "\<dots> \<le> 256 * 256 ^ length bs" using snoc by (intro mult_le_mono2) simp
  finally show ?case by simp
qed simp

lemma pack_unpack [simp]: "length bs = k \<Longrightarrow> pack k (unpack bs) = bs"
proof (induction bs arbitrary: k rule: rev_induct)
  case (snoc b bs)
  have "(256 * unpack bs + unat b) div 256 = unpack bs" "(256 * unpack bs + unat b) mod 256 = unat b"
    by simp_all
  then show ?case using snoc by auto
qed simp

section \<open>UTF-8\<close>

text \<open>
  What \<^verbatim>\<open>bytes.decode("utf-8")\<close> accepts: the well-formed sequences of the Unicode standard.
  \<open>utf8_extra\<close> is the number of continuation bytes after a leading byte.
\<close>

definition utf8_extra :: "byte \<Rightarrow> nat option" where
  "utf8_extra b =
     (if b < 0x80 then Some 0
      else if 0xC2 \<le> b \<and> b \<le> 0xDF then Some 1
      else if 0xE0 \<le> b \<and> b \<le> 0xEF then Some 2
      else if 0xF0 \<le> b \<and> b \<le> 0xF4 then Some 3
      else None)"

definition utf8_cont :: "byte \<Rightarrow> bool" where
  "utf8_cont b \<longleftrightarrow> 0x80 \<le> b \<and> b \<le> 0xBF"

definition utf8_second :: "byte \<Rightarrow> byte \<Rightarrow> bool" where
  "utf8_second b c \<longleftrightarrow>
     (if b = 0xE0 then 0xA0 \<le> c \<and> c \<le> 0xBF
      else if b = 0xED then 0x80 \<le> c \<and> c \<le> 0x9F
      else if b = 0xF0 then 0x90 \<le> c \<and> c \<le> 0xBF
      else if b = 0xF4 then 0x80 \<le> c \<and> c \<le> 0x8F
      else utf8_cont c)"

definition utf8_char :: "byte \<Rightarrow> byte list \<Rightarrow> bool" where
  "utf8_char b s \<longleftrightarrow>
     (case utf8_extra b of
        None \<Rightarrow> False
      | Some n \<Rightarrow> n \<le> length s \<and> list_all utf8_cont (take n s) \<and> (0 < n \<longrightarrow> utf8_second b (hd s)))"

function utf8_ok :: "byte list \<Rightarrow> bool" where
  "utf8_ok [] = True"
| "utf8_ok (b # s) = (utf8_char b s \<and> utf8_ok (drop (the (utf8_extra b)) s))"
  by pat_completeness auto
termination by (relation "measure length") auto

lemma utf8_extra_le: "utf8_extra b = Some n \<Longrightarrow> n \<le> 3"
  by (auto simp: utf8_extra_def split: if_split_asm)

text \<open>Cutting a well-formed text anywhere leaves at most three bytes of an unfinished character.\<close>

lemma utf8_cut:
  assumes "utf8_ok s"
  shows "\<exists>k \<le> 3. utf8_ok (take (n - k) s)"
  using assms
proof (induction s arbitrary: n rule: utf8_ok.induct)
  case (2 b s)
  then obtain x where x: "utf8_extra b = Some x" "utf8_char b s" "utf8_ok (drop x s)"
    by (cases "utf8_extra b") (auto simp: utf8_char_def)
  have x3: "x \<le> 3" using utf8_extra_le x(1) by blast
  show ?case
  proof (cases "n \<le> x")
    case True
    then have "utf8_ok (take (n - n) (b # s))" "n \<le> 3" using x3 by simp_all
    then show ?thesis by blast
  next
    case False
    have "\<exists>k \<le> 3. utf8_ok (take (n - Suc x - k) (drop x s))"
      using 2(1) [of "n - Suc x"] x by simp
    then obtain k where k: "k \<le> 3" "utf8_ok (take (n - Suc x - k) (drop x s))" by blast
    show ?thesis
    proof (cases "k \<le> n - Suc x")
      case True
      then have "n - k = Suc (n - Suc x - k + x)" using False by simp
      moreover have "utf8_char b (take (n - Suc x - k + x) s)"
        using x(1,2) by (cases s) (auto simp: utf8_char_def min_def take_Cons' list_all_iff)
      ultimately have "utf8_ok (take (n - k) (b # s))"
        using k(2) x(1) by (simp add: drop_take add.commute [of x])
      then show ?thesis using k(1) by blast
    next
      case False2: False
      then have "n - (n - Suc x) = Suc x" "n - Suc x \<le> 3" using False k(1) by simp_all
      moreover have "utf8_ok (take (Suc x) (b # s))"
        using x(1,2) by (cases s) (auto simp: utf8_char_def min_def take_Cons' list_all_iff)
      ultimately show ?thesis by metis
    qed
  qed
qed (auto intro: exI [of _ 0])

section \<open>Streams\<close>

text \<open>
  \<^verbatim>\<open>WebSocketProtocolError(close_code, reason)\<close>, \<^verbatim>\<open>EOFError\<close>, and the
  \<^verbatim>\<open>ValueError\<close> of the encoders.
\<close>

datatype ws_error = Protocol nat string | Eof | BadValue

type_synonym stream = "byte list list"

fun read_exact :: "nat \<Rightarrow> stream \<Rightarrow> ws_error + (byte list \<times> stream)" where
  "read_exact n [] = (if n = 0 then Inr ([], []) else Inl Eof)"
| "read_exact n (chunk # s) =
     (if n = 0 then Inr ([], chunk # s)
      else if chunk = [] then Inl Eof
      else if length chunk \<le> n
      then rbind (read_exact (n - length chunk) s) (\<lambda>(rest, s'). Inr (chunk @ rest, s'))
      else Inr (take n chunk, drop n chunk # s))"

definition flowing :: "stream \<Rightarrow> bool" where
  "flowing s \<longleftrightarrow> [] \<notin> set s"

lemma read_exact_enough:
  assumes "flowing s" "n \<le> length (concat s)"
  obtains s' where "read_exact n s = Inr (take n (concat s), s')" "concat s' = drop n (concat s)" "flowing s'"
proof -
  have "\<exists>s'. read_exact n s = Inr (take n (concat s), s') \<and> concat s' = drop n (concat s) \<and> flowing s'"
    using assms
  proof (induction n s rule: read_exact.induct)
    case (2 n chunk s)
    consider "n = 0" | "n \<noteq> 0" "length chunk \<le> n" | "n \<noteq> 0" "n < length chunk" by linarith
    then show ?case
    proof cases
      case 2
      moreover have "chunk \<noteq> []" "flowing s" "n - length chunk \<le> length (concat s)"
        using "2.prems" by (auto simp: flowing_def le_diff_conv)
      ultimately obtain s' where "read_exact (n - length chunk) s = Inr (take (n - length chunk) (concat s), s')"
        "concat s' = drop (n - length chunk) (concat s)" "flowing s'"
        using "2.IH" by blast
      then show ?thesis using 2 \<open>chunk \<noteq> []\<close> by simp
    qed (use "2.prems" in \<open>auto simp: flowing_def\<close>)
  qed auto
  then show ?thesis using that by blast
qed

lemma read_exact_short:
  "length (concat s) < n \<Longrightarrow> read_exact n s = Inl Eof"
  by (induction n s rule: read_exact.induct) (auto simp: less_diff_conv)

lemma read_exact_Inr:
  assumes "read_exact n s = Inr (bs, s')"
  shows "length bs = n \<and> concat s = bs @ concat s'"
  using assms
proof (induction n s arbitrary: bs rule: read_exact.induct)
  case (2 n chunk s)
  consider "n = 0" | "n \<noteq> 0" "length chunk \<le> n" | "n \<noteq> 0" "n < length chunk" by linarith
  then show ?case
  proof cases
    case 2
    then obtain rest where r: "chunk \<noteq> []" "read_exact (n - length chunk) s = Inr (rest, s')" "bs = chunk @ rest"
      using "2.prems" by (auto split: prod.split_asm if_split_asm)
    then show ?thesis using "2.IH" [of rest] 2 by simp
  qed (use "2.prems" in \<open>auto split: if_split_asm\<close>)
qed (auto split: if_split_asm)

section \<open>Encoding\<close>

definition data_opcodes :: "nat set" where
  "data_opcodes = {1, 2, 8, 9, 10}"

text \<open>
  \<^verbatim>\<open>bytes((0x80 | opcode,))\<close> raises for a value above 255, \<^verbatim>\<open>struct.pack("!Q", n)\<close> for a
  length of more than 64 bits.
\<close>

definition encode_server_frame :: "nat \<Rightarrow> byte list \<Rightarrow> ws_error + byte list" where
  "encode_server_frame opcode payload =
     (if opcode \<notin> data_opcodes then Inl BadValue
      else
        let n = length payload; first = [0x80 OR word_of_nat opcode]
        in if n < 126 then Inr (first @ [word_of_nat n] @ payload)
           else if n \<le> 0xFFFF then Inr (first @ [126] @ pack 2 n @ payload)
           else if n < 2 ^ 64 then Inr (first @ [127] @ pack 8 n @ payload)
           else Inl BadValue)"

definition xor_mask :: "byte list \<Rightarrow> byte list \<Rightarrow> byte list" where
  "xor_mask key payload = map (\<lambda>(i, b). b XOR key ! (i mod 4)) (zip [0..<length payload] payload)"

definition encode_client_frame :: "nat \<Rightarrow> byte list \<Rightarrow> byte list \<Rightarrow> ws_error + byte list" where
  "encode_client_frame opcode payload key =
     (if length key \<noteq> 4 then Inl BadValue
      else
        let n = length payload
        in if 256 \<le> 0x80 OR opcode then Inl BadValue
           else
             let first = [word_of_nat (0x80 OR opcode)];
                 header =
                   (if n < 126 then Inr (first @ [0x80 OR word_of_nat n])
                    else if n \<le> 0xFFFF then Inr (first @ [0x80 OR 126] @ pack 2 n)
                    else if n < 2 ^ 64 then Inr (first @ [0x80 OR 127] @ pack 8 n)
                    else Inl BadValue)
             in rbind header (\<lambda>h. Inr (h @ key @ xor_mask key payload)))"

section \<open>Reading\<close>

record client_frame =
  f_opcode :: nat
  f_payload :: "byte list"

definition close_code_ok :: "nat \<Rightarrow> bool" where
  "close_code_ok code \<longleftrightarrow>
     code \<in> {1000, 1001, 1002, 1003, 1007, 1008, 1009, 1010, 1011} \<or> 3000 \<le> code \<and> code \<le> 4999"

definition read_length :: "nat \<Rightarrow> stream \<Rightarrow> ws_error + (nat \<times> stream)" where
  "read_length n s =
     (if n = 126 then
        rbind (read_exact 2 s) (\<lambda>(bs, s').
          if unpack bs < 126 then Inl (Protocol 1002 ''non-canonical frame length'')
          else Inr (unpack bs, s'))
      else if n = 127 then
        rbind (read_exact 8 s) (\<lambda>(bs, s').
          if hd bs AND 0x80 \<noteq> 0 then Inl (Protocol 1002 ''invalid frame length'')
          else if unpack bs < 65536 then Inl (Protocol 1002 ''non-canonical frame length'')
          else Inr (unpack bs, s'))
      else Inr (n, s))"

definition check_close :: "nat \<Rightarrow> byte list \<Rightarrow> ws_error + unit" where
  "check_close opcode payload =
     (if opcode = 8 then
        if length payload = 1 then Inl (Protocol 1002 ''invalid close payload'')
        else if 2 \<le> length payload then
          if \<not> close_code_ok (unpack (take 2 payload)) then Inl (Protocol 1002 ''invalid close code'')
          else if \<not> utf8_ok (drop 2 payload) then Inl (Protocol 1007 ''invalid close reason'')
          else Inr ()
        else Inr ()
      else Inr ())"

definition read_client_frame :: "nat \<Rightarrow> stream \<Rightarrow> ws_error + (client_frame \<times> stream)" where
  "read_client_frame maximum s =
     rbind (read_exact 2 s) (\<lambda>(head, s1).
       let first = head ! 0; second = head ! 1;
           final = first AND 0x80 \<noteq> 0; reserved = first AND 0x70 \<noteq> 0;
           opcode = unat (first AND 0x0F);
           masked = second AND 0x80 \<noteq> 0
       in if reserved \<or> \<not> final then Inl (Protocol 1002 ''fragmented or reserved frame'')
          else if \<not> masked then Inl (Protocol 1002 ''client frame must be masked'')
          else if opcode \<notin> data_opcodes then Inl (Protocol 1002 ''unsupported opcode'')
          else
            rbind (read_length (unat (second AND 0x7F)) s1) (\<lambda>(n, s2).
              if 8 \<le> opcode \<and> 125 < n then Inl (Protocol 1002 ''oversized control frame'')
              else if maximum < n then Inl (Protocol 1009 ''frame too large'')
              else
                rbind (read_exact 4 s2) (\<lambda>(key, s3).
                  rbind (read_exact n s3) (\<lambda>(masked_payload, s4).
                    let payload = xor_mask key masked_payload
                    in rbind (check_close opcode payload) (\<lambda>_.
                         Inr (\<lparr>f_opcode = opcode, f_payload = payload\<rparr>, s4))))))"

section \<open>Masks and header bytes\<close>

lemma length_xor_mask [simp]: "length (xor_mask key p) = length p"
  by (simp add: xor_mask_def)

lemma nth_xor_mask [simp]: "i < length p \<Longrightarrow> xor_mask key p ! i = p ! i XOR key ! (i mod 4)"
  by (simp add: xor_mask_def)

lemma xor_mask_involution [simp]: "xor_mask key (xor_mask key p) = p"
  by (rule nth_equalityI) (simp_all add: xor.assoc)

lemma byte_eq_iff: "(b :: byte) = c \<longleftrightarrow>
    (bit b 0 = bit c 0) \<and> (bit b 1 = bit c 1) \<and> (bit b 2 = bit c 2) \<and> (bit b 3 = bit c 3) \<and>
    (bit b 4 = bit c 4) \<and> (bit b 5 = bit c 5) \<and> (bit b 6 = bit c 6) \<and> (bit b 7 = bit c 7)"
proof -
  have "b = c \<longleftrightarrow> (\<forall>n<8. bit b n = bit c n)" by (auto intro: bit_word_eqI)
  also have "(\<forall>n<8. bit b n = bit c n) \<longleftrightarrow> (\<forall>n \<in> {..<8::nat}. bit b n = bit c n)" by auto
  also have "{..<8::nat} = {0, 1, 2, 3, 4, 5, 6, 7}" by auto
  finally show ?thesis by simp
qed

lemmas byte_bits = byte_eq_iff bit_and_iff bit_or_iff

lemma low_bits: "unat ((b :: byte) AND 0x7F) = unat b mod 128"
  using take_bit_eq_mask [of 7 "unat b"] by (simp add: unsigned_and_eq mask_eq_exp_minus_1 take_bit_eq_mod)

lemma high_bit_iff: "(b :: byte) AND 0x80 \<noteq> 0 \<longleftrightarrow> 128 \<le> unat b"
proof -
  have "b AND 0x80 \<noteq> 0 \<longleftrightarrow> bit b 7" by (simp add: byte_bits)
  also have "\<dots> \<longleftrightarrow> bit (unat b) 7" by (simp add: bit_unsigned_iff)
  also have "\<dots> \<longleftrightarrow> odd (unat b div 128)" by (simp add: bit_iff_odd)
  also have "\<dots> \<longleftrightarrow> 128 \<le> unat b"
  proof -
    have "unat b div 128 < 2" using unat_byte_lt [of b] by (simp add: less_mult_imp_div_less)
    then have "unat b div 128 = 0 \<or> unat b div 128 = 1" by linarith
    then show ?thesis by (auto simp: div_eq_0_iff)
  qed
  finally show ?thesis .
qed

lemma first_byte:
  assumes "(b :: byte) AND 0x70 = 0" "b AND 0x80 \<noteq> 0"
  shows "b = word_of_nat (0x80 OR unat (b AND 0x0F)) \<and> 0x80 OR unat (b AND 0x0F) < 256"
proof -
  have "b = 0x80 OR (b AND 0x0F)" using assms by (simp add: byte_bits)
  moreover have "unat (0x80 OR (b AND 0x0F)) = 0x80 OR unat (b AND 0x0F)" by (simp add: unsigned_or_eq)
  ultimately have u: "unat b = 0x80 OR unat (b AND 0x0F)" by simp
  have v: "word_of_nat (unat b) = b" by simp
  show ?thesis using u v unat_byte_lt [of b] by metis
qed

lemma second_byte:
  "(b :: byte) AND 0x80 \<noteq> 0 \<Longrightarrow> b = 0x80 OR word_of_nat (unat (b AND 0x7F))"
  by (simp add: byte_bits)

lemma second_byte_of:
  assumes "n < 128"
  shows "(0x80 OR word_of_nat n :: byte) AND 0x80 \<noteq> 0" "unat ((0x80 OR word_of_nat n :: byte) AND 0x7F) = n"
proof -
  show "(0x80 OR word_of_nat n :: byte) AND 0x80 \<noteq> 0" by (simp add: byte_bits)
  have "(0x80 OR word_of_nat n :: byte) AND 0x7F = word_of_nat n AND 0x7F" by (simp add: byte_bits)
  then show "unat ((0x80 OR word_of_nat n :: byte) AND 0x7F) = n"
    using assms by (simp only: low_bits) (simp add: unat_of_nat)
qed
lemma first_byte_of:
  assumes "opcode \<in> data_opcodes"
  shows "0x80 OR opcode < 256" "(word_of_nat (0x80 OR opcode) :: byte) AND 0x80 \<noteq> 0"
    "(word_of_nat (0x80 OR opcode) :: byte) AND 0x70 = 0"
    "unat ((word_of_nat (0x80 OR opcode) :: byte) AND 0x0F) = opcode"
  using assms by (auto simp: data_opcodes_def)

text \<open>A length of 8 bytes is below \<open>2 ^ 63\<close> exactly when its first bit is clear.\<close>

lemma high_bit:
  assumes "length bs = 8"
  shows "hd bs AND 0x80 \<noteq> 0 \<longleftrightarrow> 2 ^ 63 \<le> unpack bs"
proof -
  obtain b cs where bs: "bs = b # cs" "length cs = 7" using assms by (cases bs) auto
  have "unpack (b # cs) = unat b * 256 ^ length cs + unpack cs"
    by (induction cs rule: rev_induct) (simp_all add: unpack_def algebra_simps)
  moreover have "unpack cs < 256 ^ 7" using unpack_bound [of cs] bs(2) by simp
  ultimately show ?thesis using bs high_bit_iff [of b] by auto
qed

section \<open>The layout of a frame\<close>

definition length_bytes :: "nat \<Rightarrow> byte list" where
  "length_bytes n =
     (if n < 126 then [] else if n \<le> 0xFFFF then pack 2 n else pack 8 n)"

definition length_code :: "nat \<Rightarrow> nat" where
  "length_code n = (if n < 126 then n else if n \<le> 0xFFFF then 126 else 127)"

definition client_bytes :: "nat \<Rightarrow> byte list \<Rightarrow> byte list \<Rightarrow> byte list" where
  "client_bytes opcode payload key =
     [word_of_nat (0x80 OR opcode), 0x80 OR word_of_nat (length_code (length payload))] @
     length_bytes (length payload) @ key @ xor_mask key payload"

lemma encode_client_frame_eq:
  "encode_client_frame opcode payload key =
     (if length key = 4 \<and> 0x80 OR opcode < 256 \<and> length payload < 2 ^ 64
      then Inr (client_bytes opcode payload key) else Inl BadValue)"
  by (auto simp: encode_client_frame_def client_bytes_def length_bytes_def length_code_def Let_def)

section \<open>Reading what was written\<close>

lemma read_exact_prefix:
  assumes "flowing s" "concat s = xs @ ys" "length xs = n"
  obtains s' where "read_exact n s = Inr (xs, s')" "concat s' = ys" "flowing s'"
  using read_exact_enough [OF assms(1), of n] assms(2,3) by auto

lemma length_code_lt: "length_code n < 128"
  by (simp add: length_code_def)

lemma read_length_ok:
  assumes "flowing s" "concat s = length_bytes n @ ys" "n < 2 ^ 63"
  obtains s' where "read_length (length_code n) s = Inr (n, s')" "concat s' = ys" "flowing s'"
proof -
  consider "n < 126" | "126 \<le> n" "n \<le> 0xFFFF" | "0xFFFF < n" by linarith
  then show thesis
  proof cases
    case 1
    then show thesis using assms that by (simp add: read_length_def length_code_def length_bytes_def)
  next
    case 2
    then obtain s' where "read_exact 2 s = Inr (pack 2 n, s')" "concat s' = ys" "flowing s'"
      using read_exact_prefix [OF assms(1), of "pack 2 n" ys 2] assms(2) by (auto simp: length_bytes_def)
    then show thesis using 2 that by (simp add: read_length_def length_code_def)
  next
    case 3
    then obtain s' where "read_exact 8 s = Inr (pack 8 n, s')" "concat s' = ys" "flowing s'"
      using read_exact_prefix [OF assms(1), of "pack 8 n" ys 8] assms(2) by (auto simp: length_bytes_def)
    moreover have "unpack (pack 8 n) = n" using assms(3) by simp
    moreover have "hd (pack 8 n) AND 0x80 = 0"
      using high_bit [of "pack 8 n"] \<open>unpack (pack 8 n) = n\<close> assms(3) by force
    ultimately show thesis using 3 that by (simp add: read_length_def length_code_def)
  qed
qed

lemma read_length_Inr:
  assumes "read_length c s = Inr (n, s')" "c < 128"
  shows "c = length_code n \<and> concat s = length_bytes n @ concat s' \<and> n < 2 ^ 63"
proof -
  consider "c = 126" | "c = 127" | "c < 126" using assms(2) by linarith
  then show ?thesis
  proof cases
    case 1
    then obtain bs where r: "read_exact 2 s = Inr (bs, s')" and n: "unpack bs = n" "126 \<le> n"
      using assms(1) by (auto simp: read_length_def split: if_split_asm)
    have bs: "length bs = 2" "concat s = bs @ concat s'" using read_exact_Inr [OF r] by auto
    have "n \<le> 0xFFFF" using unpack_bound [of bs] bs(1) n(1) by simp
    then show ?thesis using 1 n bs by (auto simp: length_code_def length_bytes_def)
  next
    case 2
    then obtain bs where r: "read_exact 8 s = Inr (bs, s')" and n: "unpack bs = n" "65536 \<le> n"
      and h: "hd bs AND 0x80 = 0"
      using assms(1) by (auto simp: read_length_def split: if_split_asm)
    have bs: "length bs = 8" "concat s = bs @ concat s'" using read_exact_Inr [OF r] by auto
    then show ?thesis using 2 n high_bit [of bs] h by (auto simp: length_code_def length_bytes_def)
  next
    case 3
    then show ?thesis using assms(1) by (simp add: read_length_def length_code_def length_bytes_def)
  qed
qed

definition frame_ok :: "nat \<Rightarrow> nat \<Rightarrow> byte list \<Rightarrow> bool" where
  "frame_ok maximum opcode payload \<longleftrightarrow>
     opcode \<in> data_opcodes \<and> length payload \<le> maximum \<and> length payload < 2 ^ 63 \<and>
     (8 \<le> opcode \<longrightarrow> length payload \<le> 125) \<and> check_close opcode payload = Inr ()"

text \<open>
  C30: the reader gives back what the encoder wrote: an admissible frame, encoded with any key of four
  bytes and cut into any pieces, is read as the same opcode and payload, and the bytes after it are
  left in the stream.
\<close>

theorem client_frame_roundtrip:
  assumes "frame_ok maximum opcode payload" "encode_client_frame opcode payload key = Inr bytes"
    and "flowing s" "concat s = bytes @ rest"
  shows "\<exists>s'. read_client_frame maximum s = Inr (\<lparr>f_opcode = opcode, f_payload = payload\<rparr>, s') \<and>
    concat s' = rest"
proof -
  let ?n = "length payload"
  have k: "length key = 4" and b: "bytes = client_bytes opcode payload key"
    using assms(2) by (auto simp: encode_client_frame_eq split: if_split_asm)
  have ok: "opcode \<in> data_opcodes" "?n \<le> maximum" "?n < 2 ^ 63" "8 \<le> opcode \<longrightarrow> ?n \<le> 125"
    "check_close opcode payload = Inr ()"
    using assms(1) unfolding frame_ok_def by blast+
  let ?head = "[word_of_nat (0x80 OR opcode), 0x80 OR word_of_nat (length_code ?n)] :: byte list"
  obtain s1 where s1: "read_exact 2 s = Inr (?head, s1)"
    "concat s1 = length_bytes ?n @ key @ xor_mask key payload @ rest" "flowing s1"
    using read_exact_prefix [OF assms(3), of ?head _ 2] assms(4) b by (auto simp: client_bytes_def)
  obtain s2 where s2: "read_length (length_code ?n) s1 = Inr (?n, s2)"
    "concat s2 = key @ xor_mask key payload @ rest" "flowing s2"
    using read_length_ok [OF s1(3,2) ok(3)] by blast
  obtain s3 where s3: "read_exact 4 s2 = Inr (key, s3)" "concat s3 = xor_mask key payload @ rest" "flowing s3"
    using read_exact_prefix [OF s2(3,2) k] by blast
  obtain s4 where s4: "read_exact ?n s3 = Inr (xor_mask key payload, s4)" "concat s4 = rest"
    using read_exact_prefix [OF s3(3,2), of ?n] by auto
  have "read_client_frame maximum s = Inr (\<lparr>f_opcode = opcode, f_payload = payload\<rparr>, s4)"
    using ok
    by (simp add: read_client_frame_def s1(1) s2(1) s3(1) s4(1) Let_def first_byte_of [OF ok(1)]
        second_byte_of [OF length_code_lt] not_less)
  then show ?thesis using s4(2) by blast
qed

text \<open>
  C31: the reader accepts canonical frames only: whatever it returns is admissible, and the bytes it
  consumed are the encoding of the returned frame under some key; so no other byte sequence, no
  longer length form and no unmasked or fragmented frame is accepted.
\<close>

theorem client_frame_canonical:
  assumes "read_client_frame maximum s = Inr (f, s')"
  shows "frame_ok maximum (f_opcode f) (f_payload f) \<and>
    (\<exists>key bytes. encode_client_frame (f_opcode f) (f_payload f) key = Inr bytes \<and>
       concat s = bytes @ concat s')"
proof -
  obtain head s1 where r1: "read_exact 2 s = Inr (head, s1)"
    and rest: "head ! 0 AND 0x70 = 0" "head ! 0 AND 0x80 \<noteq> 0" "head ! 1 AND 0x80 \<noteq> 0"
      "unat (head ! 0 AND 0x0F) \<in> data_opcodes"
    and more: "\<exists>n s2 key s3 p. read_length (unat (head ! 1 AND 0x7F)) s1 = Inr (n, s2) \<and>
      (8 \<le> unat (head ! 0 AND 0x0F) \<longrightarrow> n \<le> 125) \<and> n \<le> maximum \<and>
      read_exact 4 s2 = Inr (key, s3) \<and> read_exact n s3 = Inr (p, s') \<and>
      check_close (unat (head ! 0 AND 0x0F)) (xor_mask key p) = Inr () \<and>
      f = \<lparr>f_opcode = unat (head ! 0 AND 0x0F), f_payload = xor_mask key p\<rparr>"
    using assms unfolding read_client_frame_def Let_def
    by (auto simp: rbind_Inr_iff not_less split: if_split_asm)
  then obtain n s2 key s3 p where r2: "read_length (unat (head ! 1 AND 0x7F)) s1 = Inr (n, s2)"
    and lim: "8 \<le> unat (head ! 0 AND 0x0F) \<longrightarrow> n \<le> 125" "n \<le> maximum"
    and r3: "read_exact 4 s2 = Inr (key, s3)" and r4: "read_exact n s3 = Inr (p, s')"
    and close: "check_close (unat (head ! 0 AND 0x0F)) (xor_mask key p) = Inr ()"
    and f: "f = \<lparr>f_opcode = unat (head ! 0 AND 0x0F), f_payload = xor_mask key p\<rparr>"
    by blast
  note l1 = read_exact_Inr [OF r1] and l3 = read_exact_Inr [OF r3] and l4 = read_exact_Inr [OF r4]
  have "unat (head ! 1 AND 0x7F) < 128" by (simp add: low_bits)
  note l2 = read_length_Inr [OF r2 this]
  have head: "head = [head ! 0, head ! 1]"
    using l1 by (auto simp: numeral_2_eq_2 length_Suc_conv)
  have "concat s = client_bytes (f_opcode f) (f_payload f) key @ concat s'"
    using l1 l2 l3 l4 head first_byte [OF rest(1,2)] second_byte [OF rest(3)]
    by (simp add: client_bytes_def f)
  moreover have "encode_client_frame (f_opcode f) (f_payload f) key =
      Inr (client_bytes (f_opcode f) (f_payload f) key)"
    using l2 l3 l4 first_byte [OF rest(1,2)] by (simp add: encode_client_frame_eq f)
  moreover have "frame_ok maximum (f_opcode f) (f_payload f)"
    using rest(4) lim l2 l4 close by (simp add: frame_ok_def f)
  ultimately show ?thesis by blast
qed

section \<open>Cutting the stream\<close>

text \<open>The result of a reader, with only the bytes of the rest of the stream.\<close>

definition flat :: "ws_error + ('a \<times> stream) \<Rightarrow> ws_error + ('a \<times> byte list)" where
  "flat r = rbind r (\<lambda>(x, s). Inr (x, concat s))"

text \<open>\<open>same r r'\<close>: two readers end alike, and what is left of their streams is the same bytes.\<close>

definition same :: "ws_error + ('a \<times> stream) \<Rightarrow> ws_error + ('a \<times> stream) \<Rightarrow> bool" where
  "same r r' \<longleftrightarrow>
     (case (r, r') of
        (Inl e, Inl e') \<Rightarrow> e = e'
      | (Inr (x, s), Inr (y, t)) \<Rightarrow> x = y \<and> flowing s \<and> flowing t \<and> concat s = concat t
      | _ \<Rightarrow> False)"

lemma same_simps [simp]:
  "same (Inl e) (Inl e') \<longleftrightarrow> e = e'"
  "same (Inr (x, s)) (Inr (y, t)) \<longleftrightarrow> x = y \<and> flowing s \<and> flowing t \<and> concat s = concat t"
  by (simp_all add: same_def)

lemma same_rbind:
  assumes "same r r'" "\<And>x s t. flowing s \<Longrightarrow> flowing t \<Longrightarrow> concat s = concat t \<Longrightarrow> same (f (x, s)) (f (x, t))"
  shows "same (rbind r f) (rbind r' f)"
  using assms by (cases r; cases r') (auto simp: same_def split: prod.split_asm)

lemma same_flat: "same r r' \<Longrightarrow> flat r = flat r'"
  by (cases r; cases r') (auto simp: same_def flat_def)

lemma same_then: "same r r' \<Longrightarrow> same (rbind c (\<lambda>_. r)) (rbind c (\<lambda>_. r'))"
  by (cases c) simp_all

lemma same_read_exact:
  assumes "flowing s" "flowing t" "concat s = concat t"
  shows "same (read_exact n s) (read_exact n t)"
proof (cases "n \<le> length (concat t)")
  case True
  then show ?thesis
    using read_exact_enough [OF assms(1), of n] read_exact_enough [OF assms(2), of n] assms(3)
    by (metis same_simps(2))
next
  case False
  then show ?thesis using read_exact_short [of s n] read_exact_short [of t n] assms(3) by simp
qed

lemma same_read_length:
  "flowing s \<Longrightarrow> flowing t \<Longrightarrow> concat s = concat t \<Longrightarrow> same (read_length n s) (read_length n t)"
  by (auto simp: read_length_def intro!: same_rbind same_read_exact)

text \<open>
  How the network cuts the bytes does not matter: on two streams with the same bytes the reader
  returns the same frame and leaves the same bytes, or raises the same error.
\<close>

theorem read_client_frame_cut:
  assumes "flowing s" "flowing t" "concat s = concat t"
  shows "flat (read_client_frame maximum s) = flat (read_client_frame maximum t)"
proof -
  have "same (read_client_frame maximum s) (read_client_frame maximum t)"
    unfolding read_client_frame_def Let_def
    by (intro same_rbind same_read_exact assms)
      (auto simp: Let_def intro!: same_then same_rbind same_read_exact same_read_length)
  then show ?thesis by (rule same_flat)
qed

theorem read_client_frame_cut_witness:
  "flat (read_client_frame 100 [[0x89], [0x80, 1, 2], [3], [4, 7]]) =
   flat (read_client_frame 100 [[0x89, 0x80, 1, 2, 3, 4, 7]]) \<and>
   flat (read_client_frame 100 [[0x89], [0x80, 1, 2], [3], [4, 7]]) = Inr (\<lparr>f_opcode = 9, f_payload = []\<rparr>, [7])"
proof -
  have "flat (read_client_frame 100 [[0x89], [0x80, 1, 2], [3], [4, 7]]) =
      flat (read_client_frame 100 [[0x89, 0x80, 1, 2, 3, 4, 7]])"
    by (rule read_client_frame_cut) (simp_all add: flowing_def)
  moreover have "flat (read_client_frame 100 [[0x89], [0x80, 1, 2], [3], [4, 7]]) =
      Inr (\<lparr>f_opcode = 9, f_payload = []\<rparr>, [7])"
    by code_simp
  ultimately show ?thesis by blast
qed

section \<open>Close frames\<close>

function trim_utf8 :: "byte list \<Rightarrow> byte list" where
  "trim_utf8 s = (if utf8_ok s then s else trim_utf8 (butlast s))"
  by pat_completeness auto
termination
proof (relation "measure length")
  fix s assume "\<not> utf8_ok s"
  then have "s \<noteq> []" by auto
  then show "(butlast s, s) \<in> measure length" by simp
qed simp

declare trim_utf8.simps [simp del]

text \<open>
  \<^verbatim>\<open>send_close\<close>: \<open>reason\<close> is the encoded reason, \<open>closed\<close> the flag
  \<^verbatim>\<open>_close_sent\<close>; the result is the frame to send, if any, and the new flag. \<^verbatim>\<open>!H\<close> takes
  16 bits. Failures of the socket are ignored by the code.
\<close>

definition close_payload :: "nat \<Rightarrow> byte list \<Rightarrow> byte list" where
  "close_payload code reason = pack 2 code @ trim_utf8 (take 123 reason)"

definition send_close :: "nat \<Rightarrow> byte list \<Rightarrow> bool \<Rightarrow> ws_error + (byte list option \<times> bool)" where
  "send_close code reason closed =
     (if closed then Inr (None, True)
      else if 65536 \<le> code then Inl BadValue
      else rbind (encode_server_frame 8 (close_payload code reason)) (\<lambda>frame. Inr (Some frame, True)))"

lemma trim_utf8_prefix: "\<exists>k \<le> length s. trim_utf8 s = take k s \<and> utf8_ok (take k s) \<and>
    (\<forall>j \<le> length s. utf8_ok (take j s) \<longrightarrow> j \<le> k)"
proof (induction s rule: trim_utf8.induct)
  case (1 s)
  show ?case
  proof (cases "utf8_ok s")
    case True
    then show ?thesis by (intro exI [of _ "length s"]) (simp add: trim_utf8.simps [of s])
  next
    case False
    then have ne: "s \<noteq> []" by auto
    obtain k where k: "k \<le> length (butlast s)" "trim_utf8 (butlast s) = take k (butlast s)"
      "utf8_ok (take k (butlast s))"
      "\<forall>j \<le> length (butlast s). utf8_ok (take j (butlast s)) \<longrightarrow> j \<le> k"
      using 1 [OF False] by blast
    have t: "take j (butlast s) = take j s" if "j \<le> length (butlast s)" for j
      using that by (cases s rule: rev_cases) simp_all
    have "j \<le> k" if "j \<le> length s" "utf8_ok (take j s)" for j
    proof (cases "j = length s")
      case True
      then show ?thesis using that False by simp
    next
      case False
      then have "j \<le> length (butlast s)" using that(1) by simp
      then show ?thesis using k(4) t that(2) by simp
    qed
    then show ?thesis
      using k t [OF k(1)] False by (intro exI [of _ k]) (auto simp: trim_utf8.simps [of s])
  qed
qed

text \<open>
  A close frame is sent at most once, and the one that is sent is valid: whatever the reason text,
  its payload is the code and the longest well-formed prefix of the first 123 bytes, at most 125 bytes
  in all, and of a well-formed reason at most three of those 123 bytes are lost.
\<close>

theorem send_close_valid:
  assumes "utf8_ok reason" "close_code_ok code"
  shows "send_close code reason True = Inr (None, True) \<and>
    (\<exists>text. send_close code reason False =
        Inr (Some ([0x88, word_of_nat (2 + length text)] @ pack 2 code @ text), True) \<and>
      frame_ok 125 8 (pack 2 code @ text) \<and>
      text = take (length text) reason \<and> length text \<le> 123 \<and>
      min 123 (length reason) \<le> length text + 3)"
proof -
  let ?r = "take 123 reason" let ?text = "trim_utf8 (take 123 reason)"
  obtain k where k: "k \<le> length ?r" "?text = take k ?r" "utf8_ok (take k ?r)"
    "\<forall>j \<le> length ?r. utf8_ok (take j ?r) \<longrightarrow> j \<le> k"
    using trim_utf8_prefix [of ?r] by blast
  have len: "length ?text = k" using k by simp
  have le: "k \<le> 123" using k(1) by simp
  have pre: "?text = take k reason" using k(1,2) by (simp add: min_def split: if_split_asm)
  obtain c where c: "c \<le> 3" "utf8_ok (take (length ?r - c) reason)"
    using utf8_cut [OF assms(1)] by blast
  have "take (length ?r - c) ?r = take (length ?r - c) reason" by (simp add: min_def)
  then have "length ?r - c \<le> k" using k(4) c(2) by (metis diff_le_self)
  then have lost: "min 123 (length reason) \<le> k + 3" using c(1) by simp
  have code: "code < 65536" "close_code_ok (unpack (pack 2 code))"
    using assms(2) by (auto simp: close_code_ok_def)
  have frame: "send_close code reason False =
      Inr (Some ([0x88, word_of_nat (2 + length ?text)] @ pack 2 code @ ?text), True)"
    using code(1) le len by (simp add: send_close_def close_payload_def encode_server_frame_def data_opcodes_def Let_def)
  have ok: "frame_ok 125 8 (pack 2 code @ ?text)"
    using code le len k by (simp add: frame_ok_def data_opcodes_def check_close_def)
  have flag: "send_close code reason True = Inr (None, True)" by (simp add: send_close_def)
  show ?thesis
    using frame ok flag pre lost le len by (intro conjI exI [of _ ?text]) (simp_all)
qed

theorem send_close_valid_witness:
  "\<exists>text. send_close 1008 (replicate 122 0x61 @ [0xC3, 0xA9]) False =
      Inr (Some ([0x88, word_of_nat (2 + length text)] @ pack 2 1008 @ text), True) \<and> length text \<le> 123"
proof -
  have "utf8_ok (replicate 122 0x61 @ [0xC3, 0xA9])" by code_simp
  moreover have "close_code_ok 1008" by (simp add: close_code_ok_def)
  ultimately show ?thesis using send_close_valid by blast
qed

text \<open>The witnesses of the codec: a masked text frame, in three pieces, and the bytes after it.\<close>

theorem client_frame_roundtrip_witness:
  "\<exists>s'. read_client_frame 65536 [[0x81, 0x82, 1], [2, 3, 4, 0x69], [0x6B, 9]] =
     Inr (\<lparr>f_opcode = 1, f_payload = [0x68, 0x69]\<rparr>, s') \<and> concat s' = [9]"
proof (rule client_frame_roundtrip)
  show "frame_ok 65536 1 [0x68, 0x69]" by (simp add: frame_ok_def data_opcodes_def check_close_def)
  show "encode_client_frame 1 [0x68, 0x69] [1, 2, 3, 4] = Inr [0x81, 0x82, 1, 2, 3, 4, 0x69, 0x6B]" by code_simp
qed (simp_all add: flowing_def)

theorem client_frame_canonical_witness:
  "\<exists>key bytes. encode_client_frame 1 [0x68, 0x69] key = Inr bytes \<and>
     [0x81, 0x82, 1, 2, 3, 4, 0x69, 0x6B, 9] = bytes @ [9]"
proof -
  have "read_client_frame 65536 [[0x81, 0x82, 1, 2, 3, 4, 0x69, 0x6B, 9]] =
      Inr (\<lparr>f_opcode = 1, f_payload = [0x68, 0x69]\<rparr>, [[9]])"
    by code_simp
  from client_frame_canonical [OF this] show ?thesis by simp
qed

end
