(* ===== verification/Event_Journal.thy ===== *)
theory Event_Journal
  imports Prelude
begin

text \<open>
  The durable event journal of \<^verbatim>\<open>controller_api/event_journal.py\<close> on the table of migrations 015
  and 016. The journal is the list of its rows, in the order of their insertion; the triggers forbid
  updates, deletes and replacing inserts, so it only grows. Three functions of the standard library
  are parameters: \<open>dumps\<close> is \<^verbatim>\<open>canonical_json\<close> (\<^verbatim>\<open>json.dumps\<close> with sorted keys),
  \<open>loads\<close> is \<^verbatim>\<open>json.loads\<close>, and \<open>secret\<close> says whether \<^verbatim>\<open>re.search\<close> finds
  \<^verbatim>\<open>_FORBIDDEN_VALUE\<close> in a text. The calendar is that of \<^verbatim>\<open>datetime.fromisoformat\<close>.
\<close>

section \<open>Patterns\<close>

definition type_part_ok :: "string \<Rightarrow> bool" where
  "type_part_ok s \<longleftrightarrow>
     (case s of [] \<Rightarrow> False
      | c # rest \<Rightarrow> is_lower c \<and> list_all (\<lambda>c. is_lower c \<or> is_digit c \<or> c = CHR ''_'') rest)"

definition event_type_ok :: "string \<Rightarrow> bool" where
  "event_type_ok s \<longleftrightarrow> (let ps = split_on CHR ''.'' s in 2 \<le> length ps \<and> list_all type_part_ok ps)"

definition hex_id_ok :: "string \<Rightarrow> string \<Rightarrow> bool" where
  "hex_id_ok pre s \<longleftrightarrow>
     take (length pre) s = pre \<and> length s = length pre + 32 \<and>
     list_all is_hex (drop (length pre) s)"

definition event_id_ok :: "string \<Rightarrow> bool" where "event_id_ok = hex_id_ok ''evt_''"
definition correlation_id_ok :: "string \<Rightarrow> bool" where "correlation_id_ok = hex_id_ok ''corr_''"

definition actor_types :: "string list" where
  "actor_types = [''operator'', ''system'', ''agent'', ''worker'']"

definition aggregate_types :: "string list" where
  "aggregate_types =
     [''system'', ''project'', ''objective'', ''task'', ''run'', ''review'', ''recovery'', ''sandbox'',
      ''sandbox_build'', ''backup'', ''notification'', ''confirmation'', ''audit'']"

text \<open>\<open>digits n i s\<close>: the \<open>n\<close> characters of \<open>s\<close> from position \<open>i\<close> are digits; \<open>field\<close> is their value.\<close>

definition digits :: "nat \<Rightarrow> nat \<Rightarrow> string \<Rightarrow> bool" where
  "digits n i s \<longleftrightarrow> i + n \<le> length s \<and> list_all is_digit (take n (drop i s))"

definition field :: "nat \<Rightarrow> nat \<Rightarrow> string \<Rightarrow> nat" where
  "field n i s = dec_val (take n (drop i s))"

definition timestamp_shape :: "string \<Rightarrow> bool" where
  "timestamp_shape s \<longleftrightarrow>
     20 \<le> length s \<and> digits 4 0 s \<and> s ! 4 = CHR ''-'' \<and> digits 2 5 s \<and> s ! 7 = CHR ''-'' \<and>
     digits 2 8 s \<and> s ! 10 = CHR ''T'' \<and> digits 2 11 s \<and> s ! 13 = CHR '':'' \<and> digits 2 14 s \<and>
     s ! 16 = CHR '':'' \<and> digits 2 17 s \<and> last s = CHR ''Z'' \<and>
     (length s = 20 \<or>
      22 \<le> length s \<and> length s \<le> 27 \<and> s ! 19 = CHR ''.'' \<and> digits (length s - 21) 20 s)"

definition leap :: "nat \<Rightarrow> bool" where
  "leap y \<longleftrightarrow> y mod 400 = 0 \<or> y mod 4 = 0 \<and> y mod 100 \<noteq> 0"

definition days_in_month :: "nat \<Rightarrow> nat \<Rightarrow> nat" where
  "days_in_month y m =
     (if m = 2 then if leap y then 29 else 28 else if m \<in> {4, 6, 9, 11} then 30 else 31)"

definition calendar_ok :: "string \<Rightarrow> bool" where
  "calendar_ok s \<longleftrightarrow>
     1 \<le> field 4 0 s \<and> 1 \<le> field 2 5 s \<and> field 2 5 s \<le> 12 \<and>
     1 \<le> field 2 8 s \<and> field 2 8 s \<le> days_in_month (field 4 0 s) (field 2 5 s) \<and>
     field 2 11 s \<le> 23 \<and> field 2 14 s \<le> 59 \<and> field 2 17 s \<le> 59"

section \<open>Validation\<close>

datatype journal_error =
    TransactionRequired | InputInvalid | RedactionFailed | Unavailable | Corrupt
  | InvalidSequence | InvalidLimit | InvalidTypes

definition text_ok :: "nat \<Rightarrow> string \<Rightarrow> bool" where
  "text_ok maximum s \<longleftrightarrow> py_len s \<noteq> 0 \<and> py_len s \<le> maximum \<and> \<not> list_ex is_control s"

definition validate_text :: "string option \<Rightarrow> bool \<Rightarrow> journal_error + string option" where
  "validate_text value required =
     (case value of
        None \<Rightarrow> if required then Inl InputInvalid else Inr None
      | Some s \<Rightarrow> if text_ok 200 s then Inr (Some s) else Inl InputInvalid)"

definition validate_timestamp :: "string \<Rightarrow> journal_error + string" where
  "validate_timestamp s =
     (if \<not> timestamp_shape s then Inl InputInvalid
      else if \<not> calendar_ok s then Inl InputInvalid
      else Inr s)"

text \<open>\<^verbatim>\<open>_key_is_sensitive\<close>: camel case is cut, runs of other characters separate the parts.\<close>

fun cut_camel :: "string \<Rightarrow> string" where
  "cut_camel (a # b # s) =
     (if (is_lower a \<or> is_digit a) \<and> is_upper b then a # CHR ''_'' # cut_camel (b # s)
      else a # cut_camel (b # s))"
| "cut_camel s = s"

definition key_parts :: "string \<Rightarrow> string list" where
  "key_parts key =
     filter (\<lambda>p. p \<noteq> [])
       (split_on CHR ''_''
         (map (\<lambda>c. if is_alnum c then to_lower c else CHR ''_'') (cut_camel key)))"

definition sensitive_tokens :: "string list" where
  "sensitive_tokens =
     [''auth'', ''authorization'', ''cookie'', ''credential'', ''credentials'', ''csrf'', ''env'',
      ''environment'', ''idempotency'', ''passwd'', ''password'', ''secret'', ''session'', ''token'']"

definition sensitive_pairs :: "(string \<times> string) list" where
  "sensitive_pairs = [(''api'', ''key''), (''auth'', ''json''), (''private'', ''key'')]"

definition key_is_sensitive :: "string \<Rightarrow> bool" where
  "key_is_sensitive key =
     (let parts = key_parts key
      in list_ex (\<lambda>p. p \<in> set sensitive_tokens) parts \<or>
         list_ex (\<lambda>p. p \<in> set sensitive_pairs) (zip parts (tl parts)))"

definition event_string_ok :: "(string \<Rightarrow> bool) \<Rightarrow> string \<Rightarrow> bool" where
  "event_string_ok secret s \<longleftrightarrow>
     py_len s \<le> 4096 \<and>
     \<not> list_ex (\<lambda>c. is_control c \<and> of_char c \<notin> {9, 10, 13 :: nat}) s \<and> \<not> secret s"

definition event_key_ok :: "string \<Rightarrow> bool" where
  "event_key_ok key \<longleftrightarrow> text_ok 128 key \<and> \<not> key_is_sensitive key"

text \<open>\<^verbatim>\<open>visit(value, depth)\<close>: \<open>nodes\<close> is the counter shared by the calls.\<close>

fun visit :: "(string \<Rightarrow> bool) \<Rightarrow> nat \<Rightarrow> json \<Rightarrow> nat \<Rightarrow> journal_error + nat"
  and visit_items :: "(string \<Rightarrow> bool) \<Rightarrow> nat \<Rightarrow> json list \<Rightarrow> nat \<Rightarrow> journal_error + nat"
  and visit_members :: "(string \<Rightarrow> bool) \<Rightarrow> nat \<Rightarrow> (string \<times> json) list \<Rightarrow> nat \<Rightarrow> journal_error + nat"
where
  "visit secret depth value nodes =
     (let nodes = nodes + 1
      in if 512 < nodes \<or> 8 < depth then Inl RedactionFailed
         else
           case value of
             JNull \<Rightarrow> Inr nodes
           | JBool _ \<Rightarrow> Inr nodes
           | JInt _ \<Rightarrow> Inr nodes
           | JFloat (Finite _ _) \<Rightarrow> Inr nodes
           | JFloat _ \<Rightarrow> Inl RedactionFailed
           | JStr s \<Rightarrow> if event_string_ok secret s then Inr nodes else Inl RedactionFailed
           | JArr xs \<Rightarrow> visit_items secret (depth + 1) xs nodes
           | JObj ms \<Rightarrow> visit_members secret (depth + 1) ms nodes)"
| "visit_items secret depth [] nodes = Inr nodes"
| "visit_items secret depth (x # xs) nodes =
     rbind (visit secret depth x nodes) (\<lambda>nodes. visit_items secret depth xs nodes)"
| "visit_members secret depth [] nodes = Inr nodes"
| "visit_members secret depth ((key, x) # ms) nodes =
     (if \<not> event_key_ok key then Inl RedactionFailed
      else rbind (visit secret depth x nodes) (\<lambda>nodes. visit_members secret depth ms nodes))"

definition validate_data ::
  "(string \<Rightarrow> bool) \<Rightarrow> ((string \<times> json) list \<Rightarrow> string) \<Rightarrow> json \<Rightarrow> journal_error + string" where
  "validate_data secret dumps data =
     (case data of
        JObj ms \<Rightarrow>
          rbind (visit secret 0 data 0) (\<lambda>_.
            if 16384 < length (dumps ms) then Inl RedactionFailed else Inr (dumps ms))
      | _ \<Rightarrow> Inl RedactionFailed)"

section \<open>The table\<close>

record journal_row =
  j_sequence :: nat
  j_event_id :: string
  j_schema :: int
  j_type :: string
  j_occurred :: string
  j_actor_type :: string
  j_actor :: string
  j_aggregate_type :: string
  j_aggregate :: string
  j_revision :: nat
  j_project :: "string option"
  j_objective :: "string option"
  j_correlation :: string
  j_causation :: "string option"
  j_data :: string

type_synonym journal = "journal_row list"

text \<open>\<^verbatim>\<open>substr(s, i, n)\<close> of SQL counts from 1.\<close>

definition substr :: "string \<Rightarrow> nat \<Rightarrow> nat \<Rightarrow> string" where
  "substr s i n = take n (drop (i - 1) s)"

definition type_column_ok :: "string \<Rightarrow> bool" where
  "type_column_ok s \<longleftrightarrow>
     3 \<le> length s \<and> length s \<le> 128 \<and> map to_lower s = s \<and> is_lower (hd s) \<and>
     (is_lower (last s) \<or> is_digit (last s) \<or> last s = CHR ''_'') \<and>
     CHR ''.'' \<in> set s \<and> hd s \<noteq> CHR ''.'' \<and>
     successively (\<lambda>a b. \<not> (a = CHR ''.'' \<and> b = CHR ''.'')) s \<and>
     list_all (\<lambda>c. is_lower c \<or> is_digit c \<or> c = CHR ''_'' \<or> c = CHR ''.'') s"

definition timestamp_guard :: "string \<Rightarrow> bool" where
  "timestamp_guard s \<longleftrightarrow>
     20 \<le> length s \<and> length s \<le> 27 \<and>
     substr s 5 1 = ''-'' \<and> substr s 8 1 = ''-'' \<and> substr s 11 1 = ''T'' \<and> substr s 14 1 = '':'' \<and>
     substr s 17 1 = '':'' \<and> last s = CHR ''Z'' \<and>
     list_all is_digit (substr s 1 4) \<and> list_all is_digit (substr s 6 2) \<and>
     list_all is_digit (substr s 9 2) \<and> list_all is_digit (substr s 12 2) \<and>
     list_all is_digit (substr s 15 2) \<and> list_all is_digit (substr s 18 2) \<and>
     (20 < length s \<longrightarrow> substr s 20 1 = ''.'' \<and> 22 \<le> length s \<and>
        list_all is_digit (substr s 21 (length s - 21))) \<and>
     1 \<le> dec_val (substr s 1 4) \<and> 1 \<le> dec_val (substr s 6 2) \<and> dec_val (substr s 6 2) \<le> 12 \<and>
     1 \<le> dec_val (substr s 9 2) \<and> dec_val (substr s 12 2) \<le> 23 \<and> dec_val (substr s 15 2) \<le> 59 \<and>
     dec_val (substr s 18 2) \<le> 59 \<and>
     dec_val (substr s 9 2) \<le>
       (case dec_val (substr s 6 2) of
          m \<Rightarrow> if m = 2 then 28 + (if dec_val (substr s 1 4) mod 400 = 0 \<or>
                                  dec_val (substr s 1 4) mod 4 = 0 \<and> dec_val (substr s 1 4) mod 100 \<noteq> 0
                                then 1 else 0)
              else if m \<in> {1, 3, 5, 7, 8, 10, 12} then 31
              else if m \<in> {4, 6, 9, 11} then 30 else 0)"

definition option_text :: "string option \<Rightarrow> bool" where
  "option_text v \<longleftrightarrow> (case v of None \<Rightarrow> True | Some s \<Rightarrow> 1 \<le> py_len s \<and> py_len s \<le> 200)"

text \<open>The CHECK and UNIQUE constraints and the insert triggers of the table.\<close>

definition row_accepted :: "journal_row \<Rightarrow> journal \<Rightarrow> bool" where
  "row_accepted r j \<longleftrightarrow>
     j_sequence r \<notin> j_sequence ` set j \<and> j_event_id r \<notin> j_event_id ` set j \<and>
     (j_aggregate_type r, j_aggregate r, j_revision r) \<notin>
       (\<lambda>u. (j_aggregate_type u, j_aggregate u, j_revision u)) ` set j \<and>
     event_id_ok (j_event_id r) \<and> j_schema r = 1 \<and> type_column_ok (j_type r) \<and>
     timestamp_guard (j_occurred r) \<and>
     j_actor_type r \<in> set actor_types \<and> 1 \<le> py_len (j_actor r) \<and> py_len (j_actor r) \<le> 200 \<and>
     j_aggregate_type r \<in> set aggregate_types \<and> 1 \<le> py_len (j_aggregate r) \<and>
     py_len (j_aggregate r) \<le> 200 \<and> 1 \<le> j_revision r \<and>
     option_text (j_project r) \<and> option_text (j_objective r) \<and> correlation_id_ok (j_correlation r) \<and>
     option_text (j_causation r) \<and> py_len (j_data r) \<le> 16384"

definition next_sequence :: "journal \<Rightarrow> nat" where
  "next_sequence j = Suc (foldr max (map j_sequence j) 0)"

definition next_revision :: "string \<Rightarrow> string \<Rightarrow> journal \<Rightarrow> nat" where
  "next_revision ty agg j =
     Suc (foldr max (map j_revision (filter (\<lambda>r. j_aggregate_type r = ty \<and> j_aggregate r = agg) j)) 0)"

section \<open>Emission\<close>

text \<open>The arguments of \<^verbatim>\<open>emit\<close>; \<open>fresh\<close> is the hexadecimal \<^verbatim>\<open>uuid4\<close>, \<open>now\<close> is \<^verbatim>\<open>utc_now()\<close>.\<close>

record event_input =
  i_type :: string
  i_actor_type :: string
  i_actor :: string
  i_aggregate_type :: string
  i_aggregate :: string
  i_correlation :: string
  i_data :: "(string \<times> json) list"
  i_causation :: "string option"
  i_project :: "string option"
  i_objective :: "string option"
  i_event_id :: "string option"
  i_occurred :: "string option"

record envelope =
  e_sequence :: nat
  e_event_id :: string
  e_type :: string
  e_occurred :: string
  e_actor_type :: string
  e_actor :: string
  e_aggregate_type :: string
  e_aggregate :: string
  e_revision :: nat
  e_correlation :: string
  e_causation :: "string option"
  e_project :: "string option"
  e_objective :: "string option"
  e_data :: "(string \<times> json) list"

definition py_or :: "string option \<Rightarrow> string \<Rightarrow> string" where
  "py_or v d = (case v of None \<Rightarrow> d | Some s \<Rightarrow> if s = [] then d else s)"

definition require :: "bool \<Rightarrow> 'e \<Rightarrow> 'e + unit" where
  "require ok e = (if ok then Inr () else Inl e)"

definition event_row :: "event_input \<Rightarrow> string \<Rightarrow> string \<Rightarrow> string \<Rightarrow> journal \<Rightarrow> journal_row" where
  "event_row i event_id occurred data j =
     \<lparr>j_sequence = next_sequence j, j_event_id = event_id, j_schema = 1, j_type = i_type i,
      j_occurred = occurred, j_actor_type = i_actor_type i, j_actor = i_actor i,
      j_aggregate_type = i_aggregate_type i, j_aggregate = i_aggregate i,
      j_revision = next_revision (i_aggregate_type i) (i_aggregate i) j,
      j_project = i_project i, j_objective = i_objective i, j_correlation = i_correlation i,
      j_causation = i_causation i, j_data = data\<rparr>"

definition event_envelope :: "journal_row \<Rightarrow> (string \<times> json) list \<Rightarrow> envelope" where
  "event_envelope r data =
     \<lparr>e_sequence = j_sequence r, e_event_id = j_event_id r, e_type = j_type r, e_occurred = j_occurred r,
      e_actor_type = j_actor_type r, e_actor = j_actor r, e_aggregate_type = j_aggregate_type r,
      e_aggregate = j_aggregate r, e_revision = j_revision r, e_correlation = j_correlation r,
      e_causation = j_causation r, e_project = j_project r, e_objective = j_objective r, e_data = data\<rparr>"

definition insert_row :: "journal_row \<Rightarrow> journal \<Rightarrow> journal_error + journal" where
  "insert_row r j = (if row_accepted r j then Inr (j @ [r]) else Inl Unavailable)"

definition emit ::
  "(string \<Rightarrow> bool) \<Rightarrow> ((string \<times> json) list \<Rightarrow> string) \<Rightarrow> string \<Rightarrow> string \<Rightarrow> bool \<Rightarrow> event_input \<Rightarrow> journal \<Rightarrow>
     journal_error + (envelope \<times> journal)" where
  "emit secret dumps now fresh in_transaction i j =
     rbind (require in_transaction TransactionRequired) (\<lambda>_.
     rbind (require (event_type_ok (i_type i)) InputInvalid) (\<lambda>_.
     rbind (require (i_actor_type i \<in> set actor_types \<and> i_aggregate_type i \<in> set aggregate_types)
              InputInvalid) (\<lambda>_.
     rbind (validate_text (Some (i_actor i)) True) (\<lambda>_.
     rbind (validate_text (Some (i_aggregate i)) True) (\<lambda>_.
     rbind (validate_text (i_project i) False) (\<lambda>_.
     rbind (validate_text (i_objective i) False) (\<lambda>_.
     rbind (validate_text (i_causation i) False) (\<lambda>_.
     rbind (require (correlation_id_ok (i_correlation i)) InputInvalid) (\<lambda>_.
     let event_id = py_or (i_event_id i) (''evt_'' @ fresh)
     in rbind (require (event_id_ok event_id) InputInvalid) (\<lambda>_.
        rbind (validate_timestamp (py_or (i_occurred i) now)) (\<lambda>occurred.
        rbind (validate_data secret dumps (JObj (i_data i))) (\<lambda>data.
        let r = event_row i event_id occurred data j
        in rbind (insert_row r j) (\<lambda>j'. Inr (event_envelope r (i_data i), j'))))))))))))))"

section \<open>Reading\<close>

definition row_to_envelope ::
  "(string \<Rightarrow> bool) \<Rightarrow> ((string \<times> json) list \<Rightarrow> string) \<Rightarrow> (string \<Rightarrow> json option) \<Rightarrow> journal_row \<Rightarrow>
     journal_error + envelope" where
  "row_to_envelope secret dumps loads r =
     (case loads (j_data r) of
        Some (JObj data) \<Rightarrow>
          (case (validate_data secret dumps (JObj data), validate_timestamp (j_occurred r),
                 validate_text (Some (j_actor r)) True, validate_text (Some (j_aggregate r)) True,
                 validate_text (j_causation r) False, validate_text (j_project r) False,
                 validate_text (j_objective r) False) of
             (Inr encoded, Inr _, Inr _, Inr _, Inr _, Inr _, Inr _) \<Rightarrow>
               if j_schema r = 1 \<and> 1 \<le> j_sequence r \<and> event_id_ok (j_event_id r) \<and>
                  event_type_ok (j_type r) \<and> j_actor_type r \<in> set actor_types \<and>
                  j_aggregate_type r \<in> set aggregate_types \<and> 1 \<le> j_revision r \<and>
                  correlation_id_ok (j_correlation r) \<and> encoded = j_data r
               then Inr (event_envelope r data) else Inl Corrupt
           | _ \<Rightarrow> Inl Corrupt)
      | _ \<Rightarrow> Inl Corrupt)"

text \<open>\<^verbatim>\<open>ORDER BY sequence LIMIT ?\<close>.\<close>

definition select_after ::
  "int \<Rightarrow> nat \<Rightarrow> string option \<Rightarrow> string list \<Rightarrow> journal \<Rightarrow> journal_row list" where
  "select_after after n project types j =
     take n (sort_key j_sequence
       (filter (\<lambda>r. after < int (j_sequence r) \<and> (project \<noteq> None \<longrightarrow> j_project r = project) \<and>
                   (types \<noteq> [] \<longrightarrow> j_type r \<in> set types)) j))"

definition read_after ::
  "(string \<Rightarrow> bool) \<Rightarrow> ((string \<times> json) list \<Rightarrow> string) \<Rightarrow> (string \<Rightarrow> json option) \<Rightarrow> int \<Rightarrow> int \<Rightarrow>
     string option \<Rightarrow> string list option \<Rightarrow> journal \<Rightarrow> journal_error + envelope list" where
  "read_after secret dumps loads after limit project types j =
     (if after < 0 then Inl InvalidSequence
      else if \<not> (1 \<le> limit \<and> limit \<le> 500) then Inl InvalidLimit
      else
        rbind (validate_text project False) (\<lambda>project.
        rbind (case types of
                 None \<Rightarrow> Inr []
               | Some ts \<Rightarrow>
                   if 1 \<le> length ts \<and> length ts \<le> 32 \<and> distinct ts \<and> list_all event_type_ok ts
                   then Inr ts else Inl InvalidTypes) (\<lambda>types.
        rmap (row_to_envelope secret dumps loads) (select_after after (nat limit) project types j))))"

definition bounds :: "journal \<Rightarrow> nat option \<times> nat" where
  "bounds j =
     (case map j_sequence j of
        [] \<Rightarrow> (None, 0)
      | n # ns \<Rightarrow> (Some (foldr min ns n), foldr max ns n))"

section \<open>What the checks give the table\<close>

definition type_char :: "char \<Rightarrow> bool" where
  "type_char c \<longleftrightarrow> is_lower c \<or> is_digit c \<or> c = CHR ''_''"

lemma class_simps [simp]:
  "\<not> is_lower CHR ''.''" "\<not> is_digit CHR ''.''" "\<not> type_char CHR ''.''"
  "is_lower c \<Longrightarrow> type_char c"
  by (simp_all add: is_lower_def char_between_def is_digit_def type_char_def)

lemma to_lower_type_char: "type_char c \<or> c = CHR ''.'' \<Longrightarrow> to_lower c = c"
  by (auto simp: type_char_def to_lower_def is_upper_def is_lower_def char_between_def is_digit_def)

lemma type_part_ok_iff: "type_part_ok s \<longleftrightarrow> s \<noteq> [] \<and> is_lower (hd s) \<and> list_all type_char s"
proof -
  have "(\<lambda>c. is_lower c \<or> is_digit c \<or> c = CHR ''_'') = type_char"
    by (rule ext) (simp add: type_char_def)
  then show ?thesis by (cases s) (auto simp: type_part_ok_def)
qed

lemma successively_plain: "list_all type_char s \<Longrightarrow> successively (\<lambda>a b. \<not> (a = CHR ''.'' \<and> b = CHR ''.'')) s"
  by (induction s rule: induct_list012) auto

lemma typed_text:
  assumes "list_all type_part_ok (split_on CHR ''.'' s)"
  shows "s \<noteq> [] \<and> is_lower (hd s) \<and> type_char (last s) \<and> list_all (\<lambda>c. type_char c \<or> c = CHR ''.'') s \<and>
    successively (\<lambda>a b. \<not> (a = CHR ''.'' \<and> b = CHR ''.'')) s"
  using assms
proof (induction "length s" arbitrary: s rule: less_induct)
  case less
  obtain w ws where w: "split_on CHR ''.'' s = w # ws" by (cases "split_on CHR ''.'' s") auto
  note parts = split_on_parts [OF w]
  have wok: "w \<noteq> []" "is_lower (hd w)" "list_all type_char w"
    using less.prems by (auto simp: w type_part_ok_iff)
  have wl: "type_char (last w)" using wok(1,3) by (auto simp: list_all_iff)
  show ?case
  proof (cases "ws = []")
    case True
    then show ?thesis using parts wok wl successively_plain by (auto simp: list_all_iff)
  next
    case False
    then obtain s' where s': "s = w @ CHR ''.'' # s'" "split_on CHR ''.'' s' = ws" using parts by auto
    have IH: "s' \<noteq> [] \<and> is_lower (hd s') \<and> type_char (last s') \<and> list_all (\<lambda>c. type_char c \<or> c = CHR ''.'') s' \<and>
        successively (\<lambda>a b. \<not> (a = CHR ''.'' \<and> b = CHR ''.'')) s'"
      by (rule less.hyps) (use less.prems s' w in auto)
    have "last w \<noteq> CHR ''.''" "hd s' \<noteq> CHR ''.''" using wl IH by auto
    moreover have "list_all (\<lambda>c. type_char c \<or> c = CHR ''.'') w" using wok(3) by (auto simp: list_all_iff)
    ultimately show ?thesis
      using IH wok successively_plain [OF wok(3)]
      by (simp add: s'(1) successively_append_iff successively_Cons)
  qed
qed

lemma event_type_column:
  assumes "event_type_ok s" "length s \<le> 128"
  shows "type_column_ok s"
proof -
  have two: "2 \<le> length (split_on CHR ''.'' s)" and all: "list_all type_part_ok (split_on CHR ''.'' s)"
    using assms(1) by (auto simp: event_type_ok_def Let_def)
  obtain w v vs where w: "split_on CHR ''.'' s = w # v # vs"
    using two by (metis One_nat_def Suc_1 Suc_le_length_iff)
  then obtain s' where s': "s = w @ CHR ''.'' # s'" "split_on CHR ''.'' s' = v # vs"
    using split_on_parts [OF w] by auto
  have "w \<noteq> []" "s' \<noteq> []" using all typed_text [of s'] w s'(2) by (auto simp: type_part_ok_iff)
  then have "3 \<le> length s" "CHR ''.'' \<in> set s" by (cases w; cases s'; simp add: s'(1))+
  moreover note t = typed_text [OF all]
  moreover have "map to_lower s = s"
    using t by (intro map_idI) (auto simp: list_all_iff to_lower_type_char)
  moreover have "hd s \<noteq> CHR ''.''" using t by auto
  ultimately show ?thesis using assms(2) by (simp add: type_column_ok_def type_char_def)
qed

lemma take_nth_1: "i < length s \<Longrightarrow> take 1 (drop i s) = [s ! i]"
  by (simp add: take_Suc_conv_app_nth [of 0, simplified])

text \<open>A timestamp the code accepts is never refused by the trigger.\<close>

lemma month_days: "1 \<le> m \<Longrightarrow> m \<le> 12 \<Longrightarrow> days_in_month y m =
    (if m = 2 then 28 + (if y mod 400 = 0 \<or> y mod 4 = 0 \<and> y mod 100 \<noteq> 0 then 1 else 0)
     else if m \<in> {1, 3, 5, 7, 8, 10, 12} then 31 else if m \<in> {4, 6, 9, 11} then 30 else 0)"
proof -
  assume "1 \<le> m" "m \<le> 12"
  then have "m \<in> {1, 2, 3, 4, 5, 6, 7, 8, 9, 10, 11, 12}" by simp presburger
  then show ?thesis by (auto simp: days_in_month_def leap_def)
qed

lemma timestamp_guard_ok:
  assumes "timestamp_shape s" "calendar_ok s"
  shows "timestamp_guard s"
proof -
  note shape = assms(1) [unfolded timestamp_shape_def digits_def]
  note cal = assms(2) [unfolded calendar_ok_def field_def]
  have len: "20 \<le> length s" "length s \<le> 27" using shape by auto
  have at: "substr s (Suc i) 1 = [s ! i]" if "i < length s" for i
    using that take_nth_1 [of i s] by (simp add: substr_def)
  have chars: "substr s 5 1 = ''-''" "substr s 8 1 = ''-''" "substr s 11 1 = ''T''"
    "substr s 14 1 = '':''" "substr s 17 1 = '':''"
    using shape len at [of 4] at [of 7] at [of 10] at [of 13] at [of 16] by auto
  have sub: "substr s 1 4 = take 4 (drop 0 s)" "substr s 6 2 = take 2 (drop 5 s)"
    "substr s 9 2 = take 2 (drop 8 s)" "substr s 12 2 = take 2 (drop 11 s)"
    "substr s 15 2 = take 2 (drop 14 s)" "substr s 18 2 = take 2 (drop 17 s)"
    by (simp_all add: substr_def)
  have fraction: "20 < length s \<longrightarrow> substr s 20 1 = ''.'' \<and> 22 \<le> length s \<and>
      list_all is_digit (substr s 21 (length s - 21))"
    using shape at [of 19] by (auto simp: substr_def)
  have m: "1 \<le> dec_val (take 2 (drop 5 s))" "dec_val (take 2 (drop 5 s)) \<le> 12" using cal by blast+
  show ?thesis
    unfolding timestamp_guard_def sub Let_def month_days [OF m, symmetric]
    using shape cal len chars fraction by blast
qed

section \<open>The numbering of the journal\<close>

definition of_aggregate :: "string \<Rightarrow> string \<Rightarrow> journal \<Rightarrow> journal" where
  "of_aggregate ty agg j = filter (\<lambda>r. j_aggregate_type r = ty \<and> j_aggregate r = agg) j"

text \<open>The numbers 1, ..., \<open>n\<close>.\<close>

definition count_up :: "nat \<Rightarrow> nat list" where
  "count_up n = [1..<n + 1]"

definition journal_ok :: "journal \<Rightarrow> bool" where
  "journal_ok j \<longleftrightarrow>
     map j_sequence j = count_up (length j) \<and> distinct (map j_event_id j) \<and>
     (\<forall>ty agg. map j_revision (of_aggregate ty agg j) = count_up (length (of_aggregate ty agg j)))"

lemma count_up_simps [simp]:
  "count_up 0 = []" "count_up (Suc n) = count_up n @ [Suc n]" "length (count_up n) = n"
  by (simp_all add: count_up_def)

lemma set_count_up [simp]: "set (count_up n) = {1..n}"
  by (auto simp: count_up_def)

lemma foldr_max_start: "foldr max xs n = max (foldr max xs 0) (n :: nat)"
  by (induction xs) (auto simp: max.assoc)

lemma foldr_max_count_up [simp]: "foldr max (count_up n) 0 = n"
  by (induction n) (simp_all add: foldr_max_start [of _ "Suc _"])

lemma next_sequence_ok: "journal_ok j \<Longrightarrow> next_sequence j = Suc (length j)"
  by (simp add: journal_ok_def next_sequence_def)

lemma next_revision_ok: "journal_ok j \<Longrightarrow> next_revision ty agg j = Suc (length (of_aggregate ty agg j))"
  by (simp add: journal_ok_def next_revision_def of_aggregate_def)

lemma require_Inr [simp]: "require b e = Inr u \<longleftrightarrow> b"
  by (simp add: require_def)

lemma validate_text_Inr [simp]:
  "validate_text v b = Inr w \<longleftrightarrow> w = v \<and> (case v of None \<Rightarrow> \<not> b | Some s \<Rightarrow> text_ok 200 s)"
  by (cases v) (auto simp: validate_text_def)

lemma validate_timestamp_Inr [simp]:
  "validate_timestamp s = Inr t \<longleftrightarrow> t = s \<and> timestamp_shape s \<and> calendar_ok s"
  by (auto simp: validate_timestamp_def)

lemma validate_data_Inr [simp]:
  "validate_data secret dumps (JObj ms) = Inr d \<longleftrightarrow>
     d = dumps ms \<and> (\<exists>n. visit secret 0 (JObj ms) 0 = Inr n) \<and> length (dumps ms) \<le> 16384"
  unfolding validate_data_def json.case rbind_Inr_iff by auto

text \<open>The checks of an event before the table is touched.\<close>

definition event_ok ::
  "(string \<Rightarrow> bool) \<Rightarrow> ((string \<times> json) list \<Rightarrow> string) \<Rightarrow> string \<Rightarrow> string \<Rightarrow> event_input \<Rightarrow> bool" where
  "event_ok secret dumps now fresh i \<longleftrightarrow>
     event_type_ok (i_type i) \<and> i_actor_type i \<in> set actor_types \<and>
     i_aggregate_type i \<in> set aggregate_types \<and> text_ok 200 (i_actor i) \<and> text_ok 200 (i_aggregate i) \<and>
     pred_option (text_ok 200) (i_project i) \<and> pred_option (text_ok 200) (i_objective i) \<and>
     pred_option (text_ok 200) (i_causation i) \<and> correlation_id_ok (i_correlation i) \<and>
     event_id_ok (py_or (i_event_id i) (''evt_'' @ fresh)) \<and>
     timestamp_shape (py_or (i_occurred i) now) \<and> calendar_ok (py_or (i_occurred i) now) \<and>
     (\<exists>n. visit secret 0 (JObj (i_data i)) 0 = Inr n) \<and> length (dumps (i_data i)) \<le> 16384"

definition new_row ::
  "((string \<times> json) list \<Rightarrow> string) \<Rightarrow> string \<Rightarrow> string \<Rightarrow> event_input \<Rightarrow> journal \<Rightarrow> journal_row" where
  "new_row dumps now fresh i j =
     event_row i (py_or (i_event_id i) (''evt_'' @ fresh)) (py_or (i_occurred i) now) (dumps (i_data i)) j"

lemma emit_Inr_iff:
  "emit secret dumps now fresh tx i j = Inr (e, j') \<longleftrightarrow>
     tx \<and> event_ok secret dumps now fresh i \<and> row_accepted (new_row dumps now fresh i j) j \<and>
     j' = j @ [new_row dumps now fresh i j] \<and> e = event_envelope (new_row dumps now fresh i j) (i_data i)"
  unfolding emit_def Let_def rbind_Inr_iff event_ok_def new_row_def insert_row_def
  by (auto simp: option.pred_set split: option.splits if_split_asm simp del: visit.simps)

lemma event_row_fields [simp]:
  "j_sequence (new_row dumps now fresh i j) = next_sequence j"
  "j_event_id (new_row dumps now fresh i j) = py_or (i_event_id i) (''evt_'' @ fresh)"
  "j_aggregate_type (new_row dumps now fresh i j) = i_aggregate_type i"
  "j_aggregate (new_row dumps now fresh i j) = i_aggregate i"
  "j_revision (new_row dumps now fresh i j) = next_revision (i_aggregate_type i) (i_aggregate i) j"
  "j_type (new_row dumps now fresh i j) = i_type i"
  "j_data (new_row dumps now fresh i j) = dumps (i_data i)"
  by (simp_all add: new_row_def event_row_def)

inductive journal_step ::
  "(string \<Rightarrow> bool) \<Rightarrow> ((string \<times> json) list \<Rightarrow> string) \<Rightarrow> journal \<Rightarrow> journal \<Rightarrow> bool"
  for secret dumps where
  emitted: "emit secret dumps now fresh tx i j = Inr (e, j') \<Longrightarrow> journal_step secret dumps j j'"

inductive_cases journal_stepE: "journal_step secret dumps j j'"

lemma journal_step_ok:
  assumes "journal_ok j" "journal_step secret dumps j j'"
  shows "journal_ok j'"
proof -
  obtain r ty agg where r: "j' = j @ [r]" "row_accepted r j" "j_sequence r = next_sequence j"
    "j_aggregate_type r = ty" "j_aggregate r = agg" "j_revision r = next_revision ty agg j"
    using assms(2) by cases (auto simp: emit_Inr_iff)
  have "distinct (map j_event_id (j @ [r]))"
    using assms(1) r(2) by (auto simp: journal_ok_def row_accepted_def)
  moreover have "map j_sequence (j @ [r]) = count_up (length (j @ [r]))"
    using assms(1) next_sequence_ok [OF assms(1)] r(3) by (simp add: journal_ok_def)
  moreover have "map j_revision (of_aggregate ty' agg' (j @ [r])) =
      count_up (length (of_aggregate ty' agg' (j @ [r])))" for ty' agg'
    using assms(1) next_revision_ok [OF assms(1), of ty agg] r(4-6)
    by (auto simp: journal_ok_def of_aggregate_def)
  ultimately show ?thesis unfolding r(1) journal_ok_def by blast
qed

lemma journal_ok_Nil: "j = [] \<Longrightarrow> journal_ok j"
  by (simp add: journal_ok_def of_aggregate_def)

interpretation event_journal: invariant_system "\<lambda>j. j = []" "journal_step secret dumps" journal_ok
  for secret dumps
  by unfold_locales (auto intro: journal_step_ok journal_ok_Nil)

lemma journal_grows: "(journal_step secret dumps)\<^sup>*\<^sup>* j j' \<Longrightarrow> prefix j j'"
proof (induction rule: rtranclp_induct)
  case (step j1 j2)
  from step(2) have "prefix j1 j2" by cases (auto simp: emit_Inr_iff)
  with step.IH show ?case by (rule prefix_order.trans)
qed simp

text \<open>
  C14: the journal is numbered without gaps and only grows: whatever events are emitted from the empty
  table, its sequences are 1, 2, ... in order, the revisions of each aggregate are 1, 2, ... in
  order, no event id occurs twice, and a later journal extends an earlier one.
\<close>

theorem journal_numbering:
  assumes "(journal_step secret dumps)\<^sup>*\<^sup>* [] j" "(journal_step secret dumps)\<^sup>*\<^sup>* j j'"
  shows "map j_sequence j = count_up (length j) \<and> distinct (map j_event_id j) \<and>
    map j_revision (of_aggregate ty agg j) = count_up (length (of_aggregate ty agg j)) \<and> prefix j j'"
  using event_journal.reachable_inv [OF refl assms(1)] journal_grows [OF assms(2)]
  unfolding journal_ok_def by blast

section \<open>When an event is accepted\<close>

lemma text_ok_bounds: "text_ok n s \<Longrightarrow> Suc 0 \<le> py_len s \<and> py_len s \<le> n"
  by (auto simp: text_ok_def)

lemma row_accepted_ok:
  assumes "journal_ok j" "event_ok secret dumps now fresh i"
  shows "row_accepted (new_row dumps now fresh i j) j \<longleftrightarrow>
    length (i_type i) \<le> 128 \<and> py_or (i_event_id i) (''evt_'' @ fresh) \<notin> j_event_id ` set j"
proof -
  note ok = assms(2) [unfolded event_ok_def]
  have seq: "next_sequence j \<notin> j_sequence ` set j"
  proof -
    have "set (map j_sequence j) = set (count_up (length j))"
      using assms(1) unfolding journal_ok_def by metis
    then show ?thesis by (simp add: next_sequence_ok [OF assms(1)])
  qed
  have rev: "(i_aggregate_type i, i_aggregate i, next_revision (i_aggregate_type i) (i_aggregate i) j) \<notin>
      (\<lambda>u. (j_aggregate_type u, j_aggregate u, j_revision u)) ` set j"
  proof
    let ?a = "of_aggregate (i_aggregate_type i) (i_aggregate i) j"
    assume "(i_aggregate_type i, i_aggregate i, next_revision (i_aggregate_type i) (i_aggregate i) j) \<in>
      (\<lambda>u. (j_aggregate_type u, j_aggregate u, j_revision u)) ` set j"
    then have "Suc (length ?a) \<in> set (map j_revision ?a)"
      by (auto simp: next_revision_ok [OF assms(1)] of_aggregate_def)
    also have "map j_revision ?a = count_up (length ?a)" using assms(1) by (simp add: journal_ok_def)
    finally show False by simp
  qed
  have "py_len (dumps (i_data i)) \<le> 16384"
    using ok py_len_le_bytes [of "dumps (i_data i)"] by linarith
  moreover have "type_column_ok (i_type i) \<longleftrightarrow> length (i_type i) \<le> 128"
    using ok event_type_column [of "i_type i"] by (auto simp: type_column_ok_def)
  moreover have "option_text (i_project i)" "option_text (i_objective i)" "option_text (i_causation i)"
    using ok by (auto simp: option_text_def text_ok_bounds option.pred_set split: option.split)
  moreover have "timestamp_guard (py_or (i_occurred i) now)"
    using ok timestamp_guard_ok by blast
  ultimately show ?thesis
    using ok seq rev text_ok_bounds [of 200 "i_actor i"] text_ok_bounds [of 200 "i_aggregate i"]
    unfolding row_accepted_def new_row_def event_row_def
    by (auto simp: next_revision_def)
qed

lemma visit_error:
  "visit secret depth v n = Inl e \<Longrightarrow> e = RedactionFailed"
  "visit_items secret depth vs n = Inl e \<Longrightarrow> e = RedactionFailed"
  "visit_members secret depth ms n = Inl e \<Longrightarrow> e = RedactionFailed"
  by (induction secret depth v n and secret depth vs n and secret depth ms n
      rule: visit_visit_items_visit_members.induct)
    (auto simp: Let_def rbind_Inl_iff split: if_split_asm json.split_asm pyfloat.split_asm)

lemma validate_data_error: "validate_data secret dumps v = Inl e \<Longrightarrow> e = RedactionFailed"
  by (cases v) (auto simp: validate_data_def rbind_Inl_iff simp del: visit.simps dest: visit_error
      split: if_split_asm)

text \<open>
  C32: \<^verbatim>\<open>emit\<close> succeeds exactly when it is called in a transaction, its arguments pass the checks,
  the event type has at most 128 characters and the event id is new; the table refuses nothing else,
  so \<^verbatim>\<open>event_journal_unavailable\<close> is only reported for arguments that pass the checks.
\<close>

theorem emit_accepts_iff:
  assumes "(journal_step secret dumps)\<^sup>*\<^sup>* [] j"
  shows "((\<exists>e j'. emit secret dumps now fresh tx i j = Inr (e, j')) \<longleftrightarrow>
      tx \<and> event_ok secret dumps now fresh i \<and> length (i_type i) \<le> 128 \<and>
      py_or (i_event_id i) (''evt_'' @ fresh) \<notin> j_event_id ` set j) \<and>
    (emit secret dumps now fresh tx i j = Inl Unavailable \<longrightarrow> event_ok secret dumps now fresh i)"
proof -
  have ok: "journal_ok j" by (rule event_journal.reachable_inv [OF refl assms])
  have "event_ok secret dumps now fresh i" if "emit secret dumps now fresh tx i j = Inl Unavailable"
    using that unfolding emit_def Let_def event_ok_def
    by (auto dest!: validate_data_error simp: rbind_Inl_iff require_def validate_text_def validate_timestamp_def option.pred_set
        simp del: visit.simps split: option.splits if_split_asm)
  then show ?thesis using row_accepted_ok [OF ok] by (auto simp: emit_Inr_iff)
qed

section \<open>Reading back\<close>

text \<open>
  C33: what was emitted is read back: if \<^verbatim>\<open>json.loads\<close> inverts \<^verbatim>\<open>json.dumps\<close> on the data of
  the event, the row \<^verbatim>\<open>emit\<close> inserted is the last of the journal and projects to the envelope
  \<^verbatim>\<open>emit\<close> returned.
\<close>

theorem emit_read_roundtrip:
  assumes "emit secret dumps now fresh tx i j = Inr (e, j')"
    and "loads (dumps (i_data i)) = Some (JObj (i_data i))"
  shows "\<exists>r. j' = j @ [r] \<and> row_to_envelope secret dumps loads r = Inr e"
proof -
  let ?r = "new_row dumps now fresh i j"
  have ok: "event_ok secret dumps now fresh i" "row_accepted ?r j" "j' = j @ [?r]"
    "e = event_envelope ?r (i_data i)"
    using assms(1) by (simp_all add: emit_Inr_iff)
  obtain n where n: "visit secret 0 (JObj (i_data i)) 0 = Inr n" "length (dumps (i_data i)) \<le> 16384"
    using ok(1) unfolding event_ok_def by blast
  have data: "validate_data secret dumps (JObj (i_data i)) = Inr (dumps (i_data i))"
    unfolding validate_data_Inr using n by blast
  have "row_to_envelope secret dumps loads ?r = Inr e"
    using ok(1,2) assms(2)
    by (simp add: row_to_envelope_def data ok(4) event_ok_def row_accepted_def new_row_def event_row_def
        next_sequence_def validate_text_def validate_timestamp_def option.pred_set split: option.split)
  then show ?thesis using ok(3) by blast
qed

section \<open>Pages\<close>

lemma row_to_envelope_Inr:
  assumes "row_to_envelope secret dumps loads r = Inr e"
  shows "\<exists>data. e = event_envelope r data"
  using assms unfolding row_to_envelope_def by (auto split: option.splits json.splits sum.splits if_split_asm)

lemma envelope_fields [simp]:
  "e_sequence (event_envelope r data) = j_sequence r"
  "e_aggregate_type (event_envelope r data) = j_aggregate_type r"
  by (simp_all add: event_envelope_def)

lemma select_numbered:
  assumes "map j_sequence j = count_up (length j)"
  shows "filter (\<lambda>r. after < j_sequence r) j = drop after j"
  using assms
proof (induction j rule: rev_induct)
  case (snoc r j)
  then show ?case by (cases "after \<le> length j") auto
qed simp

lemma sort_key_numbered:
  assumes "sorted (map f xs)"
  shows "sort_key f xs = xs"
  using assms by (simp add: sort_key_id_if_sorted)

lemma select_after_numbered:
  assumes "map j_sequence j = count_up (length j)"
  shows "select_after (int after) n None [] j = take n (drop after j)"
proof -
  have "sorted (count_up k)" for k by (induction k) (auto simp: sorted_append)
  then have "sorted (map j_sequence (drop after j))"
    by (simp add: drop_map [symmetric] assms sorted_wrt_drop)
  then show ?thesis
    using select_numbered [OF assms, of after] by (simp add: select_after_def sort_key_numbered)
qed

lemma read_after_page:
  assumes "map j_sequence j = count_up (length j)" "1 \<le> n" "n \<le> 500"
  shows "read_after secret dumps loads (int after) (int n) None None j =
    rmap (row_to_envelope secret dumps loads) (take n (drop after j))"
  using assms(2,3) by (simp add: read_after_def validate_text_def select_after_numbered [OF assms(1)])

lemma rmap_sequences:
  "rmap (row_to_envelope secret dumps loads) rows = Inr es \<Longrightarrow> map e_sequence es = map j_sequence rows"
proof (induction rows arbitrary: es)
  case (Cons r rows)
  then obtain e es' where "row_to_envelope secret dumps loads r = Inr e"
    "rmap (row_to_envelope secret dumps loads) rows = Inr es'" "es = e # es'"
    by (auto simp: rbind_Inr_iff)
  then show ?case using Cons.IH [of es'] row_to_envelope_Inr by fastforce
qed simp

lemma rmap_total: "(\<forall>x \<in> set xs. \<exists>y. f x = Inr y) \<Longrightarrow> \<exists>ys. rmap f xs = Inr ys"
proof (induction xs)
  case (Cons x xs)
  then obtain y ys where "f x = Inr y" "rmap f xs = Inr ys" by auto
  then show ?case by simp
qed simp

text \<open>
  C34: a page of the journal has no gap and no repetition: read after a sequence, with a legal limit,
  it holds the very next sequences in order, as many as there are up to the limit; and reading
  succeeds when the rows are readable.
\<close>

theorem journal_page:
  assumes "(journal_step secret dumps)\<^sup>*\<^sup>* [] j" "1 \<le> n" "n \<le> 500"
    and "\<forall>r \<in> set j. \<exists>e. row_to_envelope secret dumps loads r = Inr e"
  shows "\<exists>es. read_after secret dumps loads (int after) (int n) None None j = Inr es \<and>
    map e_sequence es = [after + 1..<min (after + n) (length j) + 1]"
proof -
  have num: "map j_sequence j = count_up (length j)"
    using event_journal.reachable_inv [OF refl assms(1)] unfolding journal_ok_def by blast
  have "\<forall>r \<in> set (take n (drop after j)). \<exists>e. row_to_envelope secret dumps loads r = Inr e"
    using assms(4) by (meson in_set_dropD in_set_takeD)
  then obtain es where es: "rmap (row_to_envelope secret dumps loads) (take n (drop after j)) = Inr es"
    using rmap_total by blast
  have "map e_sequence es = take n (drop after (count_up (length j)))"
    by (simp add: rmap_sequences [OF es] num [symmetric] take_map drop_map)
  also have "\<dots> = [after + 1..<min (after + n) (length j) + 1]"
    by (simp add: count_up_def take_upt drop_upt min_def del: upt_Suc)
  finally show ?thesis using es read_after_page [OF num assms(2,3)] by metis
qed

section \<open>A journal\<close>

definition sample_event :: "string \<Rightarrow> event_input" where
  "sample_event ty =
     \<lparr>i_type = ty, i_actor_type = ''system'', i_actor = ''orchestrator'', i_aggregate_type = ''task'',
      i_aggregate = ''t1'', i_correlation = ''corr_'' @ replicate 32 CHR ''a'', i_data = [],
      i_causation = None, i_project = Some ''demo'', i_objective = None, i_event_id = None,
      i_occurred = None\<rparr>"

definition sample_emit :: "string \<Rightarrow> char \<Rightarrow> journal \<Rightarrow> journal_error + (envelope \<times> journal)" where
  "sample_emit ty c j =
     emit (\<lambda>_. False) (\<lambda>_. ''{}'') ''2026-02-28T10:00:00.000Z'' (replicate 32 c) True (sample_event ty) j"

definition sample_journal1 :: journal where
  "sample_journal1 = (case sample_emit ''task.started'' CHR ''1'' [] of Inr (e, j) \<Rightarrow> j | Inl _ \<Rightarrow> [])"

definition sample_journal2 :: journal where
  "sample_journal2 = (case sample_emit ''task.completed'' CHR ''2'' sample_journal1 of Inr (e, j) \<Rightarrow> j | Inl _ \<Rightarrow> [])"

lemma sample_emitted:
  "\<exists>e. sample_emit ''task.started'' CHR ''1'' [] = Inr (e, sample_journal1)"
  "\<exists>e. sample_emit ''task.completed'' CHR ''2'' sample_journal1 = Inr (e, sample_journal2)"
proof -
  have "\<not> isl (sample_emit ''task.started'' CHR ''1'' [])"
    "\<not> isl (sample_emit ''task.completed'' CHR ''2'' sample_journal1)" by code_simp+
  then show "\<exists>e. sample_emit ''task.started'' CHR ''1'' [] = Inr (e, sample_journal1)"
    "\<exists>e. sample_emit ''task.completed'' CHR ''2'' sample_journal1 = Inr (e, sample_journal2)"
    by (auto simp: sample_journal1_def sample_journal2_def split: sum.split_asm sum.split)
qed

lemma sample_reachable:
  "(journal_step (\<lambda>_. False) (\<lambda>_. ''{}''))\<^sup>*\<^sup>* [] sample_journal1"
  "(journal_step (\<lambda>_. False) (\<lambda>_. ''{}''))\<^sup>*\<^sup>* sample_journal1 sample_journal2"
  using sample_emitted unfolding sample_emit_def by (blast intro: journal_step.emitted)+

lemma sample_length: "length sample_journal1 = 1" "length sample_journal2 = 2"
  by code_simp+

theorem journal_numbering_witness:
  "map j_sequence sample_journal2 = [1, 2] \<and>
   map j_revision (of_aggregate ''task'' ''t1'' sample_journal2) = [1, 2] \<and> prefix sample_journal2 sample_journal2"
proof -
  have "(journal_step (\<lambda>_. False) (\<lambda>_. ''{}''))\<^sup>*\<^sup>* [] sample_journal2"
    using sample_reachable by (rule rtranclp_trans)
  moreover have "length (of_aggregate ''task'' ''t1'' sample_journal2) = 2" by code_simp
  ultimately show ?thesis
    using journal_numbering [of _ _ sample_journal2 sample_journal2 "''task''" "''t1''"]
    by (simp add: sample_length numeral_2_eq_2)
qed

theorem emit_accepts_iff_witness:
  "\<not> (\<exists>e j'. emit (\<lambda>_. False) (\<lambda>_. ''{}'') ''2026-02-28T10:00:00.000Z'' (replicate 32 CHR ''1'') True
      (sample_event ''task.started'') sample_journal1 = Inr (e, j'))"
proof -
  have "py_or (i_event_id (sample_event ''task.started'')) (''evt_'' @ replicate 32 CHR ''1'')
      \<in> set (map j_event_id sample_journal1)" by code_simp
  then show ?thesis
    unfolding emit_accepts_iff [OF sample_reachable(1), THEN conjunct1] by simp
qed

lemma sample_readable:
  "\<forall>r \<in> set sample_journal2. \<exists>e. row_to_envelope (\<lambda>_. False) (\<lambda>_. ''{}'') (\<lambda>_. Some (JObj [])) r = Inr e"
proof -
  have "list_all (\<lambda>r. \<not> isl (row_to_envelope (\<lambda>_. False) (\<lambda>_. ''{}'') (\<lambda>_. Some (JObj [])) r)) sample_journal2"
    by code_simp
  then show ?thesis by (auto simp: list_all_iff) (metis sum.collapse(2))
qed

theorem journal_page_witness:
  "\<exists>es. read_after (\<lambda>_. False) (\<lambda>_. ''{}'') (\<lambda>_. Some (JObj [])) 1 100 None None sample_journal2 = Inr es \<and>
     map e_sequence es = [2]"
proof -
  have "(journal_step (\<lambda>_. False) (\<lambda>_. ''{}''))\<^sup>*\<^sup>* [] sample_journal2"
    using sample_reachable by (rule rtranclp_trans)
  from journal_page [OF this _ _ sample_readable, of 100 1]
  show ?thesis by (simp add: sample_length upt_rec numeral_2_eq_2)
qed

theorem emit_read_roundtrip_witness:
  "\<exists>r e. sample_journal2 = sample_journal1 @ [r] \<and>
     row_to_envelope (\<lambda>_. False) (\<lambda>_. ''{}'') (\<lambda>_. Some (JObj [])) r = Inr e"
proof -
  obtain e where "emit (\<lambda>_. False) (\<lambda>_. ''{}'') ''2026-02-28T10:00:00.000Z'' (replicate 32 CHR ''2'') True
      (sample_event ''task.completed'') sample_journal1 = Inr (e, sample_journal2)"
    using sample_emitted(2) unfolding sample_emit_def by blast
  from emit_read_roundtrip [OF this, of "\<lambda>_. Some (JObj [])"]
  show ?thesis by (auto simp: sample_event_def)
qed

end
