(* ===== verification/Event_Stream.thy ===== *)
theory Event_Stream
  imports WebSocket_Frames Event_Journal
begin

text \<open>
  The event stream of \<^verbatim>\<open>controller_api/websocket_transport.py\<close>: the handshake headers, the
  subscription message, the replay window and the loop of \<^verbatim>\<open>WebSocketSession.run\<close>. A session
  is the list of messages it sends. What it does not decide itself is an input: of each turn of the
  loop, whether the login is still valid, the journal each of its transactions sees, whether the
  heartbeat is due, and what the reader thread delivered. The socket accepts every message here; when
  it fails the code stops, having sent a prefix. \<open>loads\<close> is \<^verbatim>\<open>json.loads\<close> with the code's
  \<^verbatim>\<open>parse_constant\<close> hook, giving objects as lists of pairs with their repetitions.
\<close>

section \<open>Headers\<close>

definition header_has_token :: "string option \<Rightarrow> string \<Rightarrow> bool" where
  "header_has_token value token =
     (case value of
        None \<Rightarrow> False
      | Some v \<Rightarrow>
          list_ex (\<lambda>part. map to_lower (py_strip part) = map to_lower token) (split_on CHR '','' v))"

definition MAX_SEQUENCE :: int where "MAX_SEQUENCE = 9223372036854775807"

datatype header_error = InvalidLastEventSequence

definition parse_last_event_sequence :: "string option \<Rightarrow> header_error + int option" where
  "parse_last_event_sequence value =
     (case value of
        None \<Rightarrow> Inr None
      | Some v \<Rightarrow>
          if v = [] \<or> \<not> list_all is_digit v then Inl InvalidLastEventSequence
          else if MAX_SEQUENCE < int (dec_val v) then Inl InvalidLastEventSequence
          else Inr (Some (int (dec_val v))))"

section \<open>The subscription\<close>

fun pairs_unique :: "json \<Rightarrow> bool" where
  "pairs_unique (JArr xs) = list_all pairs_unique xs"
| "pairs_unique (JObj ms) = (distinct (map fst ms) \<and> list_all (\<lambda>(k, v). pairs_unique v) ms)"
| "pairs_unique _ = True"

fun json_children :: "json \<Rightarrow> json list" where
  "json_children (JArr xs) = xs"
| "json_children (JObj ms) = map snd ms"
| "json_children _ = []"

text \<open>The stack of \<^verbatim>\<open>_strict_json_object\<close>, its top first.\<close>

fun json_nodes :: "json \<Rightarrow> nat" where
  "json_nodes (JArr xs) = Suc (sum_list (map json_nodes xs))"
| "json_nodes (JObj ms) = Suc (sum_list (map (\<lambda>(k, v). json_nodes v) ms))"
| "json_nodes _ = 1"

fun json_depth :: "json \<Rightarrow> nat" where
  "json_depth (JArr xs) = foldr max (map (\<lambda>x. Suc (json_depth x)) xs) 0"
| "json_depth (JObj ms) = foldr max (map (\<lambda>(k, v). Suc (json_depth v)) ms) 0"
| "json_depth _ = 0"

lemma nodes_children: "json_nodes v = Suc (sum_list (map json_nodes (json_children v)))"
  by (cases v) (simp_all add: case_prod_beta' o_def)

lemma depth_children: "json_depth v = foldr max (map (\<lambda>c. Suc (json_depth c)) (json_children v)) 0"
  by (cases v) (simp_all add: case_prod_beta' o_def)

function walk :: "(json \<times> nat) list \<Rightarrow> nat \<Rightarrow> bool" where
  "walk [] nodes = True"
| "walk ((v, depth) # stack) nodes =
     (if 8 < depth \<or> 128 < nodes + 1 then False
      else walk (rev (map (\<lambda>c. (c, depth + 1)) (json_children v)) @ stack) (nodes + 1))"
  by pat_completeness auto
termination
proof (relation "measure (\<lambda>(stack, _). sum_list (map (json_nodes \<circ> fst) stack))", goal_cases)
  case (2 v depth stack nodes)
  have "map (json_nodes \<circ> fst) (rev (map (\<lambda>c. (c, depth + 1)) (json_children v))) =
      rev (map json_nodes (json_children v))"
    by (simp add: rev_map o_def)
  then show ?case using nodes_children [of v] by (simp add: sum_list_rev)
qed simp

definition strict_json_object ::
  "(byte list \<Rightarrow> json option) \<Rightarrow> byte list \<Rightarrow> ws_error + (string \<times> json) list" where
  "strict_json_object loads raw =
     (if \<not> utf8_ok raw then Inl (Protocol 1007 ''invalid JSON text'')
      else
        case loads raw of
          None \<Rightarrow> Inl (Protocol 1007 ''invalid JSON text'')
        | Some v \<Rightarrow>
            if \<not> pairs_unique v then Inl (Protocol 1007 ''invalid JSON text'')
            else if \<not> walk [(v, 0)] 0 then
              Inl (Protocol 1008 ''subscription structure exceeds limits'')
            else
              case v of
                JObj ms \<Rightarrow> Inr ms
              | _ \<Rightarrow> Inl (Protocol 1008 ''subscription must be an object''))"

definition topic_aggregates :: "(string \<times> string list) list" where
  "topic_aggregates =
     [(''system'', [''system'']), (''projects'', [''project'']), (''objectives'', [''objective'']),
      (''tasks'', [''task'']), (''runs'', [''run'']), (''reviews'', [''review'']),
      (''recoveries'', [''recovery'']), (''sandboxes'', [''sandbox'', ''sandbox_build'']),
      (''backups'', [''backup'']), (''notifications'', [''notification'']),
      (''confirmations'', [''confirmation'']), (''audit'', [''audit''])]"

definition supported_topics :: "string list" where
  "supported_topics = map fst topic_aggregates @ [''all'']"

definition all_aggregate_types :: "string list" where
  "all_aggregate_types = concat (map snd topic_aggregates)"

definition topics_ok :: "json \<Rightarrow> string list option" where
  "topics_ok v =
     (case v of
        JArr xs \<Rightarrow>
          if 64 < length xs then None
          else
            (case json_str_list xs of
               None \<Rightarrow> None
             | Some ts \<Rightarrow>
                 if \<not> distinct ts then None
                 else if \<not> list_all (\<lambda>t. t \<in> set supported_topics) ts then None
                 else if ''all'' \<in> set ts \<and> length ts \<noteq> 1 then None
                 else Some ts)
      | _ \<Rightarrow> None)"

definition parse_subscribe ::
  "(byte list \<Rightarrow> json option) \<Rightarrow> byte list \<Rightarrow> ws_error + (nat \<times> string list)" where
  "parse_subscribe loads payload =
     rbind (strict_json_object loads payload) (\<lambda>message.
       if set (map fst message) \<noteq> {''type'', ''after_sequence'', ''topics''} then
         Inl (Protocol 1008 ''invalid subscription fields'')
       else if jget message ''type'' \<noteq> JStr ''subscribe'' then
         Inl (Protocol 1008 ''subscribe message required'')
       else
         case jget message ''after_sequence'' of
           JInt after \<Rightarrow>
             if after < 0 \<or> MAX_SEQUENCE < after then
               Inl (Protocol 1008 ''invalid subscription sequence'')
             else
               (case topics_ok (jget message ''topics'') of
                  None \<Rightarrow> Inl (Protocol 1008 ''invalid subscription topics'')
                | Some ts \<Rightarrow> Inr (nat after, ts))
         | _ \<Rightarrow> Inl (Protocol 1008 ''invalid subscription sequence''))"

definition aggregates_for_topics :: "string list \<Rightarrow> string list" where
  "aggregates_for_topics topics =
     (if topics = [] \<or> topics = [''all''] then all_aggregate_types
      else concat (map (\<lambda>t. the (map_of topic_aggregates t)) topics))"

section \<open>The session\<close>

datatype message =
    Subscribed nat nat "string list"
  | Event envelope
  | Heartbeat nat
  | ReplayUnavailable nat nat
  | Close nat string
  | Pong "byte list"
  | EchoClose "byte list"

text \<open>What \<^verbatim>\<open>_frame_from_queue\<close> gives: nothing in time, the end, a frame, or the reader's failure.\<close>

datatype incoming = Quiet | Gone | Frame client_frame | Failed ws_error

record turn =
  current :: bool
  at_bounds :: journal
  at_read :: journal
  heartbeat :: "journal option"
  inbox :: incoming

definition replay_bounds :: "journal \<Rightarrow> nat \<Rightarrow> nat option \<times> nat \<times> bool" where
  "replay_bounds j after =
     (case bounds j of (oldest, latest) \<Rightarrow>
        (oldest, latest,
         latest < after \<or> (case oldest of None \<Rightarrow> False | Some n \<Rightarrow> int after < int n - 1) \<or>
         500 < int latest - int after))"

definition replay_unavailable :: "nat option \<Rightarrow> nat \<Rightarrow> message list" where
  "replay_unavailable oldest latest =
     [ReplayUnavailable (case oldest of None \<Rightarrow> 1 | Some n \<Rightarrow> n) latest,
      Close 1000 ''snapshot refresh required'']"

text \<open>\<^verbatim>\<open>WebSocketProtocolError\<close> closes with its code; \<^verbatim>\<open>EOFError\<close> ends in silence.\<close>

definition stop_with :: "ws_error \<Rightarrow> message list" where
  "stop_with e =
     (case e of Protocol code reason \<Rightarrow> [Close code reason] | Eof \<Rightarrow> [] | BadValue \<Rightarrow> [Close 1011 ''internal stream error''])"

fun send_events :: "string list \<Rightarrow> nat \<Rightarrow> envelope list \<Rightarrow> message list \<times> nat option" where
  "send_events types cursor [] = ([], Some cursor)"
| "send_events types cursor (e # es) =
     (if e_sequence e \<le> cursor then ([], None)
      else
        case send_events types (e_sequence e) es of
          (ms, end) \<Rightarrow> ((if e_aggregate_type e \<in> set types then [Event e] else []) @ ms, end))"

text \<open>A part of the code that sends messages and then goes on at a cursor or ends the session.\<close>

definition drain_event_batch ::
  "(journal \<Rightarrow> nat \<Rightarrow> journal_error + envelope list) \<Rightarrow> string list \<Rightarrow> nat \<Rightarrow> journal \<Rightarrow> message list \<times> nat option" where
  "drain_event_batch read types cursor j =
     (case read j cursor of
        Inl _ \<Rightarrow> ([], None)
      | Inr es \<Rightarrow> send_events types cursor es)"

definition heartbeat_message :: "journal option \<Rightarrow> message list" where
  "heartbeat_message due = (case due of None \<Rightarrow> [] | Some j \<Rightarrow> [Heartbeat (snd (bounds j))])"

definition answer :: "nat \<Rightarrow> incoming \<Rightarrow> message list \<times> nat option" where
  "answer cursor received =
     (case received of
        Quiet \<Rightarrow> ([], Some cursor)
      | Gone \<Rightarrow> ([], None)
      | Failed e \<Rightarrow> (stop_with e, None)
      | Frame f \<Rightarrow>
          if f_opcode f = 8 then ([EchoClose (f_payload f)], None)
          else if f_opcode f = 9 then ([Pong (f_payload f)], Some cursor)
          else if f_opcode f = 10 then ([], Some cursor)
          else (stop_with (Protocol 1008 ''unexpected client message''), None))"

text \<open>One turn of the loop; \<open>None\<close> ends the session.\<close>

definition session_turn ::
  "(journal \<Rightarrow> nat \<Rightarrow> journal_error + envelope list) \<Rightarrow> string list \<Rightarrow> nat \<Rightarrow> turn \<Rightarrow> message list \<times> nat option" where
  "session_turn read types cursor t =
     (if \<not> current t then ([Close 1008 ''session invalidated''], None)
      else
        case replay_bounds (at_bounds t) cursor of (oldest, latest, unavailable) \<Rightarrow>
          if unavailable then (replay_unavailable oldest latest, None)
          else
            (case drain_event_batch read types cursor (at_read t) of
               (ms, None) \<Rightarrow> (ms @ [Close 1011 ''event stream unavailable''], None)
             | (ms, Some cursor') \<Rightarrow>
                 (case answer cursor' (inbox t) of
                    (ms', end) \<Rightarrow> (ms @ heartbeat_message (heartbeat t) @ ms', end))))"

fun session_turns ::
  "(journal \<Rightarrow> nat \<Rightarrow> journal_error + envelope list) \<Rightarrow> string list \<Rightarrow> nat \<Rightarrow> turn list \<Rightarrow> message list \<times> nat option" where
  "session_turns read types cursor [] = ([], Some cursor)"
| "session_turns read types cursor (t # ts) =
     (case session_turn read types cursor t of
        (ms, None) \<Rightarrow> (ms, None)
      | (ms, Some cursor') \<Rightarrow>
          (case session_turns read types cursor' ts of (ms', end) \<Rightarrow> (ms @ ms', end)))"

text \<open>\<^verbatim>\<open>_receive_subscription\<close>; when nothing more arrives the deadline passes.\<close>

fun receive_subscription ::
  "(byte list \<Rightarrow> json option) \<Rightarrow> incoming list \<Rightarrow> message list \<times> (ws_error + (nat \<times> string list))" where
  "receive_subscription loads [] = ([], Inl (Protocol 1008 ''subscription timeout''))"
| "receive_subscription loads (Quiet # rest) = receive_subscription loads rest"
| "receive_subscription loads (Gone # rest) = ([], Inl Eof)"
| "receive_subscription loads (Failed e # rest) = ([], Inl e)"
| "receive_subscription loads (Frame f # rest) =
     (if f_opcode f = 9 then
        (case receive_subscription loads rest of (ms, r) \<Rightarrow> (Pong (f_payload f) # ms, r))
      else if f_opcode f = 8 then ([], Inl Eof)
      else if f_opcode f \<noteq> 1 then ([], Inl (Protocol 1003 ''text subscription required''))
      else ([], parse_subscribe loads (f_payload f)))"

definition session_start ::
  "(byte list \<Rightarrow> json option) \<Rightarrow> nat option \<Rightarrow> incoming list \<Rightarrow> message list \<times> (ws_error + (nat \<times> string list))" where
  "session_start loads initial inputs =
     (case initial of
        None \<Rightarrow> receive_subscription loads inputs
      | Some after \<Rightarrow> ([], Inr (after, [''all''])))"

definition run_session ::
  "(byte list \<Rightarrow> json option) \<Rightarrow> (journal \<Rightarrow> nat \<Rightarrow> journal_error + envelope list) \<Rightarrow> nat option \<Rightarrow>
     incoming list \<Rightarrow> journal \<Rightarrow> turn list \<Rightarrow> message list \<times> nat option" where
  "run_session loads read initial inputs first turns =
     (case session_start loads initial inputs of
        (pre, Inl e) \<Rightarrow> (pre @ stop_with e, None)
      | (pre, Inr (after, topics)) \<Rightarrow>
          (case replay_bounds first after of (oldest, latest, unavailable) \<Rightarrow>
             if unavailable then (pre @ replay_unavailable oldest latest, None)
             else
               (case session_turns read (aggregates_for_topics topics) after turns of
                  (ms, end) \<Rightarrow> (pre @ Subscribed (after + 1) latest topics # ms, end))))"

text \<open>\<^verbatim>\<open>EventJournal.read_after\<close> as \<^verbatim>\<open>_drain_event_batch\<close> calls it.\<close>

definition journal_reader ::
  "(string \<Rightarrow> bool) \<Rightarrow> ((string \<times> json) list \<Rightarrow> string) \<Rightarrow> (string \<Rightarrow> json option) \<Rightarrow> journal \<Rightarrow> nat \<Rightarrow>
     journal_error + envelope list" where
  "journal_reader secret dumps loads j cursor = read_after secret dumps loads (int cursor) 100 None None j"

section \<open>The limits of a subscription\<close>

lemma foldr_max_le: "foldr max xs 0 \<le> (n :: nat) \<longleftrightarrow> (\<forall>x \<in> set xs. x \<le> n)"
  by (induction xs) auto

lemma depth_le: "json_depth v \<le> n \<longleftrightarrow> (\<forall>c \<in> set (json_children v). Suc (json_depth c) \<le> n)"
  by (subst depth_children) (simp add: foldr_max_le)

lemma walk_iff:
  assumes "nodes \<le> 128"
  shows "walk stack nodes \<longleftrightarrow>
    nodes + sum_list (map (json_nodes \<circ> fst) stack) \<le> 128 \<and> (\<forall>(v, d) \<in> set stack. d + json_depth v \<le> 8)"
  using assms
proof (induction stack nodes rule: walk.induct)
  case (2 v depth stack nodes)
  let ?cs = "json_children v"
  have n: "json_nodes v = Suc (sum_list (map json_nodes ?cs))" by (rule nodes_children)
  have d: "depth + json_depth v \<le> 8 \<longleftrightarrow> depth \<le> 8 \<and> (\<forall>c \<in> set ?cs. depth + 1 + json_depth c \<le> 8)"
  proof -
    have "depth + json_depth v \<le> 8 \<longleftrightarrow> depth \<le> 8 \<and> json_depth v \<le> 8 - depth" by linarith
    also have "\<dots> \<longleftrightarrow> depth \<le> 8 \<and> (\<forall>c \<in> set ?cs. Suc (json_depth c) \<le> 8 - depth)"
      unfolding depth_le by blast
    also have "\<dots> \<longleftrightarrow> depth \<le> 8 \<and> (\<forall>c \<in> set ?cs. depth + 1 + json_depth c \<le> 8)"
      by (intro conj_cong refl ball_cong) linarith
    finally show ?thesis .
  qed
  have m: "map (json_nodes \<circ> fst) (rev (map (\<lambda>c. (c, depth + 1)) ?cs)) = rev (map json_nodes ?cs)"
    by (simp add: rev_map o_def)
  show ?case
  proof (cases "8 < depth \<or> 128 < nodes + 1")
    case True
    then show ?thesis using d n by auto
  next
    case False
    then have "walk ((v, depth) # stack) nodes \<longleftrightarrow>
      walk (rev (map (\<lambda>c. (c, depth + 1)) ?cs) @ stack) (nodes + 1)" by simp
    also have "\<dots> \<longleftrightarrow>
      nodes + 1 + sum_list (map (json_nodes \<circ> fst) (rev (map (\<lambda>c. (c, depth + 1)) ?cs) @ stack)) \<le> 128 \<and>
      (\<forall>(v, d) \<in> set (rev (map (\<lambda>c. (c, depth + 1)) ?cs) @ stack). d + json_depth v \<le> 8)"
      by (rule 2(1) [OF False]) (use False in simp)
    also have "\<dots> \<longleftrightarrow> nodes + json_nodes v + sum_list (map (json_nodes \<circ> fst) stack) \<le> 128 \<and>
      depth + json_depth v \<le> 8 \<and> (\<forall>(v, d) \<in> set stack. d + json_depth v \<le> 8)"
      using False unfolding map_append m d n by (auto simp: sum_list_rev ball_Un)
    finally show ?thesis by (simp add: add.assoc o_def del: walk.simps)
  qed
qed simp

text \<open>
  The traversal with the explicit stack accepts a message exactly when it nests at most eight
  levels deep and has at most 128 values, whatever the order of the stack.
\<close>

theorem walk_limits: "walk [(v, 0)] 0 \<longleftrightarrow> json_nodes v \<le> 128 \<and> json_depth v \<le> 8"
  by (simp add: walk_iff del: walk.simps)

lemma topics_ok_Some:
  "topics_ok v = Some ts \<longleftrightarrow>
     v = JArr (map JStr ts) \<and> length ts \<le> 64 \<and> distinct ts \<and> set ts \<subseteq> set supported_topics \<and>
     (''all'' \<in> set ts \<longrightarrow> ts = [''all''])"
proof (cases v)
  case (JArr xs)
  have one: "''all'' \<in> set ts \<Longrightarrow> length ts = 1 \<longleftrightarrow> ts = [''all'']" for ts :: "string list"
    by (cases ts) auto
  show ?thesis
  proof (cases "json_str_list xs")
    case None
    then have "xs \<noteq> map JStr ts" using json_str_list_Some [of xs ts] by simp
    then show ?thesis using JArr None by (simp add: topics_ok_def)
  next
    case (Some us)
    then have "xs = map JStr us" by (simp add: json_str_list_Some)
    then show ?thesis
      using JArr Some one [of us]
      by (auto simp: topics_ok_def list_all_iff inj_map_eq_map inj_def split: if_split_asm)
  qed
qed (simp_all add: topics_ok_def)

text \<open>
  C35: a subscription the server accepts is one member each of type, sequence and topics: the sequence
  a 63-bit number, the topics at most 64 different known names, and \<^verbatim>\<open>all\<close> only alone; every
  aggregate type it selects is one the journal can hold, and an empty list or \<^verbatim>\<open>all\<close> selects
  every type the journal can hold.
\<close>

theorem parse_subscribe_sound:
  assumes "parse_subscribe loads payload = Inr (after, topics)"
  shows "int after \<le> MAX_SEQUENCE \<and> length topics \<le> 64 \<and> distinct topics \<and>
    set topics \<subseteq> set supported_topics \<and> (''all'' \<in> set topics \<longrightarrow> topics = [''all'']) \<and>
    set (aggregates_for_topics topics) \<subseteq> set aggregate_types \<and>
    (topics = [] \<or> topics = [''all''] \<longrightarrow> set (aggregates_for_topics topics) = set aggregate_types)"
proof -
  obtain message n where m: "jget message ''after_sequence'' = JInt n" "0 \<le> n" "n \<le> MAX_SEQUENCE" "after = nat n"
    and t: "topics_ok (jget message ''topics'') = Some topics"
    using assms
    by (auto simp: parse_subscribe_def rbind_Inr_iff split: if_split_asm json.split_asm option.split_asm)
  note ts = t [unfolded topics_ok_Some]
  have single: "''all'' \<in> set topics \<longrightarrow> topics = [''all'']" using ts by (elim conjE)
  have all: "set all_aggregate_types = set aggregate_types"
    by (simp add: all_aggregate_types_def topic_aggregates_def aggregate_types_def)
  have "set (the (map_of topic_aggregates t)) \<subseteq> set aggregate_types" if "t \<in> set supported_topics" "t \<noteq> ''all''" for t
    using that by (auto simp: supported_topics_def topic_aggregates_def aggregate_types_def)
  then have sub: "\<forall>t \<in> set topics. t \<noteq> ''all'' \<longrightarrow> set (the (map_of topic_aggregates t)) \<subseteq> set aggregate_types"
    using ts by blast
  have "set (aggregates_for_topics topics) \<subseteq> set aggregate_types"
  proof (cases "topics = [] \<or> topics = [''all'']")
    case True
    then show ?thesis using all by (auto simp: aggregates_for_topics_def)
  next
    case False
    then have none: "''all'' \<notin> set topics" using single by metis
    then have "\<forall>t \<in> set topics. t \<noteq> ''all''" by metis
    with sub have "(\<Union>t \<in> set topics. set (the (map_of topic_aggregates t))) \<subseteq> set aggregate_types" by blast
    moreover have "aggregates_for_topics topics = concat (map (\<lambda>t. the (map_of topic_aggregates t)) topics)"
      using False unfolding aggregates_for_topics_def by simp
    ultimately show ?thesis by simp
  qed
  moreover have "topics = [] \<or> topics = [''all''] \<Longrightarrow> set (aggregates_for_topics topics) = set aggregate_types"
    using all by (auto simp: aggregates_for_topics_def)
  moreover have "int after \<le> MAX_SEQUENCE" using m by simp
  ultimately show ?thesis using ts by blast
qed

section \<open>What a session sends\<close>

fun sent_events :: "message list \<Rightarrow> envelope list" where
  "sent_events [] = []"
| "sent_events (Event e # ms) = e # sent_events ms"
| "sent_events (_ # ms) = sent_events ms"

lemma sent_events_append [simp]: "sent_events (ms @ ms') = sent_events ms @ sent_events ms'"
  by (induction ms rule: sent_events.induct) simp_all

lemma sent_events_other [simp]:
  "sent_events (heartbeat_message due) = []" "sent_events (stop_with e) = []"
  "sent_events (replay_unavailable oldest latest) = []"
  by (simp_all add: heartbeat_message_def stop_with_def replay_unavailable_def split: option.split ws_error.split)

lemma sent_events_answer: "answer cursor received = (ms, end) \<Longrightarrow> sent_events ms = []"
  by (auto simp: answer_def split: incoming.split_asm if_split_asm)

lemma answer_cursor: "answer cursor received = (ms, Some c) \<Longrightarrow> c = cursor"
  by (auto simp: answer_def split: incoming.split_asm if_split_asm)

text \<open>The events of the rows that match a subscription.\<close>

definition matching :: "string list \<Rightarrow> envelope list \<Rightarrow> envelope list" where
  "matching types es = filter (\<lambda>e. e_aggregate_type e \<in> set types) es"

lemma matching_append [simp]: "matching types (es @ fs) = matching types es @ matching types fs"
  by (simp add: matching_def)

lemma send_events_numbered:
  assumes "map e_sequence es = [Suc cursor..<Suc (cursor + length es)]"
  shows "send_events types cursor es = (map Event (matching types es), Some (cursor + length es))"
  using assms
proof (induction es arbitrary: cursor)
  case (Cons e es)
  have seq: "e_sequence e = Suc cursor" "map e_sequence es = [Suc (Suc cursor)..<Suc (Suc cursor + length es)]"
    using Cons.prems by (auto simp: upt_rec [of "Suc cursor"] simp del: upt_Suc)
  then show ?case using Cons.IH [OF seq(2)] by (simp add: matching_def)
qed (simp add: matching_def)

lemma sent_events_map [simp]: "sent_events (map Event es) = es"
  by (induction es) simp_all

text \<open>
  The journal, seen as the list of its envelopes: \<open>es\<close> has the sequences 1, 2, ..., and a reader is
  faithful to it when, on the first \<open>length j\<close> events, it returns the next hundred.
\<close>

definition faithful_reader ::
  "(journal \<Rightarrow> nat \<Rightarrow> journal_error + envelope list) \<Rightarrow> envelope list \<Rightarrow> journal \<Rightarrow> bool" where
  "faithful_reader read es j \<longleftrightarrow>
     length j \<le> length es \<and> (\<forall>c. read j c = Inr (take 100 (drop c (take (length j) es))))"

lemma take_drop_step: "take a (drop c es) @ take b (drop (c + a) es) = take (a + b) (drop c es)"
  by (simp add: take_add add.commute drop_drop)

lemma drain_faithful:
  assumes "faithful_reader read es j" "map e_sequence es = count_up (length es)" "cursor \<le> length es"
  shows "\<exists>n. drain_event_batch read types cursor j =
      (map Event (matching types (take n (drop cursor es))), Some (cursor + n)) \<and>
    n = min 100 (length j - cursor) \<and> cursor + n \<le> length es"
proof -
  let ?page = "take 100 (drop cursor (take (length j) es))"
  have len: "length ?page = min 100 (length j - cursor)" "length j \<le> length es"
    using assms(1) by (auto simp: faithful_reader_def)
  have page: "?page = take (length ?page) (drop cursor es)"
    using len by (simp add: drop_take min_def)
  have "map e_sequence (take n (drop cursor es)) = [Suc cursor..<Suc (cursor + n)]" if "cursor + n \<le> length es" for n
    using that by (simp add: take_map [symmetric] drop_map [symmetric] assms(2) count_up_def del: upt_Suc)
  moreover have "cursor + length ?page \<le> length es" using assms(3) len by simp
  ultimately have "map e_sequence ?page = [Suc cursor..<Suc (cursor + length ?page)]"
    using page by metis
  then have "send_events types cursor ?page = (map Event (matching types ?page), Some (cursor + length ?page))"
    by (rule send_events_numbered)
  then show ?thesis
    using assms(1,3) len page by (intro exI [of _ "length ?page"]) (auto simp: drain_event_batch_def faithful_reader_def)
qed

lemma session_turn_sends:
  assumes "faithful_reader read es (at_read t)" "map e_sequence es = count_up (length es)" "cursor \<le> length es"
    and "session_turn read types cursor t = (ms, end)"
  shows "\<exists>n. sent_events ms = matching types (take n (drop cursor es)) \<and> cursor + n \<le> length es \<and>
    (case end of None \<Rightarrow> True | Some c \<Rightarrow> c = cursor + n \<and> n = min 100 (length (at_read t) - cursor))"
proof -
  obtain n where n: "drain_event_batch read types cursor (at_read t) =
      (map Event (matching types (take n (drop cursor es))), Some (cursor + n))"
    "n = min 100 (length (at_read t) - cursor)" "cursor + n \<le> length es"
    using drain_faithful [OF assms(1-3)] by blast
  consider "\<not> current t" | "current t" "snd (snd (replay_bounds (at_bounds t) cursor))"
    | "current t" "\<not> snd (snd (replay_bounds (at_bounds t) cursor))" by blast
  then show ?thesis
  proof cases
    case 3
    then obtain ms' where a: "answer (cursor + n) (inbox t) = (ms', end)"
      "ms = map Event (matching types (take n (drop cursor es))) @ heartbeat_message (heartbeat t) @ ms'"
      using assms(4) n(1) by (auto simp: session_turn_def split: prod.split_asm)
    then show ?thesis
      using n sent_events_answer [OF a(1)] answer_cursor [of "cursor + n" "inbox t" ms']
      by (intro exI [of _ n]) (auto split: option.split)
  next
    case 1
    then show ?thesis using assms(3,4) by (intro exI [of _ 0]) (auto simp: session_turn_def matching_def)
  next
    case 2
    then show ?thesis
      using assms(3,4) by (intro exI [of _ 0]) (auto simp: session_turn_def matching_def split: prod.split_asm)
  qed
qed

lemma session_turns_send:
  assumes "\<forall>t \<in> set ts. faithful_reader read es (at_read t)" "map e_sequence es = count_up (length es)"
    "cursor \<le> length es" "session_turns read types cursor ts = (ms, end)"
  shows "\<exists>n. sent_events ms = matching types (take n (drop cursor es)) \<and> cursor + n \<le> length es \<and>
    (\<forall>c. end = Some c \<longrightarrow> c = cursor + n)"
  using assms
proof (induction ts arbitrary: cursor ms)
  case Nil
  then show ?case by (intro exI [of _ 0]) (auto simp: matching_def)
next
  case (Cons t ts)
  obtain ms1 end1 where t: "session_turn read types cursor t = (ms1, end1)" by fastforce
  obtain n where n: "sent_events ms1 = matching types (take n (drop cursor es))" "cursor + n \<le> length es"
    "case end1 of None \<Rightarrow> True | Some c \<Rightarrow> c = cursor + n \<and> n = min 100 (length (at_read t) - cursor)"
    using session_turn_sends [OF _ Cons.prems(2,3) t] Cons.prems(1) by auto
  show ?case
  proof (cases end1)
    case None
    then show ?thesis using Cons.prems(4) t n by (intro exI [of _ n]) auto
  next
    case (Some c)
    obtain ms2 where rest: "session_turns read types (cursor + n) ts = (ms2, end)" "ms = ms1 @ ms2"
      using Cons.prems(4) t n(3) Some by (auto split: prod.split_asm)
    obtain m where m: "sent_events ms2 = matching types (take m (drop (cursor + n) es))"
      "cursor + n + m \<le> length es" "\<forall>c. end = Some c \<longrightarrow> c = cursor + n + m"
      using Cons.IH [OF _ Cons.prems(2) n(2) rest(1)] Cons.prems(1) by auto
    have "sent_events ms = matching types (take (n + m) (drop cursor es))"
      by (simp add: rest(2) n(1) m(1) flip: take_drop_step matching_append)
    then show ?thesis using m by (intro exI [of _ "n + m"]) auto
  qed
qed

section \<open>Exactly once, in order\<close>

lemma rmap_take: "rmap f xs = Inr ys \<Longrightarrow> rmap f (take n xs) = Inr (take n ys)"
proof (induction xs arbitrary: ys n)
  case (Cons x xs)
  then obtain z zs where "f x = Inr z" "rmap f xs = Inr zs" "ys = z # zs" by (auto simp: rbind_Inr_iff)
  then show ?case using Cons.IH by (cases n) auto
qed simp

lemma rmap_drop: "rmap f xs = Inr ys \<Longrightarrow> rmap f (drop n xs) = Inr (drop n ys)"
proof (induction xs arbitrary: ys n)
  case (Cons x xs)
  then obtain z zs where "f x = Inr z" "rmap f xs = Inr zs" "ys = z # zs" by (auto simp: rbind_Inr_iff)
  then show ?case using Cons.IH Cons.prems by (cases n) auto
qed simp

lemma rmap_length: "rmap f xs = Inr ys \<Longrightarrow> length ys = length xs"
  by (induction xs arbitrary: ys) (auto simp: rbind_Inr_iff)

lemma take_count_up: "n \<le> m \<Longrightarrow> take n (count_up m) = count_up n"
  by (simp add: count_up_def take_upt del: upt_Suc)

lemma prefix_numbered:
  assumes "prefix j J" "map j_sequence J = count_up (length J)"
  shows "map j_sequence j = count_up (length j)"
proof -
  have "j = take (length j) J" "length j \<le> length J" using assms(1) by (auto simp: prefix_def)
  then show ?thesis using assms(2) by (metis take_map take_count_up)
qed

lemma journal_reader_faithful:
  assumes "map j_sequence J = count_up (length J)" "prefix j J"
    and "rmap (row_to_envelope secret dumps loads) J = Inr es"
  shows "faithful_reader (journal_reader secret dumps loads) es j"
proof -
  have j: "j = take (length j) J" "length j \<le> length J" using assms(2) by (auto simp: prefix_def)
  have "journal_reader secret dumps loads j c = Inr (take 100 (drop c (take (length j) es)))" for c
  proof -
    have "journal_reader secret dumps loads j c =
        rmap (row_to_envelope secret dumps loads) (take 100 (drop c (take (length j) J)))"
      using read_after_page [OF prefix_numbered [OF assms(2,1)], of 100 secret dumps loads c] j(1)
      by (simp add: journal_reader_def)
    then show ?thesis using rmap_take rmap_drop assms(3) by metis
  qed
  then show ?thesis
    using j(2) rmap_length [OF assms(3)] by (simp add: faithful_reader_def)
qed

lemma bounds_numbered:
  assumes "map j_sequence j = count_up (length j)"
  shows "bounds j = (if j = [] then None else Some 1, length j)"
proof (cases j)
  case (Cons r rs)
  have u: "j_sequence r # map j_sequence rs = count_up (length j)" using assms Cons by simp
  moreover have "hd (count_up (length j)) = 1" using Cons by (simp add: count_up_def upt_rec del: upt_Suc)
  ultimately have one: "j_sequence r = 1" by (metis list.sel(1))
  have "\<forall>n \<in> set (count_up (length j)). 1 \<le> n" by simp
  then have "\<forall>n \<in> set (map j_sequence rs). 1 \<le> n" unfolding u [symmetric] by simp
  moreover have "\<forall>n \<in> set ns. 1 \<le> n \<Longrightarrow> foldr min ns 1 = (1 :: nat)" for ns by (induction ns) auto
  ultimately have "foldr min (map j_sequence rs) 1 = 1" by blast
  moreover have "foldr max (map j_sequence rs) 1 = length j"
    using foldr_max_count_up [of "length j"] foldr_max_start [of "map j_sequence rs" 1] one
    unfolding u [symmetric] by (simp add: max.commute)
  ultimately show ?thesis using one Cons by (simp add: bounds_def)
qed (simp add: bounds_def)

lemma replay_bounds_numbered:
  assumes "map j_sequence j = count_up (length j)"
  shows "replay_bounds j after =
    (if j = [] then None else Some 1, length j, length j < after \<or> after + 500 < length j)"
  by (auto simp: replay_bounds_def bounds_numbered [OF assms])

text \<open>
  What a client asks for: the sequence of the request line and every topic, or the subscription that
  is its first frame other than a ping.
\<close>

fun ignored :: "incoming \<Rightarrow> bool" where
  "ignored Quiet = True"
| "ignored (Frame f) = (f_opcode f = 9)"
| "ignored _ = False"

definition requested :: "(byte list \<Rightarrow> json option) \<Rightarrow> nat option \<Rightarrow> incoming list \<Rightarrow> (nat \<times> string list) option" where
  "requested parse initial inputs =
     (case initial of
        Some after \<Rightarrow> Some (after, [''all''])
      | None \<Rightarrow>
          (case dropWhile ignored inputs of
             Frame f # _ \<Rightarrow>
               if f_opcode f = 1
               then (case parse_subscribe parse (f_payload f) of Inl _ \<Rightarrow> None | Inr r \<Rightarrow> Some r) else None
           | _ \<Rightarrow> None))"

text \<open>The subscription is the JSON object of a frame: its sequence and its topics are those of the message.\<close>

definition asked_for :: "(byte list \<Rightarrow> json option) \<Rightarrow> incoming list \<Rightarrow> nat \<Rightarrow> string list \<Rightarrow> bool" where
  "asked_for parse inputs after topics \<longleftrightarrow>
     (\<exists>f message. Frame f \<in> set inputs \<and> parse (f_payload f) = Some (JObj message) \<and>
        jget message ''after_sequence'' = JInt (int after) \<and> jget message ''topics'' = JArr (map JStr topics))"

lemma parse_subscribe_message:
  assumes "parse_subscribe loads payload = Inr (after, topics)"
  shows "\<exists>message. loads payload = Some (JObj message) \<and> jget message ''after_sequence'' = JInt (int after) \<and>
    jget message ''topics'' = JArr (map JStr topics)"
proof -
  obtain message n where m: "strict_json_object loads payload = Inr message" "jget message ''after_sequence'' = JInt n"
    "0 \<le> n" "after = nat n" and t: "topics_ok (jget message ''topics'') = Some topics"
    using assms
    by (auto simp: parse_subscribe_def rbind_Inr_iff split: if_split_asm json.split_asm option.split_asm)
  have "loads payload = Some (JObj message)"
    using m(1) by (auto simp: strict_json_object_def split: if_split_asm option.split_asm json.split_asm)
  with m t [unfolded topics_ok_Some] show ?thesis by simp
qed

lemma requested_skip: "ignored i \<Longrightarrow> requested parse None (i # rest) = requested parse None rest"
  by (simp add: requested_def)

lemma receive_requested:
  "requested parse None inputs =
     (case snd (receive_subscription parse inputs) of Inl _ \<Rightarrow> None | Inr r \<Rightarrow> Some r)"
proof (induction parse inputs rule: receive_subscription.induct)
  case (5 parse f rest)
  consider "f_opcode f = 9" | "f_opcode f = 8" | "f_opcode f \<noteq> 9" "f_opcode f \<noteq> 8" by blast
  then show ?case
  proof cases
    case 1
    then show ?thesis
      using "5.IH" by (cases "receive_subscription parse rest") (simp add: requested_skip)
  qed (simp_all add: requested_def)
qed (simp_all add: requested_skip, simp_all add: requested_def)

lemma start_requested:
  "requested parse initial inputs = (case snd (session_start parse initial inputs) of Inl _ \<Rightarrow> None | Inr r \<Rightarrow> Some r)"
proof (cases initial)
  case None
  then show ?thesis by (simp add: session_start_def receive_requested)
next
  case (Some after)
  then show ?thesis by (simp add: session_start_def requested_def)
qed

lemma requested_asked:
  assumes "requested parse None inputs = Some (after, topics)"
  shows "asked_for parse inputs after topics"
proof -
  obtain f rest where f: "dropWhile ignored inputs = Frame f # rest" "parse_subscribe parse (f_payload f) = Inr (after, topics)"
    using assms by (auto simp: requested_def split: list.split_asm incoming.split_asm if_split_asm sum.split_asm)
  have "Frame f \<in> set (dropWhile ignored inputs)"
    unfolding f(1) by simp
  then have "Frame f \<in> set inputs"
    by (rule set_dropWhileD)
  then show ?thesis
    using parse_subscribe_message [OF f(2)] by (auto simp: asked_for_def)
qed

text \<open>
  C7: a session sends every event of its subscription exactly once and in order. Whatever the frames
  received and the growth of the journal between its transactions, the events sent are those of the
  requested aggregate types among a block of consecutive sequences that starts right after the requested
  one; while the session goes on its cursor is the end of that block. Without a valid request nothing
  is sent. The request is the one of the client: the sequence of the request line with all topics, or the
  two members of the subscription message.
\<close>

theorem session_exactly_once:
  assumes "(journal_step secret dumps)\<^sup>*\<^sup>* [] J" "rmap (row_to_envelope secret dumps loads) J = Inr es"
    and "prefix first J" "\<forall>t \<in> set turns. prefix (at_read t) J"
    and "run_session parse (journal_reader secret dumps loads) initial inputs first turns = (ms, end)"
  shows "case requested parse initial inputs of
      None \<Rightarrow> sent_events ms = [] \<and> end = None
    | Some (after, topics) \<Rightarrow>
        (initial = None \<longrightarrow> asked_for parse inputs after topics) \<and>
        (\<exists>n. sent_events ms =
            filter (\<lambda>e. e_aggregate_type e \<in> set (aggregates_for_topics topics)) (take n (drop after es)) \<and>
          map e_sequence (take n (drop after es)) = [after + 1..<after + n + 1] \<and>
          (\<forall>c. end = Some c \<longrightarrow> c = after + n \<and> Subscribed (after + 1) (length first) topics \<in> set ms))"
proof -
  have num: "map j_sequence J = count_up (length J)"
    using event_journal.reachable_inv [OF refl assms(1)] unfolding journal_ok_def by blast
  have es: "map e_sequence es = count_up (length es)" "length es = length J"
    using rmap_sequences [OF assms(2)] rmap_length [OF assms(2)] num by simp_all
  have block: "map e_sequence (take n (drop after es)) = [after + 1..<after + n + 1]" if "after + n \<le> length es" for after n
    using that by (simp add: take_map [symmetric] drop_map [symmetric] es(1) count_up_def del: upt_Suc)
  obtain pre start where start: "session_start parse initial inputs = (pre, start)" by fastforce
  have pongs: "sent_events (fst (receive_subscription parse is)) = []" for "is"
    by (induction parse "is" rule: receive_subscription.induct) (auto split: prod.split)
  have pre: "sent_events pre = []"
    using start pongs [of inputs] by (auto simp: session_start_def split: option.split_asm)
  note req = start_requested [of parse initial inputs, unfolded start snd_conv]
  show ?thesis
  proof (cases start)
    case (Inl e)
    then show ?thesis using assms(5) start pre by (auto simp: req run_session_def)
  next
    case (Inr at)
    obtain after topics where at: "at = (after, topics)" by fastforce
    have asked: "initial = None \<longrightarrow> asked_for parse inputs after topics"
      using requested_asked req Inr at by auto
    note rb = replay_bounds_numbered [OF prefix_numbered [OF assms(3) num], of after]
    have "\<exists>n. sent_events ms = matching (aggregates_for_topics topics) (take n (drop after es)) \<and>
        map e_sequence (take n (drop after es)) = [after + 1..<after + n + 1] \<and>
        (\<forall>c. end = Some c \<longrightarrow> c = after + n \<and> Subscribed (after + 1) (length first) topics \<in> set ms)"
    proof (cases "length first < after \<or> after + 500 < length first")
      case True
      then have "sent_events ms = []" "end = None"
        using assms(5) start pre Inr at rb by (auto simp: run_session_def)
      then show ?thesis by (intro exI [of _ 0]) (simp add: matching_def)
    next
      case False
      obtain ms' where run: "session_turns (journal_reader secret dumps loads) (aggregates_for_topics topics) after turns
          = (ms', end)" and ms: "ms = pre @ Subscribed (after + 1) (length first) topics # ms'"
        using assms(5) start Inr at rb False by (auto simp: run_session_def split: prod.split_asm)
      have le: "after \<le> length es" using False assms(3) es(2) by (auto simp: prefix_def)
      have "\<forall>t \<in> set turns. faithful_reader (journal_reader secret dumps loads) es (at_read t)"
        using journal_reader_faithful [OF num _ assms(2)] assms(4) by blast
      then obtain n where n: "sent_events ms' = matching (aggregates_for_topics topics) (take n (drop after es))"
        "after + n \<le> length es" "\<forall>c. end = Some c \<longrightarrow> c = after + n"
        using session_turns_send [OF _ es(1) le run] by blast
      show ?thesis
        using n block [OF n(2)] ms pre
        by (intro exI [of _ n] conjI allI impI)
          (simp_all only: sent_events_append pre append_Nil sent_events.simps, simp_all)
    qed
    then show ?thesis
      using asked by (simp add: req Inr at matching_def)
  qed
qed

section \<open>Catching up\<close>

text \<open>
  C24: a session catches up: at most 500 events behind a journal that does not grow, \<open>k\<close> turns in
  which the login stays valid and the client is silent bring it to the end or forward by 100 events
  each, so five turns are enough; with the events of those sequences sent.
\<close>

theorem session_catches_up:
  assumes "(journal_step secret dumps)\<^sup>*\<^sup>* [] J" "rmap (row_to_envelope secret dumps loads) J = Inr es"
    and "\<forall>t \<in> set turns. current t \<and> at_bounds t = J \<and> at_read t = J \<and> inbox t = Quiet"
    and "after \<le> length J" "length J \<le> after + 500"
  shows "\<exists>ms. session_turns (journal_reader secret dumps loads) types after turns =
      (ms, Some (min (length J) (after + 100 * length turns))) \<and>
    sent_events ms = filter (\<lambda>e. e_aggregate_type e \<in> set types)
      (take (100 * length turns) (drop after es))"
proof -
  have num: "map j_sequence J = count_up (length J)"
    using event_journal.reachable_inv [OF refl assms(1)] unfolding journal_ok_def by blast
  have es: "map e_sequence es = count_up (length es)" "length es = length J"
    using rmap_sequences [OF assms(2)] rmap_length [OF assms(2)] num by simp_all
  let ?read = "journal_reader secret dumps loads"
  have reader: "faithful_reader ?read es J" by (rule journal_reader_faithful [OF num _ assms(2)]) simp
  show ?thesis
    using assms(3-5)
  proof (induction turns arbitrary: after)
    case (Cons t turns)
    have t: "current t" "at_bounds t = J" "at_read t = J" "inbox t = Quiet" using Cons.prems(1) by auto
    let ?n = "min 100 (length J - after)"
    have drain: "drain_event_batch ?read types after J =
        (map Event (matching types (take ?n (drop after es))), Some (after + ?n))"
      using drain_faithful [OF reader es(1)] Cons.prems(2) es(2) by auto
    obtain old new where rb: "replay_bounds J after = (old, new, False)"
      using Cons.prems(2,3) by (simp add: replay_bounds_numbered [OF num])
    have turn: "session_turn ?read types after t =
        (map Event (matching types (take ?n (drop after es))) @ heartbeat_message (heartbeat t), Some (after + ?n))"
      using rb t drain by (simp add: session_turn_def answer_def)
    have later: "\<forall>t \<in> set turns. current t \<and> at_bounds t = J \<and> at_read t = J \<and> inbox t = Quiet"
      "after + ?n \<le> length J" "length J \<le> after + ?n + 500"
      using Cons.prems by simp_all
    obtain ms where rest: "session_turns ?read types (after + ?n) turns =
        (ms, Some (min (length J) (after + ?n + 100 * length turns)))"
      "sent_events ms = filter (\<lambda>e. e_aggregate_type e \<in> set types) (take (100 * length turns) (drop (after + ?n) es))"
      using Cons.IH [OF later] by blast
    have "min (length J) (after + ?n + 100 * length turns) = min (length J) (after + 100 * length (t # turns))"
      using Cons.prems(2) by (simp add: min_def) linarith
    note cursor = this
    have "take (?n + 100 * length turns) (drop after es) = take (100 * length (t # turns)) (drop after es)"
    proof (cases "100 \<le> length J - after")
      case True
      then show ?thesis by (simp add: min_def)
    next
      case False
      then have "length (drop after es) \<le> ?n" by (simp add: es(2))
      then show ?thesis using False by (simp add: min_def)
    qed
    then have "take ?n (drop after es) @ take (100 * length turns) (drop (after + ?n) es) =
        take (100 * length (t # turns)) (drop after es)"
      by (simp only: take_drop_step)
    then have events: "matching types (take ?n (drop after es)) @ sent_events ms =
        filter (\<lambda>e. e_aggregate_type e \<in> set types) (take (100 * length (t # turns)) (drop after es))"
      unfolding rest(2) matching_def by (metis filter_append)
    have "session_turns ?read types after (t # turns) =
        ((map Event (matching types (take ?n (drop after es))) @ heartbeat_message (heartbeat t)) @ ms,
         Some (min (length J) (after + 100 * length (t # turns))))"
      unfolding session_turns.simps turn prod.case option.case rest(1) cursor ..
    then show ?case
      by (intro exI conjI, assumption) (simp only: sent_events_append sent_events_map sent_events_other append_Nil2 events)
  qed simp
qed

section \<open>A session\<close>

definition sample_turn :: turn where
  "sample_turn = \<lparr>current = True, at_bounds = sample_journal2, at_read = sample_journal2, heartbeat = None,
     inbox = Quiet\<rparr>"

definition sample_envelopes :: "envelope list" where
  "sample_envelopes = map (\<lambda>r. event_envelope r []) sample_journal2"

lemma sample_stream:
  "(journal_step (\<lambda>_. False) (\<lambda>_. ''{}''))\<^sup>*\<^sup>* [] sample_journal2"
  "rmap (row_to_envelope (\<lambda>_. False) (\<lambda>_. ''{}'') (\<lambda>_. Some (JObj []))) sample_journal2 = Inr sample_envelopes"
proof -
  show "(journal_step (\<lambda>_. False) (\<lambda>_. ''{}''))\<^sup>*\<^sup>* [] sample_journal2"
    using sample_reachable by (rule rtranclp_trans)
  show "rmap (row_to_envelope (\<lambda>_. False) (\<lambda>_. ''{}'') (\<lambda>_. Some (JObj []))) sample_journal2 =
      Inr sample_envelopes" by code_simp
qed

theorem parse_subscribe_sound_witness:
  "parse_subscribe (\<lambda>_. Some (JObj [(''type'', JStr ''subscribe''), (''after_sequence'', JInt 7),
      (''topics'', JArr [JStr ''tasks''])])) [] = Inr (7, [''tasks'']) \<and>
   set (aggregates_for_topics [''tasks'']) \<subseteq> set aggregate_types"
proof -
  have "parse_subscribe (\<lambda>_. Some (JObj [(''type'', JStr ''subscribe''), (''after_sequence'', JInt 7),
      (''topics'', JArr [JStr ''tasks''])])) [] = Inr (7, [''tasks''])" by code_simp
  then show ?thesis using parse_subscribe_sound [of _ _ 7 "[''tasks'']"] by blast
qed

text \<open>A client that sends a ping and then subscribes to the tasks from the second event on.\<close>

definition sample_subscription :: "byte list \<Rightarrow> json option" where
  "sample_subscription _ = Some (JObj [(''type'', JStr ''subscribe''), (''after_sequence'', JInt 1),
     (''topics'', JArr [JStr ''tasks''])])"

definition sample_inputs :: "incoming list" where
  "sample_inputs = [Frame \<lparr>f_opcode = 9, f_payload = []\<rparr>, Quiet, Frame \<lparr>f_opcode = 1, f_payload = []\<rparr>]"

theorem session_exactly_once_witness:
  "\<exists>ms n. run_session sample_subscription (journal_reader (\<lambda>_. False) (\<lambda>_. ''{}'') (\<lambda>_. Some (JObj []))) None
      sample_inputs sample_journal2 [sample_turn] = (ms, Some 2) \<and>
    asked_for sample_subscription sample_inputs 1 [''tasks''] \<and>
    sent_events ms = filter (\<lambda>e. e_aggregate_type e \<in> set (aggregates_for_topics [''tasks'']))
      (take n (drop 1 sample_envelopes)) \<and> 2 = 1 + n \<and> Subscribed (1 + 1) 2 [''tasks''] \<in> set ms"
proof -
  let ?run = "run_session sample_subscription (journal_reader (\<lambda>_. False) (\<lambda>_. ''{}'') (\<lambda>_. Some (JObj []))) None
      sample_inputs sample_journal2 [sample_turn]"
  have s: "snd ?run = Some 2" by code_simp
  then obtain ms where r: "?run = (ms, Some 2)" by (cases ?run) auto
  have req: "requested sample_subscription None sample_inputs = Some (1, [''tasks''])" by code_simp
  have "\<forall>t \<in> set [sample_turn]. prefix (at_read t) sample_journal2" by (simp add: sample_turn_def)
  note once = session_exactly_once [OF sample_stream prefix_order.refl this r, unfolded req option.case prod.case]
  show ?thesis using r once by (auto simp: sample_length)
qed

theorem session_catches_up_witness:
  "\<exists>ms. session_turns (journal_reader (\<lambda>_. False) (\<lambda>_. ''{}'') (\<lambda>_. Some (JObj []))) [''task''] 0 [sample_turn] =
      (ms, Some 2)"
proof -
  have "\<forall>t \<in> set [sample_turn]. current t \<and> at_bounds t = sample_journal2 \<and> at_read t = sample_journal2 \<and>
      inbox t = Quiet" by (simp add: sample_turn_def)
  from session_catches_up [OF sample_stream this, of 0 "[''task'']"]
  show ?thesis by (auto simp: sample_length)
qed

end
