(* ===== verification/Hermes_Values.thy ===== *)
theory Hermes_Values
  imports Prelude
begin

text \<open>
  The texts of a Hermesfile that carry values (\<^verbatim>\<open>controller_api/hermesfile.py\<close>): durations,
  quantities of memory, container paths, and the ASCII patterns of names. A \<^verbatim>\<open>ValueError\<close> is
  \<open>None\<close>. Durations and quantities are interpretations of \<open>canonical_text\<close>.
\<close>

section \<open>Patterns\<close>

definition is_lower_digit :: "char \<Rightarrow> bool" where
  "is_lower_digit c \<longleftrightarrow> is_lower c \<or> is_digit c"

definition first_rest :: "(char \<Rightarrow> bool) \<Rightarrow> (char \<Rightarrow> bool) \<Rightarrow> string \<Rightarrow> bool" where
  "first_rest p q s \<longleftrightarrow> s \<noteq> [] \<and> p (hd s) \<and> list_all q (tl s)"

text \<open>\<^verbatim>\<open>x(?:y{0,61}x)?\<close>.\<close>

definition framed :: "(char \<Rightarrow> bool) \<Rightarrow> string \<Rightarrow> bool" where
  "framed p s \<longleftrightarrow>
     s \<noteq> [] \<and> length s \<le> 63 \<and> p (hd s) \<and> p (last s) \<and> list_all (\<lambda>c. p c \<or> c = CHR ''-'') s"

definition NAME_PATTERN :: "string \<Rightarrow> bool" where "NAME_PATTERN = framed is_lower_digit"
definition HOST_LABEL_PATTERN :: "string \<Rightarrow> bool" where "HOST_LABEL_PATTERN = framed is_alnum"

definition LABEL_PATTERN :: "string \<Rightarrow> bool" where
  "LABEL_PATTERN s \<longleftrightarrow> first_rest is_alnum (\<lambda>c. is_alnum c \<or> c \<in> set ''_.-'') s \<and> length s \<le> 63"

definition USER_PATTERN :: "string \<Rightarrow> bool" where
  "USER_PATTERN s \<longleftrightarrow>
     first_rest (\<lambda>c. is_lower c \<or> c = CHR ''_'') (\<lambda>c. is_lower_digit c \<or> c \<in> set ''_-'') s \<and> length s \<le> 32"

definition ENV_PATTERN :: "string \<Rightarrow> bool" where
  "ENV_PATTERN = first_rest (\<lambda>c. is_upper c \<or> c = CHR ''_'') (\<lambda>c. is_upper c \<or> is_digit c \<or> c = CHR ''_'')"

definition PACKAGE_PATTERN :: "string \<Rightarrow> bool" where
  "PACKAGE_PATTERN = first_rest is_alnum (\<lambda>c. is_alnum c \<or> c \<in> set ''+.:~=@/_-'')"

text \<open>
  \<^verbatim>\<open>[a-z0-9]+(?:(?:[._-]|/{1,2})[a-z0-9]+)*\<close>: \<open>slashes\<close> counts the slashes just read, \<open>fresh\<close>
  says that a letter or digit must follow.
\<close>

fun image_rest :: "bool \<Rightarrow> nat \<Rightarrow> string \<Rightarrow> bool" where
  "image_rest fresh slashes [] = (\<not> fresh)"
| "image_rest fresh slashes (c # s) =
     (if is_lower_digit c then image_rest False 0 s
      else if c \<in> set ''._-'' then \<not> fresh \<and> image_rest True 0 s
      else if c = CHR ''/'' then
        if \<not> fresh then image_rest True 1 s else slashes = 1 \<and> image_rest True 2 s
      else False)"

definition IMAGE_PATTERN :: "string \<Rightarrow> bool" where "IMAGE_PATTERN = image_rest True 0"

definition DIGEST_PATTERN :: "string \<Rightarrow> bool" where
  "DIGEST_PATTERN s \<longleftrightarrow>
     take 7 s = ''sha256:'' \<and> length s = 71 \<and> list_all is_hex (drop 7 s)"

section \<open>Durations\<close>

definition positive_numeral :: "string \<Rightarrow> bool" where
  "positive_numeral s \<longleftrightarrow> s \<noteq> [] \<and> hd s \<noteq> CHR ''0'' \<and> list_all is_digit s"

definition duration_units :: "(string \<times> nat) list" where
  "duration_units = [(''h'', 3600000), (''m'', 60000), (''s'', 1000), (''ms'', 1)]"

definition DURATION_PATTERN :: "string \<Rightarrow> bool" where
  "DURATION_PATTERN s \<longleftrightarrow>
     positive_numeral (takeWhile is_digit s) \<and> dropWhile is_digit s \<in> fst ` set duration_units"

definition max_duration :: nat where "max_duration = 365 * 24 * 3600000"

definition parse_duration :: "string \<Rightarrow> nat option" where
  "parse_duration s =
     (if \<not> DURATION_PATTERN s then None
      else
        let ms = dec_val (takeWhile is_digit s) * the (map_of duration_units (dropWhile is_digit s))
        in if max_duration < ms then None else Some ms)"

text \<open>The first unit that divides the value.\<close>

fun show_in :: "(string \<times> nat) list \<Rightarrow> nat \<Rightarrow> string option" where
  "show_in [] v = None"
| "show_in ((u, m) # units) v = (if v mod m = 0 then Some (dec_nat (v div m) @ u) else show_in units v)"

definition canonical_duration :: "string \<Rightarrow> string option" where
  "canonical_duration s =
     (case parse_duration s of None \<Rightarrow> None | Some ms \<Rightarrow> show_in duration_units ms)"

section \<open>Quantities\<close>

definition quantity_units :: "(string \<times> nat) list" where
  "quantity_units =
     [(''TiB'', 1024 ^ 4), (''GiB'', 1024 ^ 3), (''MiB'', 1024 ^ 2), (''KiB'', 1024)]"

definition quantity_parts :: "string \<Rightarrow> (string \<times> string \<times> string) option" where
  "quantity_parts s =
     (let whole = takeWhile is_digit s; rest = dropWhile is_digit s;
          (fraction, unit) =
            (case rest of
               c # t \<Rightarrow> if c = CHR ''.'' then (takeWhile is_digit t, dropWhile is_digit t) else ([], rest)
             | [] \<Rightarrow> ([], rest))
      in if positive_numeral whole \<and> unit \<in> fst ` set quantity_units \<and>
            (rest \<noteq> [] \<and> hd rest = CHR ''.'' \<longrightarrow> fraction \<noteq> [])
         then Some (whole, fraction, unit) else None)"

definition QUANTITY_PATTERN :: "string \<Rightarrow> bool" where
  "QUANTITY_PATTERN s \<longleftrightarrow> quantity_parts s \<noteq> None"

text \<open>
  \<^verbatim>\<open>Decimal\<close> multiplication keeps 28 digits, half to even: \<open>decimal_round c\<close> is the coefficient
  kept of \<open>c\<close> and the number of digits dropped.
\<close>

definition decimal_round :: "nat \<Rightarrow> nat \<times> nat" where
  "decimal_round c =
     (let d = length (dec_nat c) - 28; q = c div 10 ^ d; r = c mod 10 ^ d
      in (if 10 ^ d < 2 * r \<or> (2 * r = 10 ^ d \<and> d \<noteq> 0 \<and> odd q) then q + 1 else q, d))"

definition decimal_integral :: "nat \<Rightarrow> nat \<Rightarrow> nat option" where
  "decimal_integral c k =
     (let (q, d) = decimal_round c
      in if k \<le> d then Some (q * 10 ^ (d - k))
         else if q mod 10 ^ (k - d) = 0 then Some (q div 10 ^ (k - d)) else None)"

definition max_quantity :: nat where "max_quantity = 16 * 1024 ^ 4"

definition parse_quantity :: "string \<Rightarrow> nat option" where
  "parse_quantity s =
     (case quantity_parts s of
        None \<Rightarrow> None
      | Some (whole, fraction, unit) \<Rightarrow>
          (case decimal_integral (dec_val (whole @ fraction) * the (map_of quantity_units unit)) (length fraction) of
             None \<Rightarrow> None
           | Some n \<Rightarrow> if n = 0 \<or> max_quantity < n then None else Some n))"

definition canonical_quantity :: "string \<Rightarrow> string option" where
  "canonical_quantity s =
     (case parse_quantity s of None \<Rightarrow> None | Some n \<Rightarrow> show_in quantity_units n)"

section \<open>Container paths\<close>

text \<open>A \<^verbatim>\<open>PurePosixPath\<close> that is absolute and canonical is the list of its components.\<close>

definition protected_paths :: "string list list" where
  "protected_paths =
     [[], [''bin''], [''boot''], [''dev''], [''etc''], [''lib''], [''lib64''], [''proc''], [''root''],
      [''run''], [''sbin''], [''sys''], [''usr''], [''var'', ''run'']]"

definition is_protected_path :: "string list \<Rightarrow> bool" where
  "is_protected_path path \<longleftrightarrow>
     list_ex (\<lambda>item. if item = [] then path = item else prefix item path) protected_paths"

definition container_path :: "string \<Rightarrow> string list option" where
  "container_path value =
     (if value = [] \<or> hd value \<noteq> CHR ''/'' \<or> last value = CHR ''/'' \<or> sublist ''//'' value then None
      else
        let pieces = tl (split_on CHR ''/'' value)
        in if pieces = [] \<or> list_ex (\<lambda>p. p \<in> {'''', ''.'', ''..''}) pieces then None
           else if is_protected_path pieces then None
           else Some pieces)"

definition paths_overlap :: "string list \<Rightarrow> string list \<Rightarrow> bool" where
  "paths_overlap left right \<longleftrightarrow> prefix left right \<or> prefix right left"

text \<open>\<^verbatim>\<open>PurePosixPath(s).name\<close>.\<close>

definition path_name :: "string \<Rightarrow> string" where
  "path_name s =
     (let parts = filter (\<lambda>p. p \<noteq> '''' \<and> p \<noteq> ''.'') (split_on CHR ''/'' s)
      in if parts = [] then '''' else last parts)"

text \<open>
  \<^verbatim>\<open>lower\<close> as far as it can give ASCII text: the letters A to Z, and the Kelvin sign (U+212A), whose
  lower case is k.
\<close>

fun py_lower :: "string \<Rightarrow> string" where
  "py_lower (a # b # c # s) =
     (if a = CHR 0xE2 \<and> b = CHR 0x84 \<and> c = CHR 0xAA then CHR ''k'' # py_lower s
      else to_lower a # py_lower (b # c # s))"
| "py_lower (a # s) = to_lower a # py_lower s"
| "py_lower [] = []"

section \<open>Canonical texts\<close>

lemma unit_starts: "u \<in> fst ` set duration_units \<or> u \<in> fst ` set quantity_units \<Longrightarrow>
    \<exists>c t. u = c # t \<and> \<not> is_digit c \<and> c \<noteq> CHR ''.''"
proof -
  have "list_all (\<lambda>u. u \<noteq> [] \<and> \<not> is_digit (hd u) \<and> hd u \<noteq> CHR ''.'') (map fst (duration_units @ quantity_units))"
    by code_simp
  moreover assume "u \<in> fst ` set duration_units \<or> u \<in> fst ` set quantity_units"
  then have "u \<in> set (map fst (duration_units @ quantity_units))" by (simp add: image_Un)
  ultimately have "u \<noteq> [] \<and> \<not> is_digit (hd u) \<and> hd u \<noteq> CHR ''.''"
    unfolding list_all_iff by blast
  then show ?thesis by (cases u) auto
qed

lemma show_in_Some:
  assumes "show_in units v = Some s"
  shows "\<exists>u m. (u, m) \<in> set units \<and> v = v div m * m \<and> s = dec_nat (v div m) @ u"
  using assms
proof (induction units)
  case (Cons um units)
  obtain u m where um: "um = (u, m)" by fastforce
  show ?case
  proof (cases "v mod m = 0")
    case True
    then show ?thesis using Cons.prems um by (intro exI [of _ u] exI [of _ m]) auto
  next
    case False
    then have "show_in units v = Some s" using Cons.prems um by simp
    then show ?thesis using Cons.IH by auto
  qed
qed simp

lemma show_in_total: "(u, m) \<in> set units \<Longrightarrow> v mod m = 0 \<Longrightarrow> \<exists>s. show_in units v = Some s"
  by (induction units) auto

lemma positive_dec_nat: "0 < n \<Longrightarrow> positive_numeral (dec_nat n)"
  using dec_nat_digits [of n] dec_nat_positive [of n] by (simp add: positive_numeral_def)

lemma numeral_parts:
  assumes "(u, m) \<in> set duration_units \<or> (u, m) \<in> set quantity_units"
  shows "takeWhile is_digit (dec_nat n @ u) = dec_nat n \<and> dropWhile is_digit (dec_nat n @ u) = u"
proof -
  obtain c t where "u = c # t" "\<not> is_digit c" using unit_starts [of u] assms by force
  then show ?thesis using dec_nat_digits [of n] takeWhile_digits dropWhile_digits by metis
qed

lemma unit_value:
  "(u, m) \<in> set duration_units \<Longrightarrow> map_of duration_units u = Some m \<and> 0 < m"
  "(u, m) \<in> set quantity_units \<Longrightarrow> map_of quantity_units u = Some m \<and> 0 < m"
  by (auto simp: duration_units_def quantity_units_def)

lemma positive_numeral_value: "positive_numeral s \<Longrightarrow> 0 < dec_val s"
proof (induction s rule: rev_induct)
  case (snoc c s)
  show ?case
  proof (cases "s = []")
    case True
    then have d: "is_digit c" "c \<noteq> CHR ''0''" using snoc.prems by (auto simp: positive_numeral_def)
    then have "(of_char c :: nat) \<noteq> of_char CHR ''0''" by (metis of_char_eq_iff)
    then have "0 < digit_val c" using d(1) by (simp add: is_digit_def digit_val_def)
    then show ?thesis using True by (simp add: dec_val_def)
  next
    case False
    then have "positive_numeral s" using snoc.prems by (auto simp: positive_numeral_def)
    then show ?thesis using snoc.IH by simp
  qed
qed (simp add: positive_numeral_def)

definition duration_ok :: "nat \<Rightarrow> bool" where
  "duration_ok ms \<longleftrightarrow> 0 < ms \<and> ms \<le> max_duration"

definition show_duration :: "nat \<Rightarrow> string" where
  "show_duration ms = the (show_in duration_units ms)"

lemma parse_duration_ok: "parse_duration s = Some ms \<Longrightarrow> duration_ok ms"
  using positive_numeral_value [of "takeWhile is_digit s"]
  by (auto simp: parse_duration_def DURATION_PATTERN_def Let_def duration_ok_def duration_units_def split: if_split_asm)

lemma show_duration_Some: "show_in duration_units ms = Some (show_duration ms)"
  using show_in_total [of "''ms''" 1 duration_units ms] by (auto simp: duration_units_def show_duration_def)

lemma parse_show_duration: "duration_ok ms \<Longrightarrow> parse_duration (show_duration ms) = Some ms"
proof -
  assume ok: "duration_ok ms"
  obtain u m where u: "(u, m) \<in> set duration_units" "ms = ms div m * m" "show_duration ms = dec_nat (ms div m) @ u"
    using show_in_Some [OF show_duration_Some] by blast
  have "0 < ms div m" using u(2) ok by (metis duration_ok_def mult_is_0 neq0_conv)
  then have "positive_numeral (dec_nat (ms div m))" by (rule positive_dec_nat)
  moreover have "u \<in> fst ` set duration_units" using u(1) by force
  ultimately show ?thesis
    using numeral_parts [of u m "ms div m"] u unit_value(1) [OF u(1)] ok
    by (simp add: parse_duration_def DURATION_PATTERN_def duration_ok_def)
qed

interpretation duration: canonical_text parse_duration show_duration duration_ok
  by unfold_locales (auto intro: parse_duration_ok parse_show_duration)

lemma canonical_duration_eq: "canonical_duration s = map_option show_duration (parse_duration s)"
  by (simp add: canonical_duration_def show_duration_Some split: option.split)

text \<open>Quantities have a canonical text when they are whole KiB.\<close>

definition quantity_ok :: "nat \<Rightarrow> bool" where
  "quantity_ok n \<longleftrightarrow> 0 < n \<and> n \<le> max_quantity \<and> n mod 1024 = 0"

definition whole_quantity :: "string \<Rightarrow> nat option" where
  "whole_quantity s =
     (case parse_quantity s of None \<Rightarrow> None | Some n \<Rightarrow> if n mod 1024 = 0 then Some n else None)"

definition show_quantity :: "nat \<Rightarrow> string" where
  "show_quantity n = the (show_in quantity_units n)"

lemma parse_quantity_bounds: "parse_quantity s = Some n \<Longrightarrow> 0 < n \<and> n \<le> max_quantity"
  by (auto simp: parse_quantity_def split: option.split_asm if_split_asm)

lemma show_quantity_Some: "n mod 1024 = 0 \<Longrightarrow> show_in quantity_units n = Some (show_quantity n)"
  using show_in_total [of "''KiB''" 1024 quantity_units n] by (auto simp: quantity_units_def show_quantity_def)

lemma show_quantity_None: "n mod 1024 \<noteq> 0 \<Longrightarrow> show_in quantity_units n = None"
proof (rule ccontr)
  assume n: "n mod 1024 \<noteq> 0" and "show_in quantity_units n \<noteq> None"
  then obtain u m where m: "(u, m) \<in> set quantity_units" "n = n div m * m"
    using show_in_Some [of quantity_units n] by blast
  then have "1024 dvd m" by (auto simp: quantity_units_def)
  then have "1024 dvd n" using m(2) by (metis dvd_mult)
  then show False using n by (simp add: mod_eq_0_iff_dvd)
qed

lemma dec_nat_length: "n < 10 ^ k \<Longrightarrow> 0 < k \<Longrightarrow> length (dec_nat n) \<le> k"
proof (induction k arbitrary: n)
  case (Suc k)
  show ?case
  proof (cases "n < 10")
    case True
    then show ?thesis by (subst dec_nat.simps) simp
  next
    case False
    then have "0 < k" using Suc.prems by (cases k) auto
    moreover have "n div 10 < 10 ^ k" using Suc.prems by (simp add: less_mult_imp_div_less mult.commute)
    ultimately show ?thesis using Suc.IH [of "n div 10"] False by (subst dec_nat.simps) simp
  qed
qed simp

lemma decimal_exact: "c < 10 ^ 28 \<Longrightarrow> decimal_integral c 0 = Some c"
  using dec_nat_length [of c 28] by (simp add: decimal_integral_def decimal_round_def)

lemma whole_show_quantity: "quantity_ok n \<Longrightarrow> whole_quantity (show_quantity n) = Some n"
proof -
  assume ok: "quantity_ok n"
  then have mod: "n mod 1024 = 0" by (simp add: quantity_ok_def)
  obtain u m where u: "(u, m) \<in> set quantity_units" "n = n div m * m" "show_quantity n = dec_nat (n div m) @ u"
    using show_in_Some [OF show_quantity_Some [OF mod]] by metis
  have pos: "0 < n div m" using u(2) ok by (metis quantity_ok_def mult_is_0 neq0_conv)
  obtain c t where c: "u = c # t" "\<not> is_digit c" "c \<noteq> CHR ''.''" using unit_starts [of u] u(1) by force
  have unit: "u \<in> fst ` set quantity_units" using u(1) by force
  have "quantity_parts (show_quantity n) = Some (dec_nat (n div m), [], u)"
    using numeral_parts [of u m "n div m"] u(1,3) positive_dec_nat [OF pos] c unit
    by (simp add: quantity_parts_def)
  moreover have "n < 10 ^ 28" using ok by (simp add: quantity_ok_def max_quantity_def)
  ultimately show ?thesis
    using unit_value(2) [OF u(1)] u(2) ok decimal_exact [of n]
    by (simp add: whole_quantity_def parse_quantity_def quantity_ok_def)
qed

lemma whole_quantity_ok: "whole_quantity s = Some n \<Longrightarrow> quantity_ok n"
  using parse_quantity_bounds by (auto simp: whole_quantity_def quantity_ok_def split: option.split_asm if_split_asm)

interpretation quantity: canonical_text whole_quantity show_quantity quantity_ok
  by unfold_locales (auto intro: whole_quantity_ok whole_show_quantity)

lemma canonical_quantity_eq: "canonical_quantity s = map_option show_quantity (whole_quantity s)"
  by (simp add: canonical_quantity_def whole_quantity_def show_quantity_Some show_quantity_None split: option.split)

text \<open>
  The canonical text of a duration is canonical: it denotes the same number of milliseconds, is
  its own canonical text, and two durations have the same canonical text exactly when they last
  equally long; every duration that parses has one. The same holds of quantities, which have a
  canonical text exactly when they are whole multiples of 1024 bytes.
\<close>

theorem canonical_values:
  "(canonical_duration s = Some t \<longrightarrow> parse_duration t = parse_duration s \<and> canonical_duration t = Some t) \<and>
   (parse_duration s \<noteq> None \<longrightarrow> canonical_duration s \<noteq> None) \<and>
   (canonical_duration s = Some t \<and> canonical_duration s' = Some t' \<longrightarrow>
      (t = t' \<longleftrightarrow> parse_duration s = parse_duration s')) \<and>
   (canonical_quantity s = Some t \<longrightarrow> parse_quantity t = parse_quantity s \<and> canonical_quantity t = Some t) \<and>
   (canonical_quantity s \<noteq> None \<longleftrightarrow> (\<exists>n. parse_quantity s = Some n \<and> n mod 1024 = 0))"
proof (intro conjI impI)
  show "parse_duration t = parse_duration s" if "canonical_duration s = Some t"
    using that duration.canonical_value by (auto simp: canonical_duration_eq)
  show "canonical_duration t = Some t" if "canonical_duration s = Some t"
    using that duration.canonical_idem by (simp add: canonical_duration_eq)
  show "canonical_duration s \<noteq> None" if "parse_duration s \<noteq> None"
    using that by (simp add: canonical_duration_eq)
  show "t = t' \<longleftrightarrow> parse_duration s = parse_duration s'" if "canonical_duration s = Some t \<and> canonical_duration s' = Some t'"
    using that by (intro duration.canonical_unique) (simp_all add: canonical_duration_eq)
  show "canonical_quantity t = Some t" if "canonical_quantity s = Some t"
    using that quantity.canonical_idem by (simp add: canonical_quantity_eq)
  show "parse_quantity t = parse_quantity s" if "canonical_quantity s = Some t"
  proof -
    obtain n where n: "whole_quantity s = Some n" "t = show_quantity n"
      using \<open>canonical_quantity s = Some t\<close> by (auto simp: canonical_quantity_eq)
    then have "whole_quantity t = Some n" using quantity.canonical_value by simp
    then show ?thesis using n(1) by (auto simp: whole_quantity_def split: option.split_asm if_split_asm)
  qed
  show "canonical_quantity s \<noteq> None \<longleftrightarrow> (\<exists>n. parse_quantity s = Some n \<and> n mod 1024 = 0)"
    by (auto simp: canonical_quantity_eq whole_quantity_def split: option.split)
qed

theorem canonical_values_witness:
  "parse_duration ''2m'' = parse_duration ''120s'' \<and> canonical_duration ''2m'' = Some ''2m'' \<and>
   canonical_duration ''24h'' \<noteq> canonical_duration ''23h'' \<and> parse_quantity ''1MiB'' = parse_quantity ''1024KiB''"
proof -
  have texts: "canonical_duration ''120s'' = Some ''2m''" "canonical_duration ''24h'' = Some ''24h''"
    "canonical_duration ''23h'' = Some ''23h''" "canonical_quantity ''1024KiB'' = Some ''1MiB''"
    by code_simp+
  then show ?thesis
    using canonical_values [of "''120s''" "''2m''"] canonical_values [of "''1024KiB''" "''1MiB''"] by auto
qed

section \<open>Paths\<close>

lemma container_path_Some:
  assumes "container_path s = Some p"
  shows "p \<noteq> [] \<and> s = concat (map ((#) CHR ''/'') p) \<and>
    (\<forall>c \<in> set p. c \<notin> {'''', ''.'', ''..''} \<and> CHR ''/'' \<notin> set c) \<and>
    (\<forall>q \<in> set protected_paths. q \<noteq> [] \<longrightarrow> \<not> prefix q p)"
proof -
  have s: "s \<noteq> []" "hd s = CHR ''/''" and p: "p = tl (split_on CHR ''/'' s)" "p \<noteq> []"
    "\<not> list_ex (\<lambda>c. c \<in> {'''', ''.'', ''..''}) p" "\<not> is_protected_path p"
    using assms by (auto simp: container_path_def Let_def split: if_split_asm)
  obtain t where t: "s = CHR ''/'' # t" using s by (cases s) auto
  then have tp: "split_on CHR ''/'' t = p" using p(1) by simp
  have "concat (map ((#) d) ws) = (if ws = [] then [] else d # join_with d ws)" for d and ws :: "string list"
    by (induction d ws rule: join_with.induct) auto
  then have "s = concat (map ((#) CHR ''/'') p)" using t tp p(2) join_split [of "CHR ''/''" t] by auto
  moreover have "\<forall>c \<in> set p. CHR ''/'' \<notin> set c" using split_on_no_sep tp by blast
  moreover have "\<forall>c \<in> set p. c \<notin> {'''', ''.'', ''..''}" using p(3) by (simp add: list_ex_iff)
  moreover have "\<forall>q \<in> set protected_paths. q \<noteq> [] \<longrightarrow> \<not> prefix q p"
    using p(4) by (auto simp: is_protected_path_def list_ex_iff)
  ultimately show ?thesis using p(2) by blast
qed

end
