(* ===== verification/Hermesfile.thy ===== *)
theory Hermesfile
  imports Hermes_Values "HOL-Library.State_Monad"
begin

text \<open>
  The validator of Hermesfiles, \<^verbatim>\<open>_Validator\<close> and \<^verbatim>\<open>_validate_document\<close> of
  \<^verbatim>\<open>controller_api/hermesfile.py\<close>. The diagnostics are the state of a state monad; \<open>add\<close> keeps
  the bound of 100. A diagnostic has no message text here. Three tests of the standard library are
  parameters, the record \<open>tests\<close>: whether \<^verbatim>\<open>re.search\<close> finds \<^verbatim>\<open>SECRET_KEY_PATTERN\<close> or one of
  \<^verbatim>\<open>SECRET_VALUE_PATTERNS\<close>, and whether \<^verbatim>\<open>ipaddress.ip_network\<close> accepts a text.
\<close>

section \<open>Documents\<close>

text \<open>
  What the strict YAML loader constructs; \<open>YOther\<close> is the value of an explicit tag, bytes or a date
  (the sets of the tag \<^verbatim>\<open>!!set\<close> are left out).
\<close>

datatype yaml =
    YNull
  | YBool bool
  | YInt int
  | YFloat pyfloat
  | YStr string
  | YArr "yaml list"
  | YObj "(string \<times> yaml) list"
  | YOther

definition yhas :: "(string \<times> yaml) list \<Rightarrow> string \<Rightarrow> bool" where
  "yhas ms k \<longleftrightarrow> map_of ms k \<noteq> None"

definition yget :: "(string \<times> yaml) list \<Rightarrow> string \<Rightarrow> yaml" where
  "yget ms k = (case map_of ms k of None \<Rightarrow> YNull | Some v \<Rightarrow> v)"

definition yget_default :: "(string \<times> yaml) list \<Rightarrow> string \<Rightarrow> yaml \<Rightarrow> yaml" where
  "yget_default ms k d = (case map_of ms k of None \<Rightarrow> d | Some v \<Rightarrow> v)"

record tests =
  secret_key :: "string \<Rightarrow> bool"
  secret_value :: "string \<Rightarrow> bool"
  ip_network :: "string \<Rightarrow> bool"

section \<open>Diagnostics\<close>

datatype severity = Error | Warning

record diagnostic =
  dg_severity :: severity
  dg_code :: string
  dg_path :: string

type_synonym 'a check = "(diagnostic list, 'a) state"

definition skip :: "unit check" where "skip = State_Monad.return ()"

definition add_diagnostic :: "severity \<Rightarrow> string \<Rightarrow> string \<Rightarrow> unit check" where
  "add_diagnostic sev code path =
     State (\<lambda>ds. ((), if 100 \<le> length ds then ds
       else ds @ [\<lparr>dg_severity = sev, dg_code = code, dg_path = (if path = '''' then ''/'' else path)\<rparr>]))"

abbreviation add :: "string \<Rightarrow> string \<Rightarrow> unit check" where "add \<equiv> add_diagnostic Error"
abbreviation add_warning :: "string \<Rightarrow> string \<Rightarrow> unit check" where "add_warning \<equiv> add_diagnostic Warning"

definition has_errors :: "diagnostic list \<Rightarrow> bool" where
  "has_errors ds \<longleftrightarrow> list_ex (\<lambda>d. dg_severity d = Error) ds"

definition require_that :: "bool \<Rightarrow> string \<Rightarrow> string \<Rightarrow> unit check" where
  "require_that ok code path = (if ok then skip else add code path)"

text \<open>\<^verbatim>\<open>for index, item in enumerate(items)\<close>, and the results.\<close>

fun enumerate_from :: "nat \<Rightarrow> (nat \<Rightarrow> 'a \<Rightarrow> 'b check) \<Rightarrow> 'a list \<Rightarrow> 'b list check" where
  "enumerate_from n f [] = State_Monad.return []"
| "enumerate_from n f (x # xs) =
     do { y \<leftarrow> f n x; ys \<leftarrow> enumerate_from (n + 1) f xs; State_Monad.return (y # ys) }"

definition for_each :: "'a list \<Rightarrow> (nat \<Rightarrow> 'a \<Rightarrow> 'b check) \<Rightarrow> 'b list check" where
  "for_each xs f = enumerate_from 0 f xs"

definition escape :: "string \<Rightarrow> string" where
  "escape key = concat (map (\<lambda>c. if c = CHR ''~'' then ''~0'' else if c = CHR ''/'' then ''~1'' else [c]) key)"

definition child :: "string \<Rightarrow> string \<Rightarrow> string" where
  "child path key = path @ ''/'' @ escape key"

abbreviation item :: "string \<Rightarrow> nat \<Rightarrow> string" where "item path n \<equiv> child path (dec_nat n)"

section \<open>Checks of one value\<close>

definition exact_keys ::
  "yaml \<Rightarrow> string \<Rightarrow> string list \<Rightarrow> string list \<Rightarrow> (string \<times> yaml) list option check" where
  "exact_keys v path required optional =
     (case v of
        YObj ms \<Rightarrow>
          do {
            for_each (sort (filter (\<lambda>k. \<not> yhas ms k) required))
              (\<lambda>_ k. add ''required_field_missing'' (child path k));
            for_each (sort (filter (\<lambda>k. k \<notin> set required \<and> k \<notin> set optional) (map fst ms)))
              (\<lambda>_ k. add ''unknown_field'' (child path k));
            State_Monad.return (Some ms)
          }
      | _ \<Rightarrow> do { add ''invalid_type'' path; State_Monad.return None })"

text \<open>The keyword arguments of \<^verbatim>\<open>string\<close> and their defaults.\<close>

record text_rule =
  least :: nat
  most :: nat
  matches :: "(string \<Rightarrow> bool) option"
  choices :: "string list option"
  newlines :: bool

definition plain :: "nat \<Rightarrow> text_rule" where
  "plain n = \<lparr>least = 1, most = n, matches = None, choices = None, newlines = False\<rparr>"

definition string_check :: "yaml \<Rightarrow> string \<Rightarrow> text_rule \<Rightarrow> string option check" where
  "string_check v path rule =
     (case v of
        YStr s \<Rightarrow>
          if \<not> (least rule \<le> py_len s \<and> py_len s \<le> most rule)
          then do { add ''invalid_length'' path; State_Monad.return None }
          else
            do {
              require_that
                (\<not> list_ex (\<lambda>c. is_control c \<and> \<not> (newlines rule \<and> of_char c \<in> {9, 10 :: nat})) s \<and>
                 CHR 0x7F \<notin> set s) ''control_character_forbidden'' path;
              require_that (newlines rule \<or> CHR 0x0A \<notin> set s \<and> CHR 0x0D \<notin> set s)
                ''multiline_value_forbidden'' path;
              require_that (case matches rule of None \<Rightarrow> True | Some p \<Rightarrow> p s) ''invalid_format'' path;
              require_that (case choices rule of None \<Rightarrow> True | Some cs \<Rightarrow> s \<in> set cs) ''unsupported_value'' path;
              State_Monad.return (Some s)
            }
      | _ \<Rightarrow> do { add ''invalid_type'' path; State_Monad.return None })"

definition boolean_check :: "yaml \<Rightarrow> string \<Rightarrow> bool option \<Rightarrow> bool option check" where
  "boolean_check v path expected =
     (case v of
        YBool b \<Rightarrow>
          do {
            require_that (case expected of None \<Rightarrow> True | Some e \<Rightarrow> b = e) ''security_invariant_violation'' path;
            State_Monad.return (Some b)
          }
      | _ \<Rightarrow> do { add ''invalid_type'' path; State_Monad.return None })"

definition integer_check :: "yaml \<Rightarrow> string \<Rightarrow> int \<Rightarrow> int \<Rightarrow> int option check" where
  "integer_check v path minimum maximum =
     (case v of
        YInt n \<Rightarrow>
          do {
            require_that (minimum \<le> n \<and> n \<le> maximum) ''invalid_numeric_range'' path;
            State_Monad.return (Some n)
          }
      | _ \<Rightarrow> do { add ''invalid_type'' path; State_Monad.return None })"

definition number_check :: "yaml \<Rightarrow> string \<Rightarrow> int \<Rightarrow> int \<Rightarrow> unit check" where
  "number_check v path minimum maximum =
     (case v of
        YInt n \<Rightarrow> require_that (minimum < n \<and> n \<le> maximum) ''invalid_numeric_range'' path
      | YFloat (Finite m e) \<Rightarrow>
          require_that (0 < float_cmp m e minimum \<and> float_cmp m e maximum \<le> 0) ''invalid_numeric_range'' path
      | YFloat _ \<Rightarrow> add ''non_finite_number'' path
      | _ \<Rightarrow> add ''invalid_type'' path)"

definition somes :: "'a option list \<Rightarrow> 'a list" where
  "somes xs = concat (map (\<lambda>x. case x of None \<Rightarrow> [] | Some y \<Rightarrow> [y]) xs)"

definition string_list_check ::
  "yaml \<Rightarrow> string \<Rightarrow> nat \<Rightarrow> nat \<Rightarrow> nat \<Rightarrow> (string \<Rightarrow> bool) option \<Rightarrow> string list option check" where
  "string_list_check v path minimum maximum item_maximum pattern =
     (case v of
        YArr xs \<Rightarrow>
          do {
            require_that (minimum \<le> length xs \<and> length xs \<le> maximum) ''invalid_item_count'' path;
            parsed \<leftarrow> for_each xs (\<lambda>n x. string_check x (item path n) ((plain item_maximum)\<lparr>matches := pattern\<rparr>));
            require_that (length (somes parsed) \<noteq> length xs \<or> distinct (somes parsed)) ''duplicate_item'' path;
            State_Monad.return (Some (somes parsed))
          }
      | _ \<Rightarrow> do { add ''invalid_type'' path; State_Monad.return None })"

section \<open>Destinations and secrets\<close>

definition network_entry :: "tests \<Rightarrow> string \<Rightarrow> bool" where
  "network_entry x value =
     (if list_ex (\<lambda>marker. sublist marker value) [''://'', ''@'', ''?'', ''#'', ''/'', [CHR 0x5C]] then ip_network x value
      else if ip_network x value then True
      else if 253 < py_len value \<or> (value \<noteq> [] \<and> (last value = CHR ''.'' \<or> hd value = CHR ''.'')) then False
      else list_all HOST_LABEL_PATTERN (split_on CHR ''.'' value))"

definition secret_like :: "tests \<Rightarrow> string \<Rightarrow> bool" where
  "secret_like x value \<longleftrightarrow> sublist ''${'' value \<or> secret_value x value"

section \<open>The shape of a document\<close>

text \<open>\<^verbatim>\<open>s[:n]\<close>.\<close>

fun py_take :: "nat \<Rightarrow> string \<Rightarrow> string" where
  "py_take n [] = []"
| "py_take n (c # s) =
     (if utf8_continuation c then c # py_take n s
      else if n = 0 then [] else c # py_take (n - 1) s)"

text \<open>\<^verbatim>\<open>_validate_graph\<close>; \<open>n\<close> is the shared counter. A leaf is what is no object and no array.\<close>

definition graph_leaf :: "yaml \<Rightarrow> string \<Rightarrow> unit check" where
  "graph_leaf v path =
     (case v of
        YFloat f \<Rightarrow> (case f of Finite _ _ \<Rightarrow> skip | _ \<Rightarrow> add ''non_finite_number'' path)
      | YStr s \<Rightarrow>
          do {
            require_that (py_len s \<le> 16384) ''scalar_too_large'' path;
            require_that (CHR 0x00 \<notin> set s) ''nul_character_forbidden'' path
          }
      | YOther \<Rightarrow> add ''unsupported_yaml_type'' path
      | _ \<Rightarrow> skip)"

definition counted :: "nat \<Rightarrow> unit check \<Rightarrow> nat check" where
  "counted n m = do { m; State_Monad.return n }"

function (sequential) graph :: "yaml \<Rightarrow> string \<Rightarrow> nat \<Rightarrow> nat \<Rightarrow> nat check"
  and graph_items :: "nat \<Rightarrow> yaml list \<Rightarrow> string \<Rightarrow> nat \<Rightarrow> nat \<Rightarrow> nat check"
  and graph_members :: "(string \<times> yaml) list \<Rightarrow> string \<Rightarrow> nat \<Rightarrow> nat \<Rightarrow> nat check"
where
  "graph v path depth n =
     (if 10000 < n + 1 then counted (n + 1) (add ''document_too_complex'' ''/'')
      else if 32 < depth then counted (n + 1) (add ''document_too_deep'' path)
      else
        case v of
          YObj ms \<Rightarrow> graph_members ms path (depth + 1) (n + 1)
        | YArr xs \<Rightarrow> graph_items 0 xs path (depth + 1) (n + 1)
        | _ \<Rightarrow> counted (n + 1) (graph_leaf v path))"
| "graph_items i [] path depth n = State_Monad.return n"
| "graph_items i (x # xs) path depth n =
     do { n \<leftarrow> graph x (item path i) depth n; graph_items (i + 1) xs path depth n }"
| "graph_members [] path depth n = State_Monad.return n"
| "graph_members ((key, x) # ms) path depth n =
     do {
       require_that (py_len key \<le> 256) ''mapping_key_too_long'' (child path (py_take 32 key));
       n \<leftarrow> graph x (child path key) depth n;
       graph_members ms path depth n
     }"
  by pat_completeness auto

termination
  by (relation "measure (case_sum (\<lambda>(v, _). 2 * size v) (case_sum (\<lambda>(_, xs, _). 2 * size_list size xs + 1)
    (\<lambda>(ms, _). 2 * size_list (size_prod (\<lambda>_. 0) size) ms + 1)))") (auto split: yaml.split)

end
