(* ===== verification/Hermes_Document.thy ===== *)
theory Hermes_Document
  imports Hermesfile
begin

text \<open>
  \<^verbatim>\<open>_validate_document\<close> of \<^verbatim>\<open>controller_api/hermesfile.py\<close>, section by section in the order of the
  code. The table of a section is \<open>None\<close> when it is not an object; \<open>pattern\<close> and \<open>one_of\<close> give the
  keyword arguments of \<^verbatim>\<open>string\<close>.
\<close>

section \<open>Helpers\<close>

definition pattern :: "nat \<Rightarrow> (string \<Rightarrow> bool) \<Rightarrow> text_rule" where
  "pattern n p = (plain n)\<lparr>matches := Some p\<rparr>"

definition one_of :: "nat \<Rightarrow> string list \<Rightarrow> text_rule" where
  "one_of n cs = (plain n)\<lparr>choices := Some cs\<rparr>"

text \<open>\<^verbatim>\<open>if table is not None: ...\<close>.\<close>

definition given :: "'a option \<Rightarrow> ('a \<Rightarrow> unit check) \<Rightarrow> unit check" where
  "given x f = (case x of None \<Rightarrow> skip | Some a \<Rightarrow> f a)"

definition "when" :: "bool \<Rightarrow> unit check \<Rightarrow> unit check" where
  "when b m = (if b then m else skip)"

definition ignore :: "'a check \<Rightarrow> unit check" where
  "ignore m = do { m; skip }"

definition duration_check :: "yaml \<Rightarrow> string \<Rightarrow> unit check" where
  "duration_check v path =
     do {
       text \<leftarrow> string_check v path (pattern 32 DURATION_PATTERN);
       given text (\<lambda>s. require_that (parse_duration s \<noteq> None) ''invalid_duration'' path)
     }"

definition quantity_check :: "yaml \<Rightarrow> string \<Rightarrow> unit check" where
  "quantity_check v path =
     do {
       text \<leftarrow> string_check v path (pattern 32 QUANTITY_PATTERN);
       given text (\<lambda>s. require_that (parse_quantity s \<noteq> None) ''invalid_quantity'' path)
     }"

text \<open>A path that is a string but not a safe container path is reported; the path, if any, is kept.\<close>

definition path_check :: "yaml \<Rightarrow> string \<Rightarrow> string list option check" where
  "path_check v path =
     do {
       text \<leftarrow> string_check v path (plain 4096);
       (case text of
          None \<Rightarrow> State_Monad.return None
        | Some s \<Rightarrow>
            do {
              require_that (container_path s \<noteq> None) ''unsafe_container_path'' path;
              State_Monad.return (container_path s)
            })
     }"

section \<open>Commands\<close>

definition shell_names :: "string list" where
  "shell_names =
     [''ash'', ''bash'', ''cmd'', ''dash'', ''fish'', ''ksh'', ''powershell'', ''pwsh'', ''sh'', ''zsh'']"

definition shell_passthrough :: "string list \<Rightarrow> bool" where
  "shell_passthrough argv =
     (case argv of
        [] \<Rightarrow> False
      | program # args \<Rightarrow>
          (let executable = py_lower (path_name program)
           in case args of
                [] \<Rightarrow> executable \<in> set shell_names
              | arg # _ \<Rightarrow>
                  if executable \<in> {''env'', ''busybox''} then py_lower (path_name arg) \<in> set shell_names
                  else executable \<in> set shell_names))"

definition check_command :: "yaml \<Rightarrow> string \<Rightarrow> bool \<Rightarrow> unit check" where
  "check_command v path require_expect =
     do {
       table \<leftarrow> exact_keys v path
         ([''name'', ''run'', ''timeout''] @ (if require_expect then [''expectExitCode''] else []))
         [''workingDirectory''];
       given table (\<lambda>t.
         do {
           string_check (yget t ''name'') (child path ''name'') (pattern 63 NAME_PATTERN);
           argv \<leftarrow> string_list_check (yget t ''run'') (child path ''run'') 1 64 4096 None;
           given argv (\<lambda>as.
             do {
               require_that (\<not> shell_passthrough as) ''shell_execution_forbidden'' (child path ''run'');
               require_that (sum_list (map length as) \<le> 32768) ''command_too_large'' (child path ''run'')
             });
           duration_check (yget t ''timeout'') (child path ''timeout'');
           when (yhas t ''workingDirectory'')
             (ignore (path_check (yget t ''workingDirectory'') (child path ''workingDirectory'')));
           when require_expect
             (ignore (integer_check (yget t ''expectExitCode'') (child path ''expectExitCode'') 0 255))
         })
     }"

text \<open>The names of the commands that are objects with a text as name.\<close>

definition command_names :: "yaml list \<Rightarrow> string list" where
  "command_names vs =
     somes (map (\<lambda>v. case v of
         YObj t \<Rightarrow> (case yget t ''name'' of YStr s \<Rightarrow> Some s | _ \<Rightarrow> None)
       | _ \<Rightarrow> None) vs)"

definition check_commands :: "yaml list \<Rightarrow> string \<Rightarrow> bool \<Rightarrow> string \<Rightarrow> unit check" where
  "check_commands vs path require_expect duplicate =
     do {
       for_each vs (\<lambda>n v. check_command v (item path n) require_expect);
       require_that (distinct (command_names vs)) duplicate path
     }"

section \<open>Packages\<close>

datatype ecosystem = Apt | Python | Node

definition pinned :: "ecosystem \<Rightarrow> string \<Rightarrow> bool" where
  "pinned e package =
     (case e of
        Apt \<Rightarrow> CHR ''='' \<in> set package
      | Python \<Rightarrow> sublist ''=='' package \<or> sublist '' @ '' package
      | Node \<Rightarrow>
          (case last (split_on CHR ''/'' package) of
             [] \<Rightarrow> False
           | c # rest \<Rightarrow> if c = CHR ''@'' then CHR ''@'' \<in> set rest else CHR ''@'' \<in> set (c # rest)))"

definition check_packages :: "yaml \<Rightarrow> string \<Rightarrow> ecosystem \<Rightarrow> unit check" where
  "check_packages v path e =
     do {
       packages \<leftarrow> string_list_check v path 0 256 300 (Some PACKAGE_PATTERN);
       given packages (\<lambda>ps. ignore (for_each ps (\<lambda>n p.
         if pinned e p then skip else add_warning ''package_not_version_pinned'' (item path n))))
     }"

section \<open>Metadata and base\<close>

definition check_metadata :: "yaml \<Rightarrow> unit check" where
  "check_metadata v =
     do {
       table \<leftarrow> exact_keys v ''/metadata'' [''name''] [''displayName'', ''description'', ''labels''];
       given table (\<lambda>t.
         do {
           string_check (yget t ''name'') ''/metadata/name'' (pattern 63 NAME_PATTERN);
           when (yhas t ''displayName'')
             (ignore (string_check (yget t ''displayName'') ''/metadata/displayName'' (plain 120)));
           when (yhas t ''description'')
             (ignore (string_check (yget t ''description'') ''/metadata/description''
               ((plain 1000)\<lparr>least := 0, newlines := True\<rparr>)));
           when (yhas t ''labels'')
             (case yget t ''labels'' of
                YObj ls \<Rightarrow>
                  do {
                    require_that (length ls \<le> 64) ''too_many_labels'' ''/metadata/labels'';
                    ignore (for_each ls (\<lambda>_ (key, x).
                      do {
                        string_check (YStr key) (child ''/metadata/labels'' key) (pattern 63 LABEL_PATTERN);
                        string_check x (child ''/metadata/labels'' key) ((plain 120)\<lparr>least := 0\<rparr>)
                      }))
                  }
              | _ \<Rightarrow> add ''invalid_type'' ''/metadata/labels'')
         })
     }"

definition check_base :: "tests \<Rightarrow> yaml \<Rightarrow> unit check" where
  "check_base x v =
     do {
       table \<leftarrow> exact_keys v ''/spec/base'' [''image'', ''digest''] [''registry'', ''tag''];
       given table (\<lambda>t.
         do {
           when (yhas t ''registry'')
             (do {
                registry \<leftarrow> string_check (yget t ''registry'') ''/spec/base/registry'' (plain 253);
                given registry (\<lambda>s.
                  require_that
                    (\<not> (sublist ''://'' s \<or> CHR ''@'' \<in> set s \<or> CHR ''/'' \<in> set s \<or> secret_like x s))
                    ''invalid_registry'' ''/spec/base/registry'')
              });
           string_check (yget t ''image'') ''/spec/base/image'' (pattern 255 IMAGE_PATTERN);
           when (yhas t ''tag'') (ignore (string_check (yget t ''tag'') ''/spec/base/tag'' (plain 128)));
           ignore (string_check (yget t ''digest'') ''/spec/base/digest'' (pattern 71 DIGEST_PATTERN))
         })
     }"

section \<open>Build\<close>

definition check_apt :: "yaml \<Rightarrow> unit check" where
  "check_apt v =
     do {
       table \<leftarrow> exact_keys v ''/spec/build/apt'' [] [''update'', ''packages''];
       given table (\<lambda>t.
         do {
           when (yhas t ''update'') (ignore (boolean_check (yget t ''update'') ''/spec/build/apt/update'' None));
           when (yhas t ''packages'') (check_packages (yget t ''packages'') ''/spec/build/apt/packages'' Apt)
         })
     }"

definition check_python :: "yaml \<Rightarrow> unit check" where
  "check_python v =
     do {
       table \<leftarrow> exact_keys v ''/spec/build/python'' [] [''interpreter'', ''packages''];
       given table (\<lambda>t.
         do {
           when (yhas t ''interpreter'')
             (ignore (string_check (yget t ''interpreter'') ''/spec/build/python/interpreter''
               (one_of 16 [''python3'', ''python''])));
           when (yhas t ''packages'')
             (check_packages (yget t ''packages'') ''/spec/build/python/packages'' Python)
         })
     }"

definition check_node :: "yaml \<Rightarrow> unit check" where
  "check_node v =
     do {
       table \<leftarrow> exact_keys v ''/spec/build/node'' [] [''packageManager'', ''packages''];
       given table (\<lambda>t.
         do {
           when (yhas t ''packageManager'')
             (ignore (string_check (yget t ''packageManager'') ''/spec/build/node/packageManager''
               (one_of 16 [''npm'', ''pnpm'', ''yarn''])));
           when (yhas t ''packages'') (check_packages (yget t ''packages'') ''/spec/build/node/packages'' Node)
         })
     }"

definition check_environment :: "tests \<Rightarrow> yaml \<Rightarrow> unit check" where
  "check_environment x v =
     (case v of
        YObj ms \<Rightarrow>
          do {
            require_that (length ms \<le> 128) ''too_many_environment_variables'' ''/spec/build/environment'';
            ignore (for_each ms (\<lambda>_ (key, y).
              do {
                string_check (YStr key) (child ''/spec/build/environment'' key) (pattern 128 ENV_PATTERN);
                parsed \<leftarrow> string_check y (child ''/spec/build/environment'' key)
                  ((plain 4096)\<lparr>least := 0, newlines := True\<rparr>);
                require_that (\<not> secret_key x key) ''secret_environment_key_forbidden''
                  (child ''/spec/build/environment'' key);
                given parsed (\<lambda>s. require_that (\<not> secret_like x s) ''secret_like_value_forbidden''
                  (child ''/spec/build/environment'' key))
              }))
          }
      | _ \<Rightarrow> add ''invalid_type'' ''/spec/build/environment'')"

definition check_steps :: "yaml \<Rightarrow> unit check" where
  "check_steps v =
     (case v of
        YArr steps \<Rightarrow>
          do {
            require_that (length steps \<le> 128) ''invalid_item_count'' ''/spec/build/steps'';
            check_commands steps ''/spec/build/steps'' False ''duplicate_step_name''
          }
      | _ \<Rightarrow> add ''invalid_type'' ''/spec/build/steps'')"

definition check_build :: "tests \<Rightarrow> yaml \<Rightarrow> unit check" where
  "check_build x v =
     do {
       table \<leftarrow> exact_keys v ''/spec/build'' [] [''apt'', ''python'', ''node'', ''environment'', ''steps''];
       given table (\<lambda>t.
         do {
           when (yhas t ''apt'') (check_apt (yget t ''apt''));
           when (yhas t ''python'') (check_python (yget t ''python''));
           when (yhas t ''node'') (check_node (yget t ''node''));
           when (yhas t ''environment'') (check_environment x (yget t ''environment''));
           when (yhas t ''steps'') (check_steps (yget t ''steps''))
         })
     }"

section \<open>Workspace and runtime\<close>

definition check_identity :: "(string \<times> yaml) list \<Rightarrow> string \<Rightarrow> unit check" where
  "check_identity t key =
     do {
       parsed \<leftarrow> string_check (yget t key) (''/spec/workspace/'' @ key) (pattern 32 USER_PATTERN);
       require_that (parsed \<noteq> Some ''root'') ''root_identity_forbidden'' (''/spec/workspace/'' @ key)
     }"

definition check_workspace :: "yaml \<Rightarrow> string list option check" where
  "check_workspace v =
     do {
       table \<leftarrow> exact_keys v ''/spec/workspace'' [''user'', ''group'', ''directory'', ''sourceMode''] [];
       (case table of
          None \<Rightarrow> State_Monad.return None
        | Some t \<Rightarrow>
            do {
              check_identity t ''user'';
              check_identity t ''group'';
              path \<leftarrow> path_check (yget t ''directory'') ''/spec/workspace/directory'';
              string_check (yget t ''sourceMode'') ''/spec/workspace/sourceMode''
                (one_of 16 [''worktree'', ''clone'', ''readOnly'']);
              State_Monad.return path
            })
     }"

definition check_runtime :: "yaml \<Rightarrow> unit check" where
  "check_runtime v =
     do {
       table \<leftarrow> exact_keys v ''/spec/runtime'' [''cpu'', ''memory'', ''pids'', ''timeout'', ''stopGracePeriod'']
         [''tmpfsSize''];
       given table (\<lambda>t.
         do {
           number_check (yget t ''cpu'') ''/spec/runtime/cpu'' 0 256;
           when (yhas t ''memory'') (quantity_check (yget t ''memory'') ''/spec/runtime/memory'');
           when (yhas t ''tmpfsSize'') (quantity_check (yget t ''tmpfsSize'') ''/spec/runtime/tmpfsSize'');
           integer_check (yget t ''pids'') ''/spec/runtime/pids'' 16 65536;
           duration_check (yget t ''timeout'') ''/spec/runtime/timeout'';
           duration_check (yget t ''stopGracePeriod'') ''/spec/runtime/stopGracePeriod''
         })
     }"

section \<open>Network and security\<close>

definition check_policy :: "tests \<Rightarrow> (string \<times> yaml) list \<Rightarrow> string \<Rightarrow> unit check" where
  "check_policy x network phase =
     do {
       let path = ''/spec/network/'' @ phase;
       policy \<leftarrow> exact_keys (yget network phase) path [''mode'', ''allow''] [];
       given policy (\<lambda>t.
         do {
           mode \<leftarrow> string_check (yget t ''mode'') (path @ ''/mode'') (one_of 16 [''none'', ''allowlist'', ''full'']);
           allow \<leftarrow> string_list_check (yget t ''allow'') (path @ ''/allow'') 0 256 253 None;
           let entries = (case allow of None \<Rightarrow> [] | Some es \<Rightarrow> es);
           require_that (\<not> (mode = Some ''none'' \<and> entries \<noteq> [])) ''network_allowlist_forbidden'' (path @ ''/allow'');
           require_that (\<not> (mode = Some ''allowlist'' \<and> entries = [])) ''network_allowlist_required'' (path @ ''/allow'');
           when (mode = Some ''full'') (add_warning ''full_network_requires_policy'' (path @ ''/mode''));
           ignore (for_each entries (\<lambda>n e.
             require_that (network_entry x e \<and> \<not> secret_like x e) ''invalid_network_destination''
               (item (path @ ''/allow'') n)))
         })
     }"

definition check_network :: "tests \<Rightarrow> yaml \<Rightarrow> unit check" where
  "check_network x v =
     do {
       table \<leftarrow> exact_keys v ''/spec/network'' [''build'', ''runtime''] [];
       given table (\<lambda>t. do { check_policy x t ''build''; check_policy x t ''runtime'' })
     }"

definition check_capabilities :: "yaml \<Rightarrow> unit check" where
  "check_capabilities v =
     do {
       table \<leftarrow> exact_keys v ''/spec/security/capabilities'' [''drop'', ''add''] [];
       given table (\<lambda>t.
         do {
           drop_list \<leftarrow> string_list_check (yget t ''drop'') ''/spec/security/capabilities/drop'' 1 64 64 None;
           add_list \<leftarrow> string_list_check (yget t ''add'') ''/spec/security/capabilities/add'' 0 0 64 None;
           given drop_list (\<lambda>ds. require_that (''ALL'' \<in> set ds) ''security_invariant_violation''
             ''/spec/security/capabilities/drop'');
           given add_list (\<lambda>as. require_that (as = []) ''security_invariant_violation''
             ''/spec/security/capabilities/add'')
         })
     }"

definition check_security :: "yaml \<Rightarrow> unit check" where
  "check_security v =
     do {
       table \<leftarrow> exact_keys v ''/spec/security''
         [''privileged'', ''noNewPrivileges'', ''readOnlyRoot'', ''capabilities'', ''seccompProfile'',
          ''secrets'', ''allowDockerSocket'', ''allowDeviceAccess''] [];
       given table (\<lambda>t.
         do {
           boolean_check (yget t ''privileged'') ''/spec/security/privileged'' (Some False);
           boolean_check (yget t ''noNewPrivileges'') ''/spec/security/noNewPrivileges'' (Some True);
           boolean_check (yget t ''readOnlyRoot'') ''/spec/security/readOnlyRoot'' None;
           boolean_check (yget t ''secrets'') ''/spec/security/secrets'' (Some False);
           boolean_check (yget t ''allowDockerSocket'') ''/spec/security/allowDockerSocket'' (Some False);
           boolean_check (yget t ''allowDeviceAccess'') ''/spec/security/allowDeviceAccess'' (Some False);
           string_check (yget t ''seccompProfile'') ''/spec/security/seccompProfile'' (one_of 32 [''default'']);
           check_capabilities (yget t ''capabilities'')
         })
     }"

section \<open>Mounts\<close>

text \<open>What one mount contributes: its name, its type, and its target when that is a safe path.\<close>

record mount_info =
  mi_index :: nat
  mi_name :: "string option"
  mi_type :: "string option"
  mi_target :: "string list option"

definition check_mount :: "nat \<Rightarrow> yaml \<Rightarrow> mount_info option check" where
  "check_mount n v =
     do {
       let path = item ''/spec/mounts'' n;
       table \<leftarrow> exact_keys v path [''name'', ''type'', ''target'', ''readOnly''] [''size''];
       (case table of
          None \<Rightarrow> State_Monad.return None
        | Some t \<Rightarrow>
            do {
              name \<leftarrow> string_check (yget t ''name'') (path @ ''/name'') (pattern 63 NAME_PATTERN);
              kind \<leftarrow> string_check (yget t ''type'') (path @ ''/type'')
                (one_of 16 [''workspace'', ''cache'', ''tmpfs'', ''artifact'']);
              target \<leftarrow> string_check (yget t ''target'') (path @ ''/target'') (plain 4096);
              boolean_check (yget t ''readOnly'') (path @ ''/readOnly'') None;
              when (yhas t ''size'') (quantity_check (yget t ''size'') (path @ ''/size''));
              require_that (\<not> (kind = Some ''tmpfs'' \<and> \<not> yhas t ''size'')) ''tmpfs_size_required'' (path @ ''/size'');
              given target (\<lambda>s. require_that (container_path s \<noteq> None) ''unsafe_container_path'' (path @ ''/target''));
              State_Monad.return
                (Some \<lparr>mi_index = n, mi_name = name, mi_type = kind,
                       mi_target = (case target of None \<Rightarrow> None | Some s \<Rightarrow> container_path s)\<rparr>)
            })
     }"

type_synonym placed = "nat \<times> string \<times> string list"

definition placed_mounts :: "mount_info list \<Rightarrow> placed list" where
  "placed_mounts ms =
     somes (map (\<lambda>m. map_option (\<lambda>p. (mi_index m, (case mi_type m of None \<Rightarrow> '''' | Some k \<Rightarrow> k), p)) (mi_target m)) ms)"

definition target_path :: "nat \<Rightarrow> string" where
  "target_path n = ''/spec/mounts/'' @ dec_nat n @ ''/target''"

definition check_placement :: "string list option \<Rightarrow> placed list \<Rightarrow> placed \<Rightarrow> unit check" where
  "check_placement workspace all left =
     (case left of (i, kind, p) \<Rightarrow>
        do {
          require_that (\<not> (kind = ''workspace'' \<and> workspace \<noteq> None \<and> Some p \<noteq> workspace))
            ''workspace_mount_mismatch'' (target_path i);
          for_each all (\<lambda>_ (j, _, q).
            when (i < j) (require_that (\<not> paths_overlap p q) ''overlapping_mount_targets'' (target_path j)));
          require_that
            (\<not> (workspace \<noteq> None \<and> kind \<noteq> ''workspace'' \<and> paths_overlap p (the workspace)))
            ''workspace_mount_overlap'' (target_path i)
        })"

definition check_mounts :: "string list option \<Rightarrow> yaml \<Rightarrow> unit check" where
  "check_mounts workspace v =
     (case v of
        YArr vs \<Rightarrow>
          do {
            require_that (length vs \<le> 64) ''invalid_item_count'' ''/spec/mounts'';
            infos \<leftarrow> for_each vs check_mount;
            let ms = somes infos;
            require_that (distinct (somes (map mi_name ms))) ''duplicate_mount_name'' ''/spec/mounts'';
            require_that (length (filter (\<lambda>m. mi_type m = Some ''workspace'') ms) \<le> 1)
              ''duplicate_workspace_mount'' ''/spec/mounts'';
            ignore (for_each (placed_mounts ms) (\<lambda>_. check_placement workspace (placed_mounts ms)))
          }
      | _ \<Rightarrow> add ''invalid_type'' ''/spec/mounts'')"

section \<open>The document\<close>

definition check_validation :: "yaml \<Rightarrow> unit check" where
  "check_validation v =
     do {
       table \<leftarrow> exact_keys v ''/spec/validation'' [''commands''] [];
       given table (\<lambda>t.
         case yget t ''commands'' of
           YArr vs \<Rightarrow>
             do {
               require_that (1 \<le> length vs \<and> length vs \<le> 128) ''invalid_item_count'' ''/spec/validation/commands'';
               check_commands vs ''/spec/validation/commands'' True ''duplicate_validation_name''
             }
         | _ \<Rightarrow> add ''invalid_type'' ''/spec/validation/commands'')
     }"

definition check_spec :: "tests \<Rightarrow> (string \<times> yaml) list \<Rightarrow> unit check" where
  "check_spec x spec =
     do {
       check_base x (yget spec ''base'');
       check_build x (yget_default spec ''build'' (YObj []));
       workspace \<leftarrow> check_workspace (yget spec ''workspace'');
       check_runtime (yget spec ''runtime'');
       check_network x (yget spec ''network'');
       check_security (yget spec ''security'');
       check_mounts workspace (yget_default spec ''mounts'' (YArr []));
       check_validation (yget spec ''validation'')
     }"

definition API_VERSION :: string where "API_VERSION = ''hermesops.dev/v1''"
definition KIND :: string where "KIND = ''SandboxProfile''"

definition check_root :: "tests \<Rightarrow> yaml \<Rightarrow> unit check" where
  "check_root x document =
     do {
       root \<leftarrow> exact_keys document '''' [''apiVersion'', ''kind'', ''metadata'', ''spec''] [];
       given root (\<lambda>t.
         do {
           version \<leftarrow> string_check (yget t ''apiVersion'') ''/apiVersion'' (plain 64);
           require_that (version = None \<or> version = Some API_VERSION) ''unsupported_api_version'' ''/apiVersion'';
           kind \<leftarrow> string_check (yget t ''kind'') ''/kind'' (plain 64);
           require_that (kind = None \<or> kind = Some KIND) ''unsupported_kind'' ''/kind'';
           check_metadata (yget t ''metadata'');
           spec \<leftarrow> exact_keys (yget t ''spec'') ''/spec''
             [''base'', ''workspace'', ''runtime'', ''network'', ''security'', ''validation''] [''build'', ''mounts''];
           given spec (check_spec x)
         })
     }"

definition check_document :: "tests \<Rightarrow> yaml \<Rightarrow> unit check" where
  "check_document x document = do { graph document '''' 0 0; check_root x document }"

definition validate_document :: "tests \<Rightarrow> yaml \<Rightarrow> diagnostic list" where
  "validate_document x document = snd (run_state (check_document x document) [])"

end
