(* ===== verification/Hermes_Canonical.thy ===== *)
theory Hermes_Canonical
  imports Hermes_Document WebSocket_Frames
begin

text \<open>
  \<^verbatim>\<open>_canonicalize\<close> and \<^verbatim>\<open>validate_source\<close> of \<^verbatim>\<open>controller_api/hermesfile.py\<close>. An exception that
  \<^verbatim>\<open>_canonicalize\<close> does not catch (a missing key, a value of another type, a text without canonical
  form) is \<open>None\<close>. The document is canonicalized on a copy, so the assignments of the code are
  updates of the value. The last section has a document for the examples.
\<close>

section \<open>Canonical form\<close>

text \<open>\<^verbatim>\<open>d[k] = v\<close> and \<^verbatim>\<open>d.setdefault(k, v)\<close>.\<close>

fun yput :: "(string \<times> yaml) list \<Rightarrow> string \<Rightarrow> yaml \<Rightarrow> (string \<times> yaml) list" where
  "yput [] k v = [(k, v)]"
| "yput ((j, u) # ms) k v = (if j = k then (j, v) # ms else (j, u) # yput ms k v)"

definition ydefault :: "(string \<times> yaml) list \<Rightarrow> string \<Rightarrow> yaml \<Rightarrow> (string \<times> yaml) list" where
  "ydefault ms k v = (if yhas ms k then ms else yput ms k v)"

definition as_object :: "yaml option \<Rightarrow> (string \<times> yaml) list option" where
  "as_object v = (case v of Some (YObj ms) \<Rightarrow> Some ms | _ \<Rightarrow> None)"

text \<open>\<^verbatim>\<open>d[k] = f(d[k])\<close> for a text.\<close>

definition rewrite_text ::
  "(string \<Rightarrow> string option) \<Rightarrow> string \<Rightarrow> (string \<times> yaml) list \<Rightarrow> (string \<times> yaml) list option" where
  "rewrite_text f k ms =
     (case map_of ms k of
        Some (YStr s) \<Rightarrow> map_option (\<lambda>t. yput ms k (YStr t)) (f s)
      | _ \<Rightarrow> None)"

definition rewrite_if_present ::
  "(string \<Rightarrow> string option) \<Rightarrow> string \<Rightarrow> (string \<times> yaml) list \<Rightarrow> (string \<times> yaml) list option" where
  "rewrite_if_present f k ms = (if yhas ms k then rewrite_text f k ms else Some ms)"

text \<open>
  \<^verbatim>\<open>for x in v\<close> with a body that changes \<open>x\<close>: of a list the items, of a text its characters, of an
  object its keys; the last two are texts, which the body cannot change.
\<close>

fun collect :: "('a \<Rightarrow> 'b option) \<Rightarrow> 'a list \<Rightarrow> 'b list option" where
  "collect f [] = Some []"
| "collect f (x # xs) = do { y \<leftarrow> f x; ys \<leftarrow> collect f xs; Some (y # ys) }"

definition change_each :: "(yaml \<Rightarrow> yaml option) \<Rightarrow> yaml option \<Rightarrow> yaml option" where
  "change_each f v =
     (case v of
        Some (YArr vs) \<Rightarrow> map_option YArr (collect f vs)
      | Some (YStr s) \<Rightarrow> if list_all (\<lambda>c. f (YStr [c]) \<noteq> None) s then v else None
      | Some (YObj ms) \<Rightarrow> if list_all (\<lambda>(k, _). f (YStr k) \<noteq> None) ms then v else None
      | _ \<Rightarrow> None)"

definition canonical_command :: "yaml \<Rightarrow> yaml option" where
  "canonical_command v =
     (case v of
        YObj ms \<Rightarrow> map_option YObj (rewrite_text canonical_duration ''timeout'' ms)
      | _ \<Rightarrow> None)"

definition canonical_mount :: "yaml \<Rightarrow> yaml option" where
  "canonical_mount v =
     (case v of
        YObj ms \<Rightarrow> map_option YObj (rewrite_if_present canonical_quantity ''size'' ms)
      | YStr s \<Rightarrow> if sublist ''size'' s then None else Some v
      | YArr vs \<Rightarrow> if YStr ''size'' \<in> set vs then None else Some v
      | _ \<Rightarrow> None)"

text \<open>\<^verbatim>\<open>float.is_integer\<close>, and the integer.\<close>

definition whole_number :: "yaml \<Rightarrow> yaml" where
  "whole_number v =
     (case v of
        YFloat (Finite m e) \<Rightarrow>
          if 0 \<le> e then YInt (m * 2 ^ nat e)
          else if m mod 2 ^ nat (- e) = 0 then YInt (m div 2 ^ nat (- e)) else v
      | _ \<Rightarrow> v)"

definition tool_defaults :: "string \<Rightarrow> string \<Rightarrow> yaml \<Rightarrow> (string \<times> yaml) list \<Rightarrow> (string \<times> yaml) list option" where
  "tool_defaults tool option value build =
     (if yhas build tool then
        do {
          t \<leftarrow> as_object (map_of build tool);
          Some (yput build tool (YObj (ydefault (ydefault t option value) ''packages'' (YArr []))))
        }
      else Some build)"

definition canonical_build :: "(string \<times> yaml) list \<Rightarrow> (string \<times> yaml) list option" where
  "canonical_build build =
     do {
       let b0 = ydefault (ydefault build ''environment'' (YObj [])) ''steps'' (YArr []);
       b1 \<leftarrow> tool_defaults ''apt'' ''update'' (YBool True) b0;
       b2 \<leftarrow> tool_defaults ''python'' ''interpreter'' (YStr ''python3'') b1;
       tool_defaults ''node'' ''packageManager'' (YStr ''npm'') b2
     }"

definition canonical_runtime :: "(string \<times> yaml) list \<Rightarrow> (string \<times> yaml) list option" where
  "canonical_runtime runtime =
     do {
       r1 \<leftarrow> rewrite_text canonical_quantity ''memory'' runtime;
       r2 \<leftarrow> rewrite_if_present canonical_quantity ''tmpfsSize'' r1;
       r3 \<leftarrow> rewrite_text canonical_duration ''timeout'' r2;
       r4 \<leftarrow> rewrite_text canonical_duration ''stopGracePeriod'' r3;
       cpu \<leftarrow> map_of r4 ''cpu'';
       Some (yput r4 ''cpu'' (whole_number cpu))
     }"

definition canonicalize :: "yaml \<Rightarrow> yaml option" where
  "canonicalize document =
     do {
       root \<leftarrow> as_object (Some document);
       spec \<leftarrow> as_object (map_of root ''spec'');
       base \<leftarrow> as_object (map_of spec ''base'');
       let spec1 = ydefault (yput spec ''base'' (YObj (ydefault base ''registry'' (YStr ''docker.io'')))) ''build'' (YObj []);
       build \<leftarrow> as_object (map_of spec1 ''build'');
       build1 \<leftarrow> canonical_build build;
       let spec2 = ydefault (yput spec1 ''build'' (YObj build1)) ''mounts'' (YArr []);
       runtime \<leftarrow> as_object (map_of spec2 ''runtime'');
       runtime1 \<leftarrow> canonical_runtime runtime;
       let spec3 = yput spec2 ''runtime'' (YObj runtime1);
       steps \<leftarrow> change_each canonical_command (map_of build1 ''steps'');
       let spec4 = yput spec3 ''build'' (YObj (yput build1 ''steps'' steps));
       validation \<leftarrow> as_object (map_of spec4 ''validation'');
       commands \<leftarrow> change_each canonical_command (map_of validation ''commands'');
       let spec5 = yput spec4 ''validation'' (YObj (yput validation ''commands'' commands));
       mounts \<leftarrow> change_each canonical_mount (map_of spec5 ''mounts'');
       Some (YObj (yput root ''spec'' (YObj (yput spec5 ''mounts'' mounts))))
     }"

text \<open>
  \<^verbatim>\<open>json.dumps(..., allow_nan=False)\<close> raises for other types and for floats that are not finite;
  the result needs \<^verbatim>\<open>canonical["metadata"]["name"]\<close>.
\<close>

fun dumpable :: "yaml \<Rightarrow> bool" where
  "dumpable (YFloat (Finite _ _)) = True"
| "dumpable (YFloat _) = False"
| "dumpable (YArr vs) = list_all dumpable vs"
| "dumpable (YObj ms) = list_all (\<lambda>(k, v). dumpable v) ms"
| "dumpable YOther = False"
| "dumpable _ = True"

definition result_name :: "yaml \<Rightarrow> yaml option" where
  "result_name document =
     do {
       root \<leftarrow> as_object (Some document);
       metadata \<leftarrow> as_object (map_of root ''metadata'');
       map_of metadata ''name''
     }"

section \<open>The source\<close>

record report =
  rp_valid :: bool
  rp_diagnostics :: "diagnostic list"
  rp_canonical :: "yaml option"

definition rejected :: "string \<Rightarrow> report" where
  "rejected code =
     \<lparr>rp_valid = False, rp_diagnostics = [\<lparr>dg_severity = Error, dg_code = code, dg_path = ''/''\<rparr>], rp_canonical = None\<rparr>"

text \<open>
  \<open>load\<close> is \<^verbatim>\<open>yaml.load_all\<close> with the strict loader, \<open>None\<close> for a \<^verbatim>\<open>YAMLError\<close>. The result is
  \<open>None\<close> when an exception leaves \<^verbatim>\<open>validate_source\<close>. The digests and the JSON text of the result
  are functions of the source and of the canonical form.
\<close>

definition validate_source :: "tests \<Rightarrow> (string \<Rightarrow> yaml list option) \<Rightarrow> string \<Rightarrow> report option" where
  "validate_source x load raw =
     (if 256 * 1024 < length raw then Some (rejected ''source_too_large'')
      else if 8192 < count_list raw CHR 0x0A + 1 then Some (rejected ''source_too_many_lines'')
      else if \<not> utf8_ok (map (\<lambda>c. word_of_nat (of_char c)) raw) then Some (rejected ''invalid_utf8'')
      else if take 3 raw = [CHR 0xEF, CHR 0xBB, CHR 0xBF] then Some (rejected ''utf8_bom_forbidden'')
      else if CHR 0x00 \<in> set raw then Some (rejected ''nul_character_forbidden'')
      else
        (case load raw of
           None \<Rightarrow> Some (rejected ''yaml_parse_failed'')
         | Some documents \<Rightarrow>
             if length documents \<noteq> 1 then Some (rejected ''multiple_yaml_documents'')
             else
               (let document = hd documents; ds = validate_document x document
                in if has_errors ds
                   then Some \<lparr>rp_valid = False, rp_diagnostics = ds, rp_canonical = None\<rparr>
                   else
                     (case canonicalize document of
                        None \<Rightarrow> None
                      | Some canonical \<Rightarrow>
                          if \<not> dumpable canonical \<or> result_name canonical = None then None
                          else Some \<lparr>rp_valid = True, rp_diagnostics = ds, rp_canonical = Some canonical\<rparr>))))"

section \<open>A document\<close>

definition sample_command :: "(string \<times> yaml) list \<Rightarrow> yaml" where
  "sample_command extra =
     YObj ([(''name'', YStr ''unit''), (''run'', YArr [YStr ''pytest'']), (''timeout'', YStr ''120s'')] @ extra)"

definition sample_security :: "bool \<Rightarrow> yaml" where
  "sample_security privileged =
     YObj [(''privileged'', YBool privileged), (''noNewPrivileges'', YBool True), (''readOnlyRoot'', YBool True),
       (''capabilities'', YObj [(''drop'', YArr [YStr ''ALL'']), (''add'', YArr [])]),
       (''seccompProfile'', YStr ''default''), (''secrets'', YBool False), (''allowDockerSocket'', YBool False),
       (''allowDeviceAccess'', YBool False)]"

definition sample_policy :: yaml where
  "sample_policy = YObj [(''mode'', YStr ''none''), (''allow'', YArr [])]"

definition sample_document :: "yaml \<Rightarrow> yaml \<Rightarrow> string \<Rightarrow> bool \<Rightarrow> yaml" where
  "sample_document build mounts memory privileged =
     YObj [(''apiVersion'', YStr API_VERSION), (''kind'', YStr KIND), (''metadata'', YObj [(''name'', YStr ''demo'')]),
       (''spec'', YObj [
          (''base'', YObj [(''image'', YStr ''python''), (''digest'', YStr (''sha256:'' @ replicate 64 CHR ''a''))]),
          (''build'', build),
          (''workspace'', YObj [(''user'', YStr ''agent''), (''group'', YStr ''agent''),
             (''directory'', YStr ''/work''), (''sourceMode'', YStr ''clone'')]),
          (''runtime'', YObj [(''cpu'', YInt 2), (''memory'', YStr memory), (''pids'', YInt 256),
             (''timeout'', YStr ''60m''), (''stopGracePeriod'', YStr ''10s'')]),
          (''network'', YObj [(''build'', sample_policy), (''runtime'', sample_policy)]),
          (''security'', sample_security privileged),
          (''mounts'', mounts),
          (''validation'', YObj [(''commands'', YArr [sample_command [(''expectExitCode'', YInt 0)]])])])]"

definition sample_tests :: tests where
  "sample_tests = \<lparr>secret_key = \<lambda>_. False, secret_value = \<lambda>_. False, ip_network = \<lambda>_. False\<rparr>"

end
