(* ===== verification/Hermes_Soundness.thy ===== *)
theory Hermes_Soundness
  imports Hermes_Canonical
begin

text \<open>
  What an accepted Hermesfile is. A check always returns the same value and appends the same
  diagnostics, up to the bound of 100 (\<open>logging\<close>). \<open>sound f Q\<close> says that moreover, when it logs no
  error, its value satisfies \<open>Q\<close>; this is proved check by check, and gives for every section what
  holds of a document without errors. The bound is the catch: only a report of fewer than 100
  diagnostics shows that nothing was dropped.
\<close>

section \<open>Checks as logs\<close>

definition cap :: "diagnostic list \<Rightarrow> diagnostic list \<Rightarrow> diagnostic list" where
  "cap ds log = ds @ take (100 - length ds) log"

definition logs :: "'a check \<Rightarrow> 'a \<Rightarrow> diagnostic list \<Rightarrow> bool" where
  "logs f v log \<longleftrightarrow> (\<forall>ds. run_state f ds = (v, cap ds log))"

definition sound :: "'a check \<Rightarrow> ('a \<Rightarrow> bool) \<Rightarrow> bool" where
  "sound f Q \<longleftrightarrow> (\<exists>v log. logs f v log \<and> (\<not> has_errors log \<longrightarrow> Q v))"

definition logging :: "'a check \<Rightarrow> bool" where
  "logging f \<longleftrightarrow> sound f (\<lambda>_. True)"

named_theorems logging \<open>every check is a log\<close>
named_theorems sound_rules \<open>the soundness of a check at the end of a sequence\<close>
named_theorems sound_steps \<open>the soundness of a check followed by others\<close>

lemma cap_append: "cap (cap ds l1) l2 = cap ds (l1 @ l2)"
  by (simp add: cap_def min_def)

lemma has_errors_append [simp]: "has_errors (l1 @ l2) \<longleftrightarrow> has_errors l1 \<or> has_errors l2"
  by (simp add: has_errors_def)

lemma logs_return: "logs (State_Monad.return v) v []"
  by (simp add: logs_def cap_def)

lemma logs_bind:
  assumes "logs f v l1" "logs (g v) w l2"
  shows "logs (f \<bind> g) w (l1 @ l2)"
  using assms by (simp add: logs_def cap_append)

lemma logs_add:
  "logs (add_diagnostic sev code path) ()
     [\<lparr>dg_severity = sev, dg_code = code, dg_path = (if path = '''' then ''/'' else path)\<rparr>]"
  by (auto simp: logs_def add_diagnostic_def cap_def take_Cons')

lemma sound_mono:
  assumes "sound f P" "\<And>v. P v \<Longrightarrow> Q v"
  shows "sound f Q"
  using assms by (auto simp: sound_def)

lemma sound_logging: "sound f P \<Longrightarrow> logging f"
  unfolding logging_def by (erule sound_mono) simp

lemma sound_return [sound_rules]:
  assumes "Q v"
  shows "sound (State_Monad.return v) Q"
  unfolding sound_def by (rule exI [of _ v], rule exI [of _ "[]"]) (simp add: logs_return assms)

lemma sound_step:
  assumes "sound f P" "\<And>x. logging (g x)" "\<And>x. P x \<Longrightarrow> sound (g x) Q"
  shows "sound (f \<bind> g) Q"
proof -
  obtain v l1 where f: "logs f v l1" "\<not> has_errors l1 \<longrightarrow> P v" using assms(1) by (auto simp: sound_def)
  obtain w l2 where g: "logs (g v) w l2" "P v \<longrightarrow> \<not> has_errors l2 \<longrightarrow> Q w"
  proof (cases "P v")
    case True
    then show ?thesis using assms(3) [of v] that by (auto simp: sound_def)
  next
    case False
    then show ?thesis using assms(2) [of v] that by (auto simp: sound_def logging_def)
  qed
  have "logs (f \<bind> g) w (l1 @ l2)" by (rule logs_bind [of f v l1 g w l2, OF f(1) g(1)])
  moreover have "\<not> has_errors (l1 @ l2) \<longrightarrow> Q w" using f(2) g(2) by simp
  ultimately show ?thesis unfolding sound_def by blast
qed

lemma sound_pass:
  assumes "logging f" "\<And>x. logging (g x)" "\<And>x. sound (g x) Q"
  shows "sound (f \<bind> g) Q"
  by (rule sound_step [OF assms(1) [unfolded logging_def] assms(2)]) (rule assms(3))

lemma logging_bind [logging]:
  assumes "logging f" "\<And>x. logging (g x)"
  shows "logging (f \<bind> g)"
  using sound_pass [of f g "\<lambda>_. True"] assms by (simp add: logging_def)

lemma logging_return [logging]: "logging (State_Monad.return v)"
  unfolding logging_def by (rule sound_return) simp

lemma sound_skip [sound_rules]: "Q () \<Longrightarrow> sound skip Q"
  unfolding skip_def by (rule sound_return)

lemma logging_skip [logging]: "logging skip"
  unfolding logging_def by (rule sound_skip) simp

lemma sound_add [sound_rules]: "sound (add code path) Q"
  using logs_add [of Error code path] by (auto simp: sound_def has_errors_def)

lemma sound_warning [sound_rules]: "Q () \<Longrightarrow> sound (add_warning code path) Q"
  using logs_add [of Warning code path] by (auto simp: sound_def)

lemma logging_add [logging]: "logging (add_diagnostic sev code path)"
  using logs_add by (auto simp: logging_def sound_def)

lemma sound_add_step [sound_steps]: "(\<And>x. logging (g x)) \<Longrightarrow> sound (add code path \<bind> g) Q"
  by (rule sound_step [OF sound_add [of _ _ "\<lambda>_. False"]]) simp_all

lemma sound_require [sound_rules]: "(b \<Longrightarrow> Q ()) \<Longrightarrow> sound (require_that b code path) Q"
  unfolding require_that_def by (auto intro: sound_rules)

lemma logging_require [logging]: "logging (require_that b code path)"
  unfolding logging_def by (rule sound_require) simp

lemma sound_require_step [sound_steps]:
  "(\<And>x. logging (g x)) \<Longrightarrow> (b \<Longrightarrow> sound (g ()) Q) \<Longrightarrow> sound (require_that b code path \<bind> g) Q"
  by (rule sound_step [of _ "\<lambda>_. b"]) (auto intro: sound_rules)

lemma given_simps [simp]: "given None f = skip" "given (Some a) f = f a"
  by (simp_all add: given_def)

lemma logging_given [logging]: "(\<And>a. logging (f a)) \<Longrightarrow> logging (given x f)"
  by (cases x) (simp_all add: logging)

lemma logging_when [logging]: "logging m \<Longrightarrow> logging (when b m)"
  by (simp add: when_def logging)

lemma logging_ignore [logging]: "logging m \<Longrightarrow> logging (ignore m)"
  by (simp add: ignore_def logging)

lemma logging_option [logging]: "logging a \<Longrightarrow> (\<And>x. logging (b x)) \<Longrightarrow> logging (case v of None \<Rightarrow> a | Some x \<Rightarrow> b x)"
  by (cases v) auto

lemma sound_when: "sound m P \<Longrightarrow> sound (when b m) (\<lambda>_. b \<longrightarrow> P ())"
  unfolding when_def by (auto intro: sound_rules)

lemma sound_ignore: "sound m P \<Longrightarrow> sound (ignore m) (\<lambda>_. \<exists>v. P v)"
  unfolding ignore_def by (rule sound_step, assumption) (auto intro: sound_rules logging)

lemma sound_enumerate:
  assumes "\<And>k x. sound (f k x) (P k x)"
  shows "sound (enumerate_from n f xs) (\<lambda>ys. length ys = length xs \<and> (\<forall>k < length xs. P (n + k) (xs ! k) (ys ! k)))"
proof (induction xs arbitrary: n)
  case (Cons x xs)
  have "length (y # ys) = length (x # xs) \<and> (\<forall>k < length (x # xs). P (n + k) ((x # xs) ! k) ((y # ys) ! k))"
    if "P n x y" "length ys = length xs \<and> (\<forall>k < length xs. P (n + 1 + k) (xs ! k) (ys ! k))" for y ys
    using that by (auto simp: nth_Cons split: nat.split)
  moreover have "logging (enumerate_from (n + 1) f xs)" by (rule sound_logging [OF Cons.IH])
  ultimately show ?case
    unfolding enumerate_from.simps
    by (rule_tac sound_step [OF assms])
      (intro logging, assumption, rule sound_step [OF Cons.IH], intro logging, rule sound_return, blast)
qed (auto intro: sound_rules)

lemma sound_each_nth:
  "(\<And>n x. sound (f n x) (P n x)) \<Longrightarrow>
     sound (for_each xs f) (\<lambda>ys. length ys = length xs \<and> (\<forall>k < length xs. P k (xs ! k) (ys ! k)))"
  unfolding for_each_def using sound_enumerate [of f P 0 xs] by simp

lemma sound_each:
  assumes "\<And>n x. sound (f n x) (P x)"
  shows "sound (for_each xs f) (\<lambda>ys. list_all2 P xs ys)"
  by (rule sound_mono [OF sound_each_nth [of f "\<lambda>_. P"]]) (auto simp: assms list_all2_conv_all_nth)

lemma logging_each [logging]: "(\<And>n x. logging (f n x)) \<Longrightarrow> logging (for_each xs f)"
  by (rule sound_logging [OF sound_each [of f "\<lambda>_ _. True"]]) (simp add: logging_def)

lemma each_member: "list_all2 P xs ys \<Longrightarrow> x \<in> set xs \<Longrightarrow> \<exists>y. P x y"
  by (auto simp: list_all2_conv_all_nth in_set_conv_nth)

text \<open>A loop whose results are not used: its body holds of every item.\<close>

lemma sound_each_all:
  assumes "\<And>n x. sound (f n x) (\<lambda>_. P x)"
  shows "sound (for_each xs f) (\<lambda>_. \<forall>x \<in> set xs. P x)"
  by (rule sound_mono [OF sound_each [of f "\<lambda>x _. P x"]]) (use assms in \<open>auto dest: each_member\<close>)

section \<open>Values\<close>

lemma sort_filter_Nil: "sort (filter p xs) = [] \<longleftrightarrow> (\<forall>x \<in> set xs. \<not> p x)"
proof -
  have "sort (filter p xs) = [] \<longleftrightarrow> set (sort (filter p xs)) = {}" by (rule set_empty [symmetric])
  then show ?thesis by auto
qed

lemma sound_exact_keys:
  "sound (exact_keys v path required optional)
     (\<lambda>r. \<exists>ms. v = YObj ms \<and> r = Some ms \<and> (\<forall>k \<in> set required. yhas ms k) \<and>
        (\<forall>k \<in> fst ` set ms. k \<in> set required \<union> set optional))"
proof (cases v)
  case (YObj ms)
  have each: "sound (for_each ks (\<lambda>_ k. add code (child path k))) (\<lambda>_. ks = [])" for ks code
    by (rule sound_mono [OF sound_each_all [of _ "\<lambda>_. False"]]) (auto intro: sound_rules)
  show ?thesis
    unfolding YObj exact_keys_def yaml.case
    by (rule sound_step [OF each], intro logging, rule sound_step [OF each], intro logging, rule sound_return)
      (auto simp: sort_filter_Nil)
qed (auto simp: exact_keys_def intro!: sound_steps logging)

definition text_fits :: "text_rule \<Rightarrow> string \<Rightarrow> bool" where
  "text_fits rule s \<longleftrightarrow>
     least rule \<le> py_len s \<and> py_len s \<le> most rule \<and> CHR 0x7F \<notin> set s \<and>
     \<not> list_ex (\<lambda>c. is_control c \<and> \<not> (newlines rule \<and> of_char c \<in> {9, 10 :: nat})) s \<and>
     (case matches rule of None \<Rightarrow> True | Some p \<Rightarrow> p s) \<and>
     (case choices rule of None \<Rightarrow> True | Some cs \<Rightarrow> s \<in> set cs)"

lemma sound_string:
  "sound (string_check v path rule) (\<lambda>r. \<exists>s. v = YStr s \<and> r = Some s \<and> text_fits rule s)"
proof (cases v)
  case (YStr s)
  show ?thesis
    unfolding YStr string_check_def text_fits_def
    by (auto intro!: sound_steps sound_rules logging)
qed (auto simp: string_check_def intro!: sound_steps logging)

lemma sound_boolean:
  "sound (boolean_check v path expected) (\<lambda>r. \<exists>b. v = YBool b \<and> (\<forall>e. expected = Some e \<longrightarrow> b = e))"
  by (cases v) (auto simp: boolean_check_def intro!: sound_steps sound_rules logging)

lemma sound_integer:
  "sound (integer_check v path lo hi) (\<lambda>r. \<exists>n. v = YInt n \<and> lo \<le> n \<and> n \<le> hi)"
  by (cases v) (auto simp: integer_check_def intro!: sound_steps sound_rules logging)

lemma somes_map_Some [simp]: "somes (map Some xs) = xs"
  by (induction xs) (auto simp: somes_def)

lemma sound_string_list:
  "sound (string_list_check v path lo hi m p)
     (\<lambda>r. \<exists>ss. v = YArr (map YStr ss) \<and> r = Some ss \<and> lo \<le> length ss \<and> length ss \<le> hi \<and> distinct ss \<and>
        (\<forall>s \<in> set ss. text_fits ((plain m)\<lparr>matches := p\<rparr>) s))"
proof (cases v)
  case (YArr xs)
  let ?P = "\<lambda>x r. \<exists>s. x = YStr s \<and> r = Some s \<and> text_fits ((plain m)\<lparr>matches := p\<rparr>) s"
  have all: "\<exists>ss. xs = map YStr ss \<and> parsed = map Some ss \<and>
      (\<forall>s \<in> set ss. text_fits ((plain m)\<lparr>matches := p\<rparr>) s)" if "list_all2 ?P xs parsed" for parsed
    using that
  proof (induction rule: list_all2_induct)
    case (Cons x xs r rs)
    then obtain s ss where "x = YStr s" "r = Some s" "text_fits ((plain m)\<lparr>matches := p\<rparr>) s"
      "xs = map YStr ss" "rs = map Some ss" "\<forall>s \<in> set ss. text_fits ((plain m)\<lparr>matches := p\<rparr>) s" by auto
    then show ?case by (intro exI [of _ "s # ss"]) auto
  qed simp
  have body: "sound (for_each xs (\<lambda>n x. string_check x (item path n) ((plain m)\<lparr>matches := p\<rparr>)))
      (\<lambda>parsed. \<exists>ss. xs = map YStr ss \<and> parsed = map Some ss \<and> (\<forall>s \<in> set ss. text_fits ((plain m)\<lparr>matches := p\<rparr>) s))"
    by (rule sound_mono [OF sound_each [of _ ?P]]) (rule sound_string, rule all)
  show ?thesis
    unfolding YArr string_list_check_def yaml.case
    by (rule sound_require_step, intro logging, rule sound_logging [OF sound_string], rule sound_step [OF body])
      (auto intro!: sound_steps sound_rules logging)
qed (auto simp: string_list_check_def intro!: sound_steps logging)

lemmas logging_values [logging] =
  sound_logging [OF sound_exact_keys] sound_logging [OF sound_string] sound_logging [OF sound_boolean]
  sound_logging [OF sound_integer] sound_logging [OF sound_string_list]

lemmas sound_value_steps [sound_steps] =
  sound_step [OF sound_exact_keys] sound_step [OF sound_string] sound_step [OF sound_boolean]
  sound_step [OF sound_integer] sound_step [OF sound_string_list]

section \<open>Every check is a log\<close>

lemma logging_prod [logging]: "(\<And>a b. logging (f a b)) \<Longrightarrow> logging (case p of (a, b) \<Rightarrow> f a b)"
  by (cases p) auto

lemma logging_object [logging]:
  "(\<And>ms. logging (f ms)) \<Longrightarrow> logging other \<Longrightarrow> logging (case v of YObj ms \<Rightarrow> f ms | _ \<Rightarrow> other)"
  by (cases v) auto

lemma logging_array [logging]:
  "(\<And>vs. logging (f vs)) \<Longrightarrow> logging other \<Longrightarrow> logging (case v of YArr vs \<Rightarrow> f vs | _ \<Rightarrow> other)"
  by (cases v) auto

lemma logging_if [logging]: "logging a \<Longrightarrow> logging b \<Longrightarrow> logging (if c then a else b)"
  by simp

lemma logging_leaf: "logging (graph_leaf v path)"
  unfolding graph_leaf_def by (auto intro!: logging split: yaml.split pyfloat.split)

lemma logging_counted [logging]: "logging m \<Longrightarrow> logging (counted n m)"
  unfolding counted_def by (intro logging)

lemma logging_graph:
  "logging (graph v path depth n)"
  "logging (graph_items i xs path depth n)"
  "logging (graph_members ms path depth n)"
proof (induction v path depth n and i xs path depth n and ms path depth n rule: graph_graph_items_graph_members.induct)
  case (1 v path depth n)
  then show ?case
    unfolding graph.simps by (auto intro!: logging logging_leaf split: yaml.split)
qed (auto intro!: logging)

lemma logging_number: "logging (number_check v path lo hi)"
  by (auto simp: number_check_def split: yaml.split pyfloat.split intro!: logging)

lemma logging_duration: "logging (duration_check v path)"
  and logging_quantity: "logging (quantity_check v path)"
  and logging_path: "logging (path_check v path)"
  unfolding duration_check_def quantity_check_def path_check_def by (intro logging)+

lemmas logging_checks [logging] = logging_graph logging_number logging_duration logging_quantity logging_path

lemma logging_packages [logging]: "logging (check_packages v path e)"
  unfolding check_packages_def by (intro logging)

lemma logging_command [logging]: "logging (check_command v path b)"
  unfolding check_command_def by (intro logging)

lemma logging_commands [logging]: "logging (check_commands vs path b code)"
  unfolding check_commands_def by (intro logging)

lemma logging_metadata: "logging (check_metadata v)"
  unfolding check_metadata_def by (intro logging)

lemma logging_base: "logging (check_base x v)"
  unfolding check_base_def by (intro logging)

lemma logging_tools: "logging (check_apt v)" "logging (check_python v)" "logging (check_node v)"
    "logging (check_environment x v)" "logging (check_steps v)"
  unfolding check_apt_def check_python_def check_node_def check_environment_def check_steps_def by (intro logging)+

lemma logging_build: "logging (check_build x v)"
  unfolding check_build_def by (intro logging logging_tools)

lemma logging_workspace: "logging (check_workspace v)"
  unfolding check_workspace_def check_identity_def by (intro logging)

lemma logging_runtime: "logging (check_runtime v)"
  unfolding check_runtime_def by (intro logging)

lemma logging_network: "logging (check_network x v)"
  unfolding check_network_def check_policy_def Let_def by (intro logging)

lemma logging_security: "logging (check_security v)"
  unfolding check_security_def check_capabilities_def by (intro logging)

lemma logging_mount: "logging (check_mount n v)"
  unfolding check_mount_def Let_def by (intro logging)

lemma logging_mounts: "logging (check_mounts w v)"
  unfolding check_mounts_def check_placement_def Let_def by (intro logging logging_mount)

lemma logging_validation: "logging (check_validation v)"
  unfolding check_validation_def by (intro logging)

lemmas logging_sections = logging_metadata logging_base logging_build logging_workspace logging_runtime
  logging_network logging_security logging_mounts logging_validation

lemma logging_spec: "logging (check_spec x spec)"
  unfolding check_spec_def by (intro logging logging_sections)

lemma logging_root: "logging (check_root x v)"
  unfolding check_root_def by (intro logging logging_sections logging_spec)

section \<open>Sequences\<close>

text \<open>The value at a path of keys.\<close>

fun yat :: "yaml \<Rightarrow> string list \<Rightarrow> yaml" where
  "yat v [] = v"
| "yat v (k # ks) = (case v of YObj ms \<Rightarrow> yat (yget ms k) ks | _ \<Rightarrow> YNull)"

lemma sound_when_step:
  assumes "sound m P" "\<And>x. logging (g x)" "(b \<Longrightarrow> P ()) \<Longrightarrow> sound (g ()) Q"
  shows "sound (when b m \<bind> g) Q"
  by (rule sound_step [OF sound_when [OF assms(1)] assms(2)]) (auto intro: assms(3))

lemma sound_ignore_step:
  assumes "sound m P" "\<And>x. logging (g x)" "(\<And>v. P v \<Longrightarrow> sound (g ()) Q)"
  shows "sound (ignore m \<bind> g) Q"
  by (rule sound_step [OF sound_ignore [OF assms(1)] assms(2)]) (auto intro: assms(3))

lemma sound_duration: "sound (duration_check v path) (\<lambda>_. \<exists>s n. v = YStr s \<and> parse_duration s = Some n)"
  unfolding duration_check_def by (auto intro!: sound_steps sound_rules logging)

lemma sound_quantity: "sound (quantity_check v path) (\<lambda>_. \<exists>s n. v = YStr s \<and> parse_quantity s = Some n)"
  unfolding quantity_check_def by (auto intro!: sound_steps sound_rules logging)

lemma sound_path: "sound (path_check v path) (\<lambda>r. \<exists>s p. v = YStr s \<and> container_path s = Some p \<and> r = Some p)"
  unfolding path_check_def by (auto intro!: sound_steps sound_rules logging)

lemmas sound_document_steps [sound_steps] =
  sound_step [OF sound_duration] sound_step [OF sound_quantity] sound_step [OF sound_path]
  sound_when_step [OF sound_quantity] sound_when_step [OF sound_ignore [OF sound_path]]

section \<open>Commands\<close>

text \<open>
  The program is no shell by its name, and the first argument of \<^verbatim>\<open>env\<close> or \<^verbatim>\<open>busybox\<close> is none: further
  arguments are not looked at.
\<close>

definition names_no_shell :: "string list \<Rightarrow> bool" where
  "names_no_shell argv \<longleftrightarrow>
     py_lower (path_name (hd argv)) \<notin> set shell_names \<and>
     (py_lower (path_name (hd argv)) \<in> {''env'', ''busybox''} \<and> 1 < length argv \<longrightarrow>
        py_lower (path_name (argv ! 1)) \<notin> set shell_names)"

lemma passthrough_names: "Suc 0 \<le> length argv \<Longrightarrow> names_no_shell argv \<longleftrightarrow> \<not> shell_passthrough argv"
  by (cases argv; cases "tl argv")
    (auto simp: shell_passthrough_def names_no_shell_def Let_def shell_names_def)

definition safe_command :: "bool \<Rightarrow> yaml \<Rightarrow> bool" where
  "safe_command require_expect v \<longleftrightarrow>
     (\<exists>t name argv limit ms.
        v = YObj t \<and> yget t ''name'' = YStr name \<and> NAME_PATTERN name \<and>
        yget t ''run'' = YArr (map YStr argv) \<and> argv \<noteq> [] \<and> length argv \<le> 64 \<and> names_no_shell argv \<and> sum_list (map length argv) \<le> 32768 \<and>
        yget t ''timeout'' = YStr limit \<and> parse_duration limit = Some ms \<and>
        (yhas t ''workingDirectory'' \<longrightarrow>
           (\<exists>s p. yget t ''workingDirectory'' = YStr s \<and> container_path s = Some p)) \<and>
        (require_expect \<longrightarrow> (\<exists>n. yget t ''expectExitCode'' = YInt n \<and> 0 \<le> n \<and> n \<le> 255)))"

lemma map_YStr [simp]: "map YStr xs = map YStr ys \<longleftrightarrow> xs = ys"
  by (simp add: inj_map_eq_map inj_def)

lemma sound_command: "sound (check_command v path b) (\<lambda>_. safe_command b v)"
proof -
  have expect: "sound (when c (ignore (integer_check (yget t ''expectExitCode'') p 0 255)))
      (\<lambda>_. c \<longrightarrow> (\<exists>n. yget t ''expectExitCode'' = YInt n \<and> 0 \<le> n \<and> n \<le> 255))" for c t p
    by (rule sound_mono [OF sound_when [OF sound_ignore [OF sound_integer]]]) blast
  show ?thesis
    unfolding check_command_def
    by (auto intro!: sound_steps logging sound_mono [OF expect]
      simp: passthrough_names safe_command_def pattern_def plain_def text_fits_def)
qed

definition safe_commands :: "bool \<Rightarrow> yaml \<Rightarrow> bool" where
  "safe_commands require_expect v \<longleftrightarrow>
     (\<exists>vs. v = YArr vs \<and> length vs \<le> 128 \<and> list_all (safe_command require_expect) vs \<and> distinct (command_names vs))"

lemma sound_commands:
  "sound (check_commands vs path b code) (\<lambda>_. list_all (safe_command b) vs \<and> distinct (command_names vs))"
  unfolding check_commands_def
  by (rule sound_step [OF sound_each_all [OF sound_command]]) (auto simp: list_all_iff intro!: sound_rules logging)

lemma sound_steps_section: "sound (check_steps v) (\<lambda>_. safe_commands False v)"
  unfolding check_steps_def
  by (cases v) (auto simp: safe_commands_def intro!: sound_steps sound_rules logging sound_mono [OF sound_commands])

lemma sound_validation:
  "sound (check_validation v) (\<lambda>_. safe_commands True (yat v [''commands'']) \<and> yat v [''commands''] \<noteq> YArr [])"
  unfolding check_validation_def
  by (rule sound_steps, intro logging)
    (auto simp: safe_commands_def intro!: sound_steps sound_rules logging sound_mono [OF sound_commands] split: yaml.split)

section \<open>Environment and build\<close>

definition safe_environment :: "tests \<Rightarrow> yaml \<Rightarrow> bool" where
  "safe_environment x v \<longleftrightarrow>
     (\<exists>ms. v = YObj ms \<and>
        list_all (\<lambda>(key, y). ENV_PATTERN key \<and> \<not> secret_key x key \<and> (\<exists>s. y = YStr s \<and> \<not> secret_like x s)) ms)"

lemma sound_environment: "sound (check_environment x v) (\<lambda>_. safe_environment x v)"
proof -
  have entry: "sound
      (case p of (key, y) \<Rightarrow>
         do {
           string_check (YStr key) (child ''/spec/build/environment'' key) (pattern 128 ENV_PATTERN);
           parsed \<leftarrow> string_check y (child ''/spec/build/environment'' key)
             ((plain 4096)\<lparr>least := 0, newlines := True\<rparr>);
           require_that (\<not> secret_key x key) ''secret_environment_key_forbidden''
             (child ''/spec/build/environment'' key);
           given parsed (\<lambda>s. require_that (\<not> secret_like x s) ''secret_like_value_forbidden''
             (child ''/spec/build/environment'' key))
         })
      (\<lambda>_. case p of (key, y) \<Rightarrow> ENV_PATTERN key \<and> \<not> secret_key x key \<and> (\<exists>s. y = YStr s \<and> \<not> secret_like x s))" for p
    by (cases p) (auto simp: pattern_def plain_def text_fits_def intro!: sound_steps sound_rules logging)
  show ?thesis
    unfolding check_environment_def
    by (cases v) (auto simp: safe_environment_def list_all_iff
      intro!: sound_steps sound_rules logging sound_mono [OF sound_ignore [OF sound_each_all [OF entry]]])
qed

lemma sound_build:
  "sound (check_build x v)
     (\<lambda>_. \<exists>t. v = YObj t \<and> (yhas t ''environment'' \<longrightarrow> safe_environment x (yget t ''environment'')) \<and>
        (yhas t ''steps'' \<longrightarrow> safe_commands False (yget t ''steps'')))"
  unfolding check_build_def
  by (auto intro!: sound_step [OF sound_exact_keys] sound_pass [OF logging_when] sound_when_step [OF sound_environment]
    sound_mono [OF sound_when [OF sound_steps_section]] logging logging_tools)

section \<open>Workspace, runtime, network and security\<close>

definition plain_user :: "yaml \<Rightarrow> bool" where
  "plain_user v \<longleftrightarrow> (\<exists>s. v = YStr s \<and> USER_PATTERN s \<and> s \<noteq> ''root'')"

lemma sound_identity: "sound (check_identity t key) (\<lambda>_. plain_user (yget t key))"
  unfolding check_identity_def
  by (auto simp: plain_user_def pattern_def plain_def text_fits_def intro!: sound_steps sound_rules logging)

lemma logging_identity: "logging (check_identity t key)"
  by (rule sound_logging [OF sound_identity])

definition directory_of :: "yaml \<Rightarrow> string list option" where
  "directory_of v = (case yat v [''directory''] of YStr s \<Rightarrow> container_path s | _ \<Rightarrow> None)"

lemma sound_workspace:
  "sound (check_workspace v)
     (\<lambda>r. plain_user (yat v [''user'']) \<and> plain_user (yat v [''group'']) \<and>
        (\<exists>p. r = Some p \<and> directory_of v = Some p) \<and>
        yat v [''sourceMode''] \<in> YStr ` {''worktree'', ''clone'', ''readOnly''})"
  unfolding check_workspace_def
  by (rule sound_steps, intro logging logging_identity)
    (auto intro!: sound_step [OF sound_identity] sound_steps sound_rules logging logging_identity
      simp: directory_of_def one_of_def plain_def text_fits_def)

definition positive_cpu :: "yaml \<Rightarrow> bool" where
  "positive_cpu v \<longleftrightarrow>
     (\<exists>n. v = YInt n \<and> 0 < n \<and> n \<le> 256) \<or>
     (\<exists>m e. v = YFloat (Finite m e) \<and> 0 < float_cmp m e 0 \<and> float_cmp m e 256 \<le> 0)"

lemma sound_cpu: "sound (number_check v path 0 256) (\<lambda>_. positive_cpu v)"
  unfolding number_check_def positive_cpu_def
  by (auto split: yaml.split pyfloat.split intro!: sound_rules)

definition bounded_runtime :: "yaml \<Rightarrow> bool" where
  "bounded_runtime v \<longleftrightarrow>
     positive_cpu (yat v [''cpu'']) \<and>
     (\<exists>s n. yat v [''memory''] = YStr s \<and> parse_quantity s = Some n) \<and>
     (\<exists>n. yat v [''pids''] = YInt n \<and> 16 \<le> n \<and> n \<le> 65536) \<and>
     (\<exists>s n. yat v [''timeout''] = YStr s \<and> parse_duration s = Some n) \<and>
     (\<exists>s n. yat v [''stopGracePeriod''] = YStr s \<and> parse_duration s = Some n)"

lemma sound_runtime: "sound (check_runtime v) (\<lambda>_. bounded_runtime v)"
  unfolding check_runtime_def
  by (rule sound_steps, intro logging)
    (auto simp: bounded_runtime_def intro!: sound_step [OF sound_cpu] sound_steps sound_mono [OF sound_duration] logging)

definition safe_policy :: "tests \<Rightarrow> yaml \<Rightarrow> bool" where
  "safe_policy x v \<longleftrightarrow>
     (\<exists>mode es. yat v [''mode''] = YStr mode \<and> yat v [''allow''] = YArr (map YStr es) \<and>
        mode \<in> {''none'', ''allowlist'', ''full''} \<and>
        (mode = ''none'' \<longrightarrow> es = []) \<and> (mode = ''allowlist'' \<longrightarrow> es \<noteq> []) \<and>
        list_all (\<lambda>e. network_entry x e \<and> \<not> secret_like x e) es)"

lemma sound_policy: "sound (check_policy x network phase) (\<lambda>_. safe_policy x (yget network phase))"
proof -
  have warn: "sound (when c (add_warning code p)) (\<lambda>_. True)" for c code p
    by (rule sound_mono [OF sound_when [OF sound_warning [of "\<lambda>_. True"]]]) simp_all
  have entries: "sound (ignore (for_each es (\<lambda>n e.
        require_that (network_entry x e \<and> \<not> secret_like x e) code (item p n))))
      (\<lambda>_. list_all (\<lambda>e. network_entry x e \<and> \<not> secret_like x e) es)" for es code p
    by (rule sound_mono [OF sound_ignore [OF sound_each_all [of _ "\<lambda>e. network_entry x e \<and> \<not> secret_like x e"]]])
      (auto simp: list_all_iff intro: sound_require)
  show ?thesis
    unfolding check_policy_def Let_def
    by (rule sound_steps, intro logging)
      (auto intro!: sound_steps sound_step [OF warn] sound_mono [OF entries] logging
        simp: safe_policy_def one_of_def plain_def text_fits_def)
qed

lemma sound_network:
  "sound (check_network x v) (\<lambda>_. safe_policy x (yat v [''build'']) \<and> safe_policy x (yat v [''runtime'']))"
proof -
  have log: "logging (check_policy x t phase)" for t phase by (rule sound_logging [OF sound_policy])
  show ?thesis
    unfolding check_network_def
    by (rule sound_steps, intro logging log)
      (auto intro!: sound_step [OF sound_policy] sound_mono [OF sound_policy] log)
qed

definition unprivileged :: "yaml \<Rightarrow> bool" where
  "unprivileged v \<longleftrightarrow>
     yat v [''privileged''] = YBool False \<and> yat v [''noNewPrivileges''] = YBool True \<and>
     yat v [''secrets''] = YBool False \<and> yat v [''allowDockerSocket''] = YBool False \<and>
     yat v [''allowDeviceAccess''] = YBool False \<and> yat v [''seccompProfile''] = YStr ''default'' \<and>
     (\<exists>ds. yat v [''capabilities'', ''drop''] = YArr (map YStr ds) \<and> ''ALL'' \<in> set ds) \<and>
     yat v [''capabilities'', ''add''] = YArr []"

lemma sound_text: "sound (string_check v path rule) (\<lambda>r. \<exists>s. v = YStr s \<and> r = Some s)"
  by (rule sound_mono [OF sound_string]) blast

lemma sound_keys: "sound (exact_keys v path required optional) (\<lambda>r. \<exists>ms. v = YObj ms \<and> r = Some ms)"
  by (rule sound_mono [OF sound_exact_keys]) blast

lemma sound_capabilities:
  "sound (check_capabilities v)
     (\<lambda>_. (\<exists>ds. yat v [''drop''] = YArr (map YStr ds) \<and> ''ALL'' \<in> set ds) \<and> yat v [''add''] = YArr [])"
  unfolding check_capabilities_def
  by (rule sound_steps, intro logging) (auto intro!: sound_steps sound_rules logging)

lemma sound_security: "sound (check_security v) (\<lambda>_. unprivileged v)"
proof -
  have log: "logging (check_capabilities t)" for t by (rule sound_logging [OF sound_capabilities])
  have seccomp: "sound (string_check w path (one_of 32 [''default''])) (\<lambda>r. w = YStr ''default'')" for w path
    by (rule sound_mono [OF sound_string]) (auto simp: one_of_def text_fits_def)
  show ?thesis
    unfolding check_security_def
    by (rule sound_step [OF sound_keys], intro logging log)
      (auto intro!: sound_step [OF sound_boolean] sound_step [OF seccomp] sound_mono [OF sound_capabilities] logging log
        simp: unprivileged_def)
qed

section \<open>Mounts\<close>

definition mount_place :: "yaml \<Rightarrow> (string \<times> string list) option" where
  "mount_place v =
     (case (yat v [''type''], yat v [''target'']) of
        (YStr kind, YStr s) \<Rightarrow> map_option (Pair kind) (container_path s)
      | _ \<Rightarrow> None)"

definition tmpfs_sized :: "yaml \<Rightarrow> bool" where
  "tmpfs_sized v \<longleftrightarrow>
     yat v [''type''] \<noteq> YStr ''tmpfs'' \<or> (\<exists>s n. yat v [''size''] = YStr s \<and> parse_quantity s = Some n)"

lemma sound_mount:
  "sound (check_mount n v)
     (\<lambda>r. \<exists>name kind p. r = Some \<lparr>mi_index = n, mi_name = Some name, mi_type = Some kind, mi_target = Some p\<rparr> \<and>
        yat v [''name''] = YStr name \<and> mount_place v = Some (kind, p) \<and> tmpfs_sized v)"
  unfolding check_mount_def Let_def
  by (rule sound_step [OF sound_keys], intro logging)
    (auto intro!: sound_step [OF sound_text] sound_step [OF sound_boolean] sound_require_step
       sound_when_step [OF sound_quantity] sound_return logging
      simp: mount_place_def tmpfs_sized_def)

definition placement_ok :: "string list option \<Rightarrow> placed list \<Rightarrow> placed \<Rightarrow> bool" where
  "placement_ok workspace all left \<longleftrightarrow>
     (case left of (i, kind, p) \<Rightarrow>
        (\<forall>(j, _, q) \<in> set all. i < j \<longrightarrow> \<not> paths_overlap p q) \<and>
        (\<forall>w. workspace = Some w \<longrightarrow> (if kind = ''workspace'' then p = w else \<not> paths_overlap p w)))"

lemma sound_placement: "sound (check_placement workspace all left) (\<lambda>_. placement_ok workspace all left)"
proof -
  obtain i kind p where left: "left = (i, kind, p)" by (cases left)
  have later: "sound (case q of (j, _, r) \<Rightarrow> when (i < j) (require_that (\<not> paths_overlap p r) code (target_path j)))
      (\<lambda>_. case q of (j, _, r) \<Rightarrow> i < j \<longrightarrow> \<not> paths_overlap p r)" for q :: placed and code
    by (cases q) (auto simp: when_def intro!: sound_rules)
  show ?thesis
    unfolding check_placement_def left prod.case
    by (rule sound_require_step, intro logging, rule sound_step [OF sound_each_all [OF later]], intro logging,
        rule sound_require)
      (auto simp: placement_ok_def)
qed

lemma logging_placement: "logging (check_placement workspace all left)"
  by (rule sound_logging [OF sound_placement])

definition safe_mounts :: "string list \<Rightarrow> yaml \<Rightarrow> bool" where
  "safe_mounts workspace v \<longleftrightarrow>
     (\<exists>vs places. v = YArr vs \<and> length vs \<le> 64 \<and> map mount_place vs = map Some places \<and>
        sorted_wrt (\<lambda>a b. \<not> paths_overlap (snd a) (snd b)) places \<and>
        list_all (\<lambda>(kind, p). if kind = ''workspace'' then p = workspace else \<not> paths_overlap p workspace) places \<and>
        length (filter (\<lambda>(kind, _). kind = ''workspace'') places) \<le> 1 \<and> list_all tmpfs_sized vs)"

definition info_of :: "nat \<Rightarrow> string \<Rightarrow> string \<times> string list \<Rightarrow> mount_info" where
  "info_of k name place =
     \<lparr>mi_index = k, mi_name = Some name, mi_type = Some (fst place), mi_target = Some (snd place)\<rparr>"

lemma mount_infos:
  assumes "length rs = length vs"
    "\<forall>k < length vs. \<exists>name kind p. rs ! k = Some (info_of k name (kind, p)) \<and> mount_place (vs ! k) = Some (kind, p)"
  obtains ms places names where "rs = map Some ms" "map mount_place vs = map Some places"
    "ms = map (\<lambda>k. info_of k (names ! k) (places ! k)) [0..<length places]" "length places = length vs"
proof -
  define places where "places = map (\<lambda>v. the (mount_place v)) vs"
  define names where "names = map (\<lambda>r. the (mi_name (the r))) rs"
  have len: "length places = length vs" by (simp add: places_def)
  have "rs ! k = Some (info_of k (names ! k) (places ! k)) \<and> mount_place (vs ! k) = Some (places ! k)"
    if "k < length vs" for k
    using assms(2) that assms(1) by (fastforce simp: names_def places_def info_of_def)
  then have "rs = map Some (map (\<lambda>k. info_of k (names ! k) (places ! k)) [0..<length places])"
    "map mount_place vs = map Some places"
    by (auto intro!: nth_equalityI simp: len assms(1))
  then show thesis using that len by blast
qed

lemma info_of_select [simp]: "mi_index (info_of k n q) = k" "mi_type (info_of k n q) = Some (fst q)"
    "mi_target (info_of k n q) = Some (snd q)"
  by (simp_all add: info_of_def)

lemma placed_infos:
  "placed_mounts (map (\<lambda>k. info_of k (names ! k) (places ! k)) ks) = map (\<lambda>k. (k, places ! k)) ks"
  by (induction ks) (auto simp: placed_mounts_def somes_def)

lemma workspace_infos:
  assumes "length places = n"
  shows "length (filter ((\<lambda>m. mi_type m = Some w) \<circ> (\<lambda>k. info_of k (names ! k) (places ! k))) [0..<n]) =
    length (filter (\<lambda>(kind, _). kind = w) places)"
proof -
  have "filter (\<lambda>(kind, _). kind = w) places = filter (\<lambda>(kind, _). kind = w) (map ((!) places) [0..<length places])"
    by (simp add: map_nth)
  then show ?thesis using assms by (simp add: filter_map o_def split_def del: map_nth)
qed

lemma placements_ok:
  assumes "\<forall>left \<in> set (map (\<lambda>k. (k, places ! k)) [0..<length places]).
      placement_ok (Some w) (map (\<lambda>k. (k, places ! k)) [0..<length places]) left"
  shows "sorted_wrt (\<lambda>a b. \<not> paths_overlap (snd a) (snd b)) places \<and>
    list_all (\<lambda>(kind, p). if kind = ''workspace'' then p = w else \<not> paths_overlap p w) places"
proof -
  have ok: "placement_ok (Some w) (map (\<lambda>k. (k, places ! k)) [0..<length places]) (k, places ! k)"
    if "k < length places" for k
    using assms that by auto
  have "\<not> paths_overlap (snd (places ! i)) (snd (places ! j))" if "i < j" "j < length places" for i j
    using ok [of i] that by (fastforce simp: placement_ok_def)
  moreover have "(if kind = ''workspace'' then p = w else \<not> paths_overlap p w)" if "(kind, p) \<in> set places" for kind p
    using that ok by (force simp: placement_ok_def in_set_conv_nth)
  ultimately show ?thesis by (auto simp: sorted_wrt_iff_nth_less list_all_iff)
qed

lemma sound_mounts: "sound (check_mounts (Some w) v) (\<lambda>_. safe_mounts w v)"
proof (cases v)
  case (YArr vs)
  let ?Q = "\<lambda>n v r. \<exists>name kind p. r = Some (info_of n name (kind, p)) \<and> mount_place v = Some (kind, p) \<and> tmpfs_sized v"
  have mount: "sound (check_mount n v) (?Q n v)" for n v
    by (rule sound_mono [OF sound_mount]) (auto simp: info_of_def)
  show ?thesis
    unfolding YArr check_mounts_def yaml.case Let_def
  proof (rule sound_require_step, goal_cases)
    case 2
    show ?case
    proof (rule sound_step [OF sound_each_nth [of _ ?Q, OF mount]], goal_cases)
      case (2 rs)
      then obtain ms places names where ms: "rs = map Some ms" "map mount_place vs = map Some places"
        "ms = map (\<lambda>k. info_of k (names ! k) (places ! k)) [0..<length places]" "length places = length vs"
        by (elim conjE, rule_tac mount_infos [of rs vs]) blast+
      have sized: "list_all tmpfs_sized vs" using 2 by (auto simp: list_all_length)
      show ?case
        unfolding ms(1) somes_map_Some
        by (intro sound_require_step sound_mono [OF sound_ignore [OF sound_each_all [OF sound_placement]]] logging logging_placement)
          (use ms placements_ok [of places w] sized \<open>length vs \<le> 64\<close>
            in \<open>auto simp: safe_mounts_def placed_infos workspace_infos\<close>)
    qed (intro logging logging_placement)
  qed (intro logging logging_mount logging_placement)
qed (auto simp: check_mounts_def intro!: sound_rules)

section \<open>Documents\<close>

definition confined :: "tests \<Rightarrow> (string \<times> yaml) list \<Rightarrow> bool" where
  "confined x spec \<longleftrightarrow>
     unprivileged (yget spec ''security'') \<and> bounded_runtime (yget spec ''runtime'') \<and>
     plain_user (yat (yget spec ''workspace'') [''user'']) \<and> plain_user (yat (yget spec ''workspace'') [''group'']) \<and>
     safe_policy x (yat (yget spec ''network'') [''build'']) \<and>
     safe_policy x (yat (yget spec ''network'') [''runtime'']) \<and>
     (\<exists>w. directory_of (yget spec ''workspace'') = Some w \<and>
        safe_mounts w (yget_default spec ''mounts'' (YArr [])))"

definition commanded :: "tests \<Rightarrow> (string \<times> yaml) list \<Rightarrow> bool" where
  "commanded x spec \<longleftrightarrow>
     safe_commands True (yat (yget spec ''validation'') [''commands'']) \<and>
     yat (yget spec ''validation'') [''commands''] \<noteq> YArr [] \<and>
     (\<exists>build. yget_default spec ''build'' (YObj []) = YObj build \<and>
        (yhas build ''steps'' \<longrightarrow> safe_commands False (yget build ''steps'')) \<and>
        (yhas build ''environment'' \<longrightarrow> safe_environment x (yget build ''environment'')))"

lemma sound_spec: "sound (check_spec x spec) (\<lambda>_. confined x spec \<and> commanded x spec)"
proof -
  let ?w = "directory_of (yget spec ''workspace'')"
  have mounts: "sound (check_mounts r v) (\<lambda>_. \<exists>w. ?w = Some w \<and> safe_mounts w v)"
    if "\<exists>p. r = Some p \<and> ?w = Some p" for r v
    using that by (auto intro: sound_mono [OF sound_mounts])
  show ?thesis
    unfolding check_spec_def
    by (rule sound_pass, rule logging_base, intro logging logging_sections,
        rule sound_step [OF sound_build], intro logging logging_sections,
        rule sound_step [OF sound_workspace], intro logging logging_sections,
        rule sound_step [OF sound_runtime], intro logging logging_sections,
        rule sound_step [OF sound_network], intro logging logging_sections,
        rule sound_step [OF sound_security], intro logging logging_sections,
        rule sound_step [OF mounts], blast, intro logging logging_sections,
        rule sound_mono [OF sound_validation])
      (auto simp: confined_def commanded_def)
qed

lemma sound_document:
  "sound (check_document x document)
     (\<lambda>_. \<exists>spec. yat document [''spec''] = YObj spec \<and> confined x spec \<and> commanded x spec \<and>
        yat document [''apiVersion''] = YStr API_VERSION \<and> yat document [''kind''] = YStr KIND)"
  unfolding check_document_def
  by (rule sound_pass, rule logging_graph, rule logging_root, unfold check_root_def,
      rule sound_steps, intro logging logging_sections logging_spec)
    (auto intro!: sound_steps sound_pass [OF logging_metadata] logging logging_sections logging_spec
      sound_mono [OF sound_spec])

lemma sound_report:
  assumes "sound f Q" "\<not> has_errors (snd (run_state f []))" "length (snd (run_state f [])) < 100"
  shows "\<exists>v. Q v"
proof -
  obtain v log where log: "logs f v log" "\<not> has_errors log \<longrightarrow> Q v" using assms(1) by (auto simp: sound_def)
  then have "snd (run_state f []) = take 100 log" by (simp add: logs_def cap_def)
  then have "snd (run_state f []) = log" using assms(3) by simp
  then show ?thesis using log(2) assms(2) by auto
qed

end
