(* ===== verification/Hermes_Results.thy ===== *)
theory Hermes_Results
  imports Hermes_Soundness
begin

text \<open>
  The theorems about Hermesfiles: what the validator accepts is confined and runs no shell; its
  canonical form is a fixed point; and three ways the code leaves that path: a quantity without canonical
  form, a shell after an option, and a full report.
\<close>

section \<open>What is accepted\<close>

definition sample_mounts :: yaml where
  "sample_mounts = YArr [
     YObj [(''name'', YStr ''src''), (''type'', YStr ''workspace''), (''target'', YStr ''/work''),
       (''readOnly'', YBool False)],
     YObj [(''name'', YStr ''tmp''), (''type'', YStr ''tmpfs''), (''target'', YStr ''/scratch''),
       (''readOnly'', YBool False), (''size'', YStr ''64KiB'')]]"

definition sample_build :: yaml where
  "sample_build = YObj [(''environment'', YObj [(''LANG'', YStr ''C'')]), (''steps'', YArr [sample_command []])]"

definition sample_accepted :: yaml where
  "sample_accepted = sample_document sample_build sample_mounts ''2MiB'' False"

lemma sample_no_diagnostics: "validate_document sample_tests sample_accepted = []"
  by code_simp

lemma sample_report: "\<not> has_errors (validate_document sample_tests sample_accepted)"
    "length (validate_document sample_tests sample_accepted) < 100"
  by (simp_all add: sample_no_diagnostics has_errors_def)

text \<open>
  C10: a Hermesfile reported without an error, in fewer than 100 diagnostics, runs its sandbox
  confined: not privileged, no new privileges, the default seccomp profile, all capabilities dropped
  and none added, no secrets, no Docker socket, no devices; as a user and group other than root; with
  bounded resources; with a network policy for both phases whose destinations are valid and without
  secrets; and every mount has a safe container path, no two mounts overlap, the workspace mount is
  the workspace directory and no other mount touches that directory.
\<close>

theorem accepted_confined:
  assumes "\<not> has_errors (validate_document x document)" "length (validate_document x document) < 100"
  shows "\<exists>spec. yat document [''spec''] = YObj spec \<and> confined x spec"
  using sound_report [OF sound_document assms [unfolded validate_document_def]] by blast



theorem accepted_confined_witness:
  "\<exists>spec. yat sample_accepted [''spec''] = YObj spec \<and> confined sample_tests spec"
  by (rule accepted_confined [OF sample_report])


section \<open>Canonical forms are fixed points\<close>

lemma map_of_yput [simp]: "map_of (yput ms k v) = (map_of ms)(k \<mapsto> v)"
  by (induction ms k v rule: yput.induct) auto

lemma yput_same: "map_of ms k = Some v \<Longrightarrow> yput ms k v = ms"
  by (induction ms k v rule: yput.induct) (auto split: if_splits)

lemma yhas_yput [simp]: "yhas (yput ms k v) j \<longleftrightarrow> j = k \<or> yhas ms j"
  by (simp add: yhas_def)

lemma ydefault_present [simp]: "yhas ms k \<Longrightarrow> ydefault ms k v = ms"
  by (simp add: ydefault_def)

lemma yhas_ydefault [simp]: "yhas (ydefault ms k v) j \<longleftrightarrow> j = k \<or> yhas ms j"
  by (auto simp: ydefault_def)

lemma map_of_yhas: "map_of ms k = Some v \<Longrightarrow> yhas ms k"
  by (simp add: yhas_def)

lemma as_object_Some: "as_object v = Some ms \<longleftrightarrow> v = Some (YObj ms)"
  by (simp add: as_object_def split: option.split yaml.split)

text \<open>An entry that \<open>f\<close> leaves alone.\<close>

definition settled_text :: "(string \<Rightarrow> string option) \<Rightarrow> string \<Rightarrow> (string \<times> yaml) list \<Rightarrow> bool" where
  "settled_text f k ms \<longleftrightarrow> (\<exists>t. map_of ms k = Some (YStr t) \<and> f t = Some t)"

lemma settled_text_put [simp]: "j \<noteq> k \<Longrightarrow> settled_text f k (yput ms j v) \<longleftrightarrow> settled_text f k ms"
  by (simp add: settled_text_def)

lemma rewrite_text_settled: "settled_text f k ms \<Longrightarrow> rewrite_text f k ms = Some ms"
  by (auto simp: settled_text_def rewrite_text_def yput_same)

lemma rewrite_text_settles:
  assumes "rewrite_text f k ms = Some ns" "\<And>s t. f s = Some t \<Longrightarrow> f t = Some t"
  obtains t where "ns = yput ms k (YStr t)" "f t = Some t" "settled_text f k ns" "yhas ms k"
  using assms by (auto simp: rewrite_text_def settled_text_def map_of_yhas split: option.split_asm yaml.split_asm)

lemma canonical_duration_idem: "canonical_duration s = Some t \<Longrightarrow> canonical_duration t = Some t"
  using duration.canonical_idem by (simp add: canonical_duration_eq)

lemma canonical_quantity_idem: "canonical_quantity s = Some t \<Longrightarrow> canonical_quantity t = Some t"
  using quantity.canonical_idem by (simp add: canonical_quantity_eq)

lemma canonical_command_idem: "canonical_command v = Some w \<Longrightarrow> canonical_command w = Some w"
  by (auto simp: canonical_command_def split: yaml.split_asm
    elim!: rewrite_text_settles [OF _ canonical_duration_idem] dest: rewrite_text_settled)

lemma canonical_mount_idem: "canonical_mount v = Some w \<Longrightarrow> canonical_mount w = Some w"
  by (auto simp: canonical_mount_def rewrite_if_present_def split: yaml.split_asm if_split_asm
    elim!: rewrite_text_settles [OF _ canonical_quantity_idem] dest: rewrite_text_settled)

lemma collect_idem:
  assumes "\<And>x y. f x = Some y \<Longrightarrow> f y = Some y"
  shows "collect f xs = Some ys \<Longrightarrow> collect f ys = Some ys"
  by (induction xs arbitrary: ys) (auto simp: bind_eq_Some_conv assms)

lemma change_each_idem:
  assumes "\<And>x y. f x = Some y \<Longrightarrow> f y = Some y" "change_each f v = Some w"
  shows "change_each f (Some w) = Some w"
  using assms by (auto simp: change_each_def collect_idem split: option.split_asm yaml.split_asm if_split_asm)

lemma whole_number_idem [simp]: "whole_number (whole_number v) = whole_number v"
  by (auto simp: whole_number_def split: yaml.split pyfloat.split)

definition settled_tool :: "string \<Rightarrow> string \<Rightarrow> (string \<times> yaml) list \<Rightarrow> bool" where
  "settled_tool tool option build \<longleftrightarrow>
     map_of build tool = None \<or>
     (\<exists>t. map_of build tool = Some (YObj t) \<and> yhas t option \<and> yhas t ''packages'')"

lemma settled_tool_put [simp]: "j \<noteq> tool \<Longrightarrow> settled_tool tool option (yput ms j v) \<longleftrightarrow> settled_tool tool option ms"
  by (simp add: settled_tool_def)

lemma tool_defaults_settled: "settled_tool tool option b \<Longrightarrow> tool_defaults tool option v b = Some b"
  by (auto simp: settled_tool_def tool_defaults_def yhas_def as_object_def yput_same)

lemma tool_defaults_settles:
  assumes "tool_defaults tool option v b = Some c"
  shows "settled_tool tool option c \<and> (c = b \<or> (\<exists>t. c = yput b tool (YObj t)))"
  using assms
  by (auto simp: tool_defaults_def settled_tool_def as_object_Some bind_eq_Some_conv yhas_def [of b] split: if_split_asm)

definition settled_build :: "(string \<times> yaml) list \<Rightarrow> bool" where
  "settled_build b \<longleftrightarrow>
     yhas b ''environment'' \<and> yhas b ''steps'' \<and> settled_tool ''apt'' ''update'' b \<and>
     settled_tool ''python'' ''interpreter'' b \<and> settled_tool ''node'' ''packageManager'' b"

lemma canonical_build_settled: "settled_build b \<Longrightarrow> canonical_build b = Some b"
  by (simp add: settled_build_def canonical_build_def tool_defaults_settled)

lemma canonical_build_settles:
  assumes "canonical_build b = Some c"
  shows "settled_build c"
proof -
  let ?b0 = "ydefault (ydefault b ''environment'' (YObj [])) ''steps'' (YArr [])"
  obtain b1 b2 where steps: "tool_defaults ''apt'' ''update'' (YBool True) ?b0 = Some b1"
    "tool_defaults ''python'' ''interpreter'' (YStr ''python3'') b1 = Some b2"
    "tool_defaults ''node'' ''packageManager'' (YStr ''npm'') b2 = Some c"
    using assms by (auto simp: canonical_build_def bind_eq_Some_conv)
  note apt = tool_defaults_settles [OF steps(1)] and python = tool_defaults_settles [OF steps(2)]
    and node = tool_defaults_settles [OF steps(3)]
  have "yhas b1 ''environment''" "yhas b1 ''steps''" using apt by auto
  moreover have "settled_tool ''apt'' ''update'' b2" using apt python by auto
  ultimately show ?thesis using python node by (auto simp: settled_build_def)
qed

definition settled_runtime :: "(string \<times> yaml) list \<Rightarrow> bool" where
  "settled_runtime r \<longleftrightarrow>
     settled_text canonical_quantity ''memory'' r \<and>
     (yhas r ''tmpfsSize'' \<longrightarrow> settled_text canonical_quantity ''tmpfsSize'' r) \<and>
     settled_text canonical_duration ''timeout'' r \<and> settled_text canonical_duration ''stopGracePeriod'' r \<and>
     (\<exists>v. map_of r ''cpu'' = Some (whole_number v))"

lemma canonical_runtime_settled: "settled_runtime r \<Longrightarrow> canonical_runtime r = Some r"
  by (auto simp: settled_runtime_def canonical_runtime_def rewrite_text_settled rewrite_if_present_def yput_same)

lemma canonical_runtime_settles:
  assumes "canonical_runtime r = Some c"
  shows "settled_runtime c"
proof -
  obtain r1 r2 r3 r4 cpu where steps: "rewrite_text canonical_quantity ''memory'' r = Some r1"
    "rewrite_if_present canonical_quantity ''tmpfsSize'' r1 = Some r2"
    "rewrite_text canonical_duration ''timeout'' r2 = Some r3"
    "rewrite_text canonical_duration ''stopGracePeriod'' r3 = Some r4"
    "c = yput r4 ''cpu'' (whole_number cpu)"
    using assms by (auto simp: canonical_runtime_def bind_eq_Some_conv)
  obtain t1 where r1: "settled_text canonical_quantity ''memory'' r1"
    using steps(1) canonical_quantity_idem by (rule rewrite_text_settles)
  have r2: "settled_text canonical_quantity ''memory'' r2 \<and>
      (yhas r2 ''tmpfsSize'' \<longrightarrow> settled_text canonical_quantity ''tmpfsSize'' r2)"
  proof (cases "yhas r1 ''tmpfsSize''")
    case True
    then obtain t where "r2 = yput r1 ''tmpfsSize'' (YStr t)" "settled_text canonical_quantity ''tmpfsSize'' r2"
      using steps(2) canonical_quantity_idem by (auto simp: rewrite_if_present_def elim: rewrite_text_settles)
    then show ?thesis using r1 by simp
  next
    case False
    then show ?thesis using steps(2) r1 by (simp add: rewrite_if_present_def)
  qed
  obtain t3 where r3: "r3 = yput r2 ''timeout'' (YStr t3)" "settled_text canonical_duration ''timeout'' r3"
    using steps(3) canonical_duration_idem by (rule rewrite_text_settles)
  obtain t4 where r4: "r4 = yput r3 ''stopGracePeriod'' (YStr t4)" "settled_text canonical_duration ''stopGracePeriod'' r4"
    using steps(4) canonical_duration_idem by (rule rewrite_text_settles)
  show ?thesis using r2 r3 r4 steps(5) by (auto simp: settled_runtime_def)
qed

definition settled_spec :: "(string \<times> yaml) list \<Rightarrow> bool" where
  "settled_spec s \<longleftrightarrow>
     (\<exists>base build runtime validation steps commands mounts.
        map_of s ''base'' = Some (YObj base) \<and> yhas base ''registry'' \<and>
        map_of s ''build'' = Some (YObj build) \<and> settled_build build \<and>
        map_of build ''steps'' = Some steps \<and> change_each canonical_command (Some steps) = Some steps \<and>
        map_of s ''runtime'' = Some (YObj runtime) \<and> settled_runtime runtime \<and>
        map_of s ''validation'' = Some (YObj validation) \<and>
        map_of validation ''commands'' = Some commands \<and>
        change_each canonical_command (Some commands) = Some commands \<and>
        map_of s ''mounts'' = Some mounts \<and> change_each canonical_mount (Some mounts) = Some mounts)"

lemma canonicalize_settled:
  assumes "map_of root ''spec'' = Some (YObj s)" "settled_spec s"
  shows "canonicalize (YObj root) = Some (YObj root)"
proof -
  obtain base build runtime validation steps commands mounts where parts:
    "map_of s ''base'' = Some (YObj base)" "yhas base ''registry''" "map_of s ''build'' = Some (YObj build)"
    "canonical_build build = Some build" "map_of build ''steps'' = Some steps"
    "change_each canonical_command (Some steps) = Some steps" "map_of s ''runtime'' = Some (YObj runtime)"
    "canonical_runtime runtime = Some runtime" "map_of s ''validation'' = Some (YObj validation)"
    "map_of validation ''commands'' = Some commands"
    "change_each canonical_command (Some commands) = Some commands"
    "map_of s ''mounts'' = Some mounts" "change_each canonical_mount (Some mounts) = Some mounts"
    using assms(2) [unfolded settled_spec_def] canonical_build_settled canonical_runtime_settled by metis
  have same: "yput s ''base'' (YObj base) = s" "yput s ''build'' (YObj build) = s"
    "yput build ''steps'' steps = build" "yput s ''runtime'' (YObj runtime) = s"
    "yput validation ''commands'' commands = validation" "yput s ''validation'' (YObj validation) = s"
    "yput s ''mounts'' mounts = s" "yput root ''spec'' (YObj s) = root"
    using parts assms(1) by (simp_all only: yput_same)
  have keep: "ydefault base ''registry'' v = base" "ydefault s ''build'' v = s" "ydefault s ''mounts'' v = s" for v
    using parts(2) map_of_yhas [OF parts(3)] map_of_yhas [OF parts(12)] by (simp_all only: ydefault_present)
  have object: "as_object (Some (YObj ms)) = Some ms" for ms by (simp add: as_object_def)
  show ?thesis
    by (simp only: canonicalize_def object Option.bind.simps assms(1) parts same keep Let_def)
qed

lemma canonicalize_settles:
  assumes "canonicalize document = Some c"
  obtains root s where "c = YObj root" "map_of root ''spec'' = Some (YObj s)" "settled_spec s"
proof -
  obtain root spec base build b runtime rt steps validation commands mounts spec1 spec2 spec3 spec4 spec5 where c:
    "spec1 = ydefault (yput spec ''base'' (YObj (ydefault base ''registry'' (YStr ''docker.io'')))) ''build'' (YObj [])"
    "canonical_build build = Some b"
    "spec2 = ydefault (yput spec1 ''build'' (YObj b)) ''mounts'' (YArr [])"
    "canonical_runtime runtime = Some rt" "spec3 = yput spec2 ''runtime'' (YObj rt)"
    "change_each canonical_command (map_of b ''steps'') = Some steps"
    "spec4 = yput spec3 ''build'' (YObj (yput b ''steps'' steps))"
    "change_each canonical_command (map_of validation ''commands'') = Some commands"
    "spec5 = yput spec4 ''validation'' (YObj (yput validation ''commands'' commands))"
    "change_each canonical_mount (map_of spec5 ''mounts'') = Some mounts"
    "c = YObj (yput root ''spec'' (YObj (yput spec5 ''mounts'' mounts)))"
    using assms unfolding canonicalize_def as_object_Some bind_eq_Some_conv Let_def option.inject
    by (elim exE conjE) (rule that, (assumption | rule refl | erule sym)+)
  have base: "map_of (yput spec5 ''mounts'' mounts) ''base'' =
      Some (YObj (ydefault base ''registry'' (YStr ''docker.io'')))"
    unfolding c(1,3,5,7,9) by (simp add: ydefault_def)
  have "settled_build (yput b ''steps'' steps)"
    using canonical_build_settles [OF c(2)] by (simp add: settled_build_def)
  moreover have "change_each canonical_command (Some steps) = Some steps"
    by (rule change_each_idem [OF canonical_command_idem c(6)])
  moreover have "change_each canonical_command (Some commands) = Some commands"
    by (rule change_each_idem [OF canonical_command_idem c(8)])
  moreover have "change_each canonical_mount (Some mounts) = Some mounts"
    by (rule change_each_idem [OF canonical_mount_idem c(10)])
  ultimately have "settled_spec (yput spec5 ''mounts'' mounts)"
    unfolding settled_spec_def using base canonical_runtime_settles [OF c(4)] c(5,7,9) by simp
  then show thesis using that c(11) by simp
qed

text \<open>
  C36: the canonical form of a Hermesfile is a fixed point of the canonicalization: whatever the
  document, a form that was computed is its own canonical form, so its digest does not depend on how
  often it is computed.
\<close>

theorem canonical_form_stable:
  assumes "canonicalize document = Some c"
  shows "canonicalize c = Some c"
proof -
  obtain root s where "c = YObj root" "map_of root ''spec'' = Some (YObj s)" "settled_spec s"
    using assms by (rule canonicalize_settles)
  then show ?thesis by (simp add: canonicalize_settled)
qed

theorem canonical_form_stable_witness:
  "\<exists>c. canonicalize sample_accepted = Some c \<and> canonicalize c = Some c \<and>
     yat c [''spec'', ''runtime'', ''timeout''] = YStr ''1h'' \<and> yat c [''spec'', ''base'', ''registry''] = YStr ''docker.io''"
proof -
  have "\<exists>c. canonicalize sample_accepted = Some c \<and>
      yat c [''spec'', ''runtime'', ''timeout''] = YStr ''1h'' \<and> yat c [''spec'', ''base'', ''registry''] = YStr ''docker.io''"
  proof -
    have "map_option (\<lambda>c. (yat c [''spec'', ''runtime'', ''timeout''], yat c [''spec'', ''base'', ''registry'']))
        (canonicalize sample_accepted) = Some (YStr ''1h'', YStr ''docker.io'')"
      by code_simp
    then show ?thesis by auto
  qed
  then show ?thesis using canonical_form_stable by blast
qed

section \<open>A quantity without canonical form\<close>

definition fractional_memory :: yaml where
  "fractional_memory = sample_document (YObj []) (YArr []) ''1.5KiB'' False"

text \<open>
  A document whose memory limit is a quantity of whole bytes that is not a multiple of 1024, such
  as 1.5KiB, has no diagnostics and no canonical form: \<^verbatim>\<open>_canonical_quantity\<close> raises a
  \<^verbatim>\<open>ValueError\<close> that nothing catches, so \<^verbatim>\<open>validate_source\<close> raises instead of reporting.
\<close>

theorem fractional_memory_raises:
  "validate_document sample_tests fractional_memory = [] \<and>
   validate_source sample_tests (\<lambda>_. Some [fractional_memory]) ''memory: 1.5KiB'' = None"
proof
  show quiet: "validate_document sample_tests fractional_memory = []" by code_simp
  have "canonicalize fractional_memory = None" "utf8_ok (map (\<lambda>c. word_of_nat (of_char c)) ''memory: 1.5KiB'')"
    by code_simp+
  then show "validate_source sample_tests (\<lambda>_. Some [fractional_memory]) ''memory: 1.5KiB'' = None"
    by (simp add: validate_source_def Let_def quiet has_errors_def)
qed

text \<open>
  A shell that \<^verbatim>\<open>env\<close> runs after an option is not recognized: the command
  \<^verbatim>\<open>env -i sh -c id\<close> has no diagnostics, although the specification says that dispatching a shell
  through \<^verbatim>\<open>env\<close> is rejected.
\<close>

theorem env_option_runs_shell:
  "snd (run_state (check_command
     (YObj [(''name'', YStr ''x''), (''run'', YArr (map YStr [''env'', ''-i'', ''sh'', ''-c'', ''id''])), (''timeout'', YStr ''1s'')])
     ''/command'' False) []) = [] \<and>
   shell_passthrough [''env'', ''sh'', ''-c'', ''id'']"
  by code_simp

section \<open>A full report\<close>

text \<open>A check that fills the report with warnings.\<close>

definition floods :: "'a check \<Rightarrow> bool" where
  "floods f \<longleftrightarrow> (\<exists>v log. logs f v log \<and> 100 \<le> length log \<and> \<not> has_errors (take 100 log))"

lemma logs_run:
  assumes "logging f" "run_state f [] = (v, log)" "length log < 100"
  shows "logs f v log"
proof -
  obtain w l where l: "logs f w l" using assms(1) by (auto simp: logging_def sound_def)
  then have "(v, log) = (w, take 100 l)" using assms(2) by (simp add: logs_def cap_def)
  then show ?thesis using l assms(3) by auto
qed

lemma logs_quiet:
  assumes "logging f" "snd (run_state f []) = []"
  shows "\<exists>v. logs f v []"
proof -
  have "run_state f [] = (fst (run_state f []), [])" by (rule prod_eqI) (simp_all only: fst_conv snd_conv assms(2))
  then have "logs f (fst (run_state f [])) []" by (rule logs_run [OF assms(1)]) simp
  then show ?thesis by blast
qed

lemma floods_step:
  assumes "logs f v []" "floods (g v)"
  shows "floods (f \<bind> g)"
proof -
  obtain w log where "logs (g v) w log" "100 \<le> length log" "\<not> has_errors (take 100 log)"
    using assms(2) by (auto simp: floods_def)
  then show ?thesis using logs_bind [of f v "[]" g w log, OF assms(1)] by (auto simp: floods_def)
qed

lemma floods_pass:
  assumes "logging f" "snd (run_state f []) = []" "\<And>v. floods (g v)"
  shows "floods (f \<bind> g)"
  using logs_quiet [OF assms(1,2)] floods_step [of f _ g] assms(3) by blast

lemma floods_then:
  assumes "floods f" "\<And>x. logging (g x)"
  shows "floods (f \<bind> g)"
proof -
  obtain v log where f: "logs f v log" "100 \<le> length log" "\<not> has_errors (take 100 log)"
    using assms(1) by (auto simp: floods_def)
  obtain w l where "logs (g v) w l" using assms(2) [of v] by (auto simp: logging_def sound_def)
  then have "logs (f \<bind> g) w (log @ l)" by (rule logs_bind [of f v log g w l, OF f(1)])
  moreover have "take 100 (log @ l) = take 100 log" using f(2) by simp
  ultimately show ?thesis unfolding floods_def using f(2,3) by (metis length_append trans_le_add1)
qed

lemma floods_report:
  assumes "floods f"
  shows "length (snd (run_state f [])) = 100 \<and> \<not> has_errors (snd (run_state f []))"
  using assms by (auto simp: floods_def logs_def cap_def)

lemma logs_keys:
  assumes "list_all (yhas ms) required" "list_all (\<lambda>k. k \<in> set required \<or> k \<in> set optional) (map fst ms)"
  shows "logs (exact_keys (YObj ms) path required optional) (Some ms) []"
proof -
  have "filter (\<lambda>k. \<not> yhas ms k) required = []"
    "filter (\<lambda>k. k \<notin> set required \<and> k \<notin> set optional) (map fst ms) = []"
    using assms by (auto simp: filter_empty_conv list_all_iff)
  then show ?thesis by (auto simp: exact_keys_def for_each_def logs_def cap_def)
qed

lemma logs_skip: "logs skip () []"
  unfolding skip_def by (rule logs_return)

lemma skip_bind: "skip \<bind> g = g ()"
  by (rule state.expand) (auto simp: skip_def)

lemma when_simps: "when True m = m" "when False m = skip"
  by (simp_all add: when_def)

lemma logs_warnings:
  "\<exists>vs. logs (enumerate_from n (\<lambda>n p. if q p then skip else add_warning code (item path n)) ps) vs
     (map (\<lambda>(n, _). \<lparr>dg_severity = Warning, dg_code = code, dg_path = item path n\<rparr>)
        (filter (\<lambda>(_, p). \<not> q p) (zip [n..<n + length ps] ps)))"
proof (induction ps arbitrary: n)
  case (Cons p ps)
  let ?step = "\<lambda>n p. if q p then skip else add_warning code (item path n)"
  let ?w = "\<lparr>dg_severity = Warning, dg_code = code, dg_path = item path n\<rparr>"
  let ?rest = "map (\<lambda>(n, _). \<lparr>dg_severity = Warning, dg_code = code, dg_path = item path n\<rparr>)
      (filter (\<lambda>(_, p). \<not> q p) (zip [Suc n..<Suc n + length ps] ps))"
  obtain vs where vs: "logs (enumerate_from (n + 1) ?step ps) vs ?rest" using Cons.IH [of "n + 1"] by auto
  have "logs (?step n p) () (if q p then [] else [?w])"
    using logs_return [of "()"] logs_add [of Warning code "item path n"] by (simp add: skip_def child_def)
  moreover have "logs (enumerate_from (n + 1) ?step ps \<bind> (\<lambda>ys. State_Monad.return (() # ys))) (() # vs) (?rest @ [])"
    by (rule logs_bind [OF vs logs_return])
  ultimately have "logs (enumerate_from n ?step (p # ps)) (() # vs) ((if q p then [] else [?w]) @ ?rest @ [])"
    unfolding enumerate_from.simps by (rule logs_bind)
  moreover have "[n..<n + length (p # ps)] = n # [Suc n..<Suc n + length ps]" by (simp add: upt_conv_Cons del: upt_Suc)
  ultimately show ?case by (auto simp del: upt_Suc split: if_splits)
qed (auto intro: logs_return)

lemma floods_packages:
  assumes "run_state (string_list_check v path 0 256 300 (Some PACKAGE_PATTERN)) [] = (Some ps, [])"
    "list_all (\<lambda>p. \<not> pinned e p) ps" "100 \<le> length ps"
  shows "floods (check_packages v path e)"
proof -
  let ?body = "\<lambda>n p. if pinned e p then skip else add_warning ''package_not_version_pinned'' (item path n)"
  let ?log = "map (\<lambda>(n, _). \<lparr>dg_severity = Warning, dg_code = ''package_not_version_pinned'', dg_path = item path n\<rparr>)
      (filter (\<lambda>(_, p). \<not> pinned e p) (zip [0..<0 + length ps] ps))"
  obtain vs where vs: "logs (for_each ps ?body) vs ?log"
    unfolding for_each_def using logs_warnings [where q = "pinned e"] by blast
  have "filter (\<lambda>(_, p). \<not> pinned e p) (zip [0..<0 + length ps] ps) = zip [0..<0 + length ps] ps"
    using assms(2) by (auto simp: filter_id_conv list_all_iff dest: set_zip_rightD)
  then have "100 \<le> length ?log" using assms(3) by simp
  moreover have "\<not> has_errors (take 100 ?log)"
    by (auto simp: has_errors_def list_ex_iff dest!: in_set_takeD)
  moreover have "logs (ignore (for_each ps ?body)) () (?log @ [])"
    unfolding ignore_def by (rule logs_bind [OF vs logs_skip])
  ultimately have "floods (ignore (for_each ps ?body))" unfolding floods_def append_Nil2 by blast
  moreover have "logs (string_list_check v path 0 256 300 (Some PACKAGE_PATTERN)) (Some ps) []"
    by (rule logs_run [OF _ assms(1)]) (intro logging, simp)
  ultimately show ?thesis
    unfolding check_packages_def by (rule_tac floods_step [where v = "Some ps"]) (simp_all only: given_simps)
qed

lemma string_quiet:
  assumes "text_fits rule s" "\<not> newlines rule"
  shows "run_state (string_check (YStr s) path rule) ds = (Some s, ds)"
proof -
  have "is_control CHR 0x0A" "is_control CHR 0x0D" by code_simp+
  then have "CHR 0x0A \<notin> set s \<and> CHR 0x0D \<notin> set s"
    using assms by (auto simp: text_fits_def list_ex_iff)
  then show ?thesis using assms by (auto simp: text_fits_def string_check_def require_that_def skip_def)
qed

lemma strings_quiet:
  assumes "list_all (text_fits ((plain m)\<lparr>matches := p\<rparr>)) ss" "distinct ss" "lo \<le> length ss" "length ss \<le> hi"
  shows "run_state (string_list_check (YArr (map YStr ss)) path lo hi m p) ds = (Some ss, ds)"
proof -
  have "run_state (enumerate_from n (\<lambda>n x. string_check x (item path n) ((plain m)\<lparr>matches := p\<rparr>)) (map YStr ss)) ds =
      (map Some ss, ds)" for n
    using assms(1) by (induction ss arbitrary: n) (simp_all add: string_quiet plain_def)
  then show ?thesis using assms(2-4) by (simp add: string_list_check_def for_each_def require_that_def skip_def)
qed

text \<open>The example: 100 packages without version.\<close>

definition flood_packages :: "string list" where
  "flood_packages = concat (map (\<lambda>a. map (\<lambda>b. [CHR ''p'', a, b]) ''abcdefghij'') ''abcdefghij'')"

definition flood_apt :: "(string \<times> yaml) list" where
  "flood_apt = [(''packages'', YArr (map YStr flood_packages))]"

definition flood_document :: yaml where
  "flood_document = sample_document (YObj [(''apt'', YObj flood_apt)]) (YArr []) ''2MiB'' True"

lemma lower_char:
  assumes "is_lower c"
  shows "\<not> is_control c" "c \<noteq> CHR 0x7F" "\<not> utf8_continuation c" "c \<noteq> CHR ''=''" "is_alnum c"
  using assms
  by (auto simp: is_lower_def is_alnum_def is_control_def char_between_def utf8_continuation_def)

lemma flood_package:
  assumes "p \<in> set flood_packages"
  shows "text_fits ((plain 300)\<lparr>matches := Some PACKAGE_PATTERN\<rparr>) p \<and> \<not> pinned Apt p"
proof -
  have "list_all is_lower ''abcdefghij''" by code_simp
  then obtain a b where p: "p = [CHR ''p'', a, b]" "is_lower a" "is_lower b"
    using assms by (auto simp only: flood_packages_def set_concat set_map list_all_iff)
  have "is_lower CHR ''p''" by code_simp
  then show ?thesis
    using lower_char [of "CHR ''p''"] lower_char [OF p(2)] lower_char [OF p(3)]
    by (simp add: p(1) text_fits_def plain_def py_len_def PACKAGE_PATTERN_def first_rest_def pinned_def)
qed

lemma flood_strings:
  "run_state (string_list_check (yget flood_apt ''packages'') ''/spec/build/apt/packages'' 0 256 300
     (Some PACKAGE_PATTERN)) [] = (Some flood_packages, [])"
proof -
  have "list_all (text_fits ((plain 300)\<lparr>matches := Some PACKAGE_PATTERN\<rparr>)) flood_packages"
    using flood_package by (simp add: list_all_iff)
  moreover have "distinct flood_packages" "length flood_packages = 100" by code_simp+
  ultimately have "run_state (string_list_check (YArr (map YStr flood_packages)) ''/spec/build/apt/packages'' 0 256 300
      (Some PACKAGE_PATTERN)) [] = (Some flood_packages, [])"
    by (intro strings_quiet) simp_all
  then show ?thesis by (simp add: yget_def flood_apt_def)
qed

lemma flood_unpinned: "list_all (\<lambda>p. \<not> pinned Apt p) flood_packages" "100 \<le> length flood_packages"
  using flood_package by (simp_all add: list_all_iff flood_packages_def)

lemma flood_keys: "yhas flood_apt ''packages'' = True" "yhas flood_apt ''update'' = False"
  by code_simp+

lemma flood_apt: "floods (check_apt (YObj flood_apt))"
proof -
  have "logs (exact_keys (YObj flood_apt) ''/spec/build/apt'' [] [''update'', ''packages'']) (Some flood_apt) []"
    by (rule logs_keys) code_simp+
  then show ?thesis
    unfolding check_apt_def
    by (rule floods_step)
      (simp only: given_simps flood_keys when_simps skip_bind floods_packages [OF flood_strings flood_unpinned])
qed

lemma flood_build: "floods (check_build x (YObj [(''apt'', YObj flood_apt)]))"
proof -
  let ?t = "[(''apt'', YObj flood_apt)]"
  have keys: "logs (exact_keys (YObj ?t) ''/spec/build'' [] [''apt'', ''python'', ''node'', ''environment'', ''steps'']) (Some ?t) []"
    by (rule logs_keys) (simp_all add: yhas_def)
  have apt: "yhas ?t ''apt'' = True" "yget ?t ''apt'' = YObj flood_apt" by (simp_all add: yhas_def yget_def)
  show ?thesis
    unfolding check_build_def
    by (rule floods_step [OF keys], unfold given_simps apt when_simps, rule floods_then [OF flood_apt],
        intro logging logging_tools)
qed

text \<open>Its members.\<close>

definition flood_spec :: "(string \<times> yaml) list" where
  "flood_spec = (case yat flood_document [''spec''] of YObj ms \<Rightarrow> ms | _ \<Rightarrow> [])"

definition flood_root :: "(string \<times> yaml) list" where
  "flood_root = (case flood_document of YObj ms \<Rightarrow> ms | _ \<Rightarrow> [])"

lemma flood_parts: "flood_document = YObj flood_root" "yget flood_root ''spec'' = YObj flood_spec"
    "yget_default flood_spec ''build'' (YObj []) = YObj [(''apt'', YObj flood_apt)]"
  by (simp_all add: flood_root_def flood_spec_def flood_document_def sample_document_def yget_def yget_default_def)

lemma flood_base: "snd (run_state (check_base sample_tests (yget flood_spec ''base'')) []) = []"
  by code_simp

lemma flood_spec: "floods (check_spec sample_tests flood_spec)"
  unfolding check_spec_def flood_parts
  by (rule floods_pass [OF logging_base flood_base], rule floods_then [OF flood_build])
    (intro logging logging_sections)

lemma flood_graph: "snd (run_state (graph flood_document '''' 0 0) []) = []"
  by code_simp

lemma flood_metadata: "snd (run_state (check_metadata (yget flood_root ''metadata'')) []) = []"
  by code_simp

lemma flood_text:
  "run_state (string_check (yget flood_root ''apiVersion'') ''/apiVersion'' (plain 64)) [] = (Some API_VERSION, [])"
  "run_state (string_check (yget flood_root ''kind'') ''/kind'' (plain 64)) [] = (Some KIND, [])"
  by code_simp+

lemma flood_checked: "floods (check_document sample_tests flood_document)"
proof -
  have root: "logs (exact_keys (YObj flood_root) '''' [''apiVersion'', ''kind'', ''metadata'', ''spec''] []) (Some flood_root) []"
    by (rule logs_keys) code_simp+
  have spec: "logs (exact_keys (YObj flood_spec) ''/spec''
      [''base'', ''workspace'', ''runtime'', ''network'', ''security'', ''validation''] [''build'', ''mounts''])
      (Some flood_spec) []"
    by (rule logs_keys) code_simp+
  have texts: "logs (string_check (yget flood_root ''apiVersion'') ''/apiVersion'' (plain 64)) (Some API_VERSION) []"
    "logs (string_check (yget flood_root ''kind'') ''/kind'' (plain 64)) (Some KIND) []"
    by (rule logs_run [OF _ flood_text(1)], intro logging, simp, rule logs_run [OF _ flood_text(2)], intro logging, simp)
  have ok: "require_that True code path = skip" for code path by (simp add: require_that_def)
  have inner: "floods (given (Some flood_spec) (check_spec sample_tests))" by (simp add: flood_spec)
  show ?thesis
    unfolding check_document_def
    by (rule floods_pass [OF logging_graph(1) flood_graph], unfold check_root_def flood_parts(1), rule floods_step [OF root],
        unfold given_simps flood_parts(2), rule floods_step [OF texts(1)], simp only: ok skip_bind simp_thms,
        rule floods_step [OF texts(2)], simp only: ok skip_bind simp_thms,
        rule floods_pass [OF logging_metadata flood_metadata], rule floods_step [OF spec], rule inner)
qed

lemma flood_canonical:
  "map_option (\<lambda>c. (dumpable c, result_name c, yat c [''spec'', ''security'', ''privileged''])) (canonicalize flood_document) =
     Some (True, Some (YStr ''demo''), YBool True)"
  by code_simp

text \<open>
  The bound of 100 diagnostics is no bound on what is reported but on what is checked: a
  Hermesfile with 100 packages without version fills the report with warnings, so the error of its
  privileged container is dropped, the report has no error, and the file is valid, with a canonical
  form that is privileged.
\<close>

theorem full_report_hides_privileged:
  "\<exists>r c. validate_source sample_tests (\<lambda>_. Some [flood_document]) ''spec'' = Some r \<and> rp_valid r \<and>
     length (rp_diagnostics r) = 100 \<and> rp_canonical r = Some c \<and>
     yat c [''spec'', ''security'', ''privileged''] = YBool True"
proof -
  obtain c where c: "canonicalize flood_document = Some c" "dumpable c" "result_name c = Some (YStr ''demo'')"
    "yat c [''spec'', ''security'', ''privileged''] = YBool True"
    using flood_canonical by auto
  have "length (validate_document sample_tests flood_document) = 100"
    "\<not> has_errors (validate_document sample_tests flood_document)"
    using floods_report [OF flood_checked] by (simp_all add: validate_document_def)
  moreover have "utf8_ok (map (\<lambda>c. word_of_nat (of_char c)) ''spec'')" by code_simp
  ultimately show ?thesis using c by (simp add: validate_source_def Let_def)
qed

end
