(* ===== verification/Browser_Codec.thy ===== *)
theory Browser_Codec
  imports Prelude
begin

text \<open>
  The texts of \<^verbatim>\<open>controller_api/browser_auth.py\<close>: base64, the digests, the patterns of user names,
  keys and tokens, and the session cookie. Bytes are characters; a header is a text of Latin-1
  characters. The digest functions of the standard library are parameters, the record \<open>hashes\<close>: they
  return bytes, and \<^verbatim>\<open>hashlib.scrypt\<close> may raise (\<open>None\<close>), as it does beyond its memory bound.
\<close>

section \<open>Base64\<close>

abbreviation byte_of :: "char \<Rightarrow> nat" where "byte_of \<equiv> of_char"

text \<open>The URL-safe alphabet; the decoder takes the plain one as well.\<close>

definition b64_char :: "nat \<Rightarrow> char" where
  "b64_char n =
     (if n < 26 then char_of (65 + n) else if n < 52 then char_of (71 + n)
      else if n < 62 then char_of (n - 4) else if n = 62 then CHR ''-'' else CHR ''_'')"

definition b64_value :: "char \<Rightarrow> nat option" where
  "b64_value c =
     (if is_upper c then Some (byte_of c - 65) else if is_lower c then Some (byte_of c - 71)
      else if is_digit c then Some (byte_of c + 4)
      else if c = CHR ''-'' \<or> c = CHR ''+'' then Some 62
      else if c = CHR ''_'' \<or> c = CHR ''/'' then Some 63 else None)"

text \<open>\<^verbatim>\<open>_b64encode\<close>: without the padding.\<close>

fun b64encode :: "string \<Rightarrow> string" where
  "b64encode [] = []"
| "b64encode [a] = map b64_char [byte_of a div 4, byte_of a mod 4 * 16]"
| "b64encode [a, b] =
     map b64_char [byte_of a div 4, byte_of a mod 4 * 16 + byte_of b div 16, byte_of b mod 16 * 4]"
| "b64encode (a # b # c # rest) =
     map b64_char [byte_of a div 4, byte_of a mod 4 * 16 + byte_of b div 16,
       byte_of b mod 16 * 4 + byte_of c div 64, byte_of c mod 64] @ b64encode rest"

text \<open>
  \<^verbatim>\<open>base64.b64decode(s, validate=True)\<close>: groups of four characters, the last of which may end in one
  or two \<^verbatim>\<open>=\<close>; the bits that an incomplete group leaves over are dropped.
\<close>

fun b64_groups :: "string \<Rightarrow> string option" where
  "b64_groups [] = Some []"
| "b64_groups [p, q, r, s] =
     (case (b64_value p, b64_value q) of
        (Some v, Some w) \<Rightarrow>
          (case (b64_value r, b64_value s) of
             (Some x, Some y) \<Rightarrow>
               Some [char_of (v * 4 + w div 16), char_of (w mod 16 * 16 + x div 4), char_of (x mod 4 * 64 + y)]
           | (Some x, None) \<Rightarrow>
               if s = CHR ''='' then Some [char_of (v * 4 + w div 16), char_of (w mod 16 * 16 + x div 4)] else None
           | (None, _) \<Rightarrow>
               if r = CHR ''='' \<and> s = CHR ''='' then Some [char_of (v * 4 + w div 16)] else None)
      | _ \<Rightarrow> None)"
| "b64_groups (p # q # r # s # rest) =
     (case (b64_value p, b64_value q, b64_value r, b64_value s) of
        (Some v, Some w, Some x, Some y) \<Rightarrow>
          map_option (\<lambda>bytes. char_of (v * 4 + w div 16) # char_of (w mod 16 * 16 + x div 4) #
            char_of (x mod 4 * 64 + y) # bytes) (b64_groups rest)
      | _ \<Rightarrow> None)"
| "b64_groups _ = None"

text \<open>\<^verbatim>\<open>_b64decode\<close>; \<open>None\<close> is a \<^verbatim>\<open>ValueError\<close>.\<close>

definition b64decode :: "string \<Rightarrow> string option" where
  "b64decode value =
     (if value = [] \<or> \<not> list_all (\<lambda>c. byte_of c < (128 :: nat)) value then None
      else b64_groups (value @ replicate ((4 - length value mod 4) mod 4) CHR ''=''))"

lemma b64_value_char [simp]: "n < 64 \<Longrightarrow> b64_value (b64_char n) = Some n"
  by (auto simp: b64_value_def b64_char_def is_upper_def is_lower_def is_digit_def char_between_def)

lemma b64_char_ascii [simp]: "n < 64 \<Longrightarrow> byte_of (b64_char n) < (128 :: nat)"
  by (auto simp: b64_char_def)

lemma byte_bound [simp]: "byte_of c < (256 :: nat)"
  using of_char_mod_256 [of c, where 'a = nat] mod_less_divisor [of 256 "of_char c :: nat"] by simp

lemma b64_pad_value [simp]: "b64_value CHR ''='' = None"
  by code_simp

lemma b64_quads:
  assumes "a < 256" "b < 256" "c < (256 :: nat)"
  shows "a div 4 * 4 + (a mod 4 * 16 + b div 16) div 16 = a"
    "(a mod 4 * 16 + b div 16) mod 16 * 16 + (b mod 16 * 4 + c div 64) div 4 = b"
    "(b mod 16 * 4 + c div 64) mod 4 * 64 + c mod 64 = c"
    "a div 4 < 64" "a mod 4 * 16 + b div 16 < 64" "b mod 16 * 4 + c div 64 < 64" "c mod 64 < 64"
proof -
  have d: "b div 16 < 16" "c div 64 < 4" "a mod 4 < 4" "b mod 16 < 16" using assms by auto
  have e: "(x * 16 + y) div 16 = x" "(x * 16 + y) mod 16 = y" if "y < 16" for x y :: nat using that by auto
  have f: "(x * 4 + y) div 4 = x" "(x * 4 + y) mod 4 = y" if "y < 4" for x y :: nat using that by auto
  show "a div 4 * 4 + (a mod 4 * 16 + b div 16) div 16 = a" using e(1) [OF d(1)] by simp
  show "(a mod 4 * 16 + b div 16) mod 16 * 16 + (b mod 16 * 4 + c div 64) div 4 = b"
    using e(2) [OF d(1)] f(1) [OF d(2)] by simp
  show "(b mod 16 * 4 + c div 64) mod 4 * 64 + c mod 64 = c" using f(2) [OF d(2)] by simp
  show "a div 4 < 64" "a mod 4 * 16 + b div 16 < 64" "b mod 16 * 4 + c div 64 < 64" "c mod 64 < 64"
    using assms(1) d by linarith+
qed

lemma b64_last_one: "b64_groups [b64_char (byte_of a div 4), b64_char (byte_of a mod 4 * 16), CHR ''='', CHR ''=''] = Some [a]"
  using b64_quads [of "byte_of a" 0 0] by simp

lemma b64_last_two:
  "b64_groups [b64_char (byte_of a div 4), b64_char (byte_of a mod 4 * 16 + byte_of b div 16),
     b64_char (byte_of b mod 16 * 4), CHR ''=''] = Some [a, b]"
  using b64_quads [of "byte_of a" "byte_of b" 0] by simp

lemma b64_full:
  "b64_groups (map b64_char [byte_of a div 4, byte_of a mod 4 * 16 + byte_of b div 16,
     byte_of b mod 16 * 4 + byte_of c div 64, byte_of c mod 64] @ rest) =
     map_option (\<lambda>bytes. a # b # c # bytes) (b64_groups rest)"
  using b64_quads [OF byte_bound [of a] byte_bound [of b] byte_bound [of c]] by (cases rest) simp_all

lemma b64_decode_encode:
  "b64_groups (b64encode bytes @ replicate ((4 - length (b64encode bytes) mod 4) mod 4) CHR ''='') = Some bytes"
proof (induction bytes rule: b64encode.induct)
  case (4 a b c rest)
  have "length (b64encode (a # b # c # rest)) mod 4 = length (b64encode rest) mod 4" by simp
  then show ?case
    using 4 b64_full [of a b c "b64encode rest @ replicate ((4 - length (b64encode rest) mod 4) mod 4) CHR ''=''"]
    by (simp only: b64encode.simps append_assoc) simp
qed (simp_all add: b64_last_one b64_last_two b64_groups.simps(1) numeral_2_eq_2 del: b64_groups.simps(2-))

lemma b64encode_ascii: "list_all (\<lambda>c. byte_of c < (128 :: nat)) (b64encode bytes)"
proof (induction bytes rule: b64encode.induct)
  case (4 a b c rest)
  then show ?case using b64_quads [OF byte_bound [of a] byte_bound [of b] byte_bound [of c]] by simp
next
  case (2 a)
  show ?case using b64_quads [of "byte_of a" 0 0] by simp
next
  case (3 a b)
  show ?case using b64_quads [of "byte_of a" "byte_of b" 0] by simp
qed simp

lemma b64encode_length: "length (b64encode bytes) = (4 * length bytes + 2) div 3"
  by (induction bytes rule: b64encode.induct) auto

lemma b64encode_Nil: "b64encode bytes = [] \<longleftrightarrow> bytes = []"
  by (cases bytes rule: b64encode.cases) auto

lemma b64_roundtrip: "bytes \<noteq> [] \<Longrightarrow> b64decode (b64encode bytes) = Some bytes"
  using b64_decode_encode b64encode_ascii by (simp add: b64decode_def b64encode_Nil)

section \<open>Digests\<close>

record hashes =
  hmac_sha256 :: "string \<Rightarrow> string \<Rightarrow> string"
  sha256 :: "string \<Rightarrow> string"
  scrypt :: "string \<Rightarrow> string \<Rightarrow> nat \<Rightarrow> nat \<Rightarrow> nat \<Rightarrow> string option"

text \<open>
  What the library documents of them: the lengths, and that \<^verbatim>\<open>scrypt\<close> raises when it needs more than
  \<^verbatim>\<open>maxmem\<close> (its need is at least 128 n r).
\<close>

definition library_laws :: "hashes \<Rightarrow> bool" where
  "library_laws h \<longleftrightarrow>
     (\<forall>key msg. length (hmac_sha256 h key msg) = 32) \<and> (\<forall>msg. length (sha256 h msg) = 32) \<and>
     (\<forall>password salt n r p digest. scrypt h password salt n r p = Some digest \<longrightarrow>
        length digest = 32 \<and> 128 * n * r \<le> 64 * 1024 * 1024)"

definition hex_digit :: "nat \<Rightarrow> char" where
  "hex_digit n = (if n < 10 then char_of (48 + n) else char_of (87 + n))"

definition hexdigest :: "string \<Rightarrow> string" where
  "hexdigest bytes = concat (map (\<lambda>c. [hex_digit (byte_of c div 16), hex_digit (byte_of c mod 16)]) bytes)"

definition NUL :: char where "NUL = CHR 0x00"

definition fingerprint :: "hashes \<Rightarrow> string \<Rightarrow> string \<Rightarrow> string \<Rightarrow> nat \<Rightarrow> string" where
  "fingerprint h secret label value n = take n (hexdigest (hmac_sha256 h secret (label @ NUL # value)))"

definition request_hash :: "hashes \<Rightarrow> string \<Rightarrow> string \<Rightarrow> string \<Rightarrow> string" where
  "request_hash h secret username password =
     hexdigest (hmac_sha256 h secret (''login-request'' @ NUL # username @ NUL # password))"

definition session_token :: "hashes \<Rightarrow> string \<Rightarrow> string \<Rightarrow> string \<Rightarrow> string \<Rightarrow> string" where
  "session_token h secret namespace key_hash req_hash =
     ''bws_'' @ b64encode (hmac_sha256 h secret
       (''browser-session'' @ NUL # namespace @ NUL # key_hash @ NUL # req_hash))"

definition token_hash :: "hashes \<Rightarrow> string \<Rightarrow> string" where
  "token_hash h token = hexdigest (sha256 h token)"

lemma hexdigest_length [simp]: "length (hexdigest bytes) = 2 * length bytes"
  by (induction bytes) (simp_all add: hexdigest_def)

lemma hex_digit_hex: "n < 16 \<Longrightarrow> is_hex (hex_digit n)"
  by (auto simp: is_hex_def hex_digit_def is_digit_def char_between_def)

lemma hexdigest_hex: "list_all is_hex (hexdigest bytes)"
proof -
  have "byte_of c div 16 < (16 :: nat)" for c by (rule less_mult_imp_div_less) simp
  then show ?thesis by (auto simp: hexdigest_def list_all_iff intro!: hex_digit_hex)
qed

section \<open>Patterns\<close>

definition word_of :: "(char \<Rightarrow> bool) \<Rightarrow> nat \<Rightarrow> nat \<Rightarrow> string \<Rightarrow> bool" where
  "word_of ok lo hi s \<longleftrightarrow> lo \<le> length s \<and> length s \<le> hi \<and> list_all ok s"

definition USERNAME_PATTERN :: "string \<Rightarrow> bool" where
  "USERNAME_PATTERN s \<longleftrightarrow>
     word_of (\<lambda>c. is_lower c \<or> is_digit c \<or> c \<in> set ''._-'') 3 64 s \<and> is_lower (hd s)"

definition IDEMPOTENCY_KEY_PATTERN :: "string \<Rightarrow> bool" where
  "IDEMPOTENCY_KEY_PATTERN = word_of (\<lambda>c. is_alnum c \<or> c \<in> set ''._~:-'') 8 200"

definition SESSION_VALUE_PATTERN :: "string \<Rightarrow> bool" where
  "SESSION_VALUE_PATTERN = word_of (\<lambda>c. is_alnum c \<or> c \<in> set ''._~-'') 32 256"

definition SESSION_ID_PATTERN :: "string \<Rightarrow> bool" where
  "SESSION_ID_PATTERN s \<longleftrightarrow> take 4 s = ''ses_'' \<and> word_of is_hex 32 32 (drop 4 s)"

definition BROWSER_SESSION_TOKEN_PATTERN :: "string \<Rightarrow> bool" where
  "BROWSER_SESSION_TOKEN_PATTERN s \<longleftrightarrow>
     take 4 s = ''bws_'' \<and> word_of (\<lambda>c. is_alnum c \<or> c \<in> set ''_-'') 43 43 (drop 4 s)"

section \<open>Errors and requests\<close>

text \<open>A \<^verbatim>\<open>ControllerError\<close> with its status and code, or an exception of another kind.\<close>

datatype auth_error = Refused nat string | Raised

abbreviation unauthenticated :: auth_error where
  "unauthenticated \<equiv> Refused 401 ''authentication_required''"

abbreviation unavailable :: auth_error where
  "unavailable \<equiv> Refused 503 ''browser_auth_unavailable''"

text \<open>A value of the JSON body that is no text, or a text with lone surrogates, is \<open>None\<close>.\<close>

definition validate_username :: "string option \<Rightarrow> auth_error + string" where
  "validate_username v =
     (case v of
        Some s \<Rightarrow> if USERNAME_PATTERN s then Inr s else Inl unauthenticated
      | None \<Rightarrow> Inl unauthenticated)"

definition validate_password :: "string option \<Rightarrow> auth_error + string" where
  "validate_password v =
     (case v of
        Some s \<Rightarrow>
          if py_len s < 12 \<or> 256 < py_len s \<or> 1024 < length s \<or> list_ex is_control s
          then Inl (Refused 400 ''invalid_login'') else Inr s
      | None \<Rightarrow> Inl (Refused 400 ''invalid_login''))"

definition validate_idempotency_key :: "string option \<Rightarrow> auth_error + string" where
  "validate_idempotency_key v =
     (case v of
        Some s \<Rightarrow> if IDEMPOTENCY_KEY_PATTERN s then Inr s else Inl (Refused 400 ''invalid_idempotency_key'')
      | None \<Rightarrow> Inl (Refused 400 ''invalid_idempotency_key''))"

text \<open>\<^verbatim>\<open>str.strip\<close> on Latin-1.\<close>

definition latin_space :: "char \<Rightarrow> bool" where
  "latin_space c \<longleftrightarrow> char_between 9 13 c \<or> char_between 28 32 c \<or> byte_of c \<in> {133, 160 :: nat}"

definition latin_strip :: "string \<Rightarrow> string" where
  "latin_strip s = rev (dropWhile latin_space (rev (dropWhile latin_space s)))"

definition cookie_values :: "string \<Rightarrow> string list" where
  "cookie_values header =
     map (\<lambda>s. tl (dropWhile (\<lambda>c. c \<noteq> CHR ''='') s))
       (filter (\<lambda>s. CHR ''='' \<in> set s \<and> takeWhile (\<lambda>c. c \<noteq> CHR ''='') s = ''hermesops_session'')
         (map latin_strip (split_on CHR '';'' header)))"

definition cookie_value :: "string option \<Rightarrow> auth_error + string" where
  "cookie_value header =
     (case header of
        None \<Rightarrow> Inl unauthenticated
      | Some h \<Rightarrow>
          if h = [] \<or> 4096 < length h then Inl unauthenticated
          else
            case cookie_values h of
              [v] \<Rightarrow> if SESSION_VALUE_PATTERN v then Inr v else Inl unauthenticated
            | _ \<Rightarrow> Inl unauthenticated)"

end
