(* ===== verification/Browser_Auth.thy ===== *)
theory Browser_Auth
  imports Browser_Codec "HOL-Library.Monad_Syntax"
begin

unbundle bit_operations_syntax

text \<open>
  \<^verbatim>\<open>BrowserAuthStore\<close> of \<^verbatim>\<open>controller_api/browser_auth.py\<close> on the tables of
  \<^verbatim>\<open>migrations/017_browser_session_lifecycle.sql\<close> and \<^verbatim>\<open>018_browser_auth_hardening.sql\<close>. A time is a
  number of milliseconds, the canonical timestamps of the tables. An insert or update that a
  constraint or trigger refuses is \<open>None\<close>, an \<^verbatim>\<open>sqlite3.Error\<close>. A login is two database transactions
  with the derivation of the password between them, \<open>login_start\<close> and \<open>login_finish\<close>; each reading
  of the clock and each random value is an argument. The random identifiers of the audit rows are
  left out.
\<close>

section \<open>Tables\<close>

record credential =
  cr_actor :: string
  cr_username :: string
  cr_algorithm :: string
  cr_salt :: string
  cr_digest :: string
  cr_n :: nat
  cr_r :: nat
  cr_p :: nat
  cr_created :: nat
  cr_updated :: nat

record session_row =
  se_id :: string
  se_token_hash :: string
  se_actor :: string
  se_created :: nat
  se_expires :: nat
  se_revoked :: "nat option"
  se_source :: string
  se_agent :: string

datatype auth_route = LoginRoute | LogoutRoute

record replay_row =
  ik_namespace :: string
  ik_key :: string
  ik_route :: auth_route
  ik_request :: string
  ik_status :: nat
  ik_session :: "string option"
  ik_created :: nat
  ik_completed :: nat

datatype auth_action = Login | Logout | PasswordChange
datatype auth_outcome = Success | Failure | RateLimited

record audit_row =
  au_action :: auth_action
  au_outcome :: auth_outcome
  au_actor :: "string option"
  au_session :: "string option"
  au_username :: "string option"
  au_source :: "string option"
  au_request :: string
  au_created :: nat

record auth_db =
  ad_credentials :: "credential list"
  ad_sessions :: "session_row list"
  ad_replays :: "replay_row list"
  ad_audits :: "audit_row list"

definition credential_check :: "credential \<Rightarrow> bool" where
  "credential_check c \<longleftrightarrow>
     cr_actor c = ''operator'' \<and>
     word_of (\<lambda>c. is_lower c \<or> is_digit c \<or> c \<in> set ''._-'') 3 64 (cr_username c) \<and>
     cr_algorithm c = ''scrypt'' \<and> 20 \<le> length (cr_salt c) \<and> length (cr_salt c) \<le> 32 \<and>
     40 \<le> length (cr_digest c) \<and> length (cr_digest c) \<le> 64 \<and> 1024 \<le> cr_n c \<and> cr_n c \<le> 65536 \<and>
     1 \<le> cr_r c \<and> cr_r c \<le> 16 \<and> 1 \<le> cr_p c \<and> cr_p c \<le> 4 \<and> cr_created c \<le> cr_updated c"

definition insert_credential :: "credential \<Rightarrow> auth_db \<Rightarrow> auth_db option" where
  "insert_credential c db =
     (if credential_check c \<and>
         \<not> list_ex (\<lambda>d. cr_actor d = cr_actor c \<or> cr_username d = cr_username c) (ad_credentials db)
      then Some (db\<lparr>ad_credentials := ad_credentials db @ [c]\<rparr>) else None)"

definition session_check :: "session_row \<Rightarrow> bool" where
  "session_check s \<longleftrightarrow>
     SESSION_ID_PATTERN (se_id s) \<and> word_of is_hex 64 64 (se_token_hash s) \<and>
     se_created s < se_expires s \<and> (case se_revoked s of None \<Rightarrow> True | Some t \<Rightarrow> se_created s \<le> t) \<and>
     length (se_source s) = 32 \<and> length (se_agent s) = 32"

definition insert_session :: "session_row \<Rightarrow> auth_db \<Rightarrow> auth_db option" where
  "insert_session s db =
     (if session_check s \<and> list_ex (\<lambda>c. cr_actor c = se_actor s) (ad_credentials db) \<and>
         \<not> list_ex (\<lambda>t. se_id t = se_id s \<or> se_token_hash t = se_token_hash s) (ad_sessions db)
      then Some (db\<lparr>ad_sessions := ad_sessions db @ [s]\<rparr>) else None)"

definition replay_check :: "replay_row \<Rightarrow> bool" where
  "replay_check r \<longleftrightarrow>
     length (ik_namespace r) = 32 \<and> length (ik_key r) = 64 \<and> length (ik_request r) = 64 \<and>
     (ik_status r = 200 \<and> ik_session r \<noteq> None \<or> ik_status r = 401 \<and> ik_session r = None) \<and>
     ik_created r \<le> ik_completed r"

definition insert_replay :: "replay_row \<Rightarrow> auth_db \<Rightarrow> auth_db option" where
  "insert_replay r db =
     (if replay_check r \<and>
         (case ik_session r of None \<Rightarrow> True | Some i \<Rightarrow> list_ex (\<lambda>s. se_id s = i) (ad_sessions db)) \<and>
         \<not> list_ex (\<lambda>q. ik_namespace q = ik_namespace r \<and> ik_key q = ik_key r) (ad_replays db)
      then Some (db\<lparr>ad_replays := ad_replays db @ [r]\<rparr>) else None)"

definition short_text :: "string option \<Rightarrow> bool" where
  "short_text v \<longleftrightarrow> (case v of None \<Rightarrow> True | Some s \<Rightarrow> length s = 32)"

definition insert_audit :: "audit_row \<Rightarrow> auth_db \<Rightarrow> auth_db option" where
  "insert_audit a db =
     (if short_text (au_session a) \<and> short_text (au_username a) \<and> short_text (au_source a) \<and>
         8 \<le> py_len (au_request a) \<and> py_len (au_request a) \<le> 128
      then Some (db\<lparr>ad_audits := ad_audits db @ [a]\<rparr>) else None)"

text \<open>
  \<^verbatim>\<open>UPDATE controller_browser_sessions SET revoked_at=? WHERE ... AND revoked_at IS NULL\<close>: the trigger
  refuses a time before the creation of a session that is updated.
\<close>

definition revoke_sessions :: "(session_row \<Rightarrow> bool) \<Rightarrow> nat \<Rightarrow> auth_db \<Rightarrow> auth_db option" where
  "revoke_sessions which now db =
     (let due = (\<lambda>s. which s \<and> se_revoked s = None)
      in if list_ex (\<lambda>s. due s \<and> now < se_created s) (ad_sessions db) then None
         else Some (db\<lparr>ad_sessions := update_where due (\<lambda>s. s\<lparr>se_revoked := Some now\<rparr>) (ad_sessions db)\<rparr>))"

section \<open>Credentials\<close>

definition scrypt_ok :: "nat \<Rightarrow> nat \<Rightarrow> nat \<Rightarrow> bool" where
  "scrypt_ok n r p \<longleftrightarrow>
     1024 \<le> n \<and> n \<le> 65536 \<and> n AND (n - 1) = 0 \<and> 1 \<le> r \<and> r \<le> 16 \<and> 1 \<le> p \<and> p \<le> 4"

definition stored_scrypt_ok :: "nat \<Rightarrow> nat \<Rightarrow> nat \<Rightarrow> bool" where
  "stored_scrypt_ok n r p \<longleftrightarrow> scrypt_ok n r p \<and> 128 * n * r \<le> 64 * 1024 * 1024"

definition derive_password :: "hashes \<Rightarrow> string \<Rightarrow> string \<Rightarrow> nat \<Rightarrow> nat \<Rightarrow> nat \<Rightarrow> auth_error + string" where
  "derive_password h password salt n r p =
     rbind (validate_password (Some password)) (\<lambda>password.
       if \<not> scrypt_ok n r p \<or> length salt \<noteq> 16 then Inl Raised
       else case scrypt h password salt n r p of None \<Rightarrow> Inl Raised | Some digest \<Rightarrow> Inr digest)"

text \<open>The test of \<^verbatim>\<open>_validate_credential_row\<close>.\<close>

definition credential_row_ok :: "credential \<Rightarrow> string option \<Rightarrow> bool" where
  "credential_row_ok c expected \<longleftrightarrow>
     (case (b64decode (cr_salt c), b64decode (cr_digest c)) of
        (Some salt, Some digest) \<Rightarrow>
          stored_scrypt_ok (cr_n c) (cr_r c) (cr_p c) \<and> cr_actor c = ''operator'' \<and>
          USERNAME_PATTERN (cr_username c) \<and>
          (case expected of None \<Rightarrow> True | Some u \<Rightarrow> cr_username c = u) \<and> cr_algorithm c = ''scrypt'' \<and>
          length salt = 16 \<and> length digest = 32 \<and> cr_created c \<le> cr_updated c
      | _ \<Rightarrow> False)"

abbreviation operator_invalid :: auth_error where
  "operator_invalid \<equiv> Refused 503 ''browser_auth_operator_invalid''"

definition credential_matches :: "hashes \<Rightarrow> credential option \<Rightarrow> string \<Rightarrow> auth_error + bool" where
  "credential_matches h row password =
     (case row of
        None \<Rightarrow>
          rbind (derive_password h password (take 16 (sha256 h ''hermesops-browser-auth-dummy'')) 32768 8 1)
            (\<lambda>actual. Inr (actual = sha256 h ''hermesops-browser-auth-dummy-digest''))
      | Some c \<Rightarrow>
          if \<not> credential_row_ok c None then Inl operator_invalid
          else
            case (b64decode (cr_salt c), b64decode (cr_digest c)) of
              (Some salt, Some digest) \<Rightarrow>
                rbind (derive_password h password salt (cr_n c) (cr_r c) (cr_p c)) (\<lambda>actual. Inr (actual = digest))
            | _ \<Rightarrow> Inl Raised)"

definition find_credential :: "string \<Rightarrow> auth_db \<Rightarrow> credential option" where
  "find_credential username db = select_one (\<lambda>c. cr_username c = username) (ad_credentials db)"

definition initialize_operator ::
  "hashes \<Rightarrow> string option \<Rightarrow> string option \<Rightarrow> string \<Rightarrow> nat \<Rightarrow> nat \<Rightarrow> nat \<Rightarrow> string \<Rightarrow> nat \<Rightarrow> auth_db \<Rightarrow>
     (auth_error + string) \<times> auth_db" where
  "initialize_operator h username password actor n r p salt now db =
     (case rbind (validate_username username) (\<lambda>u. rbind (validate_password password) (\<lambda>pw.
        if \<not> stored_scrypt_ok n r p then Inl Raised
        else rbind (derive_password h pw salt n r p) (\<lambda>digest. Inr (u, digest)))) of
        Inl e \<Rightarrow> (Inl e, db)
      | Inr (u, digest) \<Rightarrow>
          (case ad_credentials db of
             [] \<Rightarrow>
               (case insert_credential
                  \<lparr>cr_actor = actor, cr_username = u, cr_algorithm = ''scrypt'', cr_salt = b64encode salt,
                   cr_digest = b64encode digest, cr_n = n, cr_r = r, cr_p = p, cr_created = now, cr_updated = now\<rparr> db of
                  None \<Rightarrow> (Inl unavailable, db)
                | Some db' \<Rightarrow> (Inr ''created'', db'))
           | [c] \<Rightarrow> if credential_row_ok c (Some u) then (Inr ''valid'', db) else (Inl operator_invalid, db)
           | _ \<Rightarrow> (Inl operator_invalid, db)))"

definition set_password ::
  "hashes \<Rightarrow> string option \<Rightarrow> string option \<Rightarrow> nat \<Rightarrow> nat \<Rightarrow> nat \<Rightarrow> string \<Rightarrow> nat \<Rightarrow> auth_db \<Rightarrow>
     (auth_error + string) \<times> auth_db" where
  "set_password h username password n r p salt now db =
     (case rbind (validate_username username) (\<lambda>u. rbind (validate_password password) (\<lambda>pw.
        if \<not> scrypt_ok n r p then Inl Raised
        else rbind (derive_password h pw salt n r p) (\<lambda>digest. Inr (u, digest)))) of
        Inl e \<Rightarrow> (Inl e, db)
      | Inr (u, digest) \<Rightarrow>
          (let change = (\<lambda>c. c\<lparr>cr_salt := b64encode salt, cr_digest := b64encode digest, cr_n := n, cr_r := r,
                 cr_p := p, cr_updated := now\<rparr>);
               rows = update_where (\<lambda>c. cr_username c = u) change (ad_credentials db)
           in if \<not> list_all credential_check (filter (\<lambda>c. cr_username c = u) rows) then (Inl unavailable, db)
              else if count_where (\<lambda>c. cr_username c = u) (ad_credentials db) \<noteq> 1
              then (Inl (Refused 404 ''operator_not_found''), db)
              else
                (case do {
                   db1 \<leftarrow> revoke_sessions (\<lambda>_. True) now (db\<lparr>ad_credentials := rows\<rparr>);
                   insert_audit \<lparr>au_action = PasswordChange, au_outcome = Success, au_actor = Some ''operator'',
                     au_session = None, au_username = None, au_source = None, au_request = ''local-cli'',
                     au_created = now\<rparr> db1
                 } of
                   None \<Rightarrow> (Inl unavailable, db)
                 | Some db' \<Rightarrow> (Inr ''updated'', db'))))"

section \<open>Sessions\<close>

datatype session_kind = Bootstrap | Browser

record session =
  as_secret :: string
  as_actor :: string
  as_expires :: "nat option"
  as_id :: "string option"
  as_kind :: session_kind

definition session_from_row :: "session_row \<Rightarrow> string \<Rightarrow> bool \<Rightarrow> nat \<Rightarrow> auth_error + session" where
  "session_from_row row token require_current now =
     (if \<not> SESSION_ID_PATTERN (se_id row) \<or> se_actor row \<noteq> ''operator'' \<or> se_expires row \<le> se_created row \<or>
         (case se_revoked row of None \<Rightarrow> False | Some t \<Rightarrow> t < se_created row)
      then Inl (Refused 503 ''browser_auth_session_invalid'')
      else if require_current \<and> (se_revoked row \<noteq> None \<or> se_expires row \<le> now) then Inl unauthenticated
      else Inr \<lparr>as_secret = token, as_actor = se_actor row, as_expires = Some (se_expires row),
                as_id = Some (se_id row), as_kind = Browser\<rparr>)"

definition find_token :: "hashes \<Rightarrow> string \<Rightarrow> auth_db \<Rightarrow> session_row option" where
  "find_token h token db = select_one (\<lambda>s. se_token_hash s = token_hash h token) (ad_sessions db)"

definition browser_session :: "hashes \<Rightarrow> string \<Rightarrow> bool \<Rightarrow> nat \<Rightarrow> auth_db \<Rightarrow> auth_error + session" where
  "browser_session h token require_current now db =
     (if \<not> BROWSER_SESSION_TOKEN_PATTERN token then Inl unauthenticated
      else case find_token h token db of
        None \<Rightarrow> Inl unauthenticated
      | Some row \<Rightarrow> session_from_row row token require_current now)"

definition authenticate_cookie :: "hashes \<Rightarrow> string option \<Rightarrow> string \<Rightarrow> nat \<Rightarrow> auth_db \<Rightarrow> auth_error + session" where
  "authenticate_cookie h header secret now db =
     rbind (cookie_value header) (\<lambda>supplied.
       if supplied = secret
       then Inr \<lparr>as_secret = supplied, as_actor = ''controller-probe'', as_expires = None, as_id = None, as_kind = Bootstrap\<rparr>
       else browser_session h supplied True now db)"

definition logout_context :: "hashes \<Rightarrow> string option \<Rightarrow> string \<Rightarrow> nat \<Rightarrow> auth_db \<Rightarrow> auth_error + session" where
  "logout_context h header secret now db =
     rbind (cookie_value header) (\<lambda>supplied.
       if supplied = secret then Inl (Refused 403 ''browser_session_required'')
       else browser_session h supplied False now db)"

definition session_is_current :: "hashes \<Rightarrow> string \<Rightarrow> string \<Rightarrow> nat \<Rightarrow> auth_db \<Rightarrow> bool" where
  "session_is_current h supplied secret now db \<longleftrightarrow>
     supplied = secret \<or>
     (case authenticate_cookie h (Some (''hermesops_session='' @ supplied)) secret now db of
        Inl _ \<Rightarrow> False | Inr _ \<Rightarrow> True)"

section \<open>Login\<close>

text \<open>A login after the checks of its user name, password and key.\<close>

record login_request =
  rq_username :: string
  rq_password :: string
  rq_key :: string
  rq_secret :: string
  rq_source :: string
  rq_agent :: string
  rq_id :: string

definition login_window :: nat where "login_window = 60000"
definition login_max_failures :: nat where "login_max_failures = 5"
definition session_ttl :: nat where "session_ttl = 12 * 60 * 60"

definition rq_namespace :: "hashes \<Rightarrow> login_request \<Rightarrow> string" where
  "rq_namespace h q = fingerprint h (rq_secret q) ''login-source'' (rq_source q) 32"

definition rq_key_hash :: "hashes \<Rightarrow> login_request \<Rightarrow> string" where
  "rq_key_hash h q = fingerprint h (rq_secret q) ''login-key'' (rq_key q) 64"

definition rq_hash :: "hashes \<Rightarrow> login_request \<Rightarrow> string" where
  "rq_hash h q = request_hash h (rq_secret q) (rq_username q) (rq_password q)"

definition rq_username_fp :: "hashes \<Rightarrow> login_request \<Rightarrow> string" where
  "rq_username_fp h q = fingerprint h (rq_secret q) ''login-username'' (rq_username q) 32"

definition rq_source_fp :: "hashes \<Rightarrow> login_request \<Rightarrow> string" where
  "rq_source_fp h q = fingerprint h (rq_secret q) ''login-source-audit'' (rq_source q) 32"

definition rq_agent_fp :: "hashes \<Rightarrow> login_request \<Rightarrow> string" where
  "rq_agent_fp h q =
     fingerprint h (rq_secret q) ''login-agent'' (if rq_agent q = [] then ''-'' else rq_agent q) 32"

definition rq_token :: "hashes \<Rightarrow> login_request \<Rightarrow> string" where
  "rq_token h q = session_token h (rq_secret q) (rq_namespace h q) (rq_key_hash h q) (rq_hash h q)"

record login_result =
  lr_actor :: string
  lr_expires :: nat
  lr_token :: string
  lr_max_age :: nat

definition find_replay :: "string \<Rightarrow> string \<Rightarrow> auth_db \<Rightarrow> replay_row option" where
  "find_replay namespace key db =
     select_one (\<lambda>r. ik_namespace r = namespace \<and> ik_key r = key) (ad_replays db)"

definition find_session :: "string \<Rightarrow> auth_db \<Rightarrow> session_row option" where
  "find_session i db = select_one (\<lambda>s. se_id s = i) (ad_sessions db)"

abbreviation session_invalid :: auth_error where
  "session_invalid \<equiv> Refused 503 ''browser_auth_session_invalid''"

text \<open>\<^verbatim>\<open>replay_result\<close>; \<open>None\<close> when the key is new.\<close>

definition replay_result :: "hashes \<Rightarrow> login_request \<Rightarrow> nat \<Rightarrow> auth_db \<Rightarrow> (auth_error + login_result) option" where
  "replay_result h q now db =
     (case find_replay (rq_namespace h q) (rq_key_hash h q) db of
        None \<Rightarrow> None
      | Some r \<Rightarrow> Some
          (if ik_request r \<noteq> rq_hash h q then Inl (Refused 409 ''idempotency_key_conflict'')
           else if ik_status r \<noteq> 200 \<or> ik_session r = None then Inl unauthenticated
           else case find_session (the (ik_session r)) db of
             None \<Rightarrow> Inl session_invalid
           | Some row \<Rightarrow>
               rbind (session_from_row row (rq_token h q) True now) (\<lambda>s.
                 let lifetime = (se_expires row - se_created row) div 1000
                 in if \<not> (1 \<le> lifetime \<and> lifetime \<le> session_ttl) then Inl session_invalid
                    else Inr \<lparr>lr_actor = as_actor s, lr_expires = se_expires row, lr_token = as_secret s,
                              lr_max_age = lifetime\<rparr>)))"

definition login_events :: "auth_outcome \<Rightarrow> string \<Rightarrow> nat \<Rightarrow> audit_row \<Rightarrow> bool" where
  "login_events outcome source threshold a \<longleftrightarrow>
     au_action a = Login \<and> au_outcome a = outcome \<and> au_source a = Some source \<and> threshold \<le> au_created a"

definition failure_count :: "string \<Rightarrow> nat \<Rightarrow> auth_db \<Rightarrow> nat" where
  "failure_count source threshold db = count_where (login_events Failure source threshold) (ad_audits db)"

definition login_audit :: "hashes \<Rightarrow> login_request \<Rightarrow> auth_outcome \<Rightarrow> string option \<Rightarrow> string option \<Rightarrow> nat \<Rightarrow> audit_row" where
  "login_audit h q outcome actor session now =
     \<lparr>au_action = Login, au_outcome = outcome, au_actor = actor, au_session = session,
      au_username = Some (rq_username_fp h q), au_source = Some (rq_source_fp h q), au_request = rq_id q,
      au_created = now\<rparr>"

abbreviation rate_blocked :: auth_error where
  "rate_blocked \<equiv> Refused 403 ''authentication_temporarily_blocked''"

text \<open>The block of a source; one audit row in the window.\<close>

definition block_source :: "hashes \<Rightarrow> login_request \<Rightarrow> nat \<Rightarrow> nat \<Rightarrow> auth_db \<Rightarrow> (auth_error + 'a) \<times> auth_db" where
  "block_source h q threshold now db =
     (if count_where (login_events RateLimited (rq_source_fp h q) threshold) (ad_audits db) = 0
      then case insert_audit (login_audit h q RateLimited None None now) db of
             None \<Rightarrow> (Inl unavailable, db)
           | Some db' \<Rightarrow> (Inl rate_blocked, db')
      else (Inl rate_blocked, db))"

text \<open>
  The first part: the replay, the rate limit, the credential. The clock is read for the replay
  (\<open>t0\<close>), for the threshold (\<open>t1\<close>) and for the audit row (\<open>t2\<close>).
\<close>

datatype login_progress = Answered "auth_error + login_result" | Derive "credential option"

definition login_start ::
  "hashes \<Rightarrow> login_request \<Rightarrow> nat \<Rightarrow> nat \<Rightarrow> nat \<Rightarrow> auth_db \<Rightarrow> login_progress \<times> auth_db" where
  "login_start h q t0 t1 t2 db =
     (case replay_result h q t0 db of
        Some answer \<Rightarrow> (Answered answer, db)
      | None \<Rightarrow>
          if login_max_failures \<le> failure_count (rq_source_fp h q) (t1 - login_window) db
          then (case block_source h q (t1 - login_window) t2 db of (answer, db') \<Rightarrow> (Answered answer, db'))
          else (Derive (find_credential (rq_username q) db), db))"

text \<open>
  The second part: \<open>credential\<close> is the row the password was checked against and \<open>valid\<close> the result.
  The clock is read for the replay (\<open>t0\<close>), for the rows (\<open>now\<close>), for the threshold (\<open>t1\<close>) and for the
  expiry (\<open>t2\<close>).
\<close>

definition record_failure :: "hashes \<Rightarrow> login_request \<Rightarrow> nat \<Rightarrow> auth_db \<Rightarrow> auth_db option" where
  "record_failure h q now db =
     do {
       db1 \<leftarrow> insert_replay \<lparr>ik_namespace = rq_namespace h q, ik_key = rq_key_hash h q, ik_route = LoginRoute,
         ik_request = rq_hash h q, ik_status = 401, ik_session = None, ik_created = now, ik_completed = now\<rparr> db;
       insert_audit (login_audit h q Failure None None now) db1
     }"

definition new_session :: "hashes \<Rightarrow> login_request \<Rightarrow> string \<Rightarrow> nat \<Rightarrow> nat \<Rightarrow> session_row" where
  "new_session h q actor now expires =
     \<lparr>se_id = ''ses_'' @ take 32 (token_hash h (rq_token h q)), se_token_hash = token_hash h (rq_token h q),
      se_actor = actor, se_created = now, se_expires = expires, se_revoked = None,
      se_source = rq_source_fp h q, se_agent = rq_agent_fp h q\<rparr>"

definition record_success ::
  "hashes \<Rightarrow> login_request \<Rightarrow> string \<Rightarrow> nat \<Rightarrow> nat \<Rightarrow> auth_db \<Rightarrow> auth_db option" where
  "record_success h q actor now expires db =
     do {
       let s = new_session h q actor now expires;
       db1 \<leftarrow> insert_session s db;
       db2 \<leftarrow> insert_replay \<lparr>ik_namespace = rq_namespace h q, ik_key = rq_key_hash h q, ik_route = LoginRoute,
         ik_request = rq_hash h q, ik_status = 200, ik_session = Some (se_id s), ik_created = now, ik_completed = now\<rparr> db1;
       insert_audit (login_audit h q Success (Some actor) (Some (take 32 (se_token_hash s))) now) db2
     }"

definition login_finish ::
  "hashes \<Rightarrow> login_request \<Rightarrow> nat \<Rightarrow> nat \<Rightarrow> nat \<Rightarrow> nat \<Rightarrow> credential option \<Rightarrow> bool \<Rightarrow> auth_db \<Rightarrow>
     (auth_error + login_result) \<times> auth_db" where
  "login_finish h q t0 now t1 t2 credential valid db =
     (case replay_result h q t0 db of
        Some answer \<Rightarrow> (answer, db)
      | None \<Rightarrow>
          if login_max_failures \<le> failure_count (rq_source_fp h q) (t1 - login_window) db
          then block_source h q (t1 - login_window) now db
          else if find_credential (rq_username q) db \<noteq> credential
          then (Inl (Refused 503 ''browser_auth_credential_changed''), db)
          else if \<not> valid
          then (case record_failure h q now db of
                  None \<Rightarrow> (Inl unavailable, db)
                | Some db' \<Rightarrow> (Inl unauthenticated, db'))
          else
            case find_credential (rq_username q) db of
              None \<Rightarrow> (Inl operator_invalid, db)
            | Some c \<Rightarrow>
                (let expires = t2 + session_ttl * 1000
                 in case record_success h q (cr_actor c) now expires db of
                      None \<Rightarrow> (Inl unavailable, db)
                    | Some db' \<Rightarrow>
                        (Inr \<lparr>lr_actor = cr_actor c, lr_expires = expires, lr_token = rq_token h q,
                              lr_max_age = session_ttl\<rparr>, db')))"

text \<open>
  The whole of \<^verbatim>\<open>login\<close> when nothing comes between its parts; \<open>slot\<close> says whether one of the two slots
  for derivations was free in time.
\<close>

definition login ::
  "hashes \<Rightarrow> string option \<Rightarrow> string option \<Rightarrow> string option \<Rightarrow> string \<Rightarrow> string \<Rightarrow> string \<Rightarrow> string \<Rightarrow> bool \<Rightarrow> nat \<Rightarrow>
     auth_db \<Rightarrow> (auth_error + login_result) \<times> auth_db" where
  "login h username password key secret source agent request slot now db =
     (case rbind (validate_username username) (\<lambda>u. rbind (validate_password password) (\<lambda>pw.
        rbind (validate_idempotency_key key) (\<lambda>k. Inr \<lparr>rq_username = u, rq_password = pw, rq_key = k,
          rq_secret = secret, rq_source = source, rq_agent = agent, rq_id = request\<rparr>))) of
        Inl e \<Rightarrow> (Inl e, db)
      | Inr q \<Rightarrow>
          (case login_start h q now now now db of
             (Answered answer, db') \<Rightarrow> (answer, db')
           | (Derive credential, db') \<Rightarrow>
               if \<not> slot then (Inl (Refused 503 ''browser_auth_capacity_exhausted''), db')
               else case credential_matches h credential (rq_password q) of
                      Inl e \<Rightarrow> (Inl e, db')
                    | Inr valid \<Rightarrow> login_finish h q now now now now credential valid db'))"

section \<open>Logout\<close>

definition logout ::
  "hashes \<Rightarrow> session \<Rightarrow> string option \<Rightarrow> string \<Rightarrow> nat \<Rightarrow> auth_db \<Rightarrow> (auth_error + unit) \<times> auth_db" where
  "logout h s key request now db =
     (case validate_idempotency_key key of
        Inl e \<Rightarrow> (Inl e, db)
      | Inr k \<Rightarrow>
          (case as_id s of
             Some i \<Rightarrow>
               if as_kind s \<noteq> Browser then (Inl (Refused 403 ''browser_session_required''), db)
               else
                 (let namespace = take 32 (hexdigest (sha256 h (as_secret s)));
                      key_hash = fingerprint h (as_secret s) ''logout-key'' k 64;
                      req = fingerprint h (as_secret s) ''logout-request'' ''{}'' 64
                  in case find_replay namespace key_hash db of
                       Some r \<Rightarrow>
                         if ik_request r \<noteq> req then (Inl (Refused 409 ''idempotency_key_conflict''), db)
                         else (Inr (), db)
                     | None \<Rightarrow>
                         (case do {
                            db1 \<leftarrow> revoke_sessions (\<lambda>x. se_id x = i) now db;
                            db2 \<leftarrow> insert_replay \<lparr>ik_namespace = namespace, ik_key = key_hash, ik_route = LogoutRoute,
                              ik_request = req, ik_status = 200, ik_session = Some i, ik_created = now, ik_completed = now\<rparr> db1;
                            insert_audit \<lparr>au_action = Logout, au_outcome = Success, au_actor = Some (as_actor s),
                              au_session = Some namespace, au_username = None, au_source = None, au_request = request,
                              au_created = now\<rparr> db2
                          } of
                            None \<Rightarrow> (Inl unavailable, db)
                          | Some db' \<Rightarrow> (Inr (), db')))
           | None \<Rightarrow> (Inl (Refused 403 ''browser_session_required''), db)))"

end
