(* ===== verification/Auth_Safety.thy ===== *)
theory Auth_Safety
  imports Browser_Auth
begin

text \<open>
  The browser authentication as a transition system: operator commands, logins in two parts with any
  number of them under way, logouts, and crashes. The tables only grow, a session changes only by its
  revocation (\<open>grows\<close>); from this and the invariant follow the bound on password guesses, what a
  session needs to be opened, the end of all sessions with a change of the password, and the replay
  of a login.
\<close>

section \<open>Statements on the tables\<close>

lemma insert_Some:
  "insert_credential c db = Some db' \<Longrightarrow> db' = db\<lparr>ad_credentials := ad_credentials db @ [c]\<rparr>"
  "insert_session s db = Some db' \<Longrightarrow> db' = db\<lparr>ad_sessions := ad_sessions db @ [s]\<rparr>"
  "insert_replay r db = Some db' \<Longrightarrow> db' = db\<lparr>ad_replays := ad_replays db @ [r]\<rparr>"
  "insert_audit a db = Some db' \<Longrightarrow> db' = db\<lparr>ad_audits := ad_audits db @ [a]\<rparr>"
  by (auto simp: insert_credential_def insert_session_def insert_replay_def insert_audit_def split: if_split_asm)

lemma revoke_Some:
  "revoke_sessions which now db = Some db' \<Longrightarrow>
     db' = db\<lparr>ad_sessions := update_where (\<lambda>s. which s \<and> se_revoked s = None)
       (\<lambda>s. s\<lparr>se_revoked := Some now\<rparr>) (ad_sessions db)\<rparr> \<and>
     (\<forall>s \<in> set (ad_sessions db). which s \<and> se_revoked s = None \<longrightarrow> se_created s \<le> now)"
  by (auto simp: revoke_sessions_def Let_def list_ex_iff split: if_split_asm)

section \<open>The tables grow\<close>

definition session_step :: "session_row \<Rightarrow> session_row \<Rightarrow> bool" where
  "session_step s s' \<longleftrightarrow> s' = s \<or> (se_revoked s = None \<and> (\<exists>t. se_created s \<le> t \<and> s' = s\<lparr>se_revoked := Some t\<rparr>))"

definition rows_grow :: "session_row list \<Rightarrow> session_row list \<Rightarrow> bool" where
  "rows_grow xs ys \<longleftrightarrow> (\<exists>zs new. ys = zs @ new \<and> list_all2 session_step xs zs)"

definition grows :: "auth_db \<Rightarrow> auth_db \<Rightarrow> bool" where
  "grows db db' \<longleftrightarrow>
     rows_grow (ad_sessions db) (ad_sessions db') \<and>
     (\<exists>new. ad_replays db' = ad_replays db @ new) \<and> (\<exists>new. ad_audits db' = ad_audits db @ new)"

lemma session_step_refl [simp, intro]: "session_step s s"
  by (simp add: session_step_def)

lemma session_step_trans: "session_step s t \<Longrightarrow> session_step t u \<Longrightarrow> session_step s u"
  by (auto simp: session_step_def)


lemma session_step_revoked: "session_step s s' \<Longrightarrow> se_revoked s \<noteq> None \<Longrightarrow> se_revoked s' \<noteq> None"
  by (auto simp: session_step_def)

lemma rows_grow_refl [simp, intro]: "rows_grow xs xs"
  unfolding rows_grow_def by (intro exI [of _ xs] exI [of _ "[]"]) (simp add: list_all2_refl)

lemma rows_grow_trans:
  assumes "rows_grow xs ys" "rows_grow ys zs"
  shows "rows_grow xs zs"
proof -
  obtain ys1 n1 zs1 n2 where y: "ys = ys1 @ n1" "list_all2 session_step xs ys1"
    and z: "zs = zs1 @ n2" "list_all2 session_step (ys1 @ n1) zs1"
    using assms by (auto simp: rows_grow_def)
  obtain u v where u: "zs1 = u @ v" "list_all2 session_step ys1 u"
    using z(2) by (auto simp: list_all2_append1)
  have "list_all2 session_step xs u" by (rule list_all2_trans [OF session_step_trans y(2) u(2)])
  then show ?thesis unfolding rows_grow_def using z(1) u(1) by (intro exI [of _ u] exI [of _ "v @ n2"]) simp
qed

lemma rows_grow_append [simp, intro]: "rows_grow xs (xs @ new)"
  unfolding rows_grow_def by (intro exI [of _ xs] exI [of _ new]) (simp add: list_all2_refl)

lemma rows_grow_revoke [intro]:
  "(\<forall>s \<in> set xs. which s \<and> se_revoked s = None \<longrightarrow> se_created s \<le> now) \<Longrightarrow>
     rows_grow xs (update_where (\<lambda>s. which s \<and> se_revoked s = None) (\<lambda>s. s\<lparr>se_revoked := Some now\<rparr>) xs)"
  unfolding rows_grow_def
  by (intro exI [of _ "update_where (\<lambda>s. which s \<and> se_revoked s = None) (\<lambda>s. s\<lparr>se_revoked := Some now\<rparr>) xs"]
      exI [of _ "[]"]) (auto simp: update_where_def list_all2_conv_all_nth session_step_def)

lemma rows_grow_revoke_all [intro]:
  "(\<forall>s \<in> set xs. se_revoked s = None \<longrightarrow> se_created s \<le> now) \<Longrightarrow>
     rows_grow xs (update_where (\<lambda>s. se_revoked s = None) (\<lambda>s. s\<lparr>se_revoked := Some now\<rparr>) xs)"
  using rows_grow_revoke [of xs "\<lambda>_. True"] by simp

lemma grows_refl [simp, intro]: "grows db db"
  by (simp add: grows_def)

lemma grows_trans: "grows db1 db2 \<Longrightarrow> grows db2 db3 \<Longrightarrow> grows db1 db3"
  by (auto simp: grows_def intro: rows_grow_trans)

lemma block_source_grows: "block_source h q thr now db = (answer, db') \<Longrightarrow> grows db db'"
  by (auto simp: block_source_def grows_def dest!: insert_Some split: if_split_asm option.split_asm)


lemma login_start_grows: "login_start h q t0 t1 t2 db = (p, db') \<Longrightarrow> grows db db'"
  by (auto simp: login_start_def dest: block_source_grows split: if_split_asm option.split_asm prod.split_asm)

lemma record_failure_Some:
  "record_failure h q now db = Some db' \<Longrightarrow>
     db' = db\<lparr>ad_replays := ad_replays db @ [\<lparr>ik_namespace = rq_namespace h q, ik_key = rq_key_hash h q,
         ik_route = LoginRoute, ik_request = rq_hash h q, ik_status = 401, ik_session = None, ik_created = now,
         ik_completed = now\<rparr>],
       ad_audits := ad_audits db @ [login_audit h q Failure None None now]\<rparr>"
  by (auto simp: record_failure_def bind_eq_Some_conv dest!: insert_Some)

lemma record_success_Some:
  assumes "record_success h q actor now expires db = Some db'"
  shows "db' = db\<lparr>ad_sessions := ad_sessions db @ [new_session h q actor now expires],
      ad_replays := ad_replays db @ [\<lparr>ik_namespace = rq_namespace h q, ik_key = rq_key_hash h q,
         ik_route = LoginRoute, ik_request = rq_hash h q, ik_status = 200,
         ik_session = Some (se_id (new_session h q actor now expires)), ik_created = now, ik_completed = now\<rparr>],
      ad_audits := ad_audits db @ [login_audit h q Success (Some actor)
         (Some (take 32 (se_token_hash (new_session h q actor now expires)))) now]\<rparr>"
    and "insert_session (new_session h q actor now expires) db \<noteq> None"
proof -
  show "insert_session (new_session h q actor now expires) db \<noteq> None"
    using assms by (auto simp: record_success_def Let_def bind_eq_Some_conv)
qed (use assms in \<open>auto simp: record_success_def Let_def bind_eq_Some_conv dest!: insert_Some\<close>)

text \<open>The ways a login can end.\<close>

lemma login_finish_cases:
  assumes "login_finish h q t0 now t1 t2 c valid db = (answer, db')"
  obtains (replay) "replay_result h q t0 db = Some answer" "db' = db"
  | (blocked) "replay_result h q t0 db = None" "block_source h q (t1 - login_window) now db = (answer, db')"
  | (refused) e where "replay_result h q t0 db = None" "answer = Inl e" "db' = db"
  | (failed) "replay_result h q t0 db = None" "failure_count (rq_source_fp h q) (t1 - login_window) db < login_max_failures"
      "find_credential (rq_username q) db = c" "\<not> valid" "answer = Inl unauthenticated"
      "record_failure h q now db = Some db'"
  | (success) cr where "replay_result h q t0 db = None"
      "failure_count (rq_source_fp h q) (t1 - login_window) db < login_max_failures"
      "find_credential (rq_username q) db = c" "c = Some cr" "valid"
      "answer = Inr \<lparr>lr_actor = cr_actor cr, lr_expires = t2 + session_ttl * 1000, lr_token = rq_token h q,
         lr_max_age = session_ttl\<rparr>"
      "record_success h q (cr_actor cr) now (t2 + session_ttl * 1000) db = Some db'"
proof (cases "replay_result h q t0 db")
  case (Some a)
  then show thesis by (intro replay) (use assms Some in \<open>simp_all add: login_finish_def\<close>)
next
  case new: None
  let ?n = "failure_count (rq_source_fp h q) (t1 - login_window) db"
  show thesis
  proof (cases "login_max_failures \<le> ?n")
    case True
    then show thesis by (intro blocked) (use assms new in \<open>simp_all add: login_finish_def\<close>)
  next
    case few: False
    show thesis
    proof (cases "find_credential (rq_username q) db = c")
      case False
      then show thesis by (intro refused) (use assms new few in \<open>auto simp: login_finish_def\<close>)
    next
      case same: True
      show thesis
      proof (cases valid)
        case False
        show thesis
        proof (cases "record_failure h q now db")
          case None
          then show thesis by (intro refused) (use assms new few same False in \<open>auto simp: login_finish_def\<close>)
        next
          case (Some d)
          then show thesis by (intro failed) (use assms new few same False in \<open>auto simp: login_finish_def\<close>)
        qed
      next
        case True
        show thesis
        proof (cases c)
          case None
          then show thesis by (intro refused) (use assms new few same True in \<open>auto simp: login_finish_def\<close>)
        next
          case cr: (Some cr)
          show thesis
          proof (cases "record_success h q (cr_actor cr) now (t2 + session_ttl * 1000) db")
            case None
            then show thesis
              by (intro refused) (use assms new few same True cr in \<open>auto simp: login_finish_def Let_def\<close>)
          next
            case (Some d)
            then show thesis
              by (intro success) (use assms new few same True cr in \<open>auto simp: login_finish_def Let_def\<close>)
          qed
        qed
      qed
    qed
  qed
qed

lemma login_finish_grows: "login_finish h q t0 now t1 t2 c valid db = (answer, db') \<Longrightarrow> grows db db'"
  by (erule login_finish_cases)
    (auto simp: grows_def dest: block_source_grows record_failure_Some record_success_Some(1))

lemma logout_grows: "grows db (snd (logout h s key request now db))"
  by (auto simp: logout_def Let_def grows_def bind_eq_Some_conv dest!: insert_Some revoke_Some
    split: option.split sum.split)

lemma set_password_grows: "grows db (snd (set_password h u pw n r p salt now db))"
  by (auto simp: set_password_def Let_def grows_def bind_eq_Some_conv dest!: insert_Some revoke_Some
    split: option.split sum.split)

lemma initialize_grows: "grows db (snd (initialize_operator h u pw actor n r p salt now db))"
  by (auto simp: initialize_operator_def grows_def dest!: insert_Some split: option.split sum.split list.split)

lemma select_one_append: "select_one P xs = Some r \<Longrightarrow> select_one P (xs @ ys) = Some r"
  by (induction xs) (auto simp: select_one_def)


lemma rows_grow_select:
  assumes "rows_grow xs ys" "select_one P xs = Some r" "\<And>s s'. session_step s s' \<Longrightarrow> P s' \<longleftrightarrow> P s"
  shows "\<exists>r'. select_one P ys = Some r' \<and> session_step r r'"
proof -
  obtain zs new where ys: "ys = zs @ new" "list_all2 session_step xs zs" using assms(1) by (auto simp: rows_grow_def)
  from ys(2) assms(2) have "\<exists>r'. select_one P zs = Some r' \<and> session_step r r'"
  proof (induction xs zs rule: list_all2_induct)
    case (Cons x xs y ys)
    have "P y \<longleftrightarrow> P x" by (rule assms(3)) (rule Cons.hyps)
    then show ?case using Cons by (auto simp: select_one_def split: if_splits)
  qed (simp add: select_one_def)
  then obtain r' where "select_one P zs = Some r'" "session_step r r'" by blast
  then show ?thesis by (intro exI [of _ r']) (simp add: ys(1) select_one_append)
qed


lemma grows_find_token:
  "grows db db' \<Longrightarrow> find_token h token db = Some r \<Longrightarrow> \<exists>r'. find_token h token db' = Some r' \<and> session_step r r'"
  unfolding find_token_def grows_def
  by (rule rows_grow_select [of "ad_sessions db"]) (auto simp: session_step_def)


section \<open>The system\<close>

text \<open>
  A state: the tables and the logins between their two parts, each with the credential it saw and
  whether the password matches it. \<open>lag\<close> bounds the time between two readings of the clock in one
  transaction.
\<close>

type_synonym auth_state = "auth_db \<times> (login_request \<times> credential option \<times> bool) list"

definition empty_auth :: auth_db where
  "empty_auth = \<lparr>ad_credentials = [], ad_sessions = [], ad_replays = [], ad_audits = []\<rparr>"

inductive auth_step :: "hashes \<Rightarrow> nat \<Rightarrow> auth_state \<Rightarrow> auth_state \<Rightarrow> bool" for h lag where
  initialize: "length salt = 16 \<Longrightarrow>
    auth_step h lag (db, ps) (snd (initialize_operator h u pw actor n r p salt now db), ps)"
| change_password: "length salt = 16 \<Longrightarrow>
    auth_step h lag (db, ps) (snd (set_password h u pw n r p salt now db), ps)"
| answered: "login_start h q t0 t1 t2 db = (Answered answer, db') \<Longrightarrow> auth_step h lag (db, ps) (db', ps)"
| derived: "login_start h q t0 t1 t2 db = (Derive c, db') \<Longrightarrow> credential_matches h c (rq_password q) = Inr valid \<Longrightarrow>
    auth_step h lag (db, ps) (db', ps @ [(q, c, valid)])"
| finish: "(q, c, valid) \<in> set ps \<Longrightarrow> now \<le> t1 \<Longrightarrow> t1 \<le> now + lag \<Longrightarrow>
    login_finish h q t0 now t1 t2 c valid db = (answer, db') \<Longrightarrow>
    auth_step h lag (db, ps) (db', remove1 (q, c, valid) ps)"
| log_out: "auth_step h lag (db, ps) (snd (logout h s key request now db), ps)"
| crash: "auth_step h lag (db, ps) (db, [])"

inductive_cases auth_stepE: "auth_step h lag s s'"

lemma step_grows: "auth_step h lag s s' \<Longrightarrow> grows (fst s) (fst s')"
  by (induction rule: auth_step.induct)
    (auto intro: initialize_grows set_password_grows login_start_grows login_finish_grows logout_grows)

lemma steps_grow: "(auth_step h lag)\<^sup>*\<^sup>* s s' \<Longrightarrow> grows (fst s) (fst s')"
  by (induction rule: rtranclp_induct) (auto intro: grows_trans step_grows)

section \<open>The invariant\<close>

definition guesses :: "nat \<Rightarrow> string \<Rightarrow> nat \<Rightarrow> audit_row list \<Rightarrow> nat" where
  "guesses lag source t rows =
     count_where (\<lambda>a. login_events Failure source t a \<and> au_created a + lag \<le> t + login_window) rows"

definition credentials_ok :: "credential list \<Rightarrow> bool" where
  "credentials_ok cs \<longleftrightarrow> (\<forall>c \<in> set cs. cr_actor c = ''operator'')"

definition operator_ok :: "credential list \<Rightarrow> bool" where
  "operator_ok cs \<longleftrightarrow> cs = [] \<or> (\<exists>c. cs = [c] \<and> credential_row_ok c None)"

definition auth_inv :: "hashes \<Rightarrow> nat \<Rightarrow> auth_state \<Rightarrow> bool" where
  "auth_inv h lag s \<longleftrightarrow>
     (\<forall>source t. guesses lag source t (ad_audits (fst s)) \<le> login_max_failures) \<and>
     credentials_ok (ad_credentials (fst s)) \<and>
     (library_laws h \<longrightarrow> operator_ok (ad_credentials (fst s))) \<and>
     (\<forall>(q, c, valid) \<in> set (snd s). credential_matches h c (rq_password q) = Inr valid)"

lemma guesses_append:
  assumes "\<forall>a \<in> set new. \<not> (au_action a = Login \<and> au_outcome a = Failure)"
  shows "guesses lag source t (rows @ new) = guesses lag source t rows"
  using assms by (auto simp: guesses_def login_events_def count_where_0_iff)

lemma guesses_new:
  assumes "guesses lag source t rows \<le> login_max_failures"
    "count_where (login_events Failure (rq_source_fp h q) (t1 - login_window)) rows < login_max_failures"
    "t1 \<le> now + lag"
  shows "guesses lag source t (rows @ [login_audit h q Failure None None now]) \<le> login_max_failures"
proof (cases "login_events Failure source t (login_audit h q Failure None None now) \<and> now + lag \<le> t + login_window")
  case True
  then have t: "t1 - login_window \<le> t" "source = rq_source_fp h q"
    using assms(3) by (auto simp: login_events_def login_audit_def)
  have "guesses lag source t rows \<le> count_where (login_events Failure source (t1 - login_window)) rows"
    unfolding guesses_def by (rule count_where_mono) (use t(1) in \<open>auto simp: login_events_def\<close>)
  then show ?thesis using assms(2) t(2) by (simp add: guesses_def)
next
  case False
  then show ?thesis using assms(1) by (auto simp: guesses_def login_audit_def)
qed

lemma block_source_frame:
  assumes "block_source h q thr now db = (answer, db')"
  shows "\<exists>new. ad_audits db' = ad_audits db @ new \<and> (\<forall>a \<in> set new. \<not> (au_action a = Login \<and> au_outcome a = Failure)) \<and>
    ad_credentials db' = ad_credentials db \<and> ad_sessions db' = ad_sessions db"
  using assms by (auto simp: block_source_def login_audit_def dest!: insert_Some split: if_split_asm option.split_asm)

lemma login_start_frame:
  assumes "login_start h q t0 t1 t2 db = (answer, db')"
  shows "\<exists>new. ad_audits db' = ad_audits db @ new \<and> (\<forall>a \<in> set new. \<not> (au_action a = Login \<and> au_outcome a = Failure)) \<and>
    ad_credentials db' = ad_credentials db \<and> ad_sessions db' = ad_sessions db"
  using assms by (auto simp: login_start_def dest: block_source_frame split: if_split_asm option.split_asm prod.split_asm)

lemma logout_frame:
  "\<exists>new. ad_audits (snd (logout h s key request now db)) = ad_audits db @ new \<and>
     (\<forall>a \<in> set new. \<not> (au_action a = Login \<and> au_outcome a = Failure)) \<and>
     ad_credentials (snd (logout h s key request now db)) = ad_credentials db"
  by (auto simp: logout_def Let_def bind_eq_Some_conv dest!: insert_Some revoke_Some split: option.split sum.split)

lemma derive_password_Inr:
  "derive_password h pw salt n r p = Inr digest \<Longrightarrow>
     scrypt_ok n r p \<and> scrypt h pw salt n r p = Some digest"
  by (auto simp: derive_password_def validate_password_def split: if_split_asm option.split_asm)

lemma written_row_ok:
  assumes "library_laws h" "scrypt h pw salt n r p = Some digest" "scrypt_ok n r p" "length salt = 16"
    "USERNAME_PATTERN (cr_username c)" "cr_actor c = ''operator''" "cr_algorithm c = ''scrypt''"
    "cr_salt c = b64encode salt" "cr_digest c = b64encode digest" "cr_n c = n" "cr_r c = r" "cr_p c = p"
    "cr_created c \<le> cr_updated c"
  shows "credential_row_ok c None"
proof -
  have d: "length digest = 32" "128 * n * r \<le> 64 * 1024 * 1024" using assms(1,2) by (auto simp: library_laws_def)
  then have "digest \<noteq> []" "salt \<noteq> []" using assms(4) by auto
  then have "b64decode (cr_salt c) = Some salt" "b64decode (cr_digest c) = Some digest"
    using b64_roundtrip assms(8,9) by simp_all
  then show ?thesis
    unfolding credential_row_ok_def stored_scrypt_ok_def using assms d by simp
qed

lemma validate_username_Inr: "validate_username v = Inr u \<Longrightarrow> USERNAME_PATTERN u"
  by (auto simp: validate_username_def split: option.split_asm if_split_asm)

text \<open>What a change of the password does when it does not fail.\<close>

lemma set_password_Inr:
  assumes "set_password h username password n r p salt now db = (Inr m, db')"
  obtains u pw digest where "validate_username username = Inr u" "scrypt_ok n r p"
    "scrypt h pw salt n r p = Some digest"
    "ad_credentials db' = update_where (\<lambda>c. cr_username c = u)
       (\<lambda>c. c\<lparr>cr_salt := b64encode salt, cr_digest := b64encode digest, cr_n := n, cr_r := r, cr_p := p,
          cr_updated := now\<rparr>) (ad_credentials db)"
    "list_all credential_check (filter (\<lambda>c. cr_username c = u) (ad_credentials db'))"
    "ad_sessions db' = update_where (\<lambda>s. se_revoked s = None) (\<lambda>s. s\<lparr>se_revoked := Some now\<rparr>) (ad_sessions db)"
    "ad_replays db' = ad_replays db"
    "ad_audits db' = ad_audits db @ [\<lparr>au_action = PasswordChange, au_outcome = Success, au_actor = Some ''operator'',
       au_session = None, au_username = None, au_source = None, au_request = ''local-cli'', au_created = now\<rparr>]"
proof -
  obtain u pw digest where v: "validate_username username = Inr u" "validate_password password = Inr pw"
    "scrypt_ok n r p" "derive_password h pw salt n r p = Inr digest"
    and rest: "set_password h username password n r p salt now db = (Inr m, db')"
    using assms
    by (auto simp: set_password_def split: sum.split_asm if_split_asm)
  have "scrypt h pw salt n r p = Some digest" using derive_password_Inr [OF v(4)] by simp
  moreover have "list_all credential_check (filter (\<lambda>c. cr_username c = u) (ad_credentials db')) \<and>
      ad_credentials db' = update_where (\<lambda>c. cr_username c = u)
       (\<lambda>c. c\<lparr>cr_salt := b64encode salt, cr_digest := b64encode digest, cr_n := n, cr_r := r, cr_p := p,
          cr_updated := now\<rparr>) (ad_credentials db) \<and>
      ad_sessions db' = update_where (\<lambda>s. se_revoked s = None) (\<lambda>s. s\<lparr>se_revoked := Some now\<rparr>) (ad_sessions db) \<and>
      ad_replays db' = ad_replays db \<and>
      ad_audits db' = ad_audits db @ [\<lparr>au_action = PasswordChange, au_outcome = Success, au_actor = Some ''operator'',
       au_session = None, au_username = None, au_source = None, au_request = ''local-cli'', au_created = now\<rparr>]"
    using rest v
    by (auto simp: set_password_def Let_def bind_eq_Some_conv dest!: insert_Some revoke_Some
      split: option.split_asm if_split_asm)
  ultimately show thesis using that v by blast
qed

lemma set_password_Inl:
  "set_password h username password n r p salt now db = (Inl e, db') \<Longrightarrow> db' = db"
  by (auto simp: set_password_def Let_def split: sum.split_asm if_split_asm option.split_asm)

lemma set_password_inv:
  assumes "length salt = 16" "auth_inv h lag (db, ps)"
  shows "auth_inv h lag (snd (set_password h username password n r p salt now db), ps)"
proof (cases "set_password h username password n r p salt now db")
  case (Pair answer db')
  show ?thesis
  proof (cases answer)
    case (Inl e)
    then show ?thesis using Pair assms(2) by (auto dest: set_password_Inl)
  next
    case (Inr m)
    obtain u pw digest where f: "validate_username username = Inr u" "scrypt_ok n r p"
      "scrypt h pw salt n r p = Some digest"
      "ad_credentials db' = update_where (\<lambda>c. cr_username c = u)
         (\<lambda>c. c\<lparr>cr_salt := b64encode salt, cr_digest := b64encode digest, cr_n := n, cr_r := r, cr_p := p,
            cr_updated := now\<rparr>) (ad_credentials db)"
      "list_all credential_check (filter (\<lambda>c. cr_username c = u) (ad_credentials db'))"
      "ad_audits db' = ad_audits db @ [\<lparr>au_action = PasswordChange, au_outcome = Success, au_actor = Some ''operator'',
         au_session = None, au_username = None, au_source = None, au_request = ''local-cli'', au_created = now\<rparr>]"
      using Pair Inr by (auto elim: set_password_Inr)
    have "credentials_ok (ad_credentials db')"
      using assms(2) f(4) by (auto simp: auth_inv_def credentials_ok_def set_update_where)
    moreover have "operator_ok (ad_credentials db')" if "library_laws h"
    proof (cases "\<exists>c. ad_credentials db = [c] \<and> cr_username c = u")
      case True
      then obtain c where c: "ad_credentials db = [c]" "cr_username c = u" by blast
      have ok: "credential_row_ok c None" using assms(2) that c(1) by (auto simp: auth_inv_def operator_ok_def)
      let ?c = "c\<lparr>cr_salt := b64encode salt, cr_digest := b64encode digest, cr_n := n, cr_r := r, cr_p := p,
          cr_updated := now\<rparr>"
      have new: "ad_credentials db' = [?c]" using f(4) c by simp
      then have "credential_check ?c" using f(5) c(2) by simp
      then have "credential_row_ok ?c None"
        using ok by (intro written_row_ok [OF that f(3,2) assms(1)])
          (auto simp: credential_row_ok_def credential_check_def split: option.split_asm)
      then show ?thesis using new by (simp add: operator_ok_def)
    next
      case False
      then have "ad_credentials db' = ad_credentials db"
        using assms(2) that f(4) by (auto simp: auth_inv_def operator_ok_def)
      then show ?thesis using assms(2) that by (simp add: auth_inv_def)
    qed
    ultimately show ?thesis
      using assms(2) Pair f(6) by (simp add: auth_inv_def guesses_append)
  qed
qed

lemma initialize_inv:
  assumes "length salt = 16" "auth_inv h lag (db, ps)"
  shows "auth_inv h lag (snd (initialize_operator h username password actor n r p salt now db), ps)"
proof (cases "\<exists>db'. initialize_operator h username password actor n r p salt now db = (Inr ''created'', db')")
  case True
  then obtain db' where db': "initialize_operator h username password actor n r p salt now db = (Inr ''created'', db')"
    by blast
  then obtain u pw digest where v: "validate_username username = Inr u" "derive_password h pw salt n r p = Inr digest"
    "ad_credentials db = []"
    "insert_credential \<lparr>cr_actor = actor, cr_username = u, cr_algorithm = ''scrypt'', cr_salt = b64encode salt,
       cr_digest = b64encode digest, cr_n = n, cr_r = r, cr_p = p, cr_created = now, cr_updated = now\<rparr> db = Some db'"
    by (auto simp: initialize_operator_def split: sum.split_asm list.split_asm if_split_asm option.split_asm)
  have actor: "actor = ''operator''"
    using v(4) by (auto simp: insert_credential_def credential_check_def split: if_split_asm)
  have "operator_ok (ad_credentials db')" if "library_laws h"
    using insert_Some(1) [OF v(4)] v(3) derive_password_Inr [OF v(2)] validate_username_Inr [OF v(1)] actor
    by (auto simp: operator_ok_def intro: written_row_ok [OF that _ _ assms(1), of pw])
  then show ?thesis
    using assms(2) db' insert_Some(1) [OF v(4)] v(3) actor by (auto simp: auth_inv_def credentials_ok_def)
next
  case False
  then have "snd (initialize_operator h username password actor n r p salt now db) = db"
    by (auto simp: initialize_operator_def split: sum.split list.split option.split)
  then show ?thesis using assms(2) by simp
qed

lemma login_finish_inv:
  assumes inv: "auth_inv h lag (db, ps)" and lag: "t1 \<le> now + lag"
    and finish: "login_finish h q t0 now t1 t2 c valid db = (answer, db')"
  shows "auth_inv h lag (db', remove1 (q, c, valid) ps)"
  using finish
proof (cases rule: login_finish_cases)
  case failed
  then show ?thesis
    using inv record_failure_Some [OF failed(6)] guesses_new [OF _ _ lag, of _ _ _ h q] set_remove1_subset [of _ ps]
    by (fastforce simp: auth_inv_def failure_count_def)
next
  case (success cr)
  have "guesses lag source t (ad_audits db') \<le> login_max_failures" for source t
    using inv record_success_Some(1) [OF success(7)] by (simp add: auth_inv_def guesses_append login_audit_def)
  then show ?thesis
    using inv record_success_Some(1) [OF success(7)] set_remove1_subset [of _ ps] by (fastforce simp: auth_inv_def)
next
  case blocked
  obtain new where new: "ad_audits db' = ad_audits db @ new"
    "\<forall>a \<in> set new. \<not> (au_action a = Login \<and> au_outcome a = Failure)" "ad_credentials db' = ad_credentials db"
    using block_source_frame [OF blocked(2)] by blast
  then show ?thesis
    using inv set_remove1_subset [of _ ps] by (fastforce simp: auth_inv_def guesses_append)
qed (use inv set_remove1_subset [of _ ps] in \<open>fastforce simp: auth_inv_def\<close>)+

lemma auth_step_inv:
  assumes "auth_inv h lag s" "auth_step h lag s s'"
  shows "auth_inv h lag s'"
  using assms(2,1)
proof (cases rule: auth_step.cases)
  case (answered q t0 t1 t2 db answer db' ps)
  obtain new where "ad_audits db' = ad_audits db @ new"
    "\<forall>a \<in> set new. \<not> (au_action a = Login \<and> au_outcome a = Failure)" "ad_credentials db' = ad_credentials db"
    using login_start_frame [OF answered(3)] by blast
  then show ?thesis using answered assms(1) by (simp add: auth_inv_def guesses_append)
next
  case (derived q t0 t1 t2 db c db' valid ps)
  obtain new where "ad_audits db' = ad_audits db @ new"
    "\<forall>a \<in> set new. \<not> (au_action a = Login \<and> au_outcome a = Failure)" "ad_credentials db' = ad_credentials db"
    using login_start_frame [OF derived(3)] by blast
  then show ?thesis using derived assms(1) by (auto simp: auth_inv_def guesses_append)
next
  case (log_out db ps w key request now)
  obtain new where "ad_audits (snd (logout h w key request now db)) = ad_audits db @ new"
    "\<forall>a \<in> set new. \<not> (au_action a = Login \<and> au_outcome a = Failure)"
    "ad_credentials (snd (logout h w key request now db)) = ad_credentials db"
    using logout_frame by blast
  then show ?thesis using log_out assms(1) by (simp add: auth_inv_def guesses_append)
next
  case (crash db ps)
  then show ?thesis using assms(1) by (simp add: auth_inv_def)
qed (use assms(1) in \<open>auto intro: initialize_inv set_password_inv login_finish_inv\<close>)

interpretation browser_auth: invariant_system "\<lambda>s. s = (empty_auth, [])" "auth_step h lag" "auth_inv h lag" for h lag
proof
  show "auth_inv h lag s" if "s = (empty_auth, [])" for s
    using that by (simp add: auth_inv_def empty_auth_def guesses_def credentials_ok_def operator_ok_def)
qed (rule auth_step_inv)

section \<open>Properties\<close>

text \<open>
  C15: brute force is bounded, for any number of logins at the same time: of a source, at most 5 wrong
  passwords are answered as wrong in any 60 seconds, up to the time \<open>lag\<close> between two readings of the
  clock in one transaction.
\<close>

theorem login_failures_bounded:
  assumes "(auth_step h lag)\<^sup>*\<^sup>* (empty_auth, []) (db, ps)"
  shows "length (filter (\<lambda>a. au_action a = Login \<and> au_outcome a = Failure \<and> au_source a = Some source \<and>
      t \<le> au_created a \<and> au_created a + lag \<le> t + 60000) (ad_audits db)) \<le> 5"
  using browser_auth.reachable_inv [OF refl assms]
  by (simp add: auth_inv_def guesses_def login_events_def count_where_def login_window_def login_max_failures_def conj_assoc)

text \<open>
  The operator's row is valid whatever the commands were: there is at most one credential, and
  it passes the checks of every login and of the readiness test.
\<close>

theorem operator_row_valid:
  assumes "library_laws h" "(auth_step h lag)\<^sup>*\<^sup>* (empty_auth, []) (db, ps)"
  shows "ad_credentials db = [] \<or> (\<exists>c. ad_credentials db = [c] \<and> credential_row_ok c None)"
  using browser_auth.reachable_inv [OF refl assms(2)] assms(1) by (simp add: auth_inv_def operator_ok_def)

lemma login_start_sessions: "login_start h q t0 t1 t2 db = (p, db') \<Longrightarrow> ad_sessions db' = ad_sessions db"
  using login_start_frame by blast

lemma logout_sessions: "map se_id (ad_sessions (snd (logout h s key request now db))) = map se_id (ad_sessions db)"
  by (auto simp: logout_def Let_def bind_eq_Some_conv map_update_where dest!: insert_Some revoke_Some
    split: option.split sum.split)

lemma set_password_sessions:
  "map se_id (ad_sessions (snd (set_password h u pw n r p salt now db))) = map se_id (ad_sessions db)"
  by (auto simp: set_password_def Let_def bind_eq_Some_conv map_update_where dest!: insert_Some revoke_Some
    split: option.split sum.split)

lemma initialize_sessions:
  "ad_sessions (snd (initialize_operator h u pw actor n r p salt now db)) = ad_sessions db"
  by (auto simp: initialize_operator_def dest!: insert_Some split: option.split sum.split list.split)

lemma old_session: "map se_id xs = map se_id ys \<Longrightarrow> s \<in> set xs \<Longrightarrow> se_id s \<in> se_id ` set ys"
  by (metis image_eqI set_map)

lemma session_opened:
  assumes "auth_step h lag (db, ps) (db', ps')" "s \<in> set (ad_sessions db')" "se_id s \<notin> se_id ` set (ad_sessions db)"
  shows "\<exists>q c valid t0 now t1 t2 answer. (q, c, valid) \<in> set ps \<and> now \<le> t1 \<and>
    login_finish h q t0 now t1 t2 c valid db = (answer, db')"
  using assms
  by (cases rule: auth_step.cases)
    (auto simp: initialize_sessions dest: login_start_sessions old_session [OF logout_sessions]
      old_session [OF set_password_sessions])

text \<open>
  C13: a session is only opened by a login whose password matches the credential that is stored at that
  moment, with fewer than 5 failures of its source in the last minute; its token is the token of that
  login.
\<close>

theorem session_needs_password:
  assumes "(auth_step h lag)\<^sup>*\<^sup>* (empty_auth, []) (db, ps)" "auth_step h lag (db, ps) (db', ps')"
    "s \<in> set (ad_sessions db')" "se_id s \<notin> se_id ` set (ad_sessions db)"
  shows "\<exists>q c t. find_credential (rq_username q) db = Some c \<and>
      credential_matches h (Some c) (rq_password q) = Inr True \<and>
      failure_count (rq_source_fp h q) (t - 60000) db < 5 \<and> se_created s \<le> t \<and>
      se_token_hash s = token_hash h (rq_token h q) \<and> se_revoked s = None"
proof -
  obtain q c valid t0 now t1 t2 answer where f: "(q, c, valid) \<in> set ps" "now \<le> t1"
    "login_finish h q t0 now t1 t2 c valid db = (answer, db')"
    using session_opened [OF assms(2-4)] by blast
  have m: "credential_matches h c (rq_password q) = Inr valid"
    using browser_auth.reachable_inv [OF refl assms(1)] f(1) by (auto simp: auth_inv_def)
  show ?thesis
    using f(3)
  proof (cases rule: login_finish_cases)
    case (success cr)
    then have "s = new_session h q (cr_actor cr) now (t2 + session_ttl * 1000)"
      using record_success_Some(1) [OF success(7)] assms(3,4) by auto
    then show ?thesis
      using success f(2) m
      by (intro exI [of _ q] exI [of _ cr] exI [of _ t1])
        (simp add: new_session_def login_window_def login_max_failures_def)
  next
    case blocked
    then show ?thesis using block_source_frame [OF blocked(2)] assms(3,4) by force
  qed (use assms(3,4) in \<open>auto dest: record_failure_Some\<close>)
qed

text \<open>
  C37: a change of the password ends every session: whatever happens afterwards, a cookie that names a
  session from before the change is never accepted again.
\<close>

theorem password_change_ends_sessions:
  assumes "set_password h username password n r p salt now db = (Inr m, db')"
    "(auth_step h lag)\<^sup>*\<^sup>* (db', ps) (db'', ps')"
    "cookie_value header = Inr token" "token \<noteq> secret" "find_token h token db = Some row"
  shows "\<exists>e. authenticate_cookie h header secret t db'' = Inl e"
proof -
  have g: "grows db db'" using set_password_grows [of db h username password n r p salt now] assms(1) by simp
  obtain row' where row': "find_token h token db' = Some row'" using grows_find_token [OF g assms(5)] by blast
  have "ad_sessions db' = update_where (\<lambda>s. se_revoked s = None) (\<lambda>s. s\<lparr>se_revoked := Some now\<rparr>) (ad_sessions db)"
    using assms(1) by (rule set_password_Inr)
  then have "\<forall>x \<in> set (ad_sessions db'). se_revoked x \<noteq> None" by (auto simp: set_update_where)
  moreover have "row' \<in> set (ad_sessions db')"
    by (rule conjunct1 [OF select_one_Some [OF row' [unfolded find_token_def]]])
  ultimately have "se_revoked row' \<noteq> None" by blast
  moreover obtain row'' where row'': "find_token h token db'' = Some row''" "session_step row' row''"
    using grows_find_token [OF _ row'] steps_grow [OF assms(2)] by auto
  ultimately have "se_revoked row'' \<noteq> None" using session_step_revoked by blast
  then have "\<exists>e. session_from_row row'' token True t = Inl e" by (simp add: session_from_row_def)
  then show ?thesis using assms(3,4) row''(1) by (auto simp: authenticate_cookie_def browser_session_def)
qed


section \<open>A run\<close>

text \<open>
  Digest functions that return the end of their message: the operator is created, one login has the
  password and another has not.
\<close>

definition toy_digest :: "string \<Rightarrow> string" where
  "toy_digest msg = take 32 (rev msg @ replicate 32 CHR ''x'')"

definition toy :: hashes where
  "toy = \<lparr>hmac_sha256 = (\<lambda>key msg. toy_digest msg), sha256 = toy_digest,
     scrypt = (\<lambda>password salt n r p. if 128 * n * r \<le> 64 * 1024 * 1024 then Some (toy_digest password) else None)\<rparr>"

lemma toy_laws: "library_laws toy"
  by (auto simp: library_laws_def toy_def toy_digest_def)

definition toy_login :: "string \<Rightarrow> string \<Rightarrow> login_request" where
  "toy_login password key = \<lparr>rq_username = ''admin'', rq_password = password, rq_key = key, rq_secret = ''secret'',
     rq_source = ''host'', rq_agent = '''', rq_id = ''request1''\<rparr>"

definition toy_good :: login_request where "toy_good = toy_login ''correct horse'' ''key-0001''"
definition toy_bad :: login_request where "toy_bad = toy_login ''wrong password'' ''key-0002''"

definition toy_credential :: credential where
  "toy_credential = \<lparr>cr_actor = ''operator'', cr_username = ''admin'', cr_algorithm = ''scrypt'',
     cr_salt = ''c3Nzc3Nzc3Nzc3Nzc3Nzcw'', cr_digest = ''ZXNyb2ggdGNlcnJvY3h4eHh4eHh4eHh4eHh4eHh4eHg'',
     cr_n = 1024, cr_r = 8, cr_p = 1, cr_created = 1000, cr_updated = 1000\<rparr>"

definition toy_db :: auth_db where
  "toy_db = empty_auth\<lparr>ad_credentials := [toy_credential]\<rparr>"

lemma toy_initialized:
  "initialize_operator toy (Some ''admin'') (Some ''correct horse'') ''operator'' 1024 8 1 (replicate 16 CHR ''s'') 1000
     empty_auth = (Inr ''created'', toy_db)"
  by code_simp

lemma toy_started: "login_start toy toy_good 2000 2000 2000 toy_db = (Derive (Some toy_credential), toy_db)"
    "login_start toy toy_bad 2000 2000 2000 toy_db = (Derive (Some toy_credential), toy_db)"
  by code_simp+

lemma toy_derived: "credential_matches toy (Some toy_credential) (rq_password toy_good) = Inr True"
    "credential_matches toy (Some toy_credential) (rq_password toy_bad) = Inr False"
  by code_simp+

definition toy_logins :: "(login_request \<times> credential option \<times> bool) list" where
  "toy_logins = [(toy_good, Some toy_credential, True), (toy_bad, Some toy_credential, False)]"

lemma toy_reachable: "(auth_step toy lag)\<^sup>*\<^sup>* (empty_auth, []) (toy_db, toy_logins)"
proof -
  have "auth_step toy lag (empty_auth, []) (toy_db, [])"
    using initialize [of "replicate 16 CHR ''s''" toy lag empty_auth "[]"] toy_initialized by (metis length_replicate snd_conv)
  moreover have "auth_step toy lag (toy_db, []) (toy_db, [(toy_good, Some toy_credential, True)])"
    using derived [OF toy_started(1) toy_derived(1), of lag "[]"] by simp
  moreover have "auth_step toy lag (toy_db, [(toy_good, Some toy_credential, True)]) (toy_db, toy_logins)"
    using derived [OF toy_started(2) toy_derived(2), of lag "[(toy_good, Some toy_credential, True)]"] by (simp add: toy_logins_def)
  ultimately show ?thesis by (blast intro: rtranclp.rtrancl_into_rtrancl)
qed

definition toy_result :: login_result where
  "toy_result = \<lparr>lr_actor = ''operator'', lr_expires = 43202003, lr_token = ''bws_ZjY3Njk2ZTZkMjI3NTYxNzU3NTYzNzQ3MDAxNjQ2ZDY'',
     lr_max_age = 43200\<rparr>"

definition toy_opened :: auth_db where
  "toy_opened = snd (login_finish toy toy_good 2000 2001 2002 2003 (Some toy_credential) True toy_db)"

lemma toy_finish_values:
  "map_prod id (\<lambda>db. length (ad_sessions db)) (login_finish toy toy_good 2000 2001 2002 2003 (Some toy_credential) True toy_db) =
     (Inr toy_result, 1)"
  by code_simp

lemma toy_finished:
  "login_finish toy toy_good 2000 2001 2002 2003 (Some toy_credential) True toy_db = (Inr toy_result, toy_opened)"
  "length (ad_sessions toy_opened) = 1"
  using toy_finish_values unfolding toy_opened_def
  by (cases "login_finish toy toy_good 2000 2001 2002 2003 (Some toy_credential) True toy_db", simp)+

lemma toy_opens: "auth_step toy 1 (toy_db, toy_logins) (toy_opened, [(toy_bad, Some toy_credential, False)])"
  using finish [OF _ _ _ toy_finished(1), of toy_logins 1] by (simp add: toy_logins_def)

definition toy_failed :: auth_db where
  "toy_failed = snd (login_finish toy toy_bad 2000 2001 2002 2003 (Some toy_credential) False toy_db)"

lemma toy_failure: "length (filter (\<lambda>a. au_outcome a = Failure) (ad_audits toy_failed)) = 1"
  by code_simp

lemma toy_fails: "auth_step toy 1 (toy_db, toy_logins) (toy_failed, [(toy_good, Some toy_credential, True)])"
proof -
  have "login_finish toy toy_bad 2000 2001 2002 2003 (Some toy_credential) False toy_db =
      (fst (login_finish toy toy_bad 2000 2001 2002 2003 (Some toy_credential) False toy_db), toy_failed)"
    by (simp add: toy_failed_def)
  moreover have "toy_good \<noteq> toy_bad" by (simp add: toy_good_def toy_bad_def toy_login_def)
  ultimately show ?thesis using finish [of toy_bad _ _ toy_logins 2001 2002 1] by (simp add: toy_logins_def)
qed

theorem login_failures_bounded_witness:
  "length (filter (\<lambda>a. au_action a = Login \<and> au_outcome a = Failure \<and> au_source a = Some (rq_source_fp toy toy_bad) \<and>
     0 \<le> au_created a \<and> au_created a + 1 \<le> 0 + 60000) (ad_audits toy_failed)) \<le> 5 \<and>
   length (filter (\<lambda>a. au_outcome a = Failure) (ad_audits toy_failed)) = 1"
  using login_failures_bounded [OF rtranclp.rtrancl_into_rtrancl [OF toy_reachable toy_fails]] toy_failure by blast

theorem operator_row_valid_witness: "\<exists>c. ad_credentials toy_db = [c] \<and> credential_row_ok c None"
  using operator_row_valid [OF toy_laws toy_reachable [of 1]] by (auto simp: toy_db_def)

theorem session_needs_password_witness:
  "\<exists>s q c t. s \<in> set (ad_sessions toy_opened) \<and> find_credential (rq_username q) toy_db = Some c \<and>
     credential_matches toy (Some c) (rq_password q) = Inr True \<and> failure_count (rq_source_fp toy q) (t - 60000) toy_db < 5 \<and>
     se_token_hash s = token_hash toy (rq_token toy q)"
proof -
  obtain s where s: "s \<in> set (ad_sessions toy_opened)" using toy_finished(2) by (cases "ad_sessions toy_opened") auto
  have "ad_sessions toy_db = []" by (simp add: toy_db_def empty_auth_def)
  then show ?thesis using session_needs_password [OF toy_reachable toy_opens s] s by auto
qed

definition toy_session :: session_row where
  "toy_session = \<lparr>se_id = ''ses_1'', se_token_hash = token_hash toy (lr_token toy_result), se_actor = ''operator'',
     se_created = 2001, se_expires = 43202003, se_revoked = None, se_source = [], se_agent = []\<rparr>"

definition toy_changed :: "(auth_error + string) \<times> auth_db" where
  "toy_changed = set_password toy (Some ''admin'') (Some ''another horse'') 1024 8 1 (replicate 16 CHR ''s'') 4000
     (toy_db\<lparr>ad_sessions := [toy_session]\<rparr>)"

theorem password_change_ends_sessions_witness:
  "\<exists>e. authenticate_cookie toy (Some (''hermesops_session='' @ lr_token toy_result)) ''secret'' 5000 (snd toy_changed) = Inl e"
proof -
  have "fst toy_changed = Inr ''updated''" by code_simp
  then have change: "set_password toy (Some ''admin'') (Some ''another horse'') 1024 8 1 (replicate 16 CHR ''s'') 4000
      (toy_db\<lparr>ad_sessions := [toy_session]\<rparr>) = (Inr ''updated'', snd toy_changed)"
    unfolding toy_changed_def by (intro prod_eqI) simp_all
  have cookie: "cookie_value (Some (''hermesops_session='' @ lr_token toy_result)) = Inr (lr_token toy_result)"
    by code_simp
  have token: "find_token toy (lr_token toy_result) (toy_db\<lparr>ad_sessions := [toy_session]\<rparr>) = Some toy_session"
    by (simp add: find_token_def select_one_def toy_session_def)
  have "lr_token toy_result \<noteq> ''secret''" by (simp add: toy_result_def)
  then show ?thesis
    using password_change_ends_sessions [OF change rtranclp.rtrancl_refl [of "auth_step toy 1" "(_, [])"] cookie _ token] by blast
qed


end
