(* ===== verification/Orch_Findings.thy ===== *)
theory Orch_Findings
  imports Orch_Safety Scheduler
begin

text \<open>
  Three runs of the model on which the orchestrator does not keep a mark it has set: a cancelled
  objective is queued again by its planner, a task blocked for recovery is made READY by the failure
  it stems from, and a restart leaves a failed task without an end time.
\<close>

section \<open>A cancellation while the planner runs\<close>

definition later_at :: "int \<Rightarrow> string" where
  "later_at s = ''t3''"

definition cancel_db0 :: db where
  "cancel_db0 = (case insert_objective ''t0'' ''o'' ''ship'' AI 100 ''t0'' [''site''] 1 3 None empty_db of
     Inr db \<Rightarrow> db | Inl _ \<Rightarrow> empty_db)"

definition cancel_db1 :: db where
  "cancel_db1 = snd (right (reserve_ai_objective ''t1'' ''o'' ''oa'' ''i'' 4 cancel_db0) (None, empty_db))"

definition cancel_db2 :: db where
  "cancel_db2 = (case objective_cancel ''t2'' ''o'' cancel_db1 of Inr db \<Rightarrow> db | Inl _ \<Rightarrow> empty_db)"

definition cancel_db3 :: db where
  "cancel_db3 = synchronize_objective_states ''t2'' cancel_db2"

definition cancel_db4 :: db where
  "cancel_db4 = conclude_planning later_at 60 (\<lambda>_. ''error'') ''t3'' ''o'' ''oa'' (Inl ''timeout'') cancel_db3"

definition objective_marks :: "db \<Rightarrow> (string \<times> objective_status \<times> string option) list" where
  "objective_marks db = map (\<lambda>b. (o_id b, o_status b, o_finished b)) (db_objectives db)"

lemma cancelled_objective_requeued:
  "objective_marks cancel_db1 = [(''o'', OPlanning, None)]"
  "objective_marks cancel_db2 = [(''o'', OCancelRequested, None)]"
  "objective_marks cancel_db3 = [(''o'', OCancelled, Some ''t2'')]"
  "objective_marks cancel_db4 = [(''o'', OQueued, None)]"
  "map_option o_id (next_queued_objective ''t3'' cancel_db4) = Some ''o''"
  by code_simp+

section \<open>A failure whose rollback fails\<close>

definition piped_task :: task_row where
  "piped_task =
     \<lparr>t_id = ''A'', t_plan = ''p'', t_key = ''a'', t_kind = PIPELINE, t_project = Some ''site'', t_role = None,
      t_status = TRunning, t_priority = 100, t_instruction = ''go'', t_acceptance = [], t_marker = None,
      t_max_attempts = 2, t_attempt_count = 1, t_result = JObj [], t_failure = None, t_created = ''t0'',
      t_started = Some ''t1'', t_heartbeat = Some ''t1'', t_finished = None\<rparr>"

definition piped_db :: "run_row list \<Rightarrow> attempt_row \<Rightarrow> int \<Rightarrow> db" where
  "piped_db runs a limit = empty_db\<lparr>
     db_plans := [\<lparr>p_id = ''p'', p_objective = ''ship'', p_source = AI, p_status = PRunning,
       p_max_parallel = 1, p_sha256 = [], p_plan = run_graph, p_created = ''t0'', p_started = Some ''t1'',
       p_heartbeat = Some ''t1'', p_finished = None, p_error = None\<rparr>],
     db_tasks := [piped_task\<lparr>t_max_attempts := limit\<rparr>], db_attempts := [a], db_runs := runs\<rparr>"

definition rollback_db1 :: db where
  "rollback_db1 =
     piped_db [\<lparr>r_id = ''r'', r_project = ''site'', r_status = RRunning, r_recovery = None, r_heartbeat = None\<rparr>]
       ((new_attempt_row ''t1'' ''at'' ''A'' ''i'' 1)\<lparr>a_run := Some ''r''\<rparr>) 2"

definition rollback_db2 :: db where
  "rollback_db2 = snd (rollback_run_best_effort (\<lambda>db. (db, Inr 1)) ''t2'' (Some ''r'') rollback_db1)"

definition rollback_db3 :: db where
  "rollback_db3 = conclude_task ''t3'' piped_task ''at'' (Inl ''worker failed'') rollback_db2"

definition task_marks :: "db \<Rightarrow> (task_status \<times> string option \<times> string option) list" where
  "task_marks db = map (\<lambda>t. (t_status t, t_failure t, t_finished t)) (db_tasks db)"

definition plan_marks :: "db \<Rightarrow> (plan_status \<times> string option) list" where
  "plan_marks db = map (\<lambda>p. (p_status p, p_error p)) (db_plans db)"

lemma failed_rollback_unblocks_task:
  "task_marks rollback_db2 = [(TBlocked, Some CANCELLATION_RECOVERY_ERROR, Some ''t2'')]"
  "task_marks rollback_db3 = [(TReady, Some ''worker failed'', None)]"
  "map r_status (db_runs rollback_db3) = [RRecovering]"
  "plan_marks rollback_db3 = [(PBlocked, Some CANCELLATION_RECOVERY_ERROR)]"
  by code_simp+

section \<open>A restart before the run is reserved\<close>

definition restart_db1 :: db where
  "restart_db1 = piped_db [] (new_attempt_row ''t1'' ''at'' ''A'' ''i'' 1) 1"

lemma restart_fails_task_without_end:
  "task_marks (reconcile_interrupted_tasks ''t2'' ''j'' restart_db1) =
     [(TFailed, Some ''pipeline rescheduled after restart'', None)]"
  "plan_marks (reconcile_interrupted_tasks ''t2'' ''j'' restart_db1) =
     [(PFailed, Some ''one or more tasks failed'')]"
  by code_simp+

end
