(* ===== verification/Scheduler_Safety.thy ===== *)
theory Scheduler_Safety
  imports Scheduler Orch_System
begin

text \<open>
  The two loops of a sweep: the dispatch of queued objectives ends and keeps the number of active
  objectives within the slots; the tasks \<^verbatim>\<open>runnable_tasks\<close> selects can be started one after the
  other, and when it leaves room no other candidate can be started.
\<close>

section \<open>Dispatch of objectives\<close>

definition queued_count :: "db \<Rightarrow> nat" where
  "queued_count db = count_where (\<lambda>b. o_status b = OQueued) (db_objectives db)"

lemma refresh_task_objectives [simp]: "db_objectives (refresh_task now pid t db) = db_objectives db"
  by (simp add: refresh_task_def block_pending_def ready_pending_def Let_def)

lemma fold_refresh_task_objectives [simp]:
  "db_objectives (fold (refresh_task now pid) ts db) = db_objectives db"
  by (induction ts arbitrary: db) simp_all

lemma refresh_plan_states_objectives [simp]:
  "db_objectives (refresh_plan_states now pid db) = db_objectives db"
  by (simp add: refresh_plan_states_def refresh_tasks_def split: option.split)

text \<open>A row that leaves QUEUED: the rows with this status are fewer, the others more by one at most.\<close>

lemma count_where_leave:
  assumes "count_where c rows = 1" "\<And>r. c r \<Longrightarrow> q r" "\<And>r. c r \<Longrightarrow> \<not> q (f r)"
  shows "Suc (count_where q (update_where c f rows)) = count_where q rows"
  using assms by (induction rows) (auto simp: count_where_0_iff)

lemma count_where_enter:
  "count_where c rows = 1 \<Longrightarrow> count_where d (update_where c f rows) \<le> Suc (count_where d rows)"
  by (induction rows) (auto simp: count_where_0_iff)

lemma objective_of_plan_terminal: "objective_of_plan s = Some new \<Longrightarrow> terminal_objective new"
  by (cases s) (auto simp: terminal_objective_def)

lemma promote_leaves_queue:
  assumes "promote_planned_objective now oid db = (Some pid, db')"
  shows "Suc (queued_count db') = queued_count db"
    and "active_objective_count db' \<le> Suc (active_objective_count db)"
proof -
  let ?c = "\<lambda>b. o_id b = oid \<and> o_status b = OQueued"
  obtain g new where one: "count_where ?c (db_objectives db) = 1"
    and rows: "db_objectives db' = update_where ?c g (db_objectives db)"
    and g: "\<And>b. o_status (g b) = new" and new: "new \<noteq> OQueued"
    using assms unfolding promote_planned_objective_def Let_def
    by (auto split: option.splits if_splits) (auto dest: objective_of_plan_terminal simp: terminal_objective_def)
  show "Suc (queued_count db') = queued_count db"
    unfolding queued_count_def rows by (rule count_where_leave [OF one]) (use g new in auto)
  show "active_objective_count db' \<le> Suc (active_objective_count db)"
    unfolding active_objective_count_def rows
    by (rule count_where_enter [OF one])
qed

lemma reserve_leaves_queue:
  assumes "reserve_ai_objective now oid aid iid slots db = Inr (Some b, db')"
  shows "Suc (queued_count db') = queued_count db"
    and "active_objective_count db' \<le> Suc (active_objective_count db)"
proof -
  let ?c = "\<lambda>c. o_id c = o_id b \<and> o_status c = OQueued"
  obtain g where one: "count_where ?c (db_objectives db) = 1"
    and rows: "db_objectives db' = update_where ?c g (db_objectives db)"
    and g: "\<And>c. o_status (g c) = OPlanning"
    using assms unfolding reserve_ai_objective_def Let_def insert_oattempt_def
    by (auto split: option.splits if_splits)
  show "Suc (queued_count db') = queued_count db"
    unfolding queued_count_def rows by (rule count_where_leave [OF one]) (use g in auto)
  show "active_objective_count db' \<le> Suc (active_objective_count db)"
    unfolding active_objective_count_def rows by (rule count_where_enter [OF one])
qed

lemma reserve_refuses:
  "reserve_ai_objective now oid aid iid slots db = Inr (None, db') \<Longrightarrow>
     active_objective_count db' \<le> active_objective_count db"
  unfolding reserve_ai_objective_def Let_def active_objective_count_def
  by (auto split: option.splits if_splits intro!: count_where_update_le)

lemma promote_refuses: "promote_planned_objective now oid db = (None, db') \<Longrightarrow> db' = db"
  unfolding promote_planned_objective_def Let_def by (auto split: option.splits if_splits)

text \<open>
  The loop ended, with at most \<open>slots\<close> active objectives unless there were more before; it starts
  a planner, and a database error stops it, only when none was running.
\<close>

fun dispatch_within ::
  "int \<Rightarrow> nat \<Rightarrow> bool \<Rightarrow> (orch_error + (objective_row option \<times> db)) option \<Rightarrow> bool" where
  "dispatch_within slots before planning None = False"
| "dispatch_within slots before planning (Some (Inl e)) = (\<not> planning)"
| "dispatch_within slots before planning (Some (Inr (planned, db))) =
     (int (active_objective_count db) \<le> max slots (int before) \<and> (if planning then planned = None else True))"

lemma dispatch_within_later:
  "dispatch_within slots now_active planning r \<Longrightarrow> int now_active \<le> slots \<Longrightarrow>
     dispatch_within slots before planning r"
  by (cases "(slots, now_active, planning, r)" rule: dispatch_within.cases) auto

lemma dispatch_within_planned:
  "dispatch_within slots now_active True r \<Longrightarrow> int now_active \<le> slots \<Longrightarrow>
     dispatch_within slots before False (map_option (map_sum id (\<lambda>(_, db). (Some c, db))) r)"
  by (cases "(slots, now_active, True, r)" rule: dispatch_within.cases) auto

lemma dispatch_within_stop:
  "active_objective_count db' \<le> before \<Longrightarrow>
     dispatch_within slots before planning (Some (Inr (None, db')))"
  by simp

lemma dispatch_loop_ends:
  assumes "queued_count db < fuel"
  shows "dispatch_within slots (active_objective_count db) planning
     (dispatch_loop fuel now iid aid slots planning db)"
  using assms
proof (induction fuel arbitrary: planning db)
  case (Suc fuel)
  let ?within = "dispatch_within slots (active_objective_count db)"
  have reserved: "?within False (map_option (map_sum id (\<lambda>(_, db2). (Some c, db2)))
      (dispatch_loop fuel now iid aid slots True db'))"
    if "reserve_ai_objective now (o_id b) aid iid slots db = Inr (Some c, db')"
      "\<not> slots \<le> int (active_objective_count db)" for b c db'
    by (rule dispatch_within_planned [OF Suc.IH]) (use reserve_leaves_queue [OF that(1)] that(2) Suc.prems in auto)
  have promoted: "?within p (dispatch_loop fuel now iid aid slots p (refresh_plan_states now pid db'))"
    if "promote_planned_objective now oid db = (Some pid, db')"
      "\<not> slots \<le> int (active_objective_count db)" for oid pid db' p
    by (rule dispatch_within_later [OF Suc.IH])
      (use promote_leaves_queue [OF that(1)] that(2) Suc.prems in \<open>auto simp: queued_count_def active_objective_count_def\<close>)
  show ?case
    by (auto split: option.split sum.split prod.split intro: reserved promoted
        dest!: reserve_refuses promote_refuses simp del: dispatch_within.simps(3)
        intro!: dispatch_within_stop)
qed simp

section \<open>The selection of tasks\<close>

text \<open>
  The rows a selection has admitted say what it holds; \<open>admits\<close> is the condition under which the
  next row is admitted after them.
\<close>

abbreviation row_task :: "candidate \<Rightarrow> task_row" where
  "row_task c \<equiv> fst c"

definition represents :: "db \<Rightarrow> candidate list \<Rightarrow> selection \<Rightarrow> bool" where
  "represents db rows s \<longleftrightarrow>
     sel_tasks s = map (t_id \<circ> row_task) rows \<and>
     set (sel_projects s) = {p. \<exists>c \<in> set rows. t_project (row_task c) = Some p} \<and>
     (\<forall>pid. running_so_far db s pid =
        running_in_plan db pid + count_where (\<lambda>c. t_plan (row_task c) = pid) rows)"

definition admits :: "db \<Rightarrow> string list \<Rightarrow> bool \<Rightarrow> candidate list \<Rightarrow> candidate \<Rightarrow> bool" where
  "admits db active healthy rows c \<longleftrightarrow>
     (case c of (t, p, b) \<Rightarrow>
        t_id t \<notin> set active \<and>
        (t_kind t = PIPELINE \<longrightarrow> healthy) \<and>
        int (running_in_plan db (t_plan t) + count_where (\<lambda>c. t_plan (row_task c) = t_plan t) rows)
          < p_max_parallel p \<and>
        \<not> project_is_busy db (t_project t) (t_id t) \<and>
        (t_project t = None \<or> (\<forall>c \<in> set rows. t_project (row_task c) \<noteq> t_project t)))"

lemma admit_None_iff:
  assumes "represents db rows s"
  shows "admit db active healthy c s = None \<longleftrightarrow> \<not> admits db active healthy rows c"
  using assms unfolding represents_def admit_def admits_def
  by (cases c) (auto split: option.split)

lemma admit_represents:
  assumes "represents db rows s" "admit db active healthy c s = Some s'"
  shows "represents db (rows @ [c]) s'"
proof -
  obtain t p b where c: "c = (t, p, b)" by (cases c)
  have s': "s' = \<lparr>sel_tasks = sel_tasks s @ [t_id t],
      sel_projects = (case t_project t of None \<Rightarrow> sel_projects s | Some pr \<Rightarrow> pr # sel_projects s),
      sel_running = (t_plan t, running_so_far db s (t_plan t) + 1) # sel_running s\<rparr>"
    using assms(2) unfolding admit_def c by (auto split: if_splits)
  have "running_so_far db s' pid = running_so_far db s pid + (if t_plan t = pid then 1 else 0)" for pid
    unfolding s' running_so_far_def by (auto split: option.split)
  then show ?thesis
    using assms(1) unfolding represents_def c by (auto simp: s' split: option.split)
qed

definition admitted_chain :: "db \<Rightarrow> string list \<Rightarrow> bool \<Rightarrow> candidate list \<Rightarrow> bool" where
  "admitted_chain db active healthy rows \<longleftrightarrow>
     (\<forall>i < length rows. admits db active healthy (take i rows) (rows ! i))"

lemma admitted_chain_snoc:
  "admitted_chain db active healthy (rows @ [c]) \<longleftrightarrow>
     admitted_chain db active healthy rows \<and> admits db active healthy rows c"
  unfolding admitted_chain_def by (auto simp: nth_append less_Suc_eq)

text \<open>More rows admit less.\<close>

lemma admits_mono:
  assumes "admits db active healthy (rows @ more_rows) c"
  shows "admits db active healthy rows c"
  using assms unfolding admits_def by (cases c) auto

lemma select_loop_spec:
  assumes "represents db rows s" "admitted_chain db active healthy rows" "int (length rows) < capacity"
  shows "\<exists>chosen. represents db (rows @ chosen) (select_loop db active healthy capacity cs s) \<and>
     admitted_chain db active healthy (rows @ chosen) \<and> subseq chosen cs \<and>
     int (length (rows @ chosen)) \<le> capacity \<and>
     (int (length (rows @ chosen)) < capacity \<longrightarrow>
        (\<forall>c \<in> set cs. c \<notin> set chosen \<longrightarrow> \<not> admits db active healthy (rows @ chosen) c))"
  using assms
proof (induction cs arbitrary: rows s)
  case Nil
  then show ?case by (intro exI [of _ "[]"]) auto
next
  case (Cons c cs)
  show ?case
  proof (cases "admit db active healthy c s")
    case None
    then have no: "\<not> admits db active healthy (rows @ chosen) c" for chosen
      using admit_None_iff [OF Cons.prems(1)] admits_mono by blast
    obtain chosen where "represents db (rows @ chosen) (select_loop db active healthy capacity cs s)"
      "admitted_chain db active healthy (rows @ chosen)" "subseq chosen cs"
      "int (length (rows @ chosen)) \<le> capacity"
      "int (length (rows @ chosen)) < capacity \<longrightarrow>
        (\<forall>c \<in> set cs. c \<notin> set chosen \<longrightarrow> \<not> admits db active healthy (rows @ chosen) c)"
      using Cons.IH [OF Cons.prems] by blast
    moreover have "select_loop db active healthy capacity (c # cs) s = select_loop db active healthy capacity cs s"
      using None by simp
    ultimately show ?thesis using no by (intro exI [of _ chosen]) (simp add: list_emb_Cons del: split_paired_All select_loop.simps)
  next
    case (Some s')
    then have rep: "represents db (rows @ [c]) s'" and ok: "admits db active healthy rows c"
      using admit_represents [OF Cons.prems(1)] admit_None_iff [OF Cons.prems(1), of active healthy c] by auto
    then have chain: "admitted_chain db active healthy (rows @ [c])"
      using Cons.prems(2) by (simp add: admitted_chain_snoc)
    have len: "length (sel_tasks s') = Suc (length rows)"
      using rep by (simp add: represents_def)
    show ?thesis
    proof (cases "capacity \<le> int (Suc (length rows))")
      case True
      then have "select_loop db active healthy capacity (c # cs) s = s'"
        using Some len by simp
      then show ?thesis
        using rep chain True Cons.prems(3) by (intro exI [of _ "[c]"]) simp
    next
      case False
      obtain chosen where "represents db ((rows @ [c]) @ chosen) (select_loop db active healthy capacity cs s')"
        "admitted_chain db active healthy ((rows @ [c]) @ chosen)" "subseq chosen cs"
        "int (length ((rows @ [c]) @ chosen)) \<le> capacity"
        "int (length ((rows @ [c]) @ chosen)) < capacity \<longrightarrow>
          (\<forall>d \<in> set cs. d \<notin> set chosen \<longrightarrow> \<not> admits db active healthy ((rows @ [c]) @ chosen) d)"
        using Cons.IH [OF rep chain] False by auto
      moreover have "select_loop db active healthy capacity (c # cs) s = select_loop db active healthy capacity cs s'"
        using Some False len by simp
      ultimately show ?thesis by (intro exI [of _ "c # chosen"]) (simp del: split_paired_All select_loop.simps)
    qed
  qed
qed

text \<open>The rows behind the result of \<open>runnable_tasks\<close>.\<close>

lemma runnable_rows:
  assumes "runnable_tasks active capacity healthy db = ids"
  obtains rows where "ids = map (t_id \<circ> row_task) rows" "admitted_chain db active healthy rows"
    "subseq rows (sort_key candidate_key (candidates db))" "int (length rows) \<le> max 0 capacity"
    "int (length rows) < capacity \<Longrightarrow>
       \<forall>c \<in> set (candidates db). c \<notin> set rows \<longrightarrow> \<not> admits db active healthy rows c"
proof (cases "capacity \<le> 0")
  case True
  then show ?thesis
    using assms that [of "[]"] by (simp add: runnable_tasks_def admitted_chain_def)
next
  case False
  have "represents db [] \<lparr>sel_tasks = [], sel_projects = [], sel_running = []\<rparr>"
    by (simp add: represents_def running_so_far_def)
  moreover have "admitted_chain db active healthy []" by (simp add: admitted_chain_def)
  ultimately obtain rows where
    "represents db rows (select_loop db active healthy capacity (sort_key candidate_key (candidates db))
        \<lparr>sel_tasks = [], sel_projects = [], sel_running = []\<rparr>)"
    "admitted_chain db active healthy rows" "subseq rows (sort_key candidate_key (candidates db))"
    "int (length rows) \<le> capacity"
    "int (length rows) < capacity \<longrightarrow>
        (\<forall>c \<in> set (sort_key candidate_key (candidates db)). c \<notin> set rows \<longrightarrow> \<not> admits db active healthy rows c)"
    using select_loop_spec [of db "[]" _ active healthy capacity "sort_key candidate_key (candidates db)"] False
    by fastforce
  then show ?thesis
    using assms that [of rows] False by (auto simp: runnable_tasks_def represents_def)
qed

section \<open>Starting a selection\<close>

lemma start_task_frame [simp]:
  "db_tasks (start_task now a n db) = update_where (\<lambda>t. t_id t = a \<and> t_status t = TReady)
     (\<lambda>t. t\<lparr>t_status := TRunning, t_attempt_count := n, t_started := coalesce (t_started t) (Some now),
            t_heartbeat := Some now, t_failure := None\<rparr>) (db_tasks db)"
  "db_plans (start_task now a n db) = db_plans db"
  "db_objectives (start_task now a n db) = db_objectives db"
  by (simp_all add: start_task_def)

lemma start_ids [simp]: "map t_id (db_tasks (start_task now a n db)) = map t_id (db_tasks db)"
  by (simp add: map_update_where)

lemma start_keeps:
  "u \<in> set (db_tasks db) \<Longrightarrow> t_id u \<noteq> a \<Longrightarrow> u \<in> set (db_tasks (start_task now a n db))"
  by (force simp: set_update_where)

lemma count_where_one:
  assumes "distinct rows" "t \<in> set rows" "c t" "\<And>r. r \<in> set rows \<Longrightarrow> c r \<Longrightarrow> r = t"
  shows "count_where d (update_where c f rows) + (if d t then 1 else 0) =
     count_where d rows + (if d (f t) then 1 else 0)"
  using assms
proof (induction rows)
  case (Cons r rows)
  show ?case
  proof (cases "r = t")
    case True
    have "\<not> c x" if "x \<in> set rows" for x
      using Cons.prems(4) [of x] that True Cons.prems(1) by auto
    then have "update_where c f rows = rows" by (rule update_where_none)
    then show ?thesis using True Cons.prems(3) by simp
  next
    case False
    then have "\<not> c r" using Cons.prems(4) [of r] by auto
    moreover have "count_where d (update_where c f rows) + (if d t then 1 else 0) =
        count_where d rows + (if d (f t) then 1 else 0)"
      by (rule Cons.IH) (use Cons.prems False in auto)
    ultimately show ?thesis by simp
  qed
qed simp

lemma count_where_start:
  assumes "distinct (map t_id (db_tasks db))" "t \<in> set (db_tasks db)" "t_status t = TReady"
  shows "count_where d (db_tasks (start_task now (t_id t) n db)) + (if d t then 1 else 0) =
     count_where d (db_tasks db) +
     (if d (t\<lparr>t_status := TRunning, t_attempt_count := n, t_started := coalesce (t_started t) (Some now),
            t_heartbeat := Some now, t_failure := None\<rparr>) then 1 else 0)"
  unfolding start_task_frame
  by (rule count_where_one) (use assms in \<open>auto simp: distinct_map dest: inj_onD\<close>)

lemma start_running:
  assumes "distinct (map t_id (db_tasks db))" "t \<in> set (db_tasks db)" "t_status t = TReady"
  shows "running_in_plan (start_task now (t_id t) n db) pid =
     running_in_plan db pid + (if t_plan t = pid then 1 else 0)"
  using count_where_start [OF assms, of "\<lambda>t. t_plan t = pid \<and> t_status t = TRunning" now n] assms(3)
  unfolding running_in_plan_def by simp

lemma start_busy:
  assumes "distinct (map t_id (db_tasks db))" "t \<in> set (db_tasks db)" "t_status t = TReady"
  shows "project_is_busy (start_task now (t_id t) n db) p tid \<longleftrightarrow>
     project_is_busy db p tid \<or> (p \<noteq> None \<and> t_project t = p \<and> t_id t \<noteq> tid)"
proof (cases p)
  case (Some pr)
  then show ?thesis
    using count_where_start [OF assms, of "\<lambda>u. t_project u = Some pr \<and> t_status u = TRunning \<and> t_id u \<noteq> tid" now n]
      assms(3)
    unfolding project_is_busy_def by (auto split: if_splits)
qed (simp add: project_is_busy_def)

text \<open>The tasks of a selection, started in its order.\<close>

definition start_all :: "string \<Rightarrow> (string \<Rightarrow> int) \<Rightarrow> string list \<Rightarrow> db \<Rightarrow> db" where
  "start_all now number ids db = fold (\<lambda>i. start_task now i (number i)) ids db"

lemma start_all_rows:
  assumes "distinct (map t_id (db_tasks db))" "distinct (map t_id ts)" "set ts \<subseteq> set (db_tasks db)"
    "\<forall>t \<in> set ts. t_status t = TReady"
  shows "running_in_plan (start_all now number (map t_id ts) db) pid =
      running_in_plan db pid + count_where (\<lambda>t. t_plan t = pid) ts" (is ?running)
    and "project_is_busy (start_all now number (map t_id ts) db) p tid \<longleftrightarrow>
      project_is_busy db p tid \<or> (p \<noteq> None \<and> (\<exists>t \<in> set ts. t_project t = p \<and> t_id t \<noteq> tid))" (is ?busy)
    and "u \<in> set (db_tasks db) \<Longrightarrow> t_id u \<notin> set (map t_id ts) \<Longrightarrow>
      u \<in> set (db_tasks (start_all now number (map t_id ts) db))"
    and "map t_id (db_tasks (start_all now number (map t_id ts) db)) = map t_id (db_tasks db)"
    and "db_plans (start_all now number (map t_id ts) db) = db_plans db"
    and "db_objectives (start_all now number (map t_id ts) db) = db_objectives db"
proof -
  have "?running \<and> ?busy \<and> (u \<in> set (db_tasks db) \<longrightarrow> t_id u \<notin> set (map t_id ts) \<longrightarrow>
      u \<in> set (db_tasks (start_all now number (map t_id ts) db))) \<and>
    map t_id (db_tasks (start_all now number (map t_id ts) db)) = map t_id (db_tasks db) \<and>
    db_plans (start_all now number (map t_id ts) db) = db_plans db \<and>
    db_objectives (start_all now number (map t_id ts) db) = db_objectives db"
    using assms
  proof (induction ts arbitrary: db)
    case (Cons t ts)
    let ?db = "start_task now (t_id t) (number (t_id t)) db"
    have t: "t \<in> set (db_tasks db)" "t_status t = TReady" and d: "distinct (map t_id (db_tasks db))"
      using Cons.prems by auto
    have "set ts \<subseteq> set (db_tasks ?db)"
    proof
      fix x assume "x \<in> set ts"
      then have "x \<in> set (db_tasks db)" "t_id t \<noteq> t_id x" using Cons.prems(2,3) by auto
      then show "x \<in> set (db_tasks ?db)" using start_keeps by metis
    qed
    then have "running_in_plan (start_all now number (map t_id ts) ?db) pid =
        running_in_plan ?db pid + count_where (\<lambda>t. t_plan t = pid) ts \<and>
      (project_is_busy (start_all now number (map t_id ts) ?db) p tid \<longleftrightarrow>
        project_is_busy ?db p tid \<or> (p \<noteq> None \<and> (\<exists>t \<in> set ts. t_project t = p \<and> t_id t \<noteq> tid))) \<and>
      (u \<in> set (db_tasks ?db) \<longrightarrow> t_id u \<notin> set (map t_id ts) \<longrightarrow>
        u \<in> set (db_tasks (start_all now number (map t_id ts) ?db))) \<and>
      map t_id (db_tasks (start_all now number (map t_id ts) ?db)) = map t_id (db_tasks ?db) \<and>
      db_plans (start_all now number (map t_id ts) ?db) = db_plans ?db \<and>
      db_objectives (start_all now number (map t_id ts) ?db) = db_objectives ?db"
      by (intro Cons.IH) (use Cons.prems in \<open>simp_all del: start_task_frame(1)\<close>)
    then show ?case
      using start_running [OF d t, of now "number (t_id t)" pid]
        start_busy [OF d t, of now "number (t_id t)" p tid] start_keeps [of u db "t_id t" now "number (t_id t)"]
      by (auto simp: start_all_def simp del: start_task_frame(1))
  qed (simp add: start_all_def)
  then show ?running ?busy
    "u \<in> set (db_tasks db) \<Longrightarrow> t_id u \<notin> set (map t_id ts) \<Longrightarrow>
      u \<in> set (db_tasks (start_all now number (map t_id ts) db))"
    "map t_id (db_tasks (start_all now number (map t_id ts) db)) = map t_id (db_tasks db)"
    "db_plans (start_all now number (map t_id ts) db) = db_plans db"
    "db_objectives (start_all now number (map t_id ts) db) = db_objectives db"
    by blast+
qed

section \<open>Candidates under the keys of the tables\<close>

text \<open>The primary keys of tasks and plans, and the unique plan of an objective.\<close>

definition unique_keys :: "db \<Rightarrow> bool" where
  "unique_keys db \<longleftrightarrow>
     distinct (map t_id (db_tasks db)) \<and> distinct (map p_id (db_plans db)) \<and>
     distinct (map o_plan (filter (\<lambda>b. o_plan b \<noteq> None) (db_objectives db)))"

lemma one_objective:
  assumes "unique_keys db"
  shows "length (filter (\<lambda>b. o_plan b = Some pid) (db_objectives db)) \<le> 1"
proof -
  let ?plans = "map o_plan (filter (\<lambda>b. o_plan b \<noteq> None) (db_objectives db))"
  have "length (filter (\<lambda>b. o_plan b = Some pid) (db_objectives db)) = length (filter (\<lambda>o1. o1 = Some pid) ?plans)"
    by (simp add: filter_map comp_def conj_commute) (metis (mono_tags, lifting) option.distinct(1))
  also have "\<dots> = card ({o1. o1 = Some pid} \<inter> set ?plans)"
    using assms by (intro distinct_length_filter) (simp add: unique_keys_def)
  also have "\<dots> \<le> card {Some pid}" by (intro card_mono) auto
  finally show ?thesis by simp
qed

lemma candidates_iff:
  "(t, p, b) \<in> set (candidates db) \<longleftrightarrow>
     t \<in> set (db_tasks db) \<and> t_status t = TReady \<and> p \<in> set (db_plans db) \<and> p_id p = t_plan t \<and>
     p_status p \<in> {PReady, PRunning} \<and>
     b \<in> set (case filter (\<lambda>b. o_plan b = Some (p_id p)) (db_objectives db) of
                [] \<Rightarrow> [None]
              | bs \<Rightarrow> map Some (filter (\<lambda>b. o_status b = ORunning) bs))"
  unfolding candidates_def by (auto intro!: bexI [of _ t] bexI [of _ p])

lemma length_concat_one:
  assumes "distinct (map key xs)" "\<And>x. x \<in> set xs \<Longrightarrow> h x \<noteq> [] \<Longrightarrow> key x = k"
    "\<And>x. x \<in> set xs \<Longrightarrow> length (h x) \<le> 1"
  shows "length (concat (map h xs)) \<le> 1"
  using assms
proof (induction xs)
  case (Cons x xs)
  show ?case
  proof (cases "h x = []")
    case False
    then have "key x = k" using Cons.prems(2) [of x] by simp
    then have "h y = []" if "y \<in> set xs" for y
      using Cons.prems(1) Cons.prems(2) [of y] that by (cases "h y = []") (auto simp: image_iff)
    then show ?thesis using Cons.prems(3) [of x] by (simp add: length_concat comp_def cong: map_cong)
  qed (use Cons.IH Cons.prems in simp)
qed simp

lemma distinct_concat_one:
  assumes "distinct (map key xs)" "\<And>x. x \<in> set xs \<Longrightarrow> length (g x) \<le> 1"
    "\<And>x c. x \<in> set xs \<Longrightarrow> c \<in> set (g x) \<Longrightarrow> fst c = x"
  shows "distinct (map (key \<circ> fst) (concat (map g xs)))"
  using assms
proof (induction xs)
  case (Cons x xs)
  have one: "distinct (map (key \<circ> fst) (g x))"
    using Cons.prems(2) [of x] by (cases "g x") (auto simp: length_Suc_conv le_Suc_eq)
  have rest: "distinct (map (key \<circ> fst) (concat (map g xs)))"
    by (rule Cons.IH) (use Cons.prems in auto)
  have apart: "key (fst c) \<noteq> key (fst d)" if "c \<in> set (g x)" "d \<in> set (concat (map g xs))" for c d
  proof -
    obtain y where "y \<in> set xs" "d \<in> set (g y)" using \<open>d \<in> _\<close> by auto
    then have "fst c = x" "fst d = y" using Cons.prems(3) \<open>c \<in> _\<close> by auto
    then show ?thesis using Cons.prems(1) \<open>y \<in> set xs\<close> by auto
  qed
  then have "set (map (key \<circ> fst) (g x)) \<inter> set (map (key \<circ> fst) (concat (map g xs))) = {}"
    using apart by (auto simp del: set_concat)
  then show ?case using one rest by (simp del: map_map set_concat add: comp_def)
qed simp

lemma candidates_distinct:
  assumes "unique_keys db"
  shows "distinct (map (t_id \<circ> row_task) (candidates db))"
  unfolding candidates_def
proof (rule distinct_concat_one, goal_cases)
  case 1
  then show ?case using assms by (simp add: unique_keys_def)
next
  case (2 t)
  show ?case
  proof (cases "t_status t = TReady")
    case True
    have one: "length (case filter (\<lambda>b. o_plan b = Some pid) (db_objectives db) of
          [] \<Rightarrow> [None] | bs \<Rightarrow> map Some (filter (\<lambda>b. o_status b = ORunning) bs)) \<le> 1" for pid
      using one_objective [OF assms, of pid] by (auto split: list.split)
    show ?thesis
      unfolding if_P [OF True]
      by (rule length_concat_one [where key = p_id and k = "t_plan t"])
        (use assms one in \<open>auto simp: unique_keys_def length_concat comp_def sum_list_triv split: if_splits\<close>)
  qed simp
qed (auto split: if_splits)

section \<open>Reservation of a candidate\<close>

lemma task_with_member:
  "distinct (map t_id (db_tasks db)) \<Longrightarrow> t \<in> set (db_tasks db) \<Longrightarrow> task_with db (t_id t) = Some t"
  unfolding task_with_def
  by (cases "select_one (\<lambda>u. t_id u = t_id t) (db_tasks db)")
    (auto simp: select_one_None distinct_map dest!: select_one_Some dest: inj_onD)

lemma plan_with_member:
  "distinct (map p_id (db_plans db)) \<Longrightarrow> p \<in> set (db_plans db) \<Longrightarrow> plan_with db (p_id p) = Some p"
  unfolding plan_with_def
  by (cases "select_one (\<lambda>q. p_id q = p_id p) (db_plans db)")
    (auto simp: select_one_None distinct_map dest!: select_one_Some dest: inj_onD)

lemma subseq_set_distinct:
  assumes "subseq rows (sort_key k xs)" "distinct (map f xs)"
  shows "set rows \<subseteq> set xs" "distinct (map f rows)"
proof -
  show "set rows \<subseteq> set xs"
    using assms(1) subseqs_powset [of "sort_key k xs"] by (auto simp flip: in_set_subseqs)
  have "subseq (map f rows) (map f (sort_key k xs))" using assms(1) by (rule subseq_map)
  moreover have "distinct (map f (sort_key k xs))"
    using assms(2) by (simp add: distinct_map)
  ultimately show "distinct (map f rows)"
    using subseqs_distinctD by (metis in_set_subseqs)
qed

text \<open>The rows of a selection, as tasks to start.\<close>

lemma selection_tasks:
  assumes "unique_keys db" "subseq rows (sort_key candidate_key (candidates db))"
  shows "distinct (map t_id (db_tasks db))" "distinct (map t_id (map row_task rows))"
    "set (map row_task rows) \<subseteq> set (db_tasks db)" "\<forall>t \<in> set (map row_task rows). t_status t = TReady"
proof -
  note facts = subseq_set_distinct [OF assms(2) candidates_distinct [OF assms(1)]]
  show "distinct (map t_id (db_tasks db))" using assms(1) by (simp add: unique_keys_def)
  show "distinct (map t_id (map row_task rows))" using facts(2) by (simp add: comp_def)
  have "row_task c \<in> set (db_tasks db) \<and> t_status (row_task c) = TReady" if "c \<in> set rows" for c
    using facts(1) that by (cases c) (auto simp: candidates_iff)
  then show "set (map row_task rows) \<subseteq> set (db_tasks db)"
    "\<forall>t \<in> set (map row_task rows). t_status t = TReady" by auto
qed

text \<open>
  What the reservation finds for a READY task of a plan, in the database where the rows before it
  have started: nothing but its budget or a human gate when the row is admitted after them.
\<close>

lemma reservation_after:
  assumes keys: "unique_keys db" and rows: "subseq rows (sort_key candidate_key (candidates db))"
    and t: "(t, p, b) \<in> set (candidates db)" "t_id t \<notin> set (map t_id (map row_task rows))"
  shows "reservation_ineligibility_reason (start_all now number (map t_id (map row_task rows)) db) t
       \<in> {None, Some BudgetExhausted, Some HumanGate} \<longleftrightarrow>
     t_max_attempts t \<le> t_attempt_count t \<or>
     plan_has_active_human_gate (start_all now number (map t_id (map row_task rows)) db) (t_plan t) \<or>
     admits db [] True rows (t, p, b)"
proof -
  let ?db = "start_all now number (map t_id (map row_task rows)) db"
  note frame = start_all_rows [OF selection_tasks [OF keys rows], where now = now and number = number]
  have p: "p \<in> set (db_plans db)" "p_id p = t_plan t" "p_status p \<in> {PReady, PRunning}" "t_status t = TReady"
    "b \<in> set (case filter (\<lambda>b. o_plan b = Some (p_id p)) (db_objectives db) of
       [] \<Rightarrow> [None] | bs \<Rightarrow> map Some (filter (\<lambda>b. o_status b = ORunning) bs))"
    using t(1) by (auto simp: candidates_iff)
  have plan: "plan_with ?db (t_plan t) = Some p"
    using plan_with_member [OF _ p(1)] keys p(2) frame(5) by (simp add: unique_keys_def plan_with_def)
  let ?bs = "filter (\<lambda>b. o_plan b = Some (t_plan t)) (db_objectives db)"
  have bs: "length ?bs \<le> 1" "?bs = [] \<or> o_status (hd ?bs) = ORunning"
    using one_objective [OF keys, of "t_plan t"] p(2,5)
    by (auto split: list.splits if_splits simp: le_Suc_eq length_Suc_conv)
  have count: "count_where (\<lambda>t. t_plan t = pid) (map row_task rows) = count_where (\<lambda>c. t_plan (row_task c) = pid) rows" for pid
    by (simp add: count_where_def filter_map comp_def)
  have "t_id t \<noteq> t_id (row_task c)" if "c \<in> set rows" for c using t(2) that by auto
  note apart = this this [symmetric]
  define db1 where "db1 = ?db"
  have objectives: "db_objectives db1 = db_objectives db" and plan1: "plan_with db1 (t_plan t) = Some p"
    using frame(6) plan by (simp_all add: db1_def)
  have reason: "reservation_ineligibility_reason db1 t =
      (if t_max_attempts t \<le> t_attempt_count t then Some BudgetExhausted
       else if plan_has_active_human_gate db1 (t_plan t) then Some HumanGate
       else if p_max_parallel p \<le> int (running_in_plan db1 (t_plan t)) then Some PlanLimit
       else if project_is_busy db1 (t_project t) (t_id t) then Some ProjectBusy else None)"
    unfolding reservation_ineligibility_reason_def Let_def plan1 objectives
    using p(3,4) bs by auto
  have "admits db [] True rows (t, p, b) \<longleftrightarrow>
      \<not> p_max_parallel p \<le> int (running_in_plan db1 (t_plan t)) \<and>
      \<not> project_is_busy db1 (t_project t) (t_id t)"
    unfolding db1_def frame(1) frame(2) count admits_def using apart by auto
  then show ?thesis unfolding reason db1_def [symmetric] by simp
qed


section \<open>The scheduler's properties\<close>

text \<open>
  C8: The dispatch of a sweep ends, whatever the queue holds; it leaves at most
  \<open>slots\<close> active objectives unless there were more already, and it starts a planner (or stops with
  a database error) only when none was running.
\<close>

theorem dispatch_ends:
  "\<exists>r. dispatch_objectives now iid aid slots planning db = Some r \<and>
     dispatch_within slots (active_objective_count db) planning (Some r)"
proof -
  have "dispatch_within slots (active_objective_count db) planning
      (dispatch_objectives now iid aid slots planning db)"
    unfolding dispatch_objectives_def by (rule dispatch_loop_ends) (simp add: queued_count_def)
  then show ?thesis by (cases "dispatch_objectives now iid aid slots planning db") auto
qed

text \<open>
  C11: The tasks \<open>runnable_tasks\<close> returns can be started one after the other: they are at most
  \<open>capacity\<close>, none is in execution, and when all before one have started, the reservation of this
  one finds no other objection than its budget or a human gate (the limit of the plan, the project
  lock, the statuses of the plan and of the objective all allow it).
\<close>

theorem selection_starts:
  assumes "unique_keys db" "runnable_tasks active capacity healthy db = before @ tid # rest"
  shows "int (length (before @ tid # rest)) \<le> capacity \<and> tid \<notin> set active \<and>
    (\<exists>t. task_with (start_all now number before db) tid = Some t \<and>
       reservation_ineligibility_reason (start_all now number before db) t
         \<in> {None, Some BudgetExhausted, Some HumanGate})"
proof -
  obtain rows where rows: "before @ tid # rest = map (t_id \<circ> row_task) rows"
    "admitted_chain db active healthy rows" "subseq rows (sort_key candidate_key (candidates db))"
    "int (length rows) \<le> max 0 capacity"
    using runnable_rows [OF assms(2)] by metis
  then obtain rs c cs where split: "rows = rs @ c # cs" "before = map (t_id \<circ> row_task) rs"
    "tid = t_id (row_task c)"
    by (auto simp: append_eq_map_conv Cons_eq_map_conv)
  obtain t p b where c: "c = (t, p, b)" by (cases c)
  note all = subseq_set_distinct [OF rows(3) candidates_distinct [OF assms(1)]]
  have sub: "subseq rs (sort_key candidate_key (candidates db))"
    using rows(3) split(1) by (metis list_emb_append2 prefixI prefix_imp_subseq subseq_order.order_trans)
  have new: "t_id t \<notin> set (map t_id (map row_task rs))"
    using all(2) split(1) c by (auto simp: comp_def)
  have cand: "(t, p, b) \<in> set (candidates db)" using all(1) split(1) c by auto
  have adm: "admits db active healthy rs (t, p, b)"
    using rows(2) split(1) c unfolding admitted_chain_def
    by (metis append_eq_conv_conj length_append_singleton nth_append_length append_Cons append_assoc
        append_Nil length_append less_add_same_cancel1 length_greater_0_conv list.discI)
  note frame = start_all_rows [OF selection_tasks [OF assms(1) sub], where now = now and number = number]
  have "task_with (start_all now number before db) tid = Some t"
    using task_with_member [of "start_all now number before db" t] frame(3) [of t] frame(4) new cand
      selection_tasks(1) [OF assms(1) sub] split c by (auto simp: candidates_iff)
  moreover have "tid \<notin> set active" using adm split c by (simp add: admits_def)
  moreover have "int (length (before @ tid # rest)) \<le> capacity"
    using rows(1,4) split(1) by simp
  moreover have "admits db [] True rs (t, p, b)" using adm by (simp add: admits_def)
  ultimately show ?thesis
    using reservation_after [OF assms(1) sub cand new, of now number] split(2) by auto
qed


section \<open>A sample selection\<close>

definition ready_task :: "string \<Rightarrow> string \<Rightarrow> task_row" where
  "ready_task i project =
     \<lparr>t_id = i, t_plan = ''p'', t_key = i, t_kind = NOOP, t_project = Some project, t_role = None,
      t_status = TReady, t_priority = 100, t_instruction = ''go'', t_acceptance = [], t_marker = None,
      t_max_attempts = 2, t_attempt_count = 0, t_result = JObj [], t_failure = None, t_created = i,
      t_started = None, t_heartbeat = None, t_finished = None\<rparr>"

definition ready_db :: db where
  "ready_db = empty_db\<lparr>
     db_plans := [\<lparr>p_id = ''p'', p_objective = ''ship'', p_source = AI, p_status = PRunning,
       p_max_parallel = 2, p_sha256 = [], p_plan = \<lparr>ps_objective = ''ship'', ps_max_parallel = 2, ps_tasks = []\<rparr>,
       p_created = ''t0'', p_started = Some ''t1'', p_heartbeat = Some ''t1'', p_finished = None, p_error = None\<rparr>],
     db_tasks := [ready_task ''A'' ''site'', ready_task ''B'' ''site'', ready_task ''C'' ''docs'']\<rparr>"

lemma ready_keys: "unique_keys ready_db"
  by code_simp

lemma ready_selection: "runnable_tasks [] 4 True ready_db = [''A'', ''C'']"
  by code_simp

lemma selection_starts_witness:
  "runnable_tasks [] 4 True ready_db = [''A''] @ ''C'' # [] \<and>
   (\<exists>t. task_with (start_all ''t2'' (\<lambda>_. 1) [''A''] ready_db) ''C'' = Some t \<and>
      reservation_ineligibility_reason (start_all ''t2'' (\<lambda>_. 1) [''A''] ready_db) t
        \<in> {None, Some BudgetExhausted, Some HumanGate})"
  using selection_starts [OF ready_keys, of "[]" 4 True "[''A'']" "''C''" "[]" "''t2''" "\<lambda>_. 1"] ready_selection
  by simp


end
