(* ===== verification/Review_Assignment.thy ===== *)
theory Review_Assignment
  imports Event_Journal
begin

text \<open>
  The reviewer assignments of \<^verbatim>\<open>scripts/hermesops_review_assignment.py\<close> on the table of
  \<^verbatim>\<open>migrations/019\<close>: the rows, the constraints and triggers of the table, and the five
  operations. Each runs in the transaction of its caller, which is rolled back when it raises, so an
  error leaves the database as it was. The rows of other tables the operations read or reference
  are lists of what is read of them.
\<close>

section \<open>Rows\<close>

datatype assignment_status = ASSIGNED | CLAIMED | COMPLETED | FAILED | CANCELLED

record assignment =
  as_id :: string
  as_run :: string
  as_attempt :: string
  as_number :: int
  as_role :: string
  as_profile :: string
  as_status :: assignment_status
  as_by :: string
  as_owner :: "string option"
  as_execution :: "string option"
  as_review :: "string option"
  as_failure :: "string option"
  as_assigned :: string
  as_claimed :: "string option"
  as_heartbeat :: "string option"
  as_finished :: "string option"

record role_row =
  ro_id :: string
  ro_profile :: string
  ro_kind :: string
  ro_mode :: string
  ro_commit :: bool
  ro_push :: bool
  ro_network :: bool
  ro_enabled :: bool

record review_execution =
  re_id :: string
  re_run :: string
  re_role :: string
  re_profile :: string
  re_review :: "string option"
  re_finished :: "string option"

record legacy_event =
  le_project :: string
  le_run :: string
  le_task :: "string option"
  le_type :: string
  le_severity :: string
  le_payload :: "(string \<times> json) list"
  le_created :: string

text \<open>
  \<open>rv_runs\<close> holds the project of each run, \<open>rv_attempts\<close> the run of each orchestration attempt,
  \<open>rv_tasks\<close> and \<open>rv_reviews\<close> the keys of their tables.
\<close>

record review_db =
  rv_assignments :: "assignment list"
  rv_roles :: "role_row list"
  rv_runs :: "(string \<times> string) list"
  rv_attempts :: "(string \<times> string option) list"
  rv_executions :: "review_execution list"
  rv_tasks :: "string list"
  rv_reviews :: "string list"
  rv_events :: "legacy_event list"
  rv_journal :: journal

datatype assignment_error =
    InvalidAssignmentId
  | InvalidField string
  | InvalidFailureCode
  | NoTransaction
  | RoleUnavailable
  | RolePolicy
  | RunUnavailable
  | SequenceExhausted
  | InvalidNumber
  | AttemptMismatch
  | AssignmentUnavailable
  | CannotClaim
  | ClaimLost
  | CannotFinish
  | ReviewRequired
  | FinishLost
  | FailureLost
  | TableRefused
  | JournalRefused journal_error

definition active_assignment :: "assignment_status \<Rightarrow> bool" where
  "active_assignment s \<longleftrightarrow> s \<in> {ASSIGNED, CLAIMED}"

definition terminal_assignment :: "assignment_status \<Rightarrow> bool" where
  "terminal_assignment s \<longleftrightarrow> s \<in> {COMPLETED, FAILED, CANCELLED}"

section \<open>Checks of the arguments\<close>

definition assignment_id_ok :: "string \<Rightarrow> bool" where
  "assignment_id_ok = hex_id_ok ''review-assignment-''"

definition failure_code_ok :: "string \<Rightarrow> bool" where
  "failure_code_ok s \<longleftrightarrow>
     3 \<le> length s \<and> length s \<le> 64 \<and> is_upper (hd s) \<and>
     list_all (\<lambda>c. is_upper c \<or> is_digit c \<or> c = CHR ''_'') s"

definition check_text :: "string \<Rightarrow> string \<Rightarrow> assignment_error + unit" where
  "check_text s name = require (text_ok 200 s) (InvalidField name)"

definition find_role :: "string \<Rightarrow> review_db \<Rightarrow> assignment_error + role_row" where
  "find_role role db =
     (case select_one (\<lambda>r. ro_id r = role) (rv_roles db) of
        None \<Rightarrow> Inl RoleUnavailable
      | Some r \<Rightarrow>
          if \<not> ro_enabled r \<or> ro_kind r \<noteq> ''reviewer'' \<or> ro_mode r \<noteq> ''read_only'' \<or>
             ro_commit r \<or> ro_push r \<or> ro_network r
          then Inl RolePolicy else Inr r)"

definition run_project :: "string \<Rightarrow> review_db \<Rightarrow> assignment_error + string" where
  "run_project run db =
     (case map_of (rv_runs db) run of None \<Rightarrow> Inl RunUnavailable | Some p \<Rightarrow> Inr p)"

definition find_assignment :: "string \<Rightarrow> review_db \<Rightarrow> assignment_error + assignment" where
  "find_assignment i db =
     (case select_one (\<lambda>a. as_id a = i) (rv_assignments db) of
        None \<Rightarrow> Inl AssignmentUnavailable
      | Some a \<Rightarrow> Inr a)"

definition next_assignment_number :: "string \<Rightarrow> review_db \<Rightarrow> assignment_error + int" where
  "next_assignment_number run db =
     (let n = foldr max (map as_number (filter (\<lambda>a. as_run a = run) (rv_assignments db))) 0 + 1
      in if 1 \<le> n \<and> n \<le> 1000 then Inr n else Inl SequenceExhausted)"

section \<open>The table\<close>

text \<open>
  \<^verbatim>\<open>strftime('%Y-%m-%dT%H:%M:%fZ', t) = t\<close>: a valid time with milliseconds.
\<close>

definition millisecond_time :: "string \<Rightarrow> bool" where
  "millisecond_time s \<longleftrightarrow>
     length s = 24 \<and> timestamp_shape s \<and>
     1 \<le> field 2 5 s \<and> field 2 5 s \<le> 12 \<and>
     1 \<le> field 2 8 s \<and> field 2 8 s \<le> days_in_month (field 4 0 s) (field 2 5 s) \<and>
     field 2 11 s \<le> 23 \<and> field 2 14 s \<le> 59 \<and> field 2 17 s \<le> 59"

definition present :: "'a option \<Rightarrow> bool" where
  "present v \<longleftrightarrow> v \<noteq> None"

text \<open>The CHECK that ties the columns to the status.\<close>

fun status_columns :: "assignment_status \<Rightarrow> assignment \<Rightarrow> bool" where
  "status_columns ASSIGNED a \<longleftrightarrow>
     as_owner a = None \<and> as_execution a = None \<and> as_review a = None \<and> as_failure a = None \<and>
     as_claimed a = None \<and> as_heartbeat a = None \<and> as_finished a = None"
| "status_columns CLAIMED a \<longleftrightarrow>
     present (as_owner a) \<and> present (as_execution a) \<and> as_review a = None \<and> as_failure a = None \<and>
     present (as_claimed a) \<and> present (as_heartbeat a) \<and> as_finished a = None"
| "status_columns COMPLETED a \<longleftrightarrow>
     present (as_owner a) \<and> present (as_execution a) \<and> present (as_review a) \<and> as_failure a = None \<and>
     present (as_claimed a) \<and> present (as_heartbeat a) \<and> present (as_finished a)"
| "status_columns FAILED a \<longleftrightarrow>
     as_review a = None \<and> present (as_failure a) \<and> present (as_finished a)"
| "status_columns CANCELLED a \<longleftrightarrow>
     as_review a = None \<and> as_failure a = None \<and> present (as_finished a)"

definition opt_all :: "('a \<Rightarrow> bool) \<Rightarrow> 'a option \<Rightarrow> bool" where
  "opt_all P v \<longleftrightarrow> (case v of None \<Rightarrow> True | Some x \<Rightarrow> P x)"

definition within :: "nat \<Rightarrow> nat \<Rightarrow> string \<Rightarrow> bool" where
  "within low high s \<longleftrightarrow> low \<le> py_len s \<and> py_len s \<le> high"

definition columns_ok :: "assignment \<Rightarrow> bool" where
  "columns_ok a \<longleftrightarrow>
     assignment_id_ok (as_id a) \<and> 1 \<le> as_number a \<and> as_number a \<le> 1000 \<and>
     within 1 128 (as_profile a) \<and> within 1 200 (as_by a) \<and> opt_all (within 1 200) (as_owner a) \<and>
     opt_all (\<lambda>s. within 3 64 s \<and> list_all (\<lambda>c. is_upper c \<or> is_digit c \<or> c = CHR ''_'') s) (as_failure a) \<and>
     status_columns (as_status a) a"

text \<open>The unique columns, and the unique index of the active assignment of a run.\<close>

definition no_conflict :: "assignment \<Rightarrow> assignment \<Rightarrow> bool" where
  "no_conflict a b \<longleftrightarrow>
     as_id a \<noteq> as_id b \<and>
     \<not> (as_run a = as_run b \<and> as_number a = as_number b) \<and>
     \<not> (as_attempt a = as_attempt b \<and> as_number a = as_number b) \<and>
     \<not> (present (as_execution a) \<and> as_execution a = as_execution b) \<and>
     \<not> (present (as_review a) \<and> as_review a = as_review b) \<and>
     \<not> (as_run a = as_run b \<and> active_assignment (as_status a) \<and> active_assignment (as_status b))"

definition references_ok :: "assignment \<Rightarrow> review_db \<Rightarrow> bool" where
  "references_ok a db \<longleftrightarrow>
     as_run a \<in> fst ` set (rv_runs db) \<and> as_attempt a \<in> fst ` set (rv_attempts db) \<and>
     as_role a \<in> ro_id ` set (rv_roles db) \<and>
     opt_all (\<lambda>x. x \<in> re_id ` set (rv_executions db)) (as_execution a) \<and>
     opt_all (\<lambda>x. x \<in> set (rv_reviews db)) (as_review a)"

definition insert_policy :: "assignment \<Rightarrow> review_db \<Rightarrow> bool" where
  "insert_policy a db \<longleftrightarrow>
     as_status a = ASSIGNED \<and>
     list_ex (\<lambda>r. ro_id r = as_role a \<and> ro_profile r = as_profile a \<and> ro_kind r = ''reviewer'' \<and>
        ro_mode r = ''read_only'' \<and> \<not> ro_commit r \<and> \<not> ro_push r \<and> \<not> ro_network r \<and> ro_enabled r)
       (rv_roles db)"

definition times_ok :: "assignment \<Rightarrow> bool" where
  "times_ok a \<longleftrightarrow>
     opt_all millisecond_time (as_claimed a) \<and> opt_all millisecond_time (as_heartbeat a) \<and>
     opt_all millisecond_time (as_finished a)"

definition insert_assignment :: "assignment \<Rightarrow> review_db \<Rightarrow> assignment_error + review_db" where
  "insert_assignment a db =
     (if columns_ok a \<and> list_all (no_conflict a) (rv_assignments db) \<and> references_ok a db \<and>
         insert_policy a db \<and> times_ok a \<and> millisecond_time (as_assigned a)
      then Inr (db\<lparr>rv_assignments := rv_assignments db @ [a]\<rparr>)
      else Inl TableRefused)"

text \<open>The update triggers: the transitions, and the links of a claim and of a completion.\<close>

definition transition_ok :: "assignment_status \<Rightarrow> assignment_status \<Rightarrow> bool" where
  "transition_ok old new \<longleftrightarrow>
     (old = ASSIGNED \<and> new \<in> {CLAIMED, FAILED, CANCELLED}) \<or>
     (old = CLAIMED \<and> new \<in> {COMPLETED, FAILED, CANCELLED})"

definition link_ok :: "assignment \<Rightarrow> assignment \<Rightarrow> review_db \<Rightarrow> bool" where
  "link_ok a b db \<longleftrightarrow>
     (as_status a = ASSIGNED \<and> as_status b = CLAIMED \<longrightarrow>
        list_ex (\<lambda>x. Some (re_id x) = as_execution b \<and> re_run x = as_run a \<and> re_role x = as_role a \<and>
           re_profile x = as_profile a \<and> re_review x = None \<and> re_finished x = None) (rv_executions db)) \<and>
     (as_status a = CLAIMED \<and> as_status b = COMPLETED \<longrightarrow>
        list_ex (\<lambda>x. Some (re_id x) = as_execution a \<and> re_run x = as_run a \<and> re_role x = as_role a \<and>
           re_profile x = as_profile a \<and> present (re_review x) \<and> re_review x = as_review b \<and>
           present (re_finished x)) (rv_executions db))"

definition update_accepted :: "assignment \<Rightarrow> assignment \<Rightarrow> review_db \<Rightarrow> bool" where
  "update_accepted a b db \<longleftrightarrow>
     transition_ok (as_status a) (as_status b) \<and> link_ok a b db \<and> times_ok b \<and> columns_ok b \<and>
     references_ok b db \<and>
     list_all (\<lambda>c. as_id c = as_id a \<or> no_conflict b c) (rv_assignments db)"

text \<open>
  \<open>update_assignment from_statuses f lost i\<close>: the UPDATE of the row with this id and one of the
  statuses; no row is the error \<open>lost\<close>.
\<close>

definition update_assignment ::
  "assignment_status set \<Rightarrow> (assignment \<Rightarrow> assignment) \<Rightarrow> assignment_error \<Rightarrow> string \<Rightarrow> review_db \<Rightarrow>
     assignment_error + review_db" where
  "update_assignment from_statuses f lost i db =
     (case select_one (\<lambda>a. as_id a = i \<and> as_status a \<in> from_statuses) (rv_assignments db) of
        None \<Rightarrow> Inl lost
      | Some a \<Rightarrow>
          if update_accepted a (f a) db
          then Inr (db\<lparr>rv_assignments := update_where (\<lambda>b. as_id b = i) f (rv_assignments db)\<rparr>)
          else Inl TableRefused)"

section \<open>Events\<close>

text \<open>
  The parameters of the library: \<open>secret\<close> and \<open>dumps\<close> as in the journal, \<open>digest\<close> the hexadecimal
  SHA-256 of a text.
\<close>

record review_lib =
  rl_secret :: "string \<Rightarrow> bool"
  rl_dumps :: "(string \<times> json) list \<Rightarrow> string"
  rl_digest :: "string \<Rightarrow> string"

definition correlation_for_causation :: "review_lib \<Rightarrow> string \<Rightarrow> journal_error + string" where
  "correlation_for_causation lib causation =
     (if causation = [] then Inl InputInvalid else Inr (''corr_'' @ take 32 (rl_digest lib causation)))"

definition insert_legacy_event :: "legacy_event \<Rightarrow> review_db \<Rightarrow> assignment_error + review_db" where
  "insert_legacy_event e db =
     (if le_run e \<in> fst ` set (rv_runs db) \<and> opt_all (\<lambda>t. t \<in> set (rv_tasks db)) (le_task e)
      then Inr (db\<lparr>rv_events := rv_events db @ [e]\<rparr>)
      else Inl TableRefused)"

definition emit_review ::
  "review_lib \<Rightarrow> string \<Rightarrow> string \<Rightarrow> string \<Rightarrow> string \<Rightarrow> string \<Rightarrow> string \<Rightarrow> string \<Rightarrow>
     (string \<times> json) list \<Rightarrow> review_db \<Rightarrow> assignment_error + review_db" where
  "emit_review lib now fresh event_type aid actor causation project data db =
     (case correlation_for_causation lib causation of
        Inl e \<Rightarrow> Inl (JournalRefused e)
      | Inr correlation \<Rightarrow>
          case emit (rl_secret lib) (rl_dumps lib) now fresh True
                 \<lparr>i_type = event_type, i_actor_type = ''system'', i_actor = actor,
                  i_aggregate_type = ''review'', i_aggregate = aid, i_correlation = correlation,
                  i_data = data, i_causation = Some causation, i_project = Some project,
                  i_objective = None, i_event_id = None, i_occurred = Some now\<rparr> (rv_journal db) of
            Inl e \<Rightarrow> Inl (JournalRefused e)
          | Inr (_, j) \<Rightarrow> Inr (db\<lparr>rv_journal := j\<rparr>))"

text \<open>The two events of an operation, with the same time.\<close>

definition record_events ::
  "review_lib \<Rightarrow> string \<Rightarrow> string \<Rightarrow> string \<Rightarrow> string option \<Rightarrow> string \<Rightarrow> string \<Rightarrow> string \<Rightarrow> string \<Rightarrow>
     string \<Rightarrow> string \<Rightarrow> string \<Rightarrow> (string \<times> json) list \<Rightarrow> review_db \<Rightarrow> assignment_error + review_db" where
  "record_events lib now fresh run task legacy severity event_type aid actor causation project data db =
     rbind (insert_legacy_event
        \<lparr>le_project = project, le_run = run, le_task = task, le_type = legacy, le_severity = severity,
         le_payload = (''assignment_id'', JStr aid) # data, le_created = now\<rparr> db)
       (emit_review lib now fresh event_type aid actor causation project data)"

section \<open>The operations\<close>

text \<open>
  \<open>tx\<close> says whether the connection is in a transaction, \<open>now\<close> is \<^verbatim>\<open>utc_now()\<close>, \<open>hex\<close> and
  \<open>fresh\<close> are the hexadecimal \<^verbatim>\<open>uuid4\<close> of the assignment and of the event.
\<close>

definition create_assignment ::
  "review_lib \<Rightarrow> bool \<Rightarrow> string \<Rightarrow> string \<Rightarrow> string \<Rightarrow> string \<Rightarrow> string \<Rightarrow> int \<Rightarrow> string \<Rightarrow> string \<Rightarrow>
     review_db \<Rightarrow> assignment_error + (assignment \<times> review_db)" where
  "create_assignment lib tx now hex fresh run attempt number role by db =
     rbind (require tx NoTransaction) (\<lambda>_.
     rbind (check_text run ''run_id'') (\<lambda>_.
     rbind (check_text attempt ''orchestration_attempt_id'') (\<lambda>_.
     rbind (check_text by ''assigned_by'') (\<lambda>_.
     rbind (require (1 \<le> number \<and> number \<le> 1000) InvalidNumber) (\<lambda>_.
     rbind (find_role role db) (\<lambda>r.
     rbind (run_project run db) (\<lambda>project.
     rbind (require (case map_of (rv_attempts db) attempt of
                       None \<Rightarrow> False
                     | Some linked \<Rightarrow> py_or linked [] = run) AttemptMismatch) (\<lambda>_.
     let a = \<lparr>as_id = ''review-assignment-'' @ hex, as_run = run, as_attempt = attempt, as_number = number,
              as_role = ro_id r, as_profile = ro_profile r, as_status = ASSIGNED, as_by = by,
              as_owner = None, as_execution = None, as_review = None, as_failure = None,
              as_assigned = now, as_claimed = None, as_heartbeat = None, as_finished = None\<rparr>
     in rbind (insert_assignment a db) (\<lambda>db1.
        rbind (record_events lib now fresh run None ''REVIEW_ASSIGNMENT_CREATED'' ''INFO''
                 ''review.assignment_created'' (as_id a) by attempt project
                 [(''assignment_number'', JInt number), (''role_id'', JStr (ro_id r)),
                  (''source_profile'', JStr (ro_profile r)), (''status'', JStr ''assigned'')] db1)
          (\<lambda>db2. Inr (a, db2)))))))))))"

definition claim_assignment ::
  "review_lib \<Rightarrow> bool \<Rightarrow> string \<Rightarrow> string \<Rightarrow> string \<Rightarrow> string \<Rightarrow> string \<Rightarrow> string \<Rightarrow> string \<Rightarrow> string \<Rightarrow>
     review_db \<Rightarrow> assignment_error + review_db" where
  "claim_assignment lib tx now fresh aid run role profile execution task db =
     rbind (require tx NoTransaction) (\<lambda>_.
     rbind (require (assignment_id_ok aid) InvalidAssignmentId) (\<lambda>_.
     rbind (check_text execution ''review_execution_id'') (\<lambda>_.
     rbind (check_text task ''task_id'') (\<lambda>_.
     rbind (find_assignment aid db) (\<lambda>a.
     rbind (require (as_status a = ASSIGNED \<and> as_run a = run \<and> as_role a = role \<and> as_profile a = profile)
              CannotClaim) (\<lambda>_.
     rbind (update_assignment {ASSIGNED}
              (\<lambda>b. b\<lparr>as_status := CLAIMED, as_owner := Some (''reviewer:'' @ execution),
                     as_execution := Some execution, as_claimed := Some now, as_heartbeat := Some now\<rparr>)
              ClaimLost aid db) (\<lambda>db1.
     rbind (run_project run db1) (\<lambda>project.
     record_events lib now fresh run (Some task) ''REVIEW_ASSIGNMENT_CLAIMED'' ''INFO''
       ''review.assignment_claimed'' aid (''reviewer:'' @ execution) execution project
       [(''assignment_number'', JInt (as_number a)), (''review_execution_id'', JStr execution),
        (''role_id'', JStr role), (''status'', JStr ''claimed'')] db1))))))))"

text \<open>\<^verbatim>\<open>str(x)\<close> of a column that may be NULL.\<close>

definition py_str_opt :: "string option \<Rightarrow> string" where
  "py_str_opt v = (case v of None \<Rightarrow> ''None'' | Some s \<Rightarrow> s)"

definition finish_assignment ::
  "review_lib \<Rightarrow> bool \<Rightarrow> string \<Rightarrow> string \<Rightarrow> string \<Rightarrow> string \<Rightarrow> string \<Rightarrow> string \<Rightarrow> bool \<Rightarrow> string option \<Rightarrow>
     string \<Rightarrow> review_db \<Rightarrow> assignment_error + review_db" where
  "finish_assignment lib tx now fresh aid run execution task success review code db =
     rbind (require tx NoTransaction) (\<lambda>_.
     rbind (require (assignment_id_ok aid) InvalidAssignmentId) (\<lambda>_.
     rbind (find_assignment aid db) (\<lambda>a.
     rbind (require (as_status a = CLAIMED \<and> as_run a = run \<and> py_str_opt (as_execution a) = execution)
              CannotFinish) (\<lambda>_.
     rbind (run_project run db) (\<lambda>project.
     rbind (if success then require (py_or review [] \<noteq> []) ReviewRequired
            else require (failure_code_ok code) InvalidFailureCode) (\<lambda>_.
     let status = (if success then COMPLETED else FAILED);
         stored_review = (if success then review else None);
         stored_failure = (if success then None else Some code)
     in rbind (update_assignment {CLAIMED}
                 (\<lambda>b. b\<lparr>as_status := status, as_review := stored_review, as_failure := stored_failure,
                        as_heartbeat := Some now, as_finished := Some now\<rparr>)
                 FinishLost aid db) (\<lambda>db1.
        record_events lib now fresh run (Some task)
          (if success then ''REVIEW_ASSIGNMENT_COMPLETED'' else ''REVIEW_ASSIGNMENT_FAILED'')
          (if success then ''INFO'' else ''ERROR'')
          (if success then ''review.assignment_completed'' else ''review.assignment_failed'')
          aid (''reviewer:'' @ execution) execution project
          [(''assignment_number'', JInt (as_number a)), (''review_execution_id'', JStr execution),
           (''review_present'', JBool (present stored_review)),
           (''failure_code'', json_of_option JStr stored_failure),
           (''status'', JStr (if success then ''completed'' else ''failed''))] db1)))))))"

definition fail_active_assignment ::
  "review_lib \<Rightarrow> bool \<Rightarrow> string \<Rightarrow> string \<Rightarrow> string \<Rightarrow> string \<Rightarrow> string \<Rightarrow> review_db \<Rightarrow>
     assignment_error + (bool \<times> review_db)" where
  "fail_active_assignment lib tx now fresh aid actor code db =
     rbind (require tx NoTransaction) (\<lambda>_.
     rbind (require (assignment_id_ok aid) InvalidAssignmentId) (\<lambda>_.
     rbind (check_text actor ''actor_id'') (\<lambda>_.
     rbind (require (failure_code_ok code) InvalidFailureCode) (\<lambda>_.
     rbind (find_assignment aid db) (\<lambda>a.
     if terminal_assignment (as_status a) then Inr (False, db)
     else
       rbind (update_assignment {ASSIGNED, CLAIMED}
                (\<lambda>b. b\<lparr>as_status := FAILED, as_review := None, as_failure := Some code,
                       as_heartbeat := (if as_status b = CLAIMED
                                        then (case as_heartbeat b of None \<Rightarrow> Some now | h \<Rightarrow> h)
                                        else None),
                       as_finished := Some now\<rparr>)
                FailureLost aid db) (\<lambda>db1.
       rbind (run_project (as_run a) db1) (\<lambda>project.
       rbind (record_events lib now fresh (as_run a) None ''REVIEW_ASSIGNMENT_FAILED'' ''ERROR''
                ''review.assignment_failed'' aid actor (as_attempt a) project
                [(''assignment_number'', JInt (as_number a)), (''failure_code'', JStr code),
                 (''status'', JStr ''failed'')] db1)
         (\<lambda>db2. Inr (True, db2)))))))))"

text \<open>
  \<^verbatim>\<open>recover_active_assignments\<close>: the ids are read first, each failure has its own time and event id;
  an error stops the loop and the transaction.
\<close>

fun fail_each ::
  "review_lib \<Rightarrow> bool \<Rightarrow> string \<Rightarrow> (string \<times> string \<times> string) list \<Rightarrow> int \<Rightarrow> review_db \<Rightarrow>
     assignment_error + (int \<times> review_db)" where
  "fail_each lib tx actor [] recovered db = Inr (recovered, db)"
| "fail_each lib tx actor ((aid, now, fresh) # rest) recovered db =
     rbind (fail_active_assignment lib tx now fresh aid actor ''RECOVERY_ABANDONED'' db) (\<lambda>(failed, db').
       fail_each lib tx actor rest (if failed then recovered + 1 else recovered) db')"

definition active_assignments :: "string \<Rightarrow> review_db \<Rightarrow> string list" where
  "active_assignments run db =
     map as_id (sort_key as_number
       (filter (\<lambda>a. as_run a = run \<and> active_assignment (as_status a)) (rv_assignments db)))"

definition recover_active_assignments ::
  "review_lib \<Rightarrow> bool \<Rightarrow> (string \<times> string) list \<Rightarrow> string \<Rightarrow> string \<Rightarrow> review_db \<Rightarrow>
     assignment_error + (int \<times> review_db)" where
  "recover_active_assignments lib tx stamps run actor db =
     rbind (require tx NoTransaction) (\<lambda>_.
       fail_each lib tx actor (zip (active_assignments run db) stamps) 0 db)"

end
