(* ===== verification/Review_Safety.thy ===== *)
theory Review_Safety
  imports Review_Assignment
begin

text \<open>
  What the reviewer assignments promise: the operations refine a board on which each run has at most
  one open review, the journal tells the status of every assignment, the rows satisfy the table's
  constraints, and the recovery leaves no open assignment of its run.
\<close>

section \<open>What an operation changes\<close>

text \<open>An event of an assignment is appended to the journal.\<close>

definition journals :: "string \<Rightarrow> string \<Rightarrow> review_db \<Rightarrow> review_db \<Rightarrow> bool" where
  "journals event_type aid db db' \<longleftrightarrow>
     (\<exists>r. rv_journal db' = rv_journal db @ [r] \<and> j_aggregate_type r = ''review'' \<and> j_aggregate r = aid \<and>
        j_type r = event_type)"

lemma insert_legacy_frame:
  "insert_legacy_event e db = Inr db' \<Longrightarrow>
     rv_assignments db' = rv_assignments db \<and> rv_journal db' = rv_journal db"
  by (auto simp: insert_legacy_event_def split: if_splits)

lemma emit_review_frame:
  assumes "emit_review lib now fresh event_type aid actor causation project data db = Inr db'"
  shows "rv_assignments db' = rv_assignments db \<and> journals event_type aid db db'"
  using assms unfolding emit_review_def journals_def
  by (auto split: sum.splits simp: emit_Inr_iff)

lemma record_events_frame:
  assumes "record_events lib now fresh run task legacy severity event_type aid actor causation project data db
      = Inr db'"
  shows "rv_assignments db' = rv_assignments db" "journals event_type aid db db'"
proof -
  obtain e db1 where legacy: "insert_legacy_event e db = Inr db1" and
    event: "emit_review lib now fresh event_type aid actor causation project data db1 = Inr db'"
    using assms unfolding record_events_def rbind_Inr_iff by blast
  note frame = insert_legacy_frame [OF legacy] emit_review_frame [OF event]
  show "rv_assignments db' = rv_assignments db" using frame by simp
  show "journals event_type aid db db'" using frame unfolding journals_def by simp
qed

text \<open>\<open>inserts\<close> and \<open>moves\<close>: the effect of a successful operation on the rows and on the journal.\<close>

definition inserts :: "assignment \<Rightarrow> review_db \<Rightarrow> review_db \<Rightarrow> bool" where
  "inserts a db db' \<longleftrightarrow>
     as_status a = ASSIGNED \<and> columns_ok a \<and> list_all (no_conflict a) (rv_assignments db) \<and>
     rv_assignments db' = rv_assignments db @ [a] \<and> journals ''review.assignment_created'' (as_id a) db db'"

definition moves ::
  "assignment \<Rightarrow> (assignment \<Rightarrow> assignment) \<Rightarrow> string \<Rightarrow> review_db \<Rightarrow> review_db \<Rightarrow> bool" where
  "moves a f event_type db db' \<longleftrightarrow>
     a \<in> set (rv_assignments db) \<and> update_accepted a (f a) db \<and>
     as_id (f a) = as_id a \<and> as_run (f a) = as_run a \<and> as_number (f a) = as_number a \<and>
     rv_assignments db' = update_where (\<lambda>b. as_id b = as_id a) f (rv_assignments db) \<and>
     journals event_type (as_id a) db db'"

lemma create_inserts:
  assumes "create_assignment lib tx now hex fresh run attempt number role by db = Inr (a, db')"
  shows "inserts a db db'"
proof -
  obtain db1 run legacy severity actor causation project data where "insert_assignment a db = Inr db1" and
    e: "record_events lib now fresh run None legacy severity ''review.assignment_created'' (as_id a) actor
         causation project data db1 = Inr db'" and "as_status a = ASSIGNED"
    using assms unfolding create_assignment_def Let_def rbind_Inr_iff by force
  then show ?thesis
    using record_events_frame [OF e] unfolding inserts_def insert_assignment_def journals_def
    by (auto split: if_splits)
qed

lemma update_moves:
  assumes "update_assignment from_statuses f lost i db = Inr db1" "\<And>b. as_id (f b) = as_id b"
    "\<And>b. as_run (f b) = as_run b" "\<And>b. as_number (f b) = as_number b"
    and "rv_assignments db' = rv_assignments db1" "journals event_type i db1 db'"
  shows "\<exists>a. moves a f event_type db db' \<and> as_id a = i \<and> as_status a \<in> from_statuses"
proof -
  obtain a where "a \<in> set (rv_assignments db)" "as_id a = i" "as_status a \<in> from_statuses"
    "update_accepted a (f a) db"
    "db1 = db\<lparr>rv_assignments := update_where (\<lambda>b. as_id b = i) f (rv_assignments db)\<rparr>"
    using assms(1) unfolding update_assignment_def
    by (auto split: option.splits if_splits dest: select_one_Some)
  then show ?thesis
    using assms(2-6) unfolding moves_def journals_def by auto
qed

lemma claim_moves:
  assumes "claim_assignment lib tx now fresh aid run role profile execution task db = Inr db'"
  shows "\<exists>a f. moves a f ''review.assignment_claimed'' db db' \<and> as_id a = aid \<and>
     as_status a = ASSIGNED \<and> as_status (f a) = CLAIMED"
proof -
  let ?f = "\<lambda>b. b\<lparr>as_status := CLAIMED, as_owner := Some (''reviewer:'' @ execution),
      as_execution := Some execution, as_claimed := Some now, as_heartbeat := Some now\<rparr>"
  obtain db1 run severity legacy actor causation project data where
    u: "update_assignment {ASSIGNED} ?f ClaimLost aid db = Inr db1" and
    e: "record_events lib now fresh run (Some task) legacy severity ''review.assignment_claimed'' aid actor
      causation project data db1 = Inr db'"
    using assms unfolding claim_assignment_def by (auto simp: rbind_Inr_iff)
  from update_moves [OF u _ _ _ record_events_frame [OF e]]
  show ?thesis by (auto intro!: exI [of _ ?f])
qed

lemma finish_moves:
  assumes "finish_assignment lib tx now fresh aid run execution task success review code db = Inr db'"
  shows "\<exists>a f. moves a f (if success then ''review.assignment_completed'' else ''review.assignment_failed'') db db' \<and>
     as_id a = aid \<and> as_status a = CLAIMED \<and> as_status (f a) = (if success then COMPLETED else FAILED)"
proof -
  let ?f = "\<lambda>b. b\<lparr>as_status := (if success then COMPLETED else FAILED),
      as_review := (if success then review else None), as_failure := (if success then None else Some code),
      as_heartbeat := Some now, as_finished := Some now\<rparr>"
  obtain db1 run severity legacy actor causation project data where
    u: "update_assignment {CLAIMED} ?f FinishLost aid db = Inr db1" and
    e: "record_events lib now fresh run (Some task) legacy severity
      (if success then ''review.assignment_completed'' else ''review.assignment_failed'') aid actor
      causation project data db1 = Inr db'"
    using assms unfolding finish_assignment_def Let_def by (auto simp: rbind_Inr_iff)
  from update_moves [OF u _ _ _ record_events_frame [OF e]]
  show ?thesis by (auto intro!: exI [of _ ?f])
qed

lemma fail_moves:
  assumes "fail_active_assignment lib tx now fresh aid actor code db = Inr (True, db')"
  shows "\<exists>a f. moves a f ''review.assignment_failed'' db db' \<and> as_id a = aid \<and>
     active_assignment (as_status a) \<and> as_status (f a) = FAILED"
proof -
  let ?f = "\<lambda>b. b\<lparr>as_status := FAILED, as_review := None, as_failure := Some code,
      as_heartbeat := (if as_status b = CLAIMED
                       then (case as_heartbeat b of None \<Rightarrow> Some now | h \<Rightarrow> h) else None),
      as_finished := Some now\<rparr>"
  obtain db1 run severity legacy actor' causation project data where
    u: "update_assignment {ASSIGNED, CLAIMED} ?f FailureLost aid db = Inr db1" and
    e: "record_events lib now fresh run None legacy severity ''review.assignment_failed'' aid actor'
      causation project data db1 = Inr db'"
    using assms unfolding fail_active_assignment_def
    by (auto simp: rbind_Inr_iff split: if_splits)
  from update_moves [OF u _ _ _ record_events_frame [OF e]]
  show ?thesis by (auto intro!: exI [of _ ?f] simp: active_assignment_def)
qed

lemma fail_skips:
  "fail_active_assignment lib tx now fresh aid actor code db = Inr (False, db') \<Longrightarrow>
     db' = db \<and> (\<exists>a. select_one (\<lambda>a. as_id a = aid) (rv_assignments db) = Some a \<and>
       terminal_assignment (as_status a))"
  unfolding fail_active_assignment_def find_assignment_def
  by (auto simp: rbind_Inr_iff split: if_splits option.splits)

section \<open>Steps\<close>

text \<open>
  A step is a successful operation (one that raises is rolled back by its caller), the recovery of a
  run, or a change by other programs: they write the other tables and events, and the events they
  emit are of other aggregates.
\<close>

definition foreign_event :: "journal_row \<Rightarrow> bool" where
  "foreign_event r \<longleftrightarrow> \<not> (j_aggregate_type r = ''review'' \<and> assignment_id_ok (j_aggregate r))"

inductive review_step :: "review_lib \<Rightarrow> review_db \<Rightarrow> review_db \<Rightarrow> bool" for lib where
  create: "create_assignment lib tx now hex fresh run attempt number role by db = Inr (a, db') \<Longrightarrow>
    review_step lib db db'"
| claim: "claim_assignment lib tx now fresh aid run role profile execution task db = Inr db' \<Longrightarrow>
    review_step lib db db'"
| finish: "finish_assignment lib tx now fresh aid run execution task success review code db = Inr db' \<Longrightarrow>
    review_step lib db db'"
| fail: "fail_active_assignment lib tx now fresh aid actor code db = Inr (failed, db') \<Longrightarrow>
    review_step lib db db'"
| recover: "recover_active_assignments lib tx stamps run actor db = Inr (n, db') \<Longrightarrow> review_step lib db db'"
| other: "rv_assignments db' = rv_assignments db \<Longrightarrow> rv_journal db' = rv_journal db @ rows \<Longrightarrow>
    list_all foreign_event rows \<Longrightarrow> review_step lib db db'"

definition review_init :: "review_db \<Rightarrow> bool" where
  "review_init db \<longleftrightarrow> rv_assignments db = [] \<and> rv_journal db = []"

section \<open>The board\<close>

text \<open>
  The abstract system: the run and the status of each assignment. A run gets an assignment when none
  of its assignments is open; an assignment goes from assigned to claimed to completed, and fails
  from the first two.
\<close>

type_synonym board = "string \<Rightarrow> (string \<times> assignment_status) option"

inductive board_step :: "board \<Rightarrow> board \<Rightarrow> bool" where
  assign: "m i = None \<Longrightarrow> (\<And>j s. m j = Some (run, s) \<Longrightarrow> \<not> active_assignment s) \<Longrightarrow>
    board_step m (m(i \<mapsto> (run, ASSIGNED)))"
| claim: "m i = Some (run, ASSIGNED) \<Longrightarrow> board_step m (m(i \<mapsto> (run, CLAIMED)))"
| complete: "m i = Some (run, CLAIMED) \<Longrightarrow> board_step m (m(i \<mapsto> (run, COMPLETED)))"
| fail: "m i = Some (run, s) \<Longrightarrow> active_assignment s \<Longrightarrow> board_step m (m(i \<mapsto> (run, FAILED)))"

definition board :: "review_db \<Rightarrow> board" where
  "board db = map_of (map (\<lambda>a. (as_id a, (as_run a, as_status a))) (rv_assignments db))"

text \<open>The statuses as the journal tells them: its events of assignments, replayed in order.\<close>

definition replay_event :: "journal_row \<Rightarrow> (string \<Rightarrow> assignment_status option) \<Rightarrow> (string \<Rightarrow> assignment_status option)" where
  "replay_event r m =
     (if foreign_event r then m
      else if j_type r = ''review.assignment_created'' then m(j_aggregate r \<mapsto> ASSIGNED)
      else if j_type r = ''review.assignment_claimed'' then m(j_aggregate r \<mapsto> CLAIMED)
      else if j_type r = ''review.assignment_completed'' then m(j_aggregate r \<mapsto> COMPLETED)
      else if j_type r = ''review.assignment_failed'' then m(j_aggregate r \<mapsto> FAILED)
      else m)"

definition replay :: "journal \<Rightarrow> (string \<Rightarrow> assignment_status option)" where
  "replay j = fold replay_event j (\<lambda>_. None)"

definition told_status :: "string \<Rightarrow> assignment_status" where
  "told_status ty =
     (if ty = ''review.assignment_created'' then ASSIGNED
      else if ty = ''review.assignment_claimed'' then CLAIMED
      else if ty = ''review.assignment_completed'' then COMPLETED else FAILED)"

definition review_inv :: "review_db \<Rightarrow> bool" where
  "review_inv db \<longleftrightarrow>
     list_all columns_ok (rv_assignments db) \<and> distinct (map as_id (rv_assignments db)) \<and>
     (\<forall>a \<in> set (rv_assignments db). \<forall>b \<in> set (rv_assignments db). as_id a \<noteq> as_id b \<longrightarrow> no_conflict a b) \<and>
     replay (rv_journal db) = map_option snd \<circ> board db"

lemma board_Some:
  assumes "distinct (map as_id (rv_assignments db))"
  shows "board db i = Some (run, s) \<longleftrightarrow>
     (\<exists>a \<in> set (rv_assignments db). as_id a = i \<and> as_run a = run \<and> as_status a = s)"
  using assms unfolding board_def
  by (subst map_of_eq_Some_iff) (auto simp: comp_def)

lemma board_None: "board db i = None \<longleftrightarrow> i \<notin> as_id ` set (rv_assignments db)"
  unfolding board_def by (simp add: map_of_eq_None_iff image_image)

text \<open>The table and the board after an insert and after a move.\<close>

lemma map_of_update_row:
  assumes "distinct (map as_id rows)" "a \<in> set rows" "as_id (f a) = as_id a"
  shows "map_of (map (\<lambda>b. (as_id b, g b)) (update_where (\<lambda>b. as_id b = as_id a) f rows)) =
     (map_of (map (\<lambda>b. (as_id b, g b)) rows))(as_id a \<mapsto> g (f a))"
  using assms
proof (induction rows)
  case (Cons b rows)
  show ?case
  proof (cases "as_id b = as_id a")
    case True
    then have new: "as_id a \<notin> as_id ` set rows" using Cons.prems(1) by simp
    then have "b = a" using Cons.prems(2) by auto
    have "update_where (\<lambda>b. as_id b = as_id a) f rows = rows" using new by (intro update_where_none) (auto simp: image_iff)
    then show ?thesis using \<open>b = a\<close> Cons.prems(3) by (simp add: fun_eq_iff)
  next
    case False
    then show ?thesis using Cons by (auto simp: fun_upd_twist)
  qed
qed simp

lemma map_of_snoc: "k \<notin> fst ` set xs \<Longrightarrow> map_of (xs @ [(k, v)]) = (map_of xs)(k \<mapsto> v)"
  by (induction xs) (auto simp: fun_upd_twist)

lemma board_inserts:
  assumes "inserts a db db'"
  shows "board db' = (board db)(as_id a \<mapsto> (as_run a, ASSIGNED))" "board db (as_id a) = None"
proof -
  have new: "as_id a \<notin> as_id ` set (rv_assignments db)"
    using assms by (auto simp: inserts_def list_all_iff no_conflict_def)
  then show "board db (as_id a) = None" by (simp add: board_None)
  show "board db' = (board db)(as_id a \<mapsto> (as_run a, ASSIGNED))"
    using assms new unfolding inserts_def board_def by (simp add: map_of_snoc image_image del: map_of_append)
qed

lemma board_moves:
  assumes "moves a f event_type db db'" "distinct (map as_id (rv_assignments db))"
  shows "board db' = (board db)(as_id a \<mapsto> (as_run a, as_status (f a)))"
    and "board db (as_id a) = Some (as_run a, as_status a)"
proof -
  show "board db (as_id a) = Some (as_run a, as_status a)"
    using assms by (auto simp: board_Some moves_def)
  show "board db' = (board db)(as_id a \<mapsto> (as_run a, as_status (f a)))"
    using assms(1) map_of_update_row [OF assms(2), of a f "\<lambda>b. (as_run b, as_status b)"]
    unfolding moves_def board_def by simp
qed

lemma replay_journals:
  assumes "journals ty aid db db'" "assignment_id_ok aid"
    and "ty \<in> {''review.assignment_created'', ''review.assignment_claimed'', ''review.assignment_completed'',
      ''review.assignment_failed''}"
  shows "replay (rv_journal db') = (replay (rv_journal db))(aid \<mapsto> told_status ty)"
  using assms by (auto simp: journals_def replay_def replay_event_def foreign_event_def told_status_def)

lemma replay_foreign: "list_all foreign_event rows \<Longrightarrow> replay (j @ rows) = replay j"
proof (induction rows rule: rev_induct)
  case (snoc r rows)
  then show ?case by (simp add: replay_def replay_event_def)
qed simp

lemma no_conflict_sym: "no_conflict a b = no_conflict b a"
  by (auto simp: no_conflict_def)

lemma inserts_inv:
  assumes "review_inv db" "inserts a db db'"
  shows "review_inv db'"
proof -
  have j: "journals ''review.assignment_created'' (as_id a) db db'" and id: "assignment_id_ok (as_id a)"
    using assms(2) by (auto simp: inserts_def columns_ok_def)
  have "replay (rv_journal db') = map_option snd \<circ> board db'"
    using replay_journals [OF j id] assms(1) board_inserts [OF assms(2)]
    by (auto simp: review_inv_def told_status_def fun_eq_iff)
  then show ?thesis
    using assms board_inserts(2) [OF assms(2)] unfolding review_inv_def inserts_def
    by (auto simp: board_None list_all_iff no_conflict_sym)
qed

lemma moved_rows:
  assumes "list_all columns_ok rows" "distinct (map as_id rows)" "a \<in> set rows"
    and conflicts: "\<And>b c. b \<in> set rows \<Longrightarrow> c \<in> set rows \<Longrightarrow> as_id b \<noteq> as_id c \<Longrightarrow> no_conflict b c"
    and moved: "columns_ok (f a)" "as_id (f a) = as_id a"
      "\<And>c. c \<in> set rows \<Longrightarrow> as_id c \<noteq> as_id a \<Longrightarrow> no_conflict (f a) c"
  defines "rows' \<equiv> update_where (\<lambda>b. as_id b = as_id a) f rows"
  shows "list_all columns_ok rows' \<and> distinct (map as_id rows') \<and>
    (\<forall>b \<in> set rows'. \<forall>c \<in> set rows'. as_id b \<noteq> as_id c \<longrightarrow> no_conflict b c)"
proof -
  have same: "b = a" if "b \<in> set rows" "as_id b = as_id a" for b
    using assms(2,3) that by (auto simp: distinct_map dest: inj_onD)
  have member: "b = f a \<or> b \<in> set rows \<and> as_id b \<noteq> as_id a" if "b \<in> set rows'" for b
    using that same unfolding rows'_def set_update_where by (auto split: if_splits)
  have "map as_id rows' = map as_id rows"
    unfolding rows'_def update_where_def using same moved(2) by auto
  moreover have "columns_ok b" if "b \<in> set rows'" for b
    using member [OF that] assms(1) moved(1) by (auto simp: list_all_iff)
  moreover have "no_conflict b c" if "b \<in> set rows'" "c \<in> set rows'" "as_id b \<noteq> as_id c" for b c
    using member [OF that(1)] member [OF that(2)] that(3) moved(2) moved(3) [of c] moved(3) [of b]
      conflicts [of b c] no_conflict_sym [of b c] by metis
  ultimately show ?thesis using assms(2) by (simp add: list_all_iff)
qed

lemma moves_inv:
  assumes "review_inv db" "moves a f ty db db'" "as_status (f a) = told_status ty"
    and "ty \<in> {''review.assignment_created'', ''review.assignment_claimed'', ''review.assignment_completed'',
      ''review.assignment_failed''}"
  shows "review_inv db'"
proof -
  have d: "distinct (map as_id (rv_assignments db))" and a: "a \<in> set (rv_assignments db)" "columns_ok a"
    and ok: "columns_ok (f a)" "as_id (f a) = as_id a"
      "\<And>c. c \<in> set (rv_assignments db) \<Longrightarrow> as_id c \<noteq> as_id a \<Longrightarrow> no_conflict (f a) c"
    and rows: "rv_assignments db' = update_where (\<lambda>b. as_id b = as_id a) f (rv_assignments db)"
    and j: "journals ty (as_id a) db db'"
    using assms(1,2) by (auto simp: review_inv_def moves_def update_accepted_def list_all_iff)
  have "replay (rv_journal db') = map_option snd \<circ> board db'"
    using replay_journals [OF j _ assms(4)] a(2) assms(1,3) board_moves [OF assms(2) d]
    by (auto simp: review_inv_def columns_ok_def fun_eq_iff)
  moreover have "list_all columns_ok (rv_assignments db') \<and> distinct (map as_id (rv_assignments db')) \<and>
    (\<forall>b \<in> set (rv_assignments db'). \<forall>c \<in> set (rv_assignments db'). as_id b \<noteq> as_id c \<longrightarrow> no_conflict b c)"
    unfolding rows by (rule moved_rows) (use assms(1) a ok in \<open>auto simp: review_inv_def\<close>)
  ultimately show ?thesis unfolding review_inv_def by blast
qed

section \<open>Every step keeps the invariant and is a step of the board\<close>

lemma board_unique:
  assumes "review_inv db" "a \<in> set (rv_assignments db)" "b \<in> set (rv_assignments db)"
    "as_run a = as_run b" "active_assignment (as_status a)" "active_assignment (as_status b)"
  shows "a = b"
  using assms unfolding review_inv_def no_conflict_def
  by (metis distinct_map inj_onD)

lemma inserts_board:
  assumes "review_inv db" "inserts a db db'"
  shows "board_step (board db) (board db')"
proof -
  have "\<not> active_assignment s" if "board db j = Some (as_run a, s)" for j s
    using that assms board_Some [of db j "as_run a" s]
    by (auto simp: review_inv_def inserts_def list_all_iff no_conflict_def active_assignment_def)
  then show ?thesis
    using board_inserts [OF assms(2)] board_step.assign by metis
qed

text \<open>The three moves, by the status they lead to.\<close>

lemma moves_board:
  assumes "review_inv db" "moves a f ty db db'"
    and "as_status a = ASSIGNED \<and> as_status (f a) = CLAIMED \<or>
      as_status a = CLAIMED \<and> as_status (f a) = COMPLETED \<or>
      active_assignment (as_status a) \<and> as_status (f a) = FAILED"
  shows "board_step (board db) (board db')"
proof -
  have "distinct (map as_id (rv_assignments db))" using assms(1) by (simp add: review_inv_def)
  note b = board_moves [OF assms(2) this]
  from assms(3) show ?thesis
    using board_step.claim board_step.complete board_step.fail b by metis
qed

definition keeps_board :: "review_db \<Rightarrow> review_db \<Rightarrow> bool" where
  "keeps_board db db' \<longleftrightarrow> review_inv db' \<and> board_step\<^sup>*\<^sup>* (board db) (board db')"

lemma fail_effect:
  assumes "review_inv db" "fail_active_assignment lib tx now fresh aid actor code db = Inr (failed, db')"
  shows "keeps_board db db'"
    and "if failed then \<exists>run s. board db aid = Some (run, s) \<and> active_assignment s \<and>
           board db' = (board db)(aid \<mapsto> (run, FAILED))
         else db' = db \<and> (\<exists>run s. board db aid = Some (run, s) \<and> terminal_assignment s)"
proof -
  have d: "distinct (map as_id (rv_assignments db))" using assms(1) by (simp add: review_inv_def)
  have "keeps_board db db' \<and>
    (if failed then \<exists>run s. board db aid = Some (run, s) \<and> active_assignment s \<and>
           board db' = (board db)(aid \<mapsto> (run, FAILED))
         else db' = db \<and> (\<exists>run s. board db aid = Some (run, s) \<and> terminal_assignment s))"
  proof (cases failed)
    case True
    then obtain a f where m: "moves a f ''review.assignment_failed'' db db'" "as_id a = aid"
      "active_assignment (as_status a)" "as_status (f a) = FAILED"
      using fail_moves [of lib tx now fresh aid actor code db db'] assms(2) by auto
    moreover have "review_inv db'"
      by (rule moves_inv [OF assms(1) m(1)]) (use m(4) in \<open>simp_all add: told_status_def\<close>)
    ultimately show ?thesis
      using True moves_board [OF assms(1) m(1)] board_moves [OF m(1) d] unfolding keeps_board_def
      by (simp add: r_into_rtranclp)
  next
    case False
    then have "fail_active_assignment lib tx now fresh aid actor code db = Inr (False, db')" using assms(2) by simp
    then obtain a where a: "db' = db" "select_one (\<lambda>a. as_id a = aid) (rv_assignments db) = Some a"
      "terminal_assignment (as_status a)" using fail_skips by blast
    then have "board db aid = Some (as_run a, as_status a)"
      using board_Some [OF d] select_one_Some [OF a(2)] by blast
    then show ?thesis using False a assms(1) unfolding keeps_board_def by simp
  qed
  then show "keeps_board db db'"
    "if failed then \<exists>run s. board db aid = Some (run, s) \<and> active_assignment s \<and>
           board db' = (board db)(aid \<mapsto> (run, FAILED))
         else db' = db \<and> (\<exists>run s. board db aid = Some (run, s) \<and> terminal_assignment s)" by blast+
qed

text \<open>
  The loop of the recovery: what is open after it was open before and not in the list, and it counts
  the open ones of the list.
\<close>

lemma fail_each_effect:
  assumes "review_inv db" "fail_each lib tx actor items n db = Inr (n', db')"
  shows "keeps_board db db' \<and>
    (\<forall>i run s. board db' i = Some (run, s) \<and> active_assignment s \<longrightarrow>
       board db i = Some (run, s) \<and> i \<notin> set (map fst items)) \<and>
    (distinct (map fst items) \<and>
       (\<forall>i \<in> set (map fst items). \<exists>run s. board db i = Some (run, s) \<and> active_assignment s) \<longrightarrow>
     n' = n + int (length items))"
  using assms
proof (induction items arbitrary: n db)
  case Nil
  then show ?case by (simp add: keeps_board_def)
next
  case (Cons item items)
  obtain aid now fresh where item: "item = (aid, now, fresh)" by (cases item)
  obtain failed db1 where
    one: "fail_active_assignment lib tx now fresh aid actor ''RECOVERY_ABANDONED'' db = Inr (failed, db1)"
    and rest: "fail_each lib tx actor items (if failed then n + 1 else n) db1 = Inr (n', db')"
    using Cons.prems(2) unfolding item by (auto simp: rbind_Inr_iff)
  note effect = fail_effect [OF Cons.prems(1) one]
  have inv1: "review_inv db1" using effect(1) by (simp add: keeps_board_def)
  note IH = Cons.IH [OF inv1 rest]
  have "keeps_board db db'"
    using effect(1) IH unfolding keeps_board_def by (auto intro: rtranclp_trans)
  moreover have "board db i = Some (run, s) \<and> i \<notin> set (map fst (item # items))"
    if "board db' i = Some (run, s)" "active_assignment s" for i run s
  proof -
    have open1: "board db1 i = Some (run, s)" "i \<notin> set (map fst items)" using IH that by blast+
    have "i \<noteq> aid \<and> board db i = board db1 i"
      using effect(2) open1(1) that(2)
      by (cases failed) (auto simp: active_assignment_def terminal_assignment_def split: if_split_asm)
    then show ?thesis using open1 unfolding item by simp
  qed
  moreover have "n' = n + int (length (item # items))"
    if "distinct (map fst (item # items))"
      "\<forall>i \<in> set (map fst (item # items)). \<exists>run s. board db i = Some (run, s) \<and> active_assignment s"
  proof -
    have failed using effect(2) that(2) unfolding item
      by (cases failed) (auto simp: active_assignment_def terminal_assignment_def)
    have "\<forall>i \<in> set (map fst items). \<exists>run s. board db1 i = Some (run, s) \<and> active_assignment s"
    proof
      fix i assume i: "i \<in> set (map fst items)"
      then have "i \<noteq> aid" using that(1) unfolding item by auto
      then have "board db1 i = board db i" using effect(2) \<open>failed\<close> by auto
      then show "\<exists>run s. board db1 i = Some (run, s) \<and> active_assignment s" using that(2) i by (metis list.set_intros(2) list.simps(9))
    qed
    then show ?thesis using IH that(1) \<open>failed\<close> unfolding item by simp
  qed
  ultimately show ?case by blast
qed

lemma review_step_effect:
  assumes "review_inv db" "review_step lib db db'"
  shows "keeps_board db db'"
  using assms(2)
proof cases
  case (create tx now hex fresh run attempt number role who a)
  then show ?thesis
    using inserts_inv inserts_board create_inserts assms(1) unfolding keeps_board_def by blast
next
  case (claim tx now fresh aid run role profile execution task)
  then obtain a f where m: "moves a f ''review.assignment_claimed'' db db'" "as_status a = ASSIGNED"
    "as_status (f a) = CLAIMED" using claim_moves by blast
  have "review_inv db'"
    by (rule moves_inv [OF assms(1) m(1)]) (use m in \<open>simp_all add: told_status_def\<close>)
  then show ?thesis using moves_board [OF assms(1) m(1)] m unfolding keeps_board_def by blast
next
  case (finish tx now fresh aid run execution task success review code)
  then obtain a f where m: "moves a f (if success then ''review.assignment_completed'' else ''review.assignment_failed'') db db'"
    "as_status a = CLAIMED" "as_status (f a) = (if success then COMPLETED else FAILED)"
    using finish_moves by blast
  have "review_inv db'"
    by (rule moves_inv [OF assms(1) m(1)]) (use m in \<open>simp_all add: told_status_def\<close>)
  then show ?thesis
    using moves_board [OF assms(1) m(1)] m unfolding keeps_board_def
    by (cases success) (auto simp: active_assignment_def)
next
  case (fail tx now fresh aid actor code failed)
  then show ?thesis using fail_effect(1) assms(1) by blast
next
  case (recover tx stamps run actor n)
  then show ?thesis
    using fail_each_effect assms(1) unfolding recover_active_assignments_def by (auto simp: rbind_Inr_iff)
next
  case (other rows)
  then have "board db' = board db" by (simp add: board_def)
  then show ?thesis
    using other assms(1) replay_foreign unfolding keeps_board_def review_inv_def by simp
qed

lemma review_init_inv: "review_init db \<Longrightarrow> review_inv db"
  by (auto simp: review_init_def review_inv_def board_def replay_def)

interpretation assignments: refinement review_init "review_step lib" review_inv board "\<lambda>m. m = Map.empty" board_step
  for lib
  by unfold_locales (auto dest: review_step_effect simp: review_init_inv keeps_board_def review_init_def board_def)

section \<open>The properties\<close>

text \<open>
  C5: The assignments refine the board: whatever operations, recoveries and changes by other programs
  happen, the run and the status of every assignment evolve by steps of the board, and a run has at
  most one open assignment.
\<close>

theorem assignments_refine_board:
  assumes "review_init db" "(review_step lib)\<^sup>*\<^sup>* db db'"
  shows "board_step\<^sup>*\<^sup>* Map.empty (board db') \<and>
    (\<forall>a \<in> set (rv_assignments db'). \<forall>b \<in> set (rv_assignments db').
       as_run a = as_run b \<and> active_assignment (as_status a) \<and> active_assignment (as_status b) \<longrightarrow> a = b)"
  using assignments.reachable_refines [OF assms] assignments.reachable_inv [OF assms] board_unique by metis

text \<open>
  C16: The event journal tells the truth about reviews: replaying its events gives every assignment
  the status of its row, and no other assignment a status.
\<close>

theorem journal_tells_assignments:
  assumes "review_init db" "(review_step lib)\<^sup>*\<^sup>* db db'"
  shows "replay (rv_journal db') i =
    map_option as_status (select_one (\<lambda>a. as_id a = i) (rv_assignments db'))"
proof -
  have inv: "review_inv db'" by (rule assignments.reachable_inv [OF assms])
  then have d: "distinct (map as_id (rv_assignments db'))"
    and r: "replay (rv_journal db') i = map_option snd (board db' i)"
    by (simp_all add: review_inv_def)
  show ?thesis
  proof (cases "select_one (\<lambda>a. as_id a = i) (rv_assignments db')")
    case None
    then have "i \<notin> as_id ` set (rv_assignments db')" by (auto simp: select_one_None)
    then show ?thesis using r board_None [of db' i] None by simp
  next
    case (Some a)
    then have "board db' i = Some (as_run a, as_status a)"
      using board_Some [OF d] select_one_Some [OF Some] by blast
    then show ?thesis using r Some by simp
  qed
qed

lemma sort_key_short: "length xs \<le> 1 \<Longrightarrow> sort_key k xs = xs"
  by (cases xs) auto

lemma active_assignments_short:
  assumes "review_inv db"
  shows "length (active_assignments run db) \<le> 1"
proof -
  let ?open = "filter (\<lambda>a. as_run a = run \<and> active_assignment (as_status a)) (rv_assignments db)"
  have d: "distinct ?open" using assms by (simp add: review_inv_def distinct_map)
  have same: "a = b" if "a \<in> set ?open" "b \<in> set ?open" for a b
    using that board_unique [OF assms] by simp
  have "length xs \<le> 1" if "distinct xs" "\<And>a b. a \<in> set xs \<Longrightarrow> b \<in> set xs \<Longrightarrow> a = b" for xs :: "assignment list"
    using that by (cases xs; cases "tl xs") fastforce+
  from this [OF d same] show ?thesis unfolding active_assignments_def by simp
qed

text \<open>
  C39: A recovery that returns leaves no open assignment of its run, and its result is the number of
  assignments it has failed: at most one.
\<close>

theorem recovery_closes_run:
  assumes "review_init db" "(review_step lib)\<^sup>*\<^sup>* db db1"
    and "recover_active_assignments lib tx stamps run actor db1 = Inr (n, db2)" "stamps \<noteq> []"
  shows "active_assignments run db2 = [] \<and> n = int (length (active_assignments run db1)) \<and> n \<le> 1"
proof -
  let ?ids = "active_assignments run db1"
  have inv: "review_inv db1" by (rule assignments.reachable_inv [OF assms(1,2)])
  note short = active_assignments_short [OF inv, of run]
  have loop: "fail_each lib tx actor (zip ?ids stamps) 0 db1 = Inr (n, db2)"
    using assms(3) by (auto simp: recover_active_assignments_def rbind_Inr_iff)
  have fst: "map fst (zip ?ids stamps) = ?ids"
    using short assms(4) by (cases ?ids; cases stamps) auto
  have inv2: "review_inv db2" using fail_each_effect [OF inv loop] by (simp add: keeps_board_def)
  note open_iff = board_Some [of db1] board_Some [of db2]
  have member: "i \<in> set (active_assignments run d) \<longleftrightarrow>
      (\<exists>s. board d i = Some (run, s) \<and> active_assignment s)" if "review_inv d" for d i
    using that board_Some [of d i run] by (auto simp: active_assignments_def review_inv_def)
  have none: "i \<notin> set (active_assignments run db2)" for i
  proof
    assume "i \<in> set (active_assignments run db2)"
    then obtain s where s: "board db2 i = Some (run, s)" "active_assignment s" using member [OF inv2] by blast
    then have "board db1 i = Some (run, s)" "i \<notin> set ?ids"
      using fail_each_effect [OF inv loop] unfolding fst by blast+
    then show False using member [OF inv, of i] s(2) by blast
  qed
  have "active_assignments run db2 = []" using none by (metis list.set_intros(1) neq_Nil_conv)
  moreover have "distinct ?ids" using short by (cases ?ids) auto
  then have "n = 0 + int (length (zip ?ids stamps))"
    using fail_each_effect [OF inv loop] member [OF inv] unfolding fst by blast
  moreover have "length (zip ?ids stamps) = length ?ids" by (metis fst length_map)
  ultimately show ?thesis using short by auto
qed

section \<open>A review\<close>

definition plain_lib :: review_lib where
  "plain_lib = \<lparr>rl_secret = \<lambda>_. False, rl_dumps = \<lambda>_. ''{}'', rl_digest = \<lambda>_. replicate 64 CHR ''a''\<rparr>"

definition review_db0 :: review_db where
  "review_db0 = \<lparr>rv_assignments = [],
     rv_roles = [\<lparr>ro_id = ''rv'', ro_profile = ''strict'', ro_kind = ''reviewer'', ro_mode = ''read_only'',
       ro_commit = False, ro_push = False, ro_network = False, ro_enabled = True\<rparr>],
     rv_runs = [(''run1'', ''site'')], rv_attempts = [(''at1'', Some ''run1'')],
     rv_executions = [\<lparr>re_id = ''x1'', re_run = ''run1'', re_role = ''rv'', re_profile = ''strict'',
       re_review = None, re_finished = None\<rparr>],
     rv_tasks = [''t1''], rv_reviews = [''review1''], rv_events = [], rv_journal = []\<rparr>"

definition sample_now :: string where
  "sample_now = ''2026-02-28T10:00:00.000Z''"

definition sample_aid :: string where
  "sample_aid = ''review-assignment-'' @ replicate 32 CHR ''0''"

definition got :: "'e + 'a \<Rightarrow> 'a \<Rightarrow> 'a" where
  "got r d = (case r of Inr x \<Rightarrow> x | Inl _ \<Rightarrow> d)"

definition review_created :: "assignment_error + (assignment \<times> review_db)" where
  "review_created = create_assignment plain_lib True sample_now (replicate 32 CHR ''0'') (replicate 32 CHR ''1'')
     ''run1'' ''at1'' 1 ''rv'' ''orchestrator'' review_db0"

definition review_db1 :: review_db where
  "review_db1 = (case review_created of Inr (_, db) \<Rightarrow> db | Inl _ \<Rightarrow> review_db0)"

definition review_claimed :: "assignment_error + review_db" where
  "review_claimed = claim_assignment plain_lib True sample_now (replicate 32 CHR ''2'') sample_aid ''run1'' ''rv''
     ''strict'' ''x1'' ''t1'' review_db1"

definition review_db2 :: review_db where
  "review_db2 = got review_claimed review_db0"

definition review_recovered :: "assignment_error + (int \<times> review_db)" where
  "review_recovered = recover_active_assignments plain_lib True [(sample_now, replicate 32 CHR ''3'')] ''run1''
     ''recovery'' review_db2"

definition review_db3 :: review_db where
  "review_db3 = snd (got review_recovered (0, review_db0))"

lemma got_Inr: "\<not> isl r \<Longrightarrow> r = Inr (got r d)"
  by (cases r) (simp_all add: got_def)

lemma got_pair: "\<not> isl r \<Longrightarrow> \<exists>a. r = Inr (a, case r of Inr (_, d) \<Rightarrow> d | Inl _ \<Rightarrow> x)"
  by (cases r) auto

lemma review_run_results:
  "\<exists>a. review_created = Inr (a, review_db1)" "review_claimed = Inr review_db2"
  "review_recovered = Inr (1, review_db3)"
proof -
  have ok: "\<not> isl review_created" "\<not> isl review_claimed" "\<not> isl review_recovered"
    "fst (got review_recovered (0, review_db0)) = 1" by code_simp+
  show "\<exists>a. review_created = Inr (a, review_db1)"
    unfolding review_db1_def by (rule got_pair [OF ok(1)])
  show "review_claimed = Inr review_db2" unfolding review_db2_def by (rule got_Inr [OF ok(2)])
  show "review_recovered = Inr (1, review_db3)"
    using got_Inr [OF ok(3), of "(0, review_db0)"] ok(4) unfolding review_db3_def by (metis prod.collapse)
qed

lemma review_run:
  "review_init review_db0" "(review_step plain_lib)\<^sup>*\<^sup>* review_db0 review_db2"
  "(review_step plain_lib)\<^sup>*\<^sup>* review_db0 review_db3"
proof -
  show "review_init review_db0" by (simp add: review_init_def review_db0_def)
  have 1: "review_step plain_lib review_db0 review_db1"
    using review_run_results(1) review_step.create unfolding review_created_def by blast
  have 2: "review_step plain_lib review_db1 review_db2"
    by (rule review_step.claim [OF review_run_results(2) [unfolded review_claimed_def]])
  have 3: "review_step plain_lib review_db2 review_db3"
    by (rule review_step.recover [OF review_run_results(3) [unfolded review_recovered_def]])
  show two: "(review_step plain_lib)\<^sup>*\<^sup>* review_db0 review_db2"
    using 1 2 by (rule converse_rtranclp_into_rtranclp [OF _ r_into_rtranclp])
  show "(review_step plain_lib)\<^sup>*\<^sup>* review_db0 review_db3"
    using two 3 by (rule rtranclp.rtrancl_into_rtrancl)
qed

lemma review_statuses:
  "map as_status (rv_assignments review_db2) = [CLAIMED]" "map as_status (rv_assignments review_db3) = [FAILED]"
  "active_assignments ''run1'' review_db2 = [sample_aid]"
  by code_simp+

lemma assignments_refine_board_witness:
  "board_step\<^sup>*\<^sup>* Map.empty (board review_db2) \<and> map as_status (rv_assignments review_db2) = [CLAIMED]"
  using assignments_refine_board [OF review_run(1,2)] review_statuses(1) by blast

lemma journal_tells_assignments_witness:
  "replay (rv_journal review_db3) sample_aid = Some FAILED"
proof -
  have "map_option as_status (select_one (\<lambda>a. as_id a = sample_aid) (rv_assignments review_db3)) = Some FAILED"
    by code_simp
  then show ?thesis unfolding journal_tells_assignments [OF review_run(1,3)] .
qed

lemma recovery_closes_run_witness:
  "active_assignments ''run1'' review_db2 = [sample_aid] \<and> active_assignments ''run1'' review_db3 = []"
  using recovery_closes_run [OF review_run(1,2) review_run_results(3) [unfolded review_recovered_def]]
    review_statuses(3) by simp

end
