(* ===== verification/Run_Db.thy ===== *)
theory Run_Db
  imports Orch_Db Review_Assignment
begin

text \<open>
  The tables of the run lifecycle (\<^verbatim>\<open>migrations/001\<close>, \<^verbatim>\<open>003\<close> to \<^verbatim>\<open>007\<close>)
  as \<^verbatim>\<open>hermesops-transaction.py\<close>, \<^verbatim>\<open>hermesops-integrator.py\<close> and
  \<^verbatim>\<open>hermesops-recovery.py\<close> use them. A row extends the columns the orchestrator reads of it
  (\<open>Orch_Db\<close>). The machine those programs run commands on (git, the file system, docker) is a
  parameter: \<open>host\<close> has one question per value they read and one command per effect.
\<close>

section \<open>Rows\<close>

record tx_run = run_row +
  r_base :: "string option"
  r_result :: "string option"
  r_worktree :: "string option"
  r_metadata :: "(string \<times> json) list"
  r_created :: string
  r_started :: "string option"
  r_finished :: "string option"
  r_branch :: "string option"
  r_snapshot :: "string option"
  r_owner :: "string option"
  r_submitted :: "string option"

record tx_lock = lock_row +
  l_holder :: string
  l_acquired :: string
  l_heartbeat :: string

record tx_approval = approval_row +
  ap_question :: string
  ap_options :: "string list"
  ap_decision :: "string option"
  ap_created :: string

datatype verdict = Pass | PassWithDebt | Fix | Security | Performance | Architecture | Human

record tx_integration = integration_row +
  i_review :: string
  i_review_execution :: string
  i_owner :: string
  i_verdict :: verdict
  i_base :: "string option"
  i_reviewed :: "string option"
  i_main_before :: string
  i_main_after :: string
  i_snapshot_verified :: bool
  i_review_current :: bool
  i_approval :: "string option"
  i_created :: string
  i_started :: "string option"

record project_row =
  pr_id :: string
  pr_repo :: string
  pr_enabled :: bool
  pr_config :: string

text \<open>The five artifacts of a snapshot, each a path and its digest.\<close>

record snapshot_row =
  s_id :: string
  s_project :: string
  s_run :: string
  s_base :: string
  s_bundle :: "string \<times> string"
  s_patch :: "string \<times> string"
  s_status :: "string \<times> string"
  s_refs :: "string \<times> string"
  s_manifest :: "string \<times> string"
  s_verified :: bool
  s_created :: string
  s_verified_at :: "string option"

datatype ctask_status = KQueued | KRunning | KBlocked | KCompleted | KFailed | KCancelled

record ctask_row =
  k_id :: string
  k_run :: string
  k_role :: string
  k_status :: ctask_status
  k_heartbeat :: "string option"
  k_finished :: "string option"

text \<open>A column of JSON text that \<^verbatim>\<open>json.loads\<close> refuses is \<open>None\<close>.\<close>

record agent_row =
  g_id :: string
  g_task :: string
  g_run :: string
  g_role :: string
  g_source_profile :: string
  g_profile :: string
  g_outer :: string
  g_sandbox :: "string option"
  g_mode :: string
  g_network :: bool
  g_mount :: bool
  g_isolation :: bool
  g_exit :: "int option"
  g_result :: "json option"
  g_failure :: "string option"
  g_finished :: "string option"

record reviewer_row = agent_row +
  g_review :: "string option"
  g_unchanged :: bool
  g_decision :: "integration_decision option"
  g_verdict :: "verdict option"

record result_row =
  rr_id :: string
  rr_run :: string
  rr_verdict :: verdict
  rr_details :: "json option"
  rr_created :: string

datatype recovery_outcome = Assessed | Resumed | RolledBack | Blocked | RecoveryFailed

record recovery_row =
  v_id :: string
  v_run :: string
  v_owner :: string
  v_status :: run_status
  v_decision :: recovery_decision
  v_outcome :: recovery_outcome
  v_failure :: bool
  v_created :: string
  v_finished :: "string option"

text \<open>
  \<open>td_reviews\<close> holds the reviewer assignments and, with them, the table \<^verbatim>\<open>events\<close> and the event
  journal.
\<close>

record txdb =
  td_projects :: "project_row list"
  td_runs :: "tx_run list"
  td_locks :: "tx_lock list"
  td_snapshots :: "snapshot_row list"
  td_approvals :: "tx_approval list"
  td_integrations :: "tx_integration list"
  td_recoveries :: "recovery_row list"
  td_tasks :: "ctask_row list"
  td_workers :: "agent_row list"
  td_reviewers :: "reviewer_row list"
  td_results :: "result_row list"
  td_attempts :: "attempt_row list"
  td_otasks :: "task_row list"
  td_objectives :: "objective_row list"
  td_planners :: "execution_row list"
  td_reviews :: review_db

section \<open>The machine\<close>

text \<open>
  What the programs ask: a \<^verbatim>\<open>git\<close> command that prints a value, a file to hash, a directory to look
  at. The answer \<open>None\<close> is a command that fails, or a \<^verbatim>\<open>False\<close>; \<open>worktrees\<close> are the lines of
  \<^verbatim>\<open>git worktree list --porcelain\<close>.
\<close>

datatype question =
    IsDir string
  | IsFile string
  | PathExists string
  | FileSha256 string
  | DefaultBranch string
  | ShowTopLevel string
  | StatusPorcelain string
  | CurrentBranch string
  | RevParseHead string
  | ShowRefHeads string string
  | IsAncestor string string string
  | BundleVerify string string
  | DockerPresent

datatype command =
    MakeDirectory string
  | BundleCreate string string
  | WriteDiff string string
  | WriteStatus string string
  | WriteRefs string string
  | WriteManifest string
  | WorktreeAdd string string string string
  | WorktreeLock string string string
  | WorktreeUnlock string string
  | WorktreeRemove string string
  | WorktreePrune string
  | DeleteBranch string string
  | MergeFastForward string string
  | RemoveTree string
  | RemoveDirectory string
  | RemoveContainer string
  | RemoveNested string

text \<open>\<open>h_inspect\<close> is the document \<^verbatim>\<open>docker container inspect\<close> prints, on the host or in the sandbox engine.\<close>

datatype engine = OnHost | Nested

record 'w host =
  h_ask :: "'w \<Rightarrow> question \<Rightarrow> string option"
  h_worktrees :: "'w \<Rightarrow> string \<Rightarrow> string list option"
  h_inspect :: "'w \<Rightarrow> engine \<Rightarrow> string \<Rightarrow> json option"
  h_run :: "'w \<Rightarrow> command \<Rightarrow> bool \<times> 'w"
  h_resolve :: "string \<Rightarrow> string"
  h_root :: string

text \<open>\<^verbatim>\<open>git(..., check=False)\<close>: a command that fails prints nothing.\<close>

definition ask_text :: "'w host \<Rightarrow> 'w \<Rightarrow> question \<Rightarrow> string" where
  "ask_text H w q = (case h_ask H w q of None \<Rightarrow> [] | Some s \<Rightarrow> s)"

definition holds :: "'w host \<Rightarrow> 'w \<Rightarrow> question \<Rightarrow> bool" where
  "holds H w q \<longleftrightarrow> h_ask H w q \<noteq> None"

section \<open>Paths\<close>

text \<open>\<^verbatim>\<open>p / q\<close>, \<^verbatim>\<open>p.parent\<close> of an absolute path and \<^verbatim>\<open>p.relative_to(root)\<close> without an error.\<close>

definition path_join :: "string \<Rightarrow> string \<Rightarrow> string" where
  "path_join p q = (if prefix ''/'' q then q else p @ ''/'' @ q)"

definition parent_dir :: "string \<Rightarrow> string" where
  "parent_dir p = rev (tl (dropWhile (\<lambda>c. c \<noteq> CHR ''/'') (rev p)))"

definition path_under :: "string \<Rightarrow> string \<Rightarrow> bool" where
  "path_under p root \<longleftrightarrow> p = root \<or> root = ''/'' \<or> prefix (root @ ''/'') p"

definition inside :: "'w host \<Rightarrow> string \<Rightarrow> string \<Rightarrow> bool" where
  "inside H p root \<longleftrightarrow> path_under (h_resolve H p) (h_resolve H root)"

lemma parent_dir_shorter: "p \<noteq> [] \<Longrightarrow> length (parent_dir p) < length p"
proof -
  assume "p \<noteq> []"
  then have "length (dropWhile (\<lambda>c. c \<noteq> CHR ''/'') (rev p)) \<le> length p" "0 < length p"
    using length_dropWhile_le [of _ "rev p"] by auto
  then show ?thesis unfolding parent_dir_def length_rev length_tl by linarith
qed

section \<open>Errors and operations\<close>

datatype run_error =
    CommandFailed
  | UnknownProject
  | ConfigurationAbsent
  | InvalidMetadata
  | ProjectDisabled
  | ProjectLocked
  | PathEscapes
  | RepositoryAbsent
  | UnexpectedTopLevel
  | RepositoryDirty
  | RepositoryBranch
  | SnapshotExists
  | SnapshotNotFound
  | ArtifactAbsent
  | HashMismatch
  | UnknownRun
  | RunConflict
  | WrongStatus run_status
  | LockAbsent
  | WorktreeAbsent
  | WorktreeNotRegistered
  | WorktreeBranch
  | WorktreeDirty
  | NoCommit
  | NotDescendant
  | ReviewAbsent
  | SeveralReviews
  | InconsistentReview
  | ReviewRefused string
  | MainMoved
  | ResultMismatch
  | OwnerMismatch
  | SeveralLinks
  | DuplicateIntegration
  | RunChanged
  | UnsupportedAction
  | IntegrationAbsent
  | DecisionChanged
  | NotStale
  | HeartbeatAbsent
  | LockedByOther
  | CannotResume
  | CloneKind
  | AssignmentError assignment_error
  | UnknownApproval
  | ApprovalNotPending
  | DecisionNotAllowed

text \<open>
  An operation takes the machine and the database and returns them with its result: what it did
  before an error stays done. \<open>on_db\<close> is a transaction, which leaves no trace when it raises.
\<close>

type_synonym ('w, 'a) op = "'w \<times> txdb \<Rightarrow> ('w \<times> txdb) \<times> (run_error + 'a)"

definition give :: "'a \<Rightarrow> ('w, 'a) op" where
  "give x s = (s, Inr x)"

definition raise :: "run_error \<Rightarrow> ('w, 'a) op" where
  "raise e s = (s, Inl e)"

definition obind :: "('w, 'a) op \<Rightarrow> ('a \<Rightarrow> ('w, 'b) op) \<Rightarrow> ('w, 'b) op" where
  "obind m f s = (case m s of (s', Inl e) \<Rightarrow> (s', Inl e) | (s', Inr x) \<Rightarrow> f x s')"

definition attempt :: "('w, 'a) op \<Rightarrow> (run_error \<Rightarrow> ('w, 'a) op) \<Rightarrow> ('w, 'a) op" where
  "attempt m f s = (case m s of (s', Inl e) \<Rightarrow> f e s' | r \<Rightarrow> r)"

definition check :: "bool \<Rightarrow> run_error \<Rightarrow> ('w, unit) op" where
  "check b e = (if b then give () else raise e)"

definition look :: "('w \<Rightarrow> txdb \<Rightarrow> run_error + 'a) \<Rightarrow> ('w, 'a) op" where
  "look f s = (s, f (fst s) (snd s))"

definition on_db :: "('w \<Rightarrow> txdb \<Rightarrow> run_error + ('a \<times> txdb)) \<Rightarrow> ('w, 'a) op" where
  "on_db f s = (case f (fst s) (snd s) of Inl e \<Rightarrow> (s, Inl e) | Inr (x, db) \<Rightarrow> ((fst s, db), Inr x))"

text \<open>A command whose failure raises, and one whose failure is ignored.\<close>

definition run_checked :: "'w host \<Rightarrow> command \<Rightarrow> ('w, unit) op" where
  "run_checked H c s =
     (case h_run H (fst s) c of (ok, w) \<Rightarrow> ((w, snd s), if ok then Inr () else Inl CommandFailed))"

definition run_ignored :: "'w host \<Rightarrow> command \<Rightarrow> ('w, unit) op" where
  "run_ignored H c s = (case h_run H (fst s) c of (_, w) \<Rightarrow> ((w, snd s), Inr ()))"

definition ask :: "'w host \<Rightarrow> question \<Rightarrow> ('w, string) op" where
  "ask H q = look (\<lambda>w _. case h_ask H w q of None \<Rightarrow> Inl CommandFailed | Some s \<Rightarrow> Inr s)"

definition if_op :: "bool \<Rightarrow> ('w, unit) op \<Rightarrow> ('w, unit) op" where
  "if_op b m = (if b then m else give ())"

section \<open>Queries shared by the programs\<close>

definition tx_run_with :: "txdb \<Rightarrow> string \<Rightarrow> tx_run option" where
  "tx_run_with db rid = select_one (\<lambda>r. r_id r = rid) (td_runs db)"

definition project_with :: "txdb \<Rightarrow> string \<Rightarrow> project_row option" where
  "project_with db pid = select_one (\<lambda>p. pr_id p = pid) (td_projects db)"

text \<open>\<^verbatim>\<open>get_run\<close>: the run joined with its project.\<close>

definition get_run :: "txdb \<Rightarrow> string \<Rightarrow> run_error + (tx_run \<times> project_row)" where
  "get_run db rid =
     (case tx_run_with db rid of
        None \<Rightarrow> Inl UnknownRun
      | Some r \<Rightarrow>
          (case project_with db (r_project r) of None \<Rightarrow> Inl UnknownRun | Some p \<Rightarrow> Inr (r, p)))"

definition run_lock :: "txdb \<Rightarrow> string \<Rightarrow> tx_lock option" where
  "run_lock db rid = select_one (\<lambda>l. l_run l = rid) (td_locks db)"

definition project_lock :: "txdb \<Rightarrow> string \<Rightarrow> tx_lock option" where
  "project_lock db pid = select_one (\<lambda>l. l_project l = pid) (td_locks db)"

definition run_snapshot :: "txdb \<Rightarrow> string \<Rightarrow> snapshot_row option" where
  "run_snapshot db rid = select_one (\<lambda>s. s_run s = rid) (td_snapshots db)"

definition text_of :: "string option \<Rightarrow> string" where
  "text_of v = (case v of None \<Rightarrow> [] | Some s \<Rightarrow> s)"

section \<open>Statements shared by the programs\<close>

definition set_runs :: "(tx_run \<Rightarrow> bool) \<Rightarrow> (tx_run \<Rightarrow> tx_run) \<Rightarrow> txdb \<Rightarrow> txdb" where
  "set_runs c f db = db\<lparr>td_runs := update_where c f (td_runs db)\<rparr>"

definition touch_lock :: "string \<Rightarrow> string \<Rightarrow> txdb \<Rightarrow> txdb" where
  "touch_lock rid now db =
     db\<lparr>td_locks := update_where (\<lambda>l. l_run l = rid) (\<lambda>l. l\<lparr>l_heartbeat := now\<rparr>) (td_locks db)\<rparr>"

definition drop_lock :: "string \<Rightarrow> txdb \<Rightarrow> txdb" where
  "drop_lock rid db = db\<lparr>td_locks := filter (\<lambda>l. l_run l \<noteq> rid) (td_locks db)\<rparr>"

definition cancel_approvals :: "string \<Rightarrow> string \<Rightarrow> txdb \<Rightarrow> txdb" where
  "cancel_approvals rid now db =
     db\<lparr>td_approvals := update_where (\<lambda>a. ap_run a = rid \<and> ap_status a = APPending)
          (\<lambda>a. a\<lparr>ap_status := APCancelled, ap_resolved := Some now\<rparr>) (td_approvals db)\<rparr>"

definition record_event ::
  "string \<Rightarrow> string \<Rightarrow> string \<Rightarrow> string \<Rightarrow> (string \<times> json) list \<Rightarrow> string \<Rightarrow> txdb \<Rightarrow> txdb" where
  "record_event project rid kind severity payload now db =
     db\<lparr>td_reviews := (td_reviews db)\<lparr>rv_events := rv_events (td_reviews db) @
       [\<lparr>le_project = project, le_run = rid, le_task = None, le_type = kind, le_severity = severity,
         le_payload = payload, le_created = now\<rparr>]\<rparr>\<rparr>"

section \<open>Reasoning about operations\<close>

named_theorems op_results \<open>what it means that an operation returns\<close>
named_theorems op_keeps \<open>what an operation keeps of the machine or of the database\<close>

lemma obind_Inr [op_results]:
  "obind m f s = (s', Inr y) \<longleftrightarrow> (\<exists>s1 x. m s = (s1, Inr x) \<and> f x s1 = (s', Inr y))"
  by (cases "m s"; cases "snd (m s)") (auto simp: obind_def)

lemma op_returns [op_results]:
  "give x s = (s', Inr y) \<longleftrightarrow> s' = s \<and> y = x"
  "raise e s = (s', Inr z) \<longleftrightarrow> False"
  "check b e s = (s', Inr u) \<longleftrightarrow> b \<and> s' = s"
  "look g s = (s', Inr z) \<longleftrightarrow> s' = s \<and> g (fst s) (snd s) = Inr z"
  "on_db h s = (s', Inr z) \<longleftrightarrow> (\<exists>db'. h (fst s) (snd s) = Inr (z, db') \<and> s' = (fst s, db'))"
  "ask H q s = (s', Inr t) \<longleftrightarrow> s' = s \<and> h_ask H (fst s) q = Some t"
  by (auto simp: give_def raise_def check_def look_def on_db_def ask_def
      split: sum.split_asm option.split_asm if_split_asm)

lemma attempt_Inr [op_results]:
  "attempt m f s = (s', Inr y) \<longleftrightarrow>
     m s = (s', Inr y) \<or> (\<exists>s1 e. m s = (s1, Inl e) \<and> f e s1 = (s', Inr y))"
  by (cases "m s"; cases "snd (m s)") (auto simp: attempt_def)

lemma run_checked_Inr [op_results]:
  "run_checked H c s = (s', Inr u) \<longleftrightarrow> fst (h_run H (fst s) c) \<and> s' = (snd (h_run H (fst s) c), snd s)"
  by (auto simp: run_checked_def split: prod.splits if_split_asm)

text \<open>Whether it returns or raises, an operation keeps \<open>Q\<close> of the machine, or \<open>R\<close> of the database.\<close>

definition keeps_world :: "('w \<Rightarrow> bool) \<Rightarrow> ('w, 'a) op \<Rightarrow> bool" where
  "keeps_world Q m \<longleftrightarrow> (\<forall>s. Q (fst s) \<longrightarrow> Q (fst (fst (m s))))"

definition keeps_db :: "(txdb \<Rightarrow> bool) \<Rightarrow> ('w, 'a) op \<Rightarrow> bool" where
  "keeps_db R m \<longleftrightarrow> (\<forall>s. R (snd s) \<longrightarrow> R (snd (fst (m s))))"

lemma keeps_worldD: "keeps_world Q m \<Longrightarrow> m s = (s', r) \<Longrightarrow> Q (fst s) \<Longrightarrow> Q (fst s')"
  by (metis fst_conv keeps_world_def)

lemma keeps_dbD: "keeps_db R m \<Longrightarrow> m s = (s', r) \<Longrightarrow> R (snd s) \<Longrightarrow> R (snd s')"
  by (metis fst_conv keeps_db_def)

lemma keeps_obind [op_keeps]:
  "keeps_world Q m \<Longrightarrow> (\<And>x. keeps_world Q (f x)) \<Longrightarrow> keeps_world Q (obind m f)"
  "keeps_db R m \<Longrightarrow> (\<And>x. keeps_db R (f x)) \<Longrightarrow> keeps_db R (obind m f)"
  by (auto simp: keeps_world_def keeps_db_def obind_def split: prod.split sum.split) (metis fst_conv snd_conv)+

lemma keeps_attempt [op_keeps]:
  "keeps_world Q m \<Longrightarrow> (\<And>e. keeps_world Q (g e)) \<Longrightarrow> keeps_world Q (attempt m g)"
  "keeps_db R m \<Longrightarrow> (\<And>e. keeps_db R (g e)) \<Longrightarrow> keeps_db R (attempt m g)"
  by (auto simp: keeps_world_def keeps_db_def attempt_def split: prod.split sum.split) (metis fst_conv snd_conv)+

lemma keeps_simple [op_keeps]:
  "keeps_world Q (give x)" "keeps_db R (give x)" "keeps_world Q (raise e)" "keeps_db R (raise e)"
  "keeps_world Q (check b e)" "keeps_db R (check b e)" "keeps_world Q (look g)" "keeps_db R (look g)"
  "keeps_world Q (ask H q)" "keeps_db R (ask H q)" "keeps_world Q (on_db h)"
  "keeps_db R (run_checked H c)" "keeps_db R (run_ignored H c)"
  by (auto simp: keeps_world_def keeps_db_def give_def raise_def check_def look_def ask_def on_db_def
      run_checked_def run_ignored_def split: prod.split sum.split)

lemma keeps_on_db: "(\<And>w db x db'. R db \<Longrightarrow> h w db = Inr (x, db') \<Longrightarrow> R db') \<Longrightarrow> keeps_db R (on_db h)"
  by (auto simp: keeps_db_def on_db_def split: sum.split)

lemma keeps_command:
  "(\<And>w. Q w \<Longrightarrow> Q (snd (h_run H w c))) \<Longrightarrow> keeps_world Q (run_checked H c)"
  "(\<And>w. Q w \<Longrightarrow> Q (snd (h_run H w c))) \<Longrightarrow> keeps_world Q (run_ignored H c)"
  by (auto simp: keeps_world_def run_checked_def run_ignored_def split: prod.split) (metis snd_conv)+

lemma keeps_if [op_keeps]:
  "(b \<Longrightarrow> keeps_world Q m) \<Longrightarrow> (\<not> b \<Longrightarrow> keeps_world Q m') \<Longrightarrow> keeps_world Q (if b then m else m')"
  "(b \<Longrightarrow> keeps_db R m) \<Longrightarrow> (\<not> b \<Longrightarrow> keeps_db R m') \<Longrightarrow> keeps_db R (if b then m else m')"
  by simp_all

text \<open>An operation that looks at the state to choose between two.\<close>

lemma if_op_apply: "if_op b m s = (if b then m s else give () s)"
  by (simp add: if_op_def)

lemma keeps_choice:
  "(\<And>s. m s = (if b s then m1 s else m2 s)) \<Longrightarrow> keeps_world Q m1 \<Longrightarrow> keeps_world Q m2 \<Longrightarrow> keeps_world Q m"
  "(\<And>s. m s = (if b s then m1 s else m2 s)) \<Longrightarrow> keeps_db R m1 \<Longrightarrow> keeps_db R m2 \<Longrightarrow> keeps_db R m"
  by (auto simp: keeps_world_def keeps_db_def)

lemma keeps_if_op [op_keeps]:
  "keeps_world Q m \<Longrightarrow> keeps_world Q (if_op b m)" "keeps_db R m \<Longrightarrow> keeps_db R (if_op b m)"
  by (auto simp: keeps_world_def keeps_db_def if_op_def give_def)

text \<open>
  No command but a fast-forward moves the head of a repository, and none but \<^verbatim>\<open>worktree add\<close> makes
  one: a set of machines is \<open>quiet\<close> when the other commands stay in it.
\<close>

fun quiet_command :: "command \<Rightarrow> bool" where
  "quiet_command (MergeFastForward _ _) = False"
| "quiet_command (WorktreeAdd _ _ _ _) = False"
| "quiet_command _ = True"

definition quiet :: "'w host \<Rightarrow> ('w \<Rightarrow> bool) \<Rightarrow> bool" where
  "quiet H Q \<longleftrightarrow> (\<forall>w c. quiet_command c \<longrightarrow> Q w \<longrightarrow> Q (snd (h_run H w c)))"

lemma keeps_quiet [op_keeps]:
  "quiet H Q \<Longrightarrow> quiet_command c \<Longrightarrow> keeps_world Q (run_checked H c)"
  "quiet H Q \<Longrightarrow> quiet_command c \<Longrightarrow> keeps_world Q (run_ignored H c)"
  by (auto simp: quiet_def intro!: keeps_command)

section \<open>Rows found by their key\<close>

lemma select_one_update:
  "(\<And>r. key (f r) = key r) \<Longrightarrow>
     select_one (\<lambda>r. key r = k) (update_where c f rows) =
       map_option (\<lambda>r. if c r then f r else r) (select_one (\<lambda>r. key r = k) rows)"
  by (induction rows) (auto simp: select_one_def update_where_def)

lemma tx_run_with_set_runs:
  "(\<And>r. r_id (f r) = r_id r) \<Longrightarrow>
     tx_run_with (set_runs c f db) rid = map_option (\<lambda>r. if c r then f r else r) (tx_run_with db rid)"
  by (simp add: tx_run_with_def set_runs_def select_one_update)

text \<open>What the statements leave alone.\<close>

lemma statement_frames [simp]:
  "td_projects (set_runs c f db) = td_projects db" "td_locks (set_runs c f db) = td_locks db"
  "td_snapshots (set_runs c f db) = td_snapshots db" "td_approvals (set_runs c f db) = td_approvals db"
  "td_integrations (set_runs c f db) = td_integrations db" "td_recoveries (set_runs c f db) = td_recoveries db"
  "td_runs (touch_lock rid now db) = td_runs db" "td_projects (touch_lock rid now db) = td_projects db"
  "td_snapshots (touch_lock rid now db) = td_snapshots db" "td_approvals (touch_lock rid now db) = td_approvals db"
  "td_integrations (touch_lock rid now db) = td_integrations db"
  "td_runs (drop_lock rid db) = td_runs db" "td_projects (drop_lock rid db) = td_projects db"
  "td_approvals (drop_lock rid db) = td_approvals db" "td_integrations (drop_lock rid db) = td_integrations db"
  "td_runs (cancel_approvals rid now db) = td_runs db" "td_locks (cancel_approvals rid now db) = td_locks db"
  "td_projects (cancel_approvals rid now db) = td_projects db"
  "td_integrations (cancel_approvals rid now db) = td_integrations db"
  by (simp_all add: set_runs_def touch_lock_def drop_lock_def cancel_approvals_def)

lemma record_event_frames [simp]:
  "td_runs (record_event p rid k sev pl now db) = td_runs db"
  "td_locks (record_event p rid k sev pl now db) = td_locks db"
  "td_projects (record_event p rid k sev pl now db) = td_projects db"
  "td_snapshots (record_event p rid k sev pl now db) = td_snapshots db"
  "td_approvals (record_event p rid k sev pl now db) = td_approvals db"
  "td_integrations (record_event p rid k sev pl now db) = td_integrations db"
  "td_recoveries (record_event p rid k sev pl now db) = td_recoveries db"
  by (simp_all add: record_event_def)

text \<open>The runs and projects of the locks.\<close>

definition lock_keys :: "txdb \<Rightarrow> (string \<times> string) list" where
  "lock_keys db = map (\<lambda>l. (l_run l, l_project l)) (td_locks db)"

lemma lock_keys_statements [simp]:
  "lock_keys (touch_lock rid now db) = lock_keys db" "lock_keys (set_runs c f db) = lock_keys db"
  "lock_keys (cancel_approvals rid now db) = lock_keys db"
  "lock_keys (record_event p rid k sev pl now db) = lock_keys db"
  "lock_keys (drop_lock rid db) = filter (\<lambda>k. fst k \<noteq> rid) (lock_keys db)"
  by (auto simp: lock_keys_def touch_lock_def drop_lock_def update_where_def filter_map o_def intro!: map_cong)

section \<open>What the orchestrator sees\<close>

text \<open>The orchestrator's database with the rows of the run lifecycle as it reads them.\<close>

definition orch_view :: "txdb \<Rightarrow> db \<Rightarrow> db" where
  "orch_view td db =
     db\<lparr>db_runs := map run_row.truncate (td_runs td),
        db_locks := map lock_row.truncate (td_locks td),
        db_approvals := map approval_row.truncate (td_approvals td),
        db_integrations := map integration_row.truncate (td_integrations td)\<rparr>"

end
