(* ===== verification/Run_Transaction.thy ===== *)
theory Run_Transaction
  imports Run_Db
begin

text \<open>
  \<^verbatim>\<open>scripts/hermesops-transaction.py\<close>: a run is a transaction on a git repository, with a
  snapshot, a worktree of its own and the lock of its project. Each command is the sequence of its
  database transactions and of the commands it runs on the machine between them; the transactions
  are definitions of their own. The times and identifiers are arguments.
\<close>

section \<open>Projects and repositories\<close>

definition backups_root :: "'w host \<Rightarrow> string" where
  "backups_root H = path_join (path_join (h_root H) ''backups'') ''transactions''"

definition worktrees_root :: "'w host \<Rightarrow> string" where
  "worktrees_root H = path_join (path_join (h_root H) ''workspaces'') ''.hermesops-worktrees''"

text \<open>\<^verbatim>\<open>load_project\<close>: the row and the default branch of its configuration.\<close>

definition load_project :: "'w host \<Rightarrow> 'w \<Rightarrow> txdb \<Rightarrow> string \<Rightarrow> run_error + (project_row \<times> string)" where
  "load_project H w db pid =
     (case project_with db pid of
        None \<Rightarrow> Inl UnknownProject
      | Some p \<Rightarrow>
          rbind (require (holds H w (IsFile (pr_config p))) ConfigurationAbsent) (\<lambda>_.
          (case h_ask H w (DefaultBranch (pr_config p)) of
             None \<Rightarrow> Inl ConfigurationAbsent
           | Some branch \<Rightarrow> Inr (p, branch))))"

definition asked :: "'w host \<Rightarrow> 'w \<Rightarrow> question \<Rightarrow> run_error + string" where
  "asked H w q = (case h_ask H w q of None \<Rightarrow> Inl CommandFailed | Some s \<Rightarrow> Inr s)"

text \<open>\<^verbatim>\<open>validate_repository\<close>: a clean repository on its default branch; its path and its commit.\<close>

definition validate_repository ::
  "'w host \<Rightarrow> 'w \<Rightarrow> project_row \<Rightarrow> string \<Rightarrow> run_error + (string \<times> string)" where
  "validate_repository H w project default_branch =
     (let repository = h_resolve H (pr_repo project) in
      rbind (require (inside H repository (path_join (h_root H) ''workspaces'')) PathEscapes) (\<lambda>_.
      rbind (require (holds H w (IsDir repository)) RepositoryAbsent) (\<lambda>_.
      rbind (asked H w (ShowTopLevel repository)) (\<lambda>top.
      rbind (require (h_resolve H top = repository) UnexpectedTopLevel) (\<lambda>_.
      rbind (asked H w (StatusPorcelain repository)) (\<lambda>status.
      rbind (require (status = []) RepositoryDirty) (\<lambda>_.
      rbind (asked H w (CurrentBranch repository)) (\<lambda>branch.
      rbind (require (branch = default_branch) RepositoryBranch) (\<lambda>_.
      rbind (asked H w (RevParseHead repository)) (\<lambda>base.
        Inr (repository, base)))))))))))"

definition worktree_registered :: "'w host \<Rightarrow> 'w \<Rightarrow> string \<Rightarrow> string \<Rightarrow> run_error + bool" where
  "worktree_registered H w repository worktree =
     (case h_worktrees H w repository of
        None \<Rightarrow> Inl CommandFailed
      | Some listing \<Rightarrow> Inr (list_ex (\<lambda>l. l = ''worktree '' @ h_resolve H worktree) listing))"

section \<open>Worktrees\<close>

text \<open>The empty directories above the worktree are removed, up to the root of the worktrees.\<close>

function prune_parents :: "'w host \<Rightarrow> string \<Rightarrow> ('w, unit) op" where
  "prune_parents H path s =
     (if path = [] \<or> path = worktrees_root H \<or> \<not> holds H (fst s) (PathExists path) then (s, Inr ())
      else (case h_run H (fst s) (RemoveDirectory path) of
              (False, w) \<Rightarrow> ((w, snd s), Inr ())
            | (True, w) \<Rightarrow> prune_parents H (parent_dir path) (w, snd s)))"
  by pat_completeness auto
termination
  by (relation "measure (\<lambda>(H, path, s). length path)") (auto simp: parent_dir_shorter)

declare prune_parents.simps [simp del]

definition remove_branch :: "'w host \<Rightarrow> string \<Rightarrow> string \<Rightarrow> ('w, unit) op" where
  "remove_branch H repository branch s =
     if_op (holds H (fst s) (ShowRefHeads repository branch)) (run_checked H (DeleteBranch repository branch)) s"

definition remove_worktree :: "'w host \<Rightarrow> string \<Rightarrow> string \<Rightarrow> bool \<Rightarrow> ('w, unit) op" where
  "remove_worktree H repository worktree registered s =
     (if registered
      then obind (run_ignored H (WorktreeUnlock repository worktree)) (\<lambda>_.
             run_checked H (WorktreeRemove repository worktree)) s
      else if_op (holds H (fst s) (PathExists worktree)) (run_checked H (RemoveTree worktree)) s)"

definition cleanup_worktree :: "'w host \<Rightarrow> string \<Rightarrow> string \<Rightarrow> string \<Rightarrow> ('w, unit) op" where
  "cleanup_worktree H repository worktree branch =
     obind (look (\<lambda>w _. worktree_registered H w repository worktree)) (\<lambda>registered.
     obind (remove_worktree H repository worktree registered) (\<lambda>_.
     obind (run_checked H (WorktreePrune repository)) (\<lambda>_.
     obind (remove_branch H repository branch) (\<lambda>_.
       prune_parents H (parent_dir worktree)))))"

section \<open>Snapshots\<close>

definition artifacts :: "snapshot_row \<Rightarrow> (string \<times> string) list" where
  "artifacts s = [s_bundle s, s_patch s, s_status s, s_refs s, s_manifest s]"

definition create_snapshot ::
  "'w host \<Rightarrow> string \<Rightarrow> string \<Rightarrow> string \<Rightarrow> string \<Rightarrow> string \<Rightarrow> string \<Rightarrow> ('w, snapshot_row) op" where
  "create_snapshot H now repository project rid sid base =
     (let directory = path_join (path_join (backups_root H) project) rid;
          bundle = path_join directory ''repository.bundle'';
          patch = path_join directory ''working-tree.patch'';
          status = path_join directory ''status.porcelain-v2'';
          refs = path_join directory ''refs.txt'';
          manifest = path_join directory ''manifest.json'' in
      obind (look (\<lambda>w _. require (\<not> holds H w (PathExists directory)) SnapshotExists)) (\<lambda>_.
      obind (run_checked H (MakeDirectory directory)) (\<lambda>_.
      obind (run_checked H (BundleCreate repository bundle)) (\<lambda>_.
      obind (ask H (BundleVerify repository bundle)) (\<lambda>_.
      obind (run_checked H (WriteDiff repository patch)) (\<lambda>_.
      obind (run_checked H (WriteStatus repository status)) (\<lambda>_.
      obind (run_checked H (WriteRefs repository refs)) (\<lambda>_.
      obind (ask H (FileSha256 bundle)) (\<lambda>bundle_sha.
      obind (ask H (FileSha256 patch)) (\<lambda>patch_sha.
      obind (ask H (FileSha256 status)) (\<lambda>status_sha.
      obind (ask H (FileSha256 refs)) (\<lambda>refs_sha.
      obind (run_checked H (WriteManifest manifest)) (\<lambda>_.
      obind (ask H (FileSha256 manifest)) (\<lambda>manifest_sha.
        give \<lparr>s_id = sid, s_project = project, s_run = rid, s_base = base,
              s_bundle = (bundle, bundle_sha), s_patch = (patch, patch_sha), s_status = (status, status_sha),
              s_refs = (refs, refs_sha), s_manifest = (manifest, manifest_sha),
              s_verified = False, s_created = now, s_verified_at = None\<rparr>))))))))))))))"

text \<open>\<^verbatim>\<open>verify_snapshot\<close>, inside the transaction of its caller.\<close>

fun artifacts_intact :: "'w host \<Rightarrow> 'w \<Rightarrow> (string \<times> string) list \<Rightarrow> run_error + unit" where
  "artifacts_intact H w [] = Inr ()"
| "artifacts_intact H w ((path, expected) # rest) =
     rbind (require (holds H w (IsFile path)) ArtifactAbsent) (\<lambda>_.
     rbind (asked H w (FileSha256 path)) (\<lambda>actual.
     rbind (require (actual = expected) HashMismatch) (\<lambda>_.
       artifacts_intact H w rest)))"

definition verify_snapshot :: "'w host \<Rightarrow> string \<Rightarrow> string \<Rightarrow> 'w \<Rightarrow> txdb \<Rightarrow> run_error + (snapshot_row \<times> txdb)" where
  "verify_snapshot H now rid w db =
     (case run_snapshot db rid of
        None \<Rightarrow> Inl SnapshotNotFound
      | Some s \<Rightarrow>
          (case project_with db (s_project s) of
             None \<Rightarrow> Inl SnapshotNotFound
           | Some p \<Rightarrow>
               rbind (artifacts_intact H w (artifacts s)) (\<lambda>_.
               rbind (asked H w (BundleVerify (pr_repo p) (fst (s_bundle s)))) (\<lambda>_.
                 Inr (s, db\<lparr>td_snapshots := update_where (\<lambda>s. s_run s = rid)
                   (\<lambda>s. s\<lparr>s_verified := True, s_verified_at := Some now\<rparr>) (td_snapshots db)\<rparr>)))))"

section \<open>Begin\<close>

text \<open>
  \<^verbatim>\<open>command_begin\<close>, first transaction: the project must be free, its repository clean; the run
  and the lock are inserted together. The result is the repository, the base commit and the path of
  the worktree.
\<close>

definition new_run :: "string \<Rightarrow> string \<Rightarrow> string \<Rightarrow> string \<Rightarrow> string \<Rightarrow> string \<Rightarrow> (string \<times> json) list \<Rightarrow> string \<Rightarrow> tx_run" where
  "new_run rid sid project base worktree owner metadata now =
     \<lparr>r_id = rid, r_project = project, r_status = RSnapshotting, r_recovery = None, r_heartbeat = Some now,
      r_base = Some base, r_result = None, r_worktree = Some worktree, r_metadata = metadata,
      r_created = now, r_started = Some now, r_finished = None,
      r_branch = Some (''hermesops/run/'' @ rid), r_snapshot = Some sid, r_owner = Some owner, r_submitted = None\<rparr>"

definition begin_reserve ::
  "'w host \<Rightarrow> string \<Rightarrow> string \<Rightarrow> string \<Rightarrow> string \<Rightarrow> string \<Rightarrow> (string \<times> json) list \<Rightarrow> 'w \<Rightarrow> txdb \<Rightarrow>
     run_error + ((string \<times> string \<times> string) \<times> txdb)" where
  "begin_reserve H now rid sid project owner metadata w db =
     rbind (load_project H w db project) (\<lambda>(p, default_branch).
     rbind (require (pr_enabled p) ProjectDisabled) (\<lambda>_.
     rbind (require (project_lock db project = None) ProjectLocked) (\<lambda>_.
     rbind (validate_repository H w p default_branch) (\<lambda>(repository, base).
     (let worktree = h_resolve H (path_join (path_join (worktrees_root H) project) rid) in
      rbind (require (inside H worktree (worktrees_root H)) PathEscapes) (\<lambda>_.
      rbind (require (tx_run_with db rid = None \<and> run_lock db rid = None) RunConflict) (\<lambda>_.
        Inr ((repository, base, worktree),
          record_event project rid ''TRANSACTION_RESERVED'' ''INFO''
            [(''owner'', JStr owner), (''base_commit'', JStr base)] now
            (db\<lparr>td_runs := td_runs db @ [new_run rid sid project base worktree owner metadata now],
                td_locks := td_locks db @ [\<lparr>l_project = project, l_run = rid, l_holder = owner,
                   l_acquired = now, l_heartbeat = now\<rparr>]\<rparr>)))))))))"

text \<open>Second transaction: the snapshot row and the status RUNNING.\<close>

definition begin_start :: "string \<Rightarrow> string \<Rightarrow> string \<Rightarrow> string \<Rightarrow> snapshot_row \<Rightarrow> txdb \<Rightarrow> run_error + (unit \<times> txdb)" where
  "begin_start now project rid worktree snapshot db =
     rbind (require (list_all (\<lambda>s. s_id s \<noteq> s_id snapshot \<and> s_run s \<noteq> rid \<and>
        list_all2 (\<lambda>a b. fst a \<noteq> fst b) (artifacts s) (artifacts snapshot)) (td_snapshots db)) RunConflict) (\<lambda>_.
       Inr ((), record_event project rid ''TRANSACTION_STARTED'' ''INFO''
         [(''worktree'', JStr worktree), (''branch'', JStr (''hermesops/run/'' @ rid)),
          (''snapshot_id'', JStr (s_id snapshot))] now
         (touch_lock rid now
           (set_runs (\<lambda>r. r_id r = rid) (\<lambda>r. r\<lparr>r_status := RRunning, r_heartbeat := Some now\<rparr>)
             (db\<lparr>td_snapshots := td_snapshots db @ [snapshot]\<rparr>)))))"

text \<open>The transaction of the error path.\<close>

definition begin_fail :: "string \<Rightarrow> string \<Rightarrow> string \<Rightarrow> txdb \<Rightarrow> txdb" where
  "begin_fail now project rid db =
     record_event project rid ''TRANSACTION_START_FAILED'' ''ERROR'' [] now
       (set_runs (\<lambda>r. r_id r = rid)
          (\<lambda>r. r\<lparr>r_status := RFailed, r_finished := Some now, r_heartbeat := Some now\<rparr>) (drop_lock rid db))"

definition begin_files ::
  "'w host \<Rightarrow> string \<Rightarrow> string \<Rightarrow> string \<Rightarrow> string \<Rightarrow> string \<Rightarrow> string \<Rightarrow> string \<Rightarrow> ('w, snapshot_row) op" where
  "begin_files H now project rid sid repository base worktree =
     obind (create_snapshot H now repository project rid sid base) (\<lambda>snapshot.
     obind (run_checked H (MakeDirectory (parent_dir worktree))) (\<lambda>_.
     obind (run_checked H (WorktreeAdd repository (''hermesops/run/'' @ rid) worktree base)) (\<lambda>_.
     obind (run_checked H (WorktreeLock repository (''HermesOps active run '' @ rid) worktree)) (\<lambda>_.
       give snapshot))))"

definition command_begin ::
  "'w host \<Rightarrow> (nat \<Rightarrow> string) \<Rightarrow> string \<Rightarrow> string \<Rightarrow> string \<Rightarrow> string \<Rightarrow> json option \<Rightarrow> ('w, string) op" where
  "command_begin H clock rid sid project owner metadata =
     (case metadata of
        Some (JObj ms) \<Rightarrow>
          obind (on_db (begin_reserve H (clock 0) rid sid project owner ms)) (\<lambda>(repository, base, worktree).
          obind (attempt
            (obind (begin_files H (clock 1) project rid sid repository base worktree) (\<lambda>snapshot.
               on_db (\<lambda>_. begin_start (clock 2) project rid worktree snapshot)))
            (\<lambda>e. obind (cleanup_worktree H repository worktree (''hermesops/run/'' @ rid)) (\<lambda>_.
                 obind (on_db (\<lambda>_ db. Inr ((), begin_fail (clock 3) project rid db))) (\<lambda>_. raise e))))
            (\<lambda>_. give rid))
      | _ \<Rightarrow> raise InvalidMetadata)"

section \<open>Verify and heartbeat\<close>

definition verify_record ::
  "'w host \<Rightarrow> string \<Rightarrow> string \<Rightarrow> 'w \<Rightarrow> txdb \<Rightarrow> run_error + ((tx_run \<times> project_row) \<times> txdb)" where
  "verify_record H now rid w db =
     rbind (get_run db rid) (\<lambda>(r, p).
     rbind (require (r_status r \<in> {RRunning, RReviewing}) (WrongStatus (r_status r))) (\<lambda>_.
     rbind (require (run_lock db rid \<noteq> None) LockAbsent) (\<lambda>_.
     rbind (verify_snapshot H now rid w db) (\<lambda>(_, db'). Inr ((r, p), db')))))"

definition command_verify :: "'w host \<Rightarrow> string \<Rightarrow> string \<Rightarrow> ('w, string) op" where
  "command_verify H now rid =
     obind (on_db (verify_record H now rid)) (\<lambda>(r, p).
     look (\<lambda>w db.
       let repository = pr_repo p; worktree = text_of (r_worktree r) in
       rbind (require (holds H w (IsDir worktree)) WorktreeAbsent) (\<lambda>_.
       rbind (worktree_registered H w repository worktree) (\<lambda>registered.
       rbind (require registered WorktreeNotRegistered) (\<lambda>_.
       rbind (asked H w (CurrentBranch worktree)) (\<lambda>branch.
       rbind (require (Some branch = r_branch r) WorktreeBranch) (\<lambda>_.
       rbind (asked H w (RevParseHead worktree)) (\<lambda>head.
       rbind (require (holds H w (IsAncestor worktree (text_of (r_base r)) head)) NotDescendant) (\<lambda>_.
         Inr head)))))))))"

definition heartbeat_run :: "string \<Rightarrow> string \<Rightarrow> txdb \<Rightarrow> run_error + (unit \<times> txdb)" where
  "heartbeat_run now rid db =
     rbind (get_run db rid) (\<lambda>(r, _).
     rbind (require (r_status r \<in> {RRunning, RReviewing, RRecovering}) (WrongStatus (r_status r))) (\<lambda>_.
       Inr ((), touch_lock rid now
         (set_runs (\<lambda>r. r_id r = rid) (\<lambda>r. r\<lparr>r_heartbeat := Some now\<rparr>) db))))"

section \<open>Submit\<close>

text \<open>The checks on the worktree; the result is the commit to review.\<close>

definition submission :: "'w host \<Rightarrow> 'w \<Rightarrow> tx_run \<Rightarrow> project_row \<Rightarrow> run_error + string" where
  "submission H w r p =
     (let worktree = text_of (r_worktree r) in
      rbind (worktree_registered H w (pr_repo p) worktree) (\<lambda>registered.
      rbind (require registered WorktreeNotRegistered) (\<lambda>_.
      rbind (asked H w (CurrentBranch worktree)) (\<lambda>branch.
      rbind (require (Some branch = r_branch r) WorktreeBranch) (\<lambda>_.
      rbind (asked H w (StatusPorcelain worktree)) (\<lambda>status.
      rbind (require (status = []) WorktreeDirty) (\<lambda>_.
      rbind (asked H w (RevParseHead worktree)) (\<lambda>result.
      rbind (require (Some result \<noteq> r_base r) NoCommit) (\<lambda>_.
      rbind (require (holds H w (IsAncestor worktree (text_of (r_base r)) result)) NotDescendant) (\<lambda>_.
        Inr result))))))))))"

definition submit_record :: "string \<Rightarrow> string \<Rightarrow> string \<Rightarrow> string \<Rightarrow> txdb \<Rightarrow> txdb" where
  "submit_record now project rid result db =
     record_event project rid ''TRANSACTION_SUBMITTED'' ''INFO'' [(''result_commit'', JStr result)] now
       (touch_lock rid now
         (set_runs (\<lambda>r. r_id r = rid \<and> r_status r = RRunning)
            (\<lambda>r. r\<lparr>r_status := RReviewing, r_result := Some result, r_submitted := Some now,
                   r_heartbeat := Some now\<rparr>) db))"

definition command_submit :: "'w host \<Rightarrow> string \<Rightarrow> string \<Rightarrow> ('w, string) op" where
  "command_submit H now rid =
     obind (look (\<lambda>_ db. get_run db rid)) (\<lambda>(r, p).
     obind (check (r_status r = RRunning) (WrongStatus (r_status r))) (\<lambda>_.
     obind (look (\<lambda>w _. submission H w r p)) (\<lambda>result.
     obind (on_db (\<lambda>_ db. Inr ((), submit_record now (r_project r) rid result db))) (\<lambda>_.
       give result))))"

section \<open>Rollback\<close>

definition rollback_start ::
  "'w host \<Rightarrow> string \<Rightarrow> string \<Rightarrow> 'w \<Rightarrow> txdb \<Rightarrow> run_error + ((tx_run \<times> project_row) \<times> txdb)" where
  "rollback_start H now rid w db =
     rbind (get_run db rid) (\<lambda>(r, p).
     rbind (require (r_status r \<in> {RSnapshotting, RRunning, RReviewing, RWaitingHuman, RRecovering, RFailed})
        (WrongStatus (r_status r))) (\<lambda>_.
     rbind (verify_snapshot H now rid w db) (\<lambda>(snapshot, db').
       Inr ((r, p), record_event (r_project r) rid ''ROLLBACK_STARTED'' ''WARNING''
         [(''run_id'', JStr rid), (''snapshot_id'', JStr (s_id snapshot)), (''verified'', JBool True),
          (''verified_at'', JStr now), (''bundle'', JStr (fst (s_bundle snapshot)))] now
         (set_runs (\<lambda>r. r_id r = rid)
            (\<lambda>r. r\<lparr>r_status := RRecovering, r_recovery := Some RollbackSafe, r_heartbeat := Some now\<rparr>) db')))))"

text \<open>\<open>cancel_run\<close> is the statement the two ways of giving a run up share.\<close>

definition cancel_run :: "string \<Rightarrow> string \<Rightarrow> txdb \<Rightarrow> txdb" where
  "cancel_run now rid db =
     set_runs (\<lambda>r. r_id r = rid)
       (\<lambda>r. r\<lparr>r_status := RCancelled, r_recovery := Some RollbackSafe, r_finished := Some now,
              r_heartbeat := Some now\<rparr>)
       (drop_lock rid (cancel_approvals rid now db))"

definition rollback_finish :: "string \<Rightarrow> string \<Rightarrow> string \<Rightarrow> txdb \<Rightarrow> txdb" where
  "rollback_finish now project rid db =
     record_event project rid ''ROLLBACK_COMPLETED'' ''WARNING''
       [(''snapshot_verified'', JBool True), (''worktree_removed'', JBool True), (''branch_removed'', JBool True)]
       now (cancel_run now rid db)"

definition command_rollback :: "'w host \<Rightarrow> (nat \<Rightarrow> string) \<Rightarrow> string \<Rightarrow> ('w, unit) op" where
  "command_rollback H clock rid =
     obind (on_db (rollback_start H (clock 0) rid)) (\<lambda>(r, p).
     obind (cleanup_worktree H (pr_repo p) (text_of (r_worktree r)) (text_of (r_branch r))) (\<lambda>_.
       on_db (\<lambda>_ db. Inr ((), rollback_finish (clock 1) (r_project r) rid db))))"

definition command_verify_snapshot :: "'w host \<Rightarrow> string \<Rightarrow> string \<Rightarrow> ('w, snapshot_row) op" where
  "command_verify_snapshot H now rid = on_db (verify_snapshot H now rid)"

end
