(* ===== verification/Run_Integration.thy ===== *)
theory Run_Integration
  imports Run_Transaction
begin

text \<open>
  \<^verbatim>\<open>scripts/hermesops-integrator.py\<close>: the gate between a reviewed run and the default branch. The
  checks of the review and of the repository, the transaction that prepares an integration, the
  fast-forward, and the transactions that finish it or mark it ambiguous.
\<close>

section \<open>The review\<close>

datatype action = Integrate | RejectResult | AskHuman

definition decision_name :: "integration_decision \<Rightarrow> string" where
  "decision_name d = (case d of DApprove \<Rightarrow> ''APPROVE'' | DReject \<Rightarrow> ''REJECT'' | DBlockHuman \<Rightarrow> ''BLOCK_HUMAN'')"

definition verdict_name :: "verdict \<Rightarrow> string" where
  "verdict_name v =
     (case v of Pass \<Rightarrow> ''PASS'' | PassWithDebt \<Rightarrow> ''PASS_WITH_DEBT'' | Fix \<Rightarrow> ''FIX'' | Security \<Rightarrow> ''SECURITY''
      | Performance \<Rightarrow> ''PERFORMANCE'' | Architecture \<Rightarrow> ''ARCHITECTURE'' | Human \<Rightarrow> ''HUMAN'')"

definition classify_decision :: "integration_decision \<Rightarrow> verdict \<Rightarrow> run_error + action" where
  "classify_decision d v =
     (if d = DApprove \<and> v \<in> {Pass, PassWithDebt} then Inr Integrate
      else if d = DReject \<and> v \<in> {Fix, Security, Performance, Architecture} then Inr RejectResult
      else if d = DBlockHuman \<and> v = Human then Inr AskHuman
      else Inl InconsistentReview)"

type_synonym review = "result_row \<times> reviewer_row \<times> ctask_row"

definition get_review :: "txdb \<Rightarrow> string \<Rightarrow> run_error + review" where
  "get_review db rid =
     (case [(rr, re, t). rr \<leftarrow> td_results db, rr_run rr = rid,
              re \<leftarrow> td_reviewers db, g_review re = Some (rr_id rr) \<and> g_run re = rr_run rr,
              t \<leftarrow> td_tasks db, k_id t = g_task re \<and> k_run t = g_run re] of
        [] \<Rightarrow> Inl ReviewAbsent
      | [row] \<Rightarrow> Inr row
      | _ \<Rightarrow> Inl SeveralReviews)"

definition json_object :: "json option \<Rightarrow> string \<Rightarrow> run_error + (string \<times> json) list" where
  "json_object v label = (case v of Some (JObj ms) \<Rightarrow> Inr ms | _ \<Rightarrow> Inl (ReviewRefused label))"

abbreviation refuse_unless :: "bool \<Rightarrow> string \<Rightarrow> run_error + unit" where
  "refuse_unless b why \<equiv> require b (ReviewRefused why)"

text \<open>The columns of the review and of its execution.\<close>

definition review_columns_ok :: "tx_run \<Rightarrow> review \<Rightarrow> verdict \<Rightarrow> run_error + unit" where
  "review_columns_ok r rv v = (case rv of (rr, re, t) \<Rightarrow>
     rbind (refuse_unless (g_verdict re = Some v) ''Review and execution verdicts differ'') (\<lambda>_.
     rbind (refuse_unless (g_role re = ''reviewer'') ''Review was not produced by the reviewer role'') (\<lambda>_.
     rbind (refuse_unless (g_source_profile re = ''ops-reviewer'') ''Unexpected reviewer source profile'') (\<lambda>_.
     rbind (refuse_unless (k_role t = ''reviewer'') ''Reviewer task role is invalid'') (\<lambda>_.
     rbind (refuse_unless (k_status t = KCompleted) ''Reviewer task is not completed'') (\<lambda>_.
     rbind (refuse_unless (g_mode re = ''read_only'') ''Reviewer workspace was not read-only'') (\<lambda>_.
     rbind (refuse_unless (\<not> g_network re) ''Reviewer network was enabled'') (\<lambda>_.
     rbind (refuse_unless (g_mount re) ''Reviewer evidence is incomplete: review_mount_verified'') (\<lambda>_.
     rbind (refuse_unless (g_isolation re) ''Reviewer evidence is incomplete: review_isolation_verified'') (\<lambda>_.
     rbind (refuse_unless (g_unchanged re) ''Reviewer evidence is incomplete: review_repository_unchanged'') (\<lambda>_.
     rbind (refuse_unless (g_exit re = Some 0) ''Reviewer execution did not exit successfully'') (\<lambda>_.
     rbind (refuse_unless (g_failure re = None) ''Reviewer execution contains a failure reason'') (\<lambda>_.
     rbind (refuse_unless (text_of (g_finished re) \<noteq> []) ''Reviewer execution is unfinished'') (\<lambda>_.
     rbind (refuse_unless (text_of (r_submitted r) \<noteq> []) ''Run submission timestamp is absent'') (\<lambda>_.
     rbind (refuse_unless (\<not> rr_created rr < text_of (r_submitted r))
        ''Review predates the submitted result'') (\<lambda>_.
       refuse_unless (\<not> text_of (g_finished re) < text_of (r_submitted r))
        ''Reviewer execution predates the submitted result''))))))))))))))))"

text \<open>The documents of the review and of its execution.\<close>

definition review_documents_ok ::
  "tx_run \<Rightarrow> review \<Rightarrow> integration_decision \<Rightarrow> verdict \<Rightarrow> run_error + (string \<times> json) list" where
  "review_documents_ok r rv d v = (case rv of (rr, re, t) \<Rightarrow>
     rbind (json_object (rr_details rr) ''review details_json'') (\<lambda>details.
     rbind (json_object (g_result re) ''reviewer result_json'') (\<lambda>result.
     rbind (refuse_unless (jget details ''decision'' = JStr (decision_name d))
        ''Structured review decision mismatch'') (\<lambda>_.
     rbind (refuse_unless (jget details ''execution_id'' = JStr (g_id re))
        ''Structured review execution ID mismatch'') (\<lambda>_.
     rbind (refuse_unless (jget result ''decision'' = JStr (decision_name d))
        ''Reviewer result decision mismatch'') (\<lambda>_.
     rbind (refuse_unless (jget result ''verdict'' = JStr (verdict_name v))
        ''Reviewer result verdict mismatch'') (\<lambda>_.
     rbind (refuse_unless (jget result ''result_commit'' = json_of_option JStr (r_result r))
        ''Review is stale for the current result commit'') (\<lambda>_.
     rbind (refuse_unless (jget result ''marker_found'' = JBool True)
        ''Reviewer completion marker was not verified'') (\<lambda>_.
     rbind (refuse_unless (jget result ''repository_unchanged'' = JBool True)
        ''Reviewer did not prove repository immutability'') (\<lambda>_.
       Inr result))))))))))"

definition later_worker :: "txdb \<Rightarrow> string \<Rightarrow> string \<Rightarrow> bool" where
  "later_worker db rid finished =
     list_ex (\<lambda>g. g_run g = rid \<and> (case g_finished g of None \<Rightarrow> False | Some f \<Rightarrow> finished < f)) (td_workers db)"

definition validate_review ::
  "txdb \<Rightarrow> tx_run \<Rightarrow> review \<Rightarrow>
     run_error + (action \<times> integration_decision \<times> verdict \<times> (string \<times> json) list)" where
  "validate_review db r rv = (case rv of (rr, re, t) \<Rightarrow>
     (case g_decision re of
        None \<Rightarrow> Inl (ReviewRefused ''Review decision or verdict is absent'')
      | Some d \<Rightarrow>
          rbind (classify_decision d (rr_verdict rr)) (\<lambda>a.
          rbind (review_columns_ok r rv (rr_verdict rr)) (\<lambda>_.
          rbind (review_documents_ok r rv d (rr_verdict rr)) (\<lambda>result.
          rbind (refuse_unless (\<not> later_worker db (r_id r) (text_of (g_finished re)))
             ''Review is stale: a worker completed after the review'') (\<lambda>_.
            Inr (a, d, rr_verdict rr, result)))))))"

section \<open>The repository\<close>

record git_evidence =
  ev_repository :: string
  ev_worktree :: string
  ev_branch :: string
  ev_main_before :: string
  ev_reviewed :: string

definition load_default_branch :: "'w host \<Rightarrow> 'w \<Rightarrow> string \<Rightarrow> run_error + string" where
  "load_default_branch H w config =
     rbind (require (holds H w (IsFile config)) ConfigurationAbsent) (\<lambda>_.
     (case h_ask H w (DefaultBranch config) of
        None \<Rightarrow> Inl ConfigurationAbsent
      | Some branch \<Rightarrow> rbind (require (branch \<noteq> []) ConfigurationAbsent) (\<lambda>_. Inr branch)))"

definition validate_git_state ::
  "'w host \<Rightarrow> 'w \<Rightarrow> tx_run \<Rightarrow> project_row \<Rightarrow> (string \<times> json) list \<Rightarrow> run_error + git_evidence" where
  "validate_git_state H w r p reviewed_result =
     (let repository = h_resolve H (pr_repo p); worktree = h_resolve H (text_of (r_worktree r)) in
      rbind (load_default_branch H w (pr_config p)) (\<lambda>default_branch.
      rbind (require (holds H w (IsDir repository)) RepositoryAbsent) (\<lambda>_.
      rbind (require (holds H w (IsDir worktree)) WorktreeAbsent) (\<lambda>_.
      rbind (worktree_registered H w repository worktree) (\<lambda>registered.
      rbind (require registered WorktreeNotRegistered) (\<lambda>_.
      rbind (asked H w (CurrentBranch repository)) (\<lambda>branch.
      rbind (require (branch = default_branch) RepositoryBranch) (\<lambda>_.
      rbind (asked H w (StatusPorcelain repository)) (\<lambda>status.
      rbind (require (status = []) RepositoryDirty) (\<lambda>_.
      rbind (asked H w (RevParseHead repository)) (\<lambda>main.
      rbind (require (Some main = r_base r) MainMoved) (\<lambda>_.
      rbind (asked H w (CurrentBranch worktree)) (\<lambda>wbranch.
      rbind (require (Some wbranch = r_branch r) WorktreeBranch) (\<lambda>_.
      rbind (asked H w (StatusPorcelain worktree)) (\<lambda>wstatus.
      rbind (require (wstatus = []) WorktreeDirty) (\<lambda>_.
      rbind (asked H w (RevParseHead worktree)) (\<lambda>head.
      rbind (require (Some head = r_result r) ResultMismatch) (\<lambda>_.
      rbind (require (jget reviewed_result ''result_commit'' = JStr head) ResultMismatch) (\<lambda>_.
      rbind (require (holds H w (IsAncestor repository (text_of (r_base r)) head)) NotDescendant) (\<lambda>_.
        Inr \<lparr>ev_repository = repository, ev_worktree = worktree, ev_branch = default_branch,
             ev_main_before = main, ev_reviewed = head\<rparr>))))))))))))))))))))"

section \<open>Owners, objectives and human gates\<close>

definition validate_owner :: "tx_run \<Rightarrow> tx_lock \<Rightarrow> string \<Rightarrow> run_error + unit" where
  "validate_owner r l owner =
     require (owner \<noteq> [] \<and> r_owner r = Some owner \<and> l_holder l = owner \<and> l_project l = r_project r) OwnerMismatch"

definition objectives_of_run :: "txdb \<Rightarrow> string \<Rightarrow> (string \<times> objective_status) list" where
  "objectives_of_run db rid =
     remdups [(o_id b, o_status b). a \<leftarrow> td_attempts db, a_run a = Some rid,
       t \<leftarrow> td_otasks db, t_id t = a_task a, b \<leftarrow> td_objectives db, o_plan b = Some (t_plan t)]"

definition objective_status_for_run :: "txdb \<Rightarrow> string \<Rightarrow> run_error + objective_status option" where
  "objective_status_for_run db rid =
     (case objectives_of_run db rid of
        [] \<Rightarrow> Inr None | [(_, status)] \<Rightarrow> Inr (Some status) | _ \<Rightarrow> Inl SeveralLinks)"

definition plans_of_run :: "txdb \<Rightarrow> string \<Rightarrow> string list" where
  "plans_of_run db rid =
     remdups [t_plan t. a \<leftarrow> td_attempts db, a_run a = Some rid, t \<leftarrow> td_otasks db, t_id t = a_task a]"

definition plan_gate :: "txdb \<Rightarrow> string \<Rightarrow> bool" where
  "plan_gate db pid =
     list_ex (\<lambda>ap. ap_status ap = APPending \<and>
       list_ex (\<lambda>a. a_run a = Some (ap_run ap) \<and>
         list_ex (\<lambda>t. t_id t = a_task a \<and> t_plan t = pid) (td_otasks db)) (td_attempts db)) (td_approvals db)"

definition run_plan_has_active_human_gate :: "txdb \<Rightarrow> string \<Rightarrow> run_error + bool" where
  "run_plan_has_active_human_gate db rid =
     (case plans_of_run db rid of [] \<Rightarrow> Inr False | [pid] \<Rightarrow> Inr (plan_gate db pid) | _ \<Rightarrow> Inl SeveralLinks)"

section \<open>Transactions\<close>

text \<open>\<open>Stopped\<close> is the answer to a cancelled objective or a plan that waits for a human.\<close>

datatype integration_outcome =
    StoppedByCancel
  | StoppedByGate
  | NotIntegrated integration_status "string option"
  | Integrated

definition new_integration ::
  "string \<Rightarrow> string \<Rightarrow> string \<Rightarrow> tx_run \<Rightarrow> review \<Rightarrow> integration_decision \<Rightarrow> verdict \<Rightarrow> integration_status \<Rightarrow>
     git_evidence \<Rightarrow> string option \<Rightarrow> bool \<Rightarrow> tx_integration" where
  "new_integration now iid owner r rv d v status ev approval finished =
     \<lparr>i_id = iid, i_run = r_id r, i_decision = d, i_status = status, i_failure = None,
      i_finished = (if finished then Some now else None),
      i_review = rr_id (fst rv), i_review_execution = g_id (fst (snd rv)), i_owner = owner, i_verdict = v,
      i_base = r_base r, i_reviewed = r_result r,
      i_main_before = ev_main_before ev, i_main_after = ev_main_before ev,
      i_snapshot_verified = True, i_review_current = True, i_approval = approval, i_created = now,
      i_started = Some now\<rparr>"

definition insert_integration :: "tx_integration \<Rightarrow> txdb \<Rightarrow> run_error + txdb" where
  "insert_integration i db =
     rbind (require (list_all (\<lambda>j. i_id j \<noteq> i_id i) (td_integrations db)) RunConflict) (\<lambda>_.
       Inr (db\<lparr>td_integrations := td_integrations db @ [i]\<rparr>))"

text \<open>The checks with which both transactions begin.\<close>

definition integration_gate ::
  "string \<Rightarrow> string \<Rightarrow> txdb \<Rightarrow> run_error + (tx_run \<times> integration_outcome option)" where
  "integration_gate owner rid db =
     rbind (get_run db rid) (\<lambda>(r, _).
     (case run_lock db rid of
        None \<Rightarrow> Inl LockAbsent
      | Some l \<Rightarrow>
          rbind (validate_owner r l owner) (\<lambda>_.
          rbind (require (r_status r = RReviewing) (WrongStatus (r_status r))) (\<lambda>_.
          rbind (objective_status_for_run db rid) (\<lambda>status.
            if status \<in> {Some OCancelRequested, Some OCancelled} then Inr (r, Some StoppedByCancel)
            else rbind (run_plan_has_active_human_gate db rid) (\<lambda>gate.
              Inr (r, if gate then Some StoppedByGate else None)))))))"

definition new_approval :: "string \<Rightarrow> string \<Rightarrow> string \<Rightarrow> string \<Rightarrow> tx_approval" where
  "new_approval apid rid question now =
     \<lparr>ap_id = apid, ap_run = rid, ap_status = APPending, ap_resolved = None, ap_question = question,
      ap_options = [''RESUME_SAFE'', ''ROLLBACK_SAFE''], ap_decision = None, ap_created = now\<rparr>"

definition wait_for_human :: "string \<Rightarrow> string \<Rightarrow> string \<Rightarrow> txdb \<Rightarrow> txdb" where
  "wait_for_human now apid rid db =
     set_runs (\<lambda>r. r_id r = rid \<and> r_status r = RReviewing)
       (\<lambda>r. r\<lparr>r_status := RWaitingHuman, r_recovery := Some BlockHuman, r_heartbeat := Some now\<rparr>)
       (db\<lparr>td_approvals := td_approvals db @
          [new_approval apid rid ''Reviewer requires a human recovery decision.'' now]\<rparr>)"

definition integration_payload ::
  "string \<Rightarrow> integration_decision \<Rightarrow> verdict \<Rightarrow> string option \<Rightarrow> (string \<times> json) list" where
  "integration_payload iid d v approval =
     [(''integration_id'', JStr iid), (''decision'', JStr (decision_name d)), (''verdict'', JStr (verdict_name v)),
      (''approval_id'', json_of_option JStr approval)]"

definition record_non_integration ::
  "string \<Rightarrow> string \<Rightarrow> string \<Rightarrow> string \<Rightarrow> tx_run \<Rightarrow> review \<Rightarrow> integration_decision \<Rightarrow> verdict \<Rightarrow> action \<Rightarrow>
     git_evidence \<Rightarrow> txdb \<Rightarrow> run_error + (integration_outcome \<times> txdb)" where
  "record_non_integration now iid apid owner run rv d v act ev db =
     rbind (integration_gate owner (r_id run) db) (\<lambda>(r, stop).
     (case stop of
        Some out \<Rightarrow> Inr (out, db)
      | None \<Rightarrow>
          (case act of
             Integrate \<Rightarrow> Inl UnsupportedAction
           | RejectResult \<Rightarrow>
               rbind (insert_integration (new_integration now iid owner r rv d v IRejected ev None True) db) (\<lambda>db'.
                 Inr (NotIntegrated IRejected None,
                   record_event (r_project run) (r_id run) ''INTEGRATION_REJECTED'' ''WARNING''
                     (integration_payload iid d v None) now (touch_lock (r_id run) now db')))
           | AskHuman \<Rightarrow>
               rbind (require (list_all (\<lambda>a. ap_id a \<noteq> apid) (td_approvals db)) RunConflict) (\<lambda>_.
               rbind (insert_integration (new_integration now iid owner r rv d v IBlocked ev (Some apid) True)
                 (wait_for_human now apid (r_id run) db)) (\<lambda>db'.
                 Inr (NotIntegrated IBlocked (Some apid),
                   record_event (r_project run) (r_id run) ''INTEGRATION_BLOCKED_HUMAN'' ''WARNING''
                     (integration_payload iid d v (Some apid)) now (touch_lock (r_id run) now db')))))))"

text \<open>From REVIEWING to COMMITTING.\<close>

definition integrate_prepare ::
  "string \<Rightarrow> string \<Rightarrow> string \<Rightarrow> tx_run \<Rightarrow> review \<Rightarrow> integration_decision \<Rightarrow> verdict \<Rightarrow> git_evidence \<Rightarrow> txdb \<Rightarrow>
     run_error + (integration_outcome option \<times> txdb)" where
  "integrate_prepare now iid owner run rv d v ev db =
     rbind (integration_gate owner (r_id run) db) (\<lambda>(r, stop).
     (case stop of
        Some out \<Rightarrow> Inr (Some out, db)
      | None \<Rightarrow>
          rbind (require (\<not> list_ex (\<lambda>i. i_run i = r_id run \<and> i_status i \<in> {IPrepared, ICompleted})
             (td_integrations db)) DuplicateIntegration) (\<lambda>_.
          rbind (insert_integration (new_integration now iid owner r rv d v IPrepared ev None False) db) (\<lambda>db'.
          rbind (require (r_result run \<noteq> None \<and> r_base run \<noteq> None \<and>
             r_result r = r_result run \<and> r_base r = r_base run) RunChanged) (\<lambda>_.
            Inr (None,
              record_event (r_project run) (r_id run) ''INTEGRATION_PREPARED'' ''INFO''
                [(''integration_id'', JStr iid), (''review_id'', JStr (rr_id (fst rv))),
                 (''result_commit'', json_of_option JStr (r_result run))] now
                (touch_lock (r_id run) now
                  (set_runs (\<lambda>r. r_id r = r_id run \<and> r_status r = RReviewing)
                    (\<lambda>r. r\<lparr>r_status := RCommitting, r_heartbeat := Some now\<rparr>) db'))))))))"

text \<open>\<^verbatim>\<open>finalize_completed\<close>: a run has at most one COMPLETED integration (index of \<^verbatim>\<open>migrations/006\<close>).\<close>

definition complete_integrations ::
  "(tx_integration \<Rightarrow> bool) \<Rightarrow> (tx_integration \<Rightarrow> tx_integration) \<Rightarrow> txdb \<Rightarrow> run_error + txdb" where
  "complete_integrations c f db =
     rbind (require (list_ex c (td_integrations db)) IntegrationAbsent) (\<lambda>_.
     (let rows = update_where c f (td_integrations db) in
      rbind (require (distinct (map i_run (filter (\<lambda>i. i_status i = ICompleted) rows))) RunConflict) (\<lambda>_.
        Inr (db\<lparr>td_integrations := rows\<rparr>))))"

definition finalize_completed :: "string \<Rightarrow> string \<Rightarrow> tx_run \<Rightarrow> string \<Rightarrow> txdb \<Rightarrow> run_error + (unit \<times> txdb)" where
  "finalize_completed now iid run main_after db =
     rbind (get_run db (r_id run)) (\<lambda>(r, _).
     rbind (require (r_status r = RCommitting) (WrongStatus (r_status r))) (\<lambda>_.
     rbind (require (r_result r = Some main_after) ResultMismatch) (\<lambda>_.
     rbind (complete_integrations (\<lambda>i. i_id i = iid \<and> i_status i = IPrepared)
        (\<lambda>i. i\<lparr>i_status := ICompleted, i_main_after := main_after, i_finished := Some now\<rparr>) db) (\<lambda>db'.
       Inr ((), record_event (r_project run) (r_id run) ''INTEGRATION_COMPLETED'' ''INFO''
         [(''integration_id'', JStr iid), (''result_commit'', JStr main_after)] now
         (set_runs (\<lambda>r. r_id r = r_id run \<and> r_status r = RCommitting)
            (\<lambda>r. r\<lparr>r_status := RCompleted, r_recovery := None, r_finished := Some now, r_heartbeat := Some now\<rparr>)
            (drop_lock (r_id run) db')))))))"

definition mark_ambiguous_failure :: "string \<Rightarrow> string \<Rightarrow> tx_run \<Rightarrow> string \<Rightarrow> string option \<Rightarrow> txdb \<Rightarrow> txdb" where
  "mark_ambiguous_failure now iid run reason main_after db =
     record_event (r_project run) (r_id run) ''INTEGRATION_FAILED_AMBIGUOUS'' ''CRITICAL''
       [(''integration_id'', JStr iid), (''reason'', JStr reason), (''main_after'', json_of_option JStr main_after)] now
       (set_runs (\<lambda>r. r_id r = r_id run \<and> r_status r = RCommitting)
          (\<lambda>r. r\<lparr>r_status := RRecovering, r_recovery := Some BlockHuman, r_heartbeat := Some now\<rparr>)
          (db\<lparr>td_integrations := update_where (\<lambda>i. i_id i = iid)
             (\<lambda>i. i\<lparr>i_status := IFailed,
                    i_main_after := (case main_after of None \<Rightarrow> i_main_after i | Some m \<Rightarrow> m),
                    i_failure := Some reason, i_finished := Some now\<rparr>) (td_integrations db)\<rparr>))"

section \<open>Integration\<close>

definition finish_merged ::
  "'w host \<Rightarrow> string \<Rightarrow> string \<Rightarrow> tx_run \<Rightarrow> git_evidence \<Rightarrow> string \<Rightarrow> ('w, unit) op" where
  "finish_merged H now iid run ev main_after =
     obind (cleanup_worktree H (ev_repository ev) (ev_worktree ev) (text_of (r_branch run))) (\<lambda>_.
       on_db (\<lambda>_. finalize_completed now iid run main_after))"

definition merge_reviewed :: "'w host \<Rightarrow> string \<Rightarrow> string \<Rightarrow> tx_run \<Rightarrow> git_evidence \<Rightarrow> ('w, unit) op" where
  "merge_reviewed H now iid run ev =
     obind (run_checked H (MergeFastForward (ev_repository ev) (text_of (r_result run)))) (\<lambda>_.
     obind (ask H (RevParseHead (ev_repository ev))) (\<lambda>main_after.
     obind (check (Some main_after = r_result run) ResultMismatch) (\<lambda>_.
     obind (ask H (StatusPorcelain (ev_repository ev))) (\<lambda>status.
     obind (check (status = []) RepositoryDirty) (\<lambda>_.
       finish_merged H now iid run ev main_after)))))"

text \<open>\<open>why\<close> is the text of an exception.\<close>

definition settle_failed_merge ::
  "'w host \<Rightarrow> (run_error \<Rightarrow> string) \<Rightarrow> (nat \<Rightarrow> string) \<Rightarrow> string \<Rightarrow> tx_run \<Rightarrow> git_evidence \<Rightarrow> run_error \<Rightarrow> ('w, unit) op" where
  "settle_failed_merge H why clock iid run ev e =
     obind (look (\<lambda>w _. Inr (h_ask H w (RevParseHead (ev_repository ev))))) (\<lambda>main_after.
       if main_after \<noteq> None \<and> main_after = r_result run
       then attempt (finish_merged H (clock 2) iid run ev (text_of main_after))
         (\<lambda>e2. obind (on_db (\<lambda>_ db. Inr ((), mark_ambiguous_failure (clock 3) iid run
                  (why e @ ''; completion recovery failed: '' @ why e2) main_after db))) (\<lambda>_. raise e2))
       else obind (on_db (\<lambda>_ db. Inr ((), mark_ambiguous_failure (clock 3) iid run (why e) main_after db)))
         (\<lambda>_. raise e))"

definition integrate_approved ::
  "'w host \<Rightarrow> (run_error \<Rightarrow> string) \<Rightarrow> (nat \<Rightarrow> string) \<Rightarrow> string \<Rightarrow> string \<Rightarrow> tx_run \<Rightarrow> review \<Rightarrow>
     integration_decision \<Rightarrow> verdict \<Rightarrow> git_evidence \<Rightarrow> ('w, integration_outcome) op" where
  "integrate_approved H why clock iid owner run rv d v ev =
     obind (on_db (\<lambda>_. integrate_prepare (clock 0) iid owner run rv d v ev)) (\<lambda>stop.
     (case stop of
        Some out \<Rightarrow> give out
      | None \<Rightarrow>
          obind (attempt (merge_reviewed H (clock 1) iid run ev)
             (settle_failed_merge H why clock iid run ev)) (\<lambda>_. give Integrated)))"

text \<open>\<^verbatim>\<open>command_apply\<close>: the reads, the state of the repository, the snapshot, then the decision.\<close>

definition apply_reads ::
  "string \<Rightarrow> string \<Rightarrow> txdb \<Rightarrow>
     run_error + (tx_run \<times> project_row \<times> review \<times> action \<times> integration_decision \<times> verdict \<times>
       (string \<times> json) list)" where
  "apply_reads owner rid db =
     rbind (get_run db rid) (\<lambda>(r, p).
     rbind (require (r_status r = RReviewing) (WrongStatus (r_status r))) (\<lambda>_.
     rbind (require (pr_enabled p) ProjectDisabled) (\<lambda>_.
     (case run_lock db rid of
        None \<Rightarrow> Inl LockAbsent
      | Some l \<Rightarrow>
          rbind (validate_owner r l owner) (\<lambda>_.
          rbind (get_review db rid) (\<lambda>rv.
          rbind (validate_review db r rv) (\<lambda>(act, d, v, result).
            Inr (r, p, rv, act, d, v, result))))))))"

definition command_apply ::
  "'w host \<Rightarrow> (run_error \<Rightarrow> string) \<Rightarrow> (nat \<Rightarrow> string) \<Rightarrow> string \<Rightarrow> string \<Rightarrow> string \<Rightarrow> string \<Rightarrow>
     ('w, integration_outcome) op" where
  "command_apply H why clock iid apid owner rid =
     obind (look (\<lambda>_. apply_reads owner rid)) (\<lambda>(r, p, rv, act, d, v, result).
     obind (look (\<lambda>w _. validate_git_state H w r p result)) (\<lambda>ev.
     obind (on_db (verify_snapshot H (clock 4) rid)) (\<lambda>_.
       if act = Integrate then integrate_approved H why clock iid owner r rv d v ev
       else on_db (\<lambda>_. record_non_integration (clock 0) iid apid owner r rv d v act ev))))"

end
