(* ===== verification/Run_Recovery.thy ===== *)
theory Run_Recovery
  imports Run_Integration
begin

text \<open>
  The first half of \<^verbatim>\<open>scripts/hermesops-recovery.py\<close>: the evidence of an interrupted run, the decision on
  it (\<^verbatim>\<open>assess_run\<close>), and whose a container is before it is removed. The digest of the evidence is not
  kept.
\<close>

section \<open>Evidence\<close>

record snapshot_state =
  sn_present :: bool
  sn_valid :: bool
  sn_reasons :: "string list"
  sn_bundle :: bool

fun artifact_reasons :: "'w host \<Rightarrow> 'w \<Rightarrow> (string \<times> string \<times> string) list \<Rightarrow> run_error + string list" where
  "artifact_reasons H w [] = Inr []"
| "artifact_reasons H w ((column, path, expected) # rest) =
     (if holds H w (IsFile path)
      then rbind (asked H w (FileSha256 path)) (\<lambda>actual.
           rbind (artifact_reasons H w rest) (\<lambda>reasons.
             Inr (if actual = expected then reasons else (''hash-mismatch:'' @ column) # reasons)))
      else rbind (artifact_reasons H w rest) (\<lambda>reasons. Inr ((''missing:'' @ column) # reasons)))"

definition snapshot_evidence :: "'w host \<Rightarrow> 'w \<Rightarrow> string \<Rightarrow> snapshot_row option \<Rightarrow> run_error + snapshot_state" where
  "snapshot_evidence H w repository snapshot =
     (case snapshot of
        None \<Rightarrow> Inr \<lparr>sn_present = False, sn_valid = False, sn_reasons = [''snapshot-row-absent''], sn_bundle = False\<rparr>
      | Some s \<Rightarrow>
          rbind (artifact_reasons H w
            [(''bundle_path'', s_bundle s), (''patch_path'', s_patch s), (''status_path'', s_status s),
             (''refs_path'', s_refs s), (''manifest_path'', s_manifest s)]) (\<lambda>reasons.
            let present = holds H w (IsFile (fst (s_bundle s)));
                verified = present \<and> holds H w (BundleVerify repository (fst (s_bundle s)));
                all = (if present \<and> \<not> verified then reasons @ [''bundle-verification-failed''] else reasons) in
            Inr \<lparr>sn_present = True, sn_valid = (all = []), sn_reasons = sort (remdups all), sn_bundle = verified\<rparr>))"

text \<open>A key the code does not set is \<open>None\<close>.\<close>

record repository_state =
  rs_default :: string
  rs_present :: bool
  rs_worktree_present :: bool
  rs_registered :: bool
  rs_branch :: "string option"
  rs_head :: "string option"
  rs_clean :: "bool option"
  rs_worktree_branch :: "string option"
  rs_worktree_head :: "string option"
  rs_worktree_clean :: "bool option"
  rs_ancestor :: "bool option"

definition repository_evidence :: "'w host \<Rightarrow> 'w \<Rightarrow> tx_run \<Rightarrow> project_row \<Rightarrow> run_error + repository_state" where
  "repository_evidence H w r p =
     (let repository = h_resolve H (pr_repo p); worktree = h_resolve H (text_of (r_worktree r));
          there = holds H w (IsDir worktree) in
      rbind (load_default_branch H w (pr_config p)) (\<lambda>default_branch.
        Inr (if \<not> holds H w (IsDir repository)
          then \<lparr>rs_default = default_branch, rs_present = False, rs_worktree_present = there,
                rs_registered = False, rs_branch = None, rs_head = None, rs_clean = None,
                rs_worktree_branch = None, rs_worktree_head = None, rs_worktree_clean = None, rs_ancestor = None\<rparr>
          else \<lparr>rs_default = default_branch, rs_present = True, rs_worktree_present = there,
                rs_registered = (worktree_registered H w repository worktree = Inr True),
                rs_branch = Some (ask_text H w (CurrentBranch repository)),
                rs_head = Some (ask_text H w (RevParseHead repository)),
                rs_clean = Some (ask_text H w (StatusPorcelain repository) = []),
                rs_worktree_branch = (if there then Some (ask_text H w (CurrentBranch worktree)) else None),
                rs_worktree_head = (if there then Some (ask_text H w (RevParseHead worktree)) else None),
                rs_worktree_clean = (if there then Some (ask_text H w (StatusPorcelain worktree) = []) else None),
                rs_ancestor = (if there then Some (holds H w (IsAncestor worktree (text_of (r_base r)) ''HEAD''))
                               else None)\<rparr>)))"

text \<open>\<^verbatim>\<open>ORDER BY created_at DESC LIMIT 1\<close>.\<close>

definition latest_integration :: "txdb \<Rightarrow> string \<Rightarrow> tx_integration option" where
  "latest_integration db rid =
     (case sort_key i_created (filter (\<lambda>i. i_run i = rid) (td_integrations db)) of
        [] \<Rightarrow> None | rows \<Rightarrow> Some (last rows))"

section \<open>The decision\<close>

datatype assessment = NoAction | Decide recovery_decision

definition worktree_intact :: "repository_state \<Rightarrow> bool" where
  "worktree_intact g \<longleftrightarrow> rs_worktree_present g \<and> rs_registered g \<and> rs_worktree_clean g = Some True"

definition worktree_gone :: "repository_state \<Rightarrow> bool" where
  "worktree_gone g \<longleftrightarrow> \<not> rs_worktree_present g \<and> \<not> rs_registered g"

definition decide_committing :: "tx_run \<Rightarrow> repository_state \<Rightarrow> tx_integration option \<Rightarrow> recovery_decision \<times> string" where
  "decide_committing r g integration =
     (case integration of
        None \<Rightarrow> (BlockHuman, ''committing-without-integration-record'')
      | Some i \<Rightarrow>
          if i_status i \<notin> {IPrepared, IFailed} then (BlockHuman, ''unexpected-integration-state'')
          else if rs_head g = r_result r then (ResumeSafe, ''fast-forward-complete-database-pending'')
          else if rs_head g = r_base r \<and> worktree_intact g \<and> rs_worktree_head g = r_result r \<and>
                  rs_ancestor g = Some True
          then (ResumeSafe, ''prepared-integration-can-resume'')
          else (BlockHuman, ''committing-state-is-ambiguous''))"

definition decide_running :: "tx_run \<Rightarrow> repository_state \<Rightarrow> recovery_decision \<times> string" where
  "decide_running r g =
     (if rs_head g \<noteq> r_base r then (BlockHuman, ''main-moved-during-running'')
      else if worktree_intact g \<and> rs_worktree_branch g = r_branch r \<and> rs_ancestor g = Some True
      then (ResumeSafe, ''running-transaction-is-coherent'')
      else if worktree_gone g then (RollbackSafe, ''running-worktree-disappeared'')
      else (BlockHuman, ''running-worktree-is-ambiguous''))"

definition decide_reviewing :: "tx_run \<Rightarrow> repository_state \<Rightarrow> recovery_decision \<times> string" where
  "decide_reviewing r g =
     (if rs_head g \<noteq> r_base r then (BlockHuman, ''main-moved-during-review'')
      else if text_of (r_result r) \<noteq> [] \<and> worktree_intact g \<and> rs_worktree_head g = r_result r
      then (ResumeSafe, ''reviewing-transaction-is-coherent'')
      else if worktree_gone g then (RollbackSafe, ''review-worktree-disappeared'')
      else (BlockHuman, ''reviewing-state-is-ambiguous''))"

definition decide_recovering :: "tx_run \<Rightarrow> repository_state \<Rightarrow> tx_integration option \<Rightarrow> recovery_decision \<times> string" where
  "decide_recovering r g integration =
     (if r_recovery r = Some RollbackSafe \<and> rs_head g = r_base r
      then (RollbackSafe, ''continue-interrupted-rollback'')
      else if r_recovery r = Some BlockHuman then (BlockHuman, ''existing-recovery-human-gate'')
      else if r_recovery r = Some ResumeSafe \<and> integration \<noteq> None \<and>
              (rs_head g = r_base r \<or> rs_head g = r_result r)
      then (ResumeSafe, ''continue-interrupted-resume'')
      else (BlockHuman, ''recovering-state-lacks-safe-proof''))"

definition decide_active :: "tx_run \<Rightarrow> repository_state \<Rightarrow> tx_integration option \<Rightarrow> recovery_decision \<times> string" where
  "decide_active r g integration =
     (if rs_head g \<noteq> r_base r \<and> rs_head g \<noteq> r_result r then (BlockHuman, ''default-branch-diverged'')
      else case r_status r of
        RWaitingHuman \<Rightarrow> (BlockHuman, ''existing-human-gate'')
      | RCommitting \<Rightarrow> decide_committing r g integration
      | RRunning \<Rightarrow> decide_running r g
      | RReviewing \<Rightarrow> decide_reviewing r g
      | RFailed \<Rightarrow>
          (if rs_head g = r_base r then (RollbackSafe, ''failed-run-main-unchanged'')
           else (BlockHuman, ''failed-run-main-diverged''))
      | RRecovering \<Rightarrow> decide_recovering r g integration
      | RSnapshotting \<Rightarrow> (RollbackSafe, ''snapshotting-run-can-be-aborted'')
      | _ \<Rightarrow> (BlockHuman, ''unsupported-active-status:QUEUED''))"

definition decide_run ::
  "tx_run \<Rightarrow> snapshot_state \<Rightarrow> repository_state \<Rightarrow> tx_integration option \<Rightarrow> assessment \<times> string" where
  "decide_run r sn g integration =
     (if r_status r \<in> {RCompleted, RCancelled} then (NoAction, ''run-is-terminal'')
      else if \<not> rs_present g then (Decide BlockHuman, ''repository-absent'')
      else if rs_branch g \<noteq> Some (rs_default g) then (Decide BlockHuman, ''default-branch-mismatch'')
      else if rs_clean g \<noteq> Some True then (Decide BlockHuman, ''default-branch-dirty'')
      else if r_status r = RSnapshotting \<and> \<not> sn_present sn
      then (if rs_head g = r_base r then (Decide RollbackSafe, ''snapshot-never-completed'')
            else (Decide BlockHuman, ''snapshot-missing-and-main-moved''))
      else if \<not> sn_valid sn then (Decide BlockHuman, ''snapshot-integrity-failed'')
      else (case decide_active r g integration of (d, why) \<Rightarrow> (Decide d, why)))"

record evidence =
  e_run :: tx_run
  e_snapshot :: snapshot_state
  e_decision :: assessment
  e_reasons :: "string list"

text \<open>A run without its lock is not resumed, except after the fast-forward of a COMMITTING run.\<close>

definition assess_evidence ::
  "tx_run \<Rightarrow> tx_lock option \<Rightarrow> snapshot_state \<Rightarrow> repository_state \<Rightarrow> tx_integration option \<Rightarrow> evidence" where
  "assess_evidence r lock sn g integration =
     (case decide_run r sn g integration of (d, why) \<Rightarrow>
        if d = Decide ResumeSafe \<and> lock = None \<and> \<not> (r_status r = RCommitting \<and> rs_head g = r_result r)
        then \<lparr>e_run = r, e_snapshot = sn, e_decision = Decide BlockHuman,
              e_reasons = [why, ''active-project-lock-absent'']\<rparr>
        else \<lparr>e_run = r, e_snapshot = sn, e_decision = d, e_reasons = [why]\<rparr>)"

definition assess_run :: "'w host \<Rightarrow> string \<Rightarrow> 'w \<Rightarrow> txdb \<Rightarrow> run_error + evidence" where
  "assess_run H rid w db =
     rbind (get_run db rid) (\<lambda>(r, p).
     rbind (snapshot_evidence H w (pr_repo p) (run_snapshot db rid)) (\<lambda>sn.
     rbind (repository_evidence H w r p) (\<lambda>g.
       Inr (assess_evidence r (run_lock db rid) sn g (latest_integration db rid)))))"

section \<open>Ownership of containers\<close>

definition hex_name :: "string \<Rightarrow> nat \<Rightarrow> string \<Rightarrow> bool" where
  "hex_name pre n s \<longleftrightarrow> prefix pre s \<and> length s = length pre + n \<and> list_all is_hex (drop (length pre) s)"

definition members :: "json \<Rightarrow> (string \<times> json) list" where
  "members v = (case v of JObj ms \<Rightarrow> ms | _ \<Rightarrow> [])"

definition json_text :: "json \<Rightarrow> string" where
  "json_text v = (case v of JStr s \<Rightarrow> s | _ \<Rightarrow> [])"

definition container_labels :: "json \<Rightarrow> (string \<times> json) list" where
  "container_labels c = members (jget (members (jget (members c) ''Config'')) ''Labels'')"

definition remove_prefix :: "string \<Rightarrow> string \<Rightarrow> string" where
  "remove_prefix pre s = (if prefix pre s then drop (length pre) s else s)"

definition container_name :: "json \<Rightarrow> string" where
  "container_name c = remove_prefix ''/'' (json_text (jget (members c) ''Name''))"

text \<open>\<^verbatim>\<open>str(v).lower() == "true"\<close>.\<close>

definition json_true :: "json \<Rightarrow> bool" where
  "json_true v = (case v of JBool b \<Rightarrow> b | JStr s \<Rightarrow> map to_lower s = ''true'' | _ \<Rightarrow> False)"

datatype ownership = NewGeneric | LegacyHermes

definition legacy_name :: "string \<Rightarrow> bool" where
  "legacy_name s \<longleftrightarrow>
     list_ex (\<lambda>kind. hex_name (''hermesops-'' @ kind @ ''-'') 12 s) [''orchestrator'', ''worker'', ''reviewer'']"

definition host_container_ownership :: "json \<Rightarrow> string \<Rightarrow> string list option \<Rightarrow> ownership option" where
  "host_container_ownership c name known =
     (let labels = container_labels c in
      if (case known of None \<Rightarrow> False | Some names \<Rightarrow> name \<notin> set names) then None
      else if container_name c \<noteq> name then None
      else if jget labels ''hermesops-runtime-container'' = JStr ''1'' \<and>
              jget labels ''hermesops-runtime-request-id'' = JStr name \<and> hex_name ''agent-runtime-'' 12 name
      then Some NewGeneric
      else if jget labels ''com.docker.compose.service'' = JStr ''hermes-agent'' \<and>
              json_true (jget labels ''com.docker.compose.oneoff'') \<and> legacy_name name
      then Some LegacyHermes
      else None)"

definition runtime_profile_name :: "string \<Rightarrow> bool" where
  "runtime_profile_name s \<longleftrightarrow> hex_name ''runtime-worker-'' 12 s \<or> hex_name ''runtime-reviewer-'' 12 s"

definition expected_is :: "string option \<Rightarrow> string \<Rightarrow> bool" where
  "expected_is expected s = (case expected of None \<Rightarrow> True | Some e \<Rightarrow> s = e)"

definition binding_known :: "(string \<times> string) list option \<Rightarrow> string \<times> string \<Rightarrow> bool" where
  "binding_known known b = (case known of None \<Rightarrow> True | Some bs \<Rightarrow> b \<in> set bs)"

definition nested_container_ownership ::
  "json \<Rightarrow> string option \<Rightarrow> string option \<Rightarrow> string option \<Rightarrow> (string \<times> string) list option \<Rightarrow> ownership option" where
  "nested_container_ownership c task_id request_id profile_id known =
     (let labels = container_labels c in
      if jget labels ''hermesops-sandbox'' = JStr ''1''
      then (let task = json_text (jget labels ''hermesops-task-id'');
                request = json_text (jget labels ''hermesops-runtime-request-id'') in
            if hex_name ''task-'' 32 task \<and> hex_name ''agent-runtime-'' 12 request \<and>
               container_name c = ''hermesops-sandbox-'' @ remove_prefix ''agent-runtime-'' request \<and>
               expected_is task_id task \<and> expected_is request_id request \<and> binding_known known (task, request)
            then Some NewGeneric else None)
      else if jget labels ''hermes-agent'' = JStr ''1''
      then (let task = json_text (jget labels ''hermes-task-id'');
                profile = json_text (jget labels ''hermes-profile'') in
            if hex_name ''task-'' 32 task \<and> runtime_profile_name profile \<and>
               expected_is task_id task \<and> expected_is profile_id profile \<and> binding_known known (task, profile)
            then Some LegacyHermes else None)
      else None)"

text \<open>\<^verbatim>\<open>inspection_document\<close>: a list of one object.\<close>

definition inspection_document :: "json option \<Rightarrow> json option" where
  "inspection_document v = (case v of Some (JArr [JObj ms]) \<Rightarrow> Some (JObj ms) | _ \<Rightarrow> None)"

definition container_id :: "json \<Rightarrow> string" where
  "container_id c = json_text (jget (members c) ''Id'')"

definition remove_host_container :: "'w host \<Rightarrow> string \<Rightarrow> string list option \<Rightarrow> ('w, unit) op" where
  "remove_host_container H name known s =
     (if name = [] \<or> \<not> holds H (fst s) DockerPresent then (s, Inr ())
      else (case inspection_document (h_inspect H (fst s) OnHost name) of
              None \<Rightarrow> (s, Inr ())
            | Some c \<Rightarrow>
                if host_container_ownership c name known = None \<or> \<not> hex_name [] 64 (container_id c) then (s, Inr ())
                else run_ignored H (RemoveContainer (container_id c)) s))"

definition remove_nested_container ::
  "'w host \<Rightarrow> string \<Rightarrow> string option \<Rightarrow> string option \<Rightarrow> string option \<Rightarrow> (string \<times> string) list option \<Rightarrow>
     ('w, unit) op" where
  "remove_nested_container H cid task_id request_id profile_id known s =
     (if cid = [] \<or> \<not> holds H (fst s) DockerPresent then (s, Inr ())
      else (case inspection_document (h_inspect H (fst s) Nested cid) of
              None \<Rightarrow> (s, Inr ())
            | Some c \<Rightarrow>
                if nested_container_ownership c task_id request_id profile_id known = None \<or>
                   \<not> hex_name [] 64 (container_id c) \<or> \<not> prefix cid (container_id c) then (s, Inr ())
                else run_ignored H (RemoveNested (container_id c)) s))"

end
