(* ===== verification/Recovery_Actions.thy ===== *)
theory Recovery_Actions
  imports Run_Recovery
begin

text \<open>
  What \<^verbatim>\<open>scripts/hermesops-recovery.py\<close> does with a decision: the resources of the run are removed and
  its executions closed, then the run is resumed, rolled back or blocked; the sweep over stale runs; and
  \<^verbatim>\<open>command_resolve\<close> of \<^verbatim>\<open>scripts/hermesops-control.py\<close>, the answer to a human gate.
\<close>

section \<open>The environment of a recovery\<close>

text \<open>
  The machine, the readings of the clock, the library and the time and event identifiers of the failed
  assignments, the age of a heartbeat in microseconds (\<^verbatim>\<open>age_seconds\<close>; None for a time that does
  not parse) and the text of an exception.
\<close>

record 'w env =
  en_host :: "'w host"
  en_clock :: "nat \<Rightarrow> string"
  en_lib :: review_lib
  en_stamps :: "(string \<times> string) list"
  en_age :: "string option \<Rightarrow> int option"

section \<open>Removal of resources\<close>

definition hermes_profiles :: "'w host \<Rightarrow> string" where
  "hermes_profiles H = path_join (path_join (path_join (h_root H) ''state'') ''hermes-home'') ''profiles''"

definition clone_root :: "'w host \<Rightarrow> string \<Rightarrow> string" where
  "clone_root H kind = path_join (path_join (h_root H) ''workspaces'') (''.hermesops-'' @ kind @ ''-clones'')"

definition remove_profile :: "'w host \<Rightarrow> string \<Rightarrow> ('w, unit) op" where
  "remove_profile H name s =
     (if \<not> list_ex (\<lambda>pre. prefix pre name) [''agent-runtime-'', ''runtime-worker-'', ''runtime-reviewer-'']
      then (s, Inr ())
      else (let path = path_join (hermes_profiles H) name in
        if \<not> inside H path (hermes_profiles H) then (s, Inl PathEscapes)
        else if \<not> holds H (fst s) (PathExists (h_resolve H path)) then (s, Inr ())
        else run_checked H (RemoveTree (h_resolve H path)) s))"

text \<open>\<^verbatim>\<open>prune_empty_clone_parents\<close>: unlike the worktrees, an absent directory does not end the loop.\<close>

function prune_clone_parents :: "'w host \<Rightarrow> string \<Rightarrow> string \<Rightarrow> ('w, unit) op" where
  "prune_clone_parents H path root s =
     (if path = root then (s, Inr ())
      else if path = [] \<or> \<not> inside H path root then (s, Inl PathEscapes)
      else if \<not> holds H (fst s) (PathExists path) then prune_clone_parents H (parent_dir path) root s
      else (case h_run H (fst s) (RemoveDirectory path) of
              (False, w) \<Rightarrow> ((w, snd s), Inr ())
            | (True, w) \<Rightarrow> prune_clone_parents H (parent_dir path) root (w, snd s)))"
  by pat_completeness auto
termination
  by (relation "measure (\<lambda>(H, path, root, s). length path)") (auto simp: parent_dir_shorter)

declare prune_clone_parents.simps [simp del]

definition remove_clone_tree :: "'w host \<Rightarrow> string \<Rightarrow> string \<Rightarrow> string \<Rightarrow> ('w, unit) op" where
  "remove_clone_tree H kind project rid s =
     (if kind \<notin> {''worker'', ''reviewer''} then (s, Inl CloneKind)
      else (let root = clone_root H kind; path = path_join (path_join root project) rid in
        if \<not> inside H path root then (s, Inl PathEscapes)
        else if \<not> holds H (fst s) (PathExists (h_resolve H path)) then (s, Inr ())
        else obind (run_checked H (RemoveTree (h_resolve H path))) (\<lambda>_.
               prune_clone_parents H (h_resolve H (parent_dir (h_resolve H path))) (h_resolve H root)) s))"

definition remove_agent :: "'w host \<Rightarrow> agent_row \<Rightarrow> ('w, unit) op" where
  "remove_agent H g =
     (let request = (if prefix ''agent-runtime-'' (g_outer g) then Some (g_outer g) else None) in
      obind (remove_host_container H (g_outer g) (Some [g_outer g])) (\<lambda>_.
      obind (remove_nested_container H (text_of (g_sandbox g)) (Some (g_task g)) request (Some (g_profile g)) None) (\<lambda>_.
        remove_profile H (g_profile g))))"

fun each_op :: "('x \<Rightarrow> ('w, unit) op) \<Rightarrow> 'x list \<Rightarrow> ('w, unit) op" where
  "each_op f [] = give ()"
| "each_op f (x # xs) = obind (f x) (\<lambda>_. each_op f xs)"

definition unfinished :: "txdb \<Rightarrow> string \<Rightarrow> agent_row list" where
  "unfinished db rid =
     filter (\<lambda>g. g_run g = rid \<and> g_finished g = None) (td_workers db @ map agent_row.truncate (td_reviewers db))"

text \<open>The transaction that closes the tasks, executions and assignments of the run.\<close>

definition abandon :: "string \<Rightarrow> string \<Rightarrow> 'r agent_row_scheme \<Rightarrow> 'r agent_row_scheme" where
  "abandon now why g =
     g\<lparr>g_exit := coalesce (g_exit g) (Some 75), g_failure := coalesce (g_failure g) (Some why),
       g_finished := coalesce (g_finished g) (Some now)\<rparr>"

definition close_executions :: "review_lib \<Rightarrow> (string \<times> string) list \<Rightarrow> string \<Rightarrow> string \<Rightarrow> txdb \<Rightarrow>
     run_error + (unit \<times> txdb)" where
  "close_executions lib stamps now rid db =
     (case recover_active_assignments lib True stamps rid (''recovery:'' @ rid) (td_reviews db) of
        Inl e \<Rightarrow> Inl (AssignmentError e)
      | Inr (_, reviews) \<Rightarrow>
          Inr ((), db\<lparr>
            td_tasks := update_where (\<lambda>k. k_run k = rid \<and> k_status k \<in> {KQueued, KRunning, KBlocked})
              (\<lambda>k. k\<lparr>k_status := KFailed, k_finished := Some now, k_heartbeat := Some now\<rparr>) (td_tasks db),
            td_workers := update_where (\<lambda>g. g_run g = rid \<and> g_finished g = None)
              (abandon now ''Recovered abandoned worker execution'') (td_workers db),
            td_reviewers := update_where (\<lambda>g. g_run g = rid \<and> g_finished g = None)
              (abandon now ''Recovered abandoned reviewer execution'') (td_reviewers db),
            td_reviews := reviews\<rparr>))"

definition cleanup_run_resources :: "'w env \<Rightarrow> string \<Rightarrow> ('w, unit) op" where
  "cleanup_run_resources E rid =
     (let H = en_host E in
      obind (look (\<lambda>_ db. rbind (get_run db rid) (\<lambda>(r, _). Inr (r_project r, unfinished db rid)))) (\<lambda>(project, agents).
      obind (each_op (remove_agent H) agents) (\<lambda>_.
      obind (remove_clone_tree H ''worker'' project rid) (\<lambda>_.
      obind (remove_clone_tree H ''reviewer'' project rid) (\<lambda>_.
        on_db (\<lambda>_. close_executions (en_lib E) (en_stamps E) (en_clock E 1) rid))))))"

section \<open>The record of a recovery\<close>

definition insert_recovery :: "string \<Rightarrow> string \<Rightarrow> string \<Rightarrow> evidence \<Rightarrow> txdb \<Rightarrow> run_error + (unit \<times> txdb)" where
  "insert_recovery now vid owner ev db =
     (case e_decision ev of
        NoAction \<Rightarrow> Inl RunConflict
      | Decide d \<Rightarrow>
          rbind (require (r_status (e_run ev) \<notin> {RQueued, RCompleted, RCancelled} \<and>
             list_all (\<lambda>v. v_id v \<noteq> vid) (td_recoveries db) \<and>
             list_ex (\<lambda>role. ro_id role = ''recovery'') (rv_roles (td_reviews db)) \<and>
             list_ex (\<lambda>r. r_id r = r_id (e_run ev)) (td_runs db)) RunConflict) (\<lambda>_.
            Inr ((), db\<lparr>td_recoveries := td_recoveries db @
              [\<lparr>v_id = vid, v_run = r_id (e_run ev), v_owner = owner, v_status = r_status (e_run ev),
                v_decision = d, v_outcome = Assessed, v_failure = False, v_created = now, v_finished = None\<rparr>]\<rparr>)))"

definition finish_recovery :: "string \<Rightarrow> string \<Rightarrow> recovery_outcome \<Rightarrow> bool \<Rightarrow> txdb \<Rightarrow> txdb" where
  "finish_recovery now vid out failed db =
     db\<lparr>td_recoveries := update_where (\<lambda>v. v_id v = vid)
       (\<lambda>v. v\<lparr>v_outcome := out, v_failure := failed, v_finished := Some now\<rparr>) (td_recoveries db)\<rparr>"

section \<open>Resume\<close>

definition mark_resumable :: "string \<Rightarrow> string \<Rightarrow> run_status \<Rightarrow> txdb \<Rightarrow> run_error + (unit \<times> txdb)" where
  "mark_resumable now rid status db =
     rbind (get_run db rid) (\<lambda>(r, _).
       Inr ((), record_event (r_project r) rid ''RECOVERY_RESUME_READY'' ''INFO''
         [(''status'', JStr (if status = RRunning then ''RUNNING'' else ''REVIEWING'')),
          (''policy_version'', JStr ''recovery-policy-v1'')] now
         (touch_lock rid now (set_runs (\<lambda>r. r_id r = rid \<and> r_status r = status)
           (\<lambda>r. r\<lparr>r_recovery := Some ResumeSafe, r_heartbeat := Some now\<rparr>) db))))"

definition resume_finish :: "string \<Rightarrow> string \<Rightarrow> tx_run \<Rightarrow> string \<Rightarrow> txdb \<Rightarrow> run_error + (unit \<times> txdb)" where
  "resume_finish now iid run main db =
     rbind (get_run db (r_id run)) (\<lambda>(r, _).
     rbind (require (r_status r \<in> {RCommitting, RRecovering}) (WrongStatus (r_status r))) (\<lambda>_.
     rbind (complete_integrations (\<lambda>i. i_id i = iid \<and> i_status i \<in> {IPrepared, IFailed})
        (\<lambda>i. i\<lparr>i_status := ICompleted, i_main_after := main, i_failure := None, i_finished := Some now\<rparr>) db) (\<lambda>db'.
       Inr ((), record_event (r_project run) (r_id run) ''RECOVERY_INTEGRATION_COMPLETED'' ''INFO''
         [(''integration_id'', JStr iid), (''result_commit'', JStr main)] now
         (set_runs (\<lambda>r. r_id r = r_id run)
            (\<lambda>r. r\<lparr>r_status := RCompleted, r_recovery := Some ResumeSafe, r_finished := Some now,
                   r_heartbeat := Some now\<rparr>) (drop_lock (r_id run) db'))))))"

text \<open>The default branch is moved to the reviewed commit when it is still at the base.\<close>

definition fast_forward :: "'w host \<Rightarrow> tx_run \<Rightarrow> project_row \<Rightarrow> ('w, string) op" where
  "fast_forward H r p =
     obind (ask H (RevParseHead (pr_repo p))) (\<lambda>main.
       if Some main = r_base r
       then obind (run_checked H (MergeFastForward (pr_repo p) (text_of (r_result r)))) (\<lambda>_.
              ask H (RevParseHead (pr_repo p)))
       else give main)"

definition resume_integration :: "'w env \<Rightarrow> string \<Rightarrow> ('w, unit) op" where
  "resume_integration E rid =
     (let H = en_host E in
      obind (look (\<lambda>_ db. rbind (get_run db rid) (\<lambda>(r, p).
        (case latest_integration db rid of None \<Rightarrow> Inl IntegrationAbsent | Some i \<Rightarrow> Inr (r, p, i_id i))))) (\<lambda>(r, p, iid).
      obind (fast_forward H r p) (\<lambda>main.
      obind (check (Some main = r_result r) ResultMismatch) (\<lambda>_.
      obind (ask H (StatusPorcelain (pr_repo p))) (\<lambda>status.
      obind (check (status = []) RepositoryDirty) (\<lambda>_.
      obind (cleanup_worktree H (pr_repo p) (text_of (r_worktree r)) (text_of (r_branch r))) (\<lambda>_.
        on_db (\<lambda>_. resume_finish (en_clock E 2) iid r main))))))))"

definition apply_resume :: "'w env \<Rightarrow> string \<Rightarrow> evidence \<Rightarrow> ('w, unit) op" where
  "apply_resume E rid ev =
     obind (cleanup_run_resources E rid) (\<lambda>_.
       if r_status (e_run ev) \<in> {RRunning, RReviewing}
       then on_db (\<lambda>_. mark_resumable (en_clock E 2) rid (r_status (e_run ev)))
       else if r_status (e_run ev) \<notin> {RCommitting, RRecovering} then raise CannotResume
       else resume_integration E rid)"

section \<open>Rollback\<close>

definition rollback_without_snapshot :: "'w env \<Rightarrow> string \<Rightarrow> ('w, unit) op" where
  "rollback_without_snapshot E rid =
     obind (look (\<lambda>_ db. get_run db rid)) (\<lambda>(r, p).
     obind (cleanup_worktree (en_host E) (pr_repo p) (text_of (r_worktree r)) (text_of (r_branch r))) (\<lambda>_.
       on_db (\<lambda>_ db. Inr ((), record_event (r_project r) rid ''RECOVERY_SNAPSHOT_START_ABORTED'' ''WARNING'' []
         (en_clock E 2) (cancel_run (en_clock E 2) rid db)))))"

text \<open>\<^verbatim>\<open>UPDATE integration_executions SET status='FAILED' ... WHERE status='PREPARED'\<close>.\<close>

definition fail_prepared :: "string \<Rightarrow> string \<Rightarrow> string \<Rightarrow> txdb \<Rightarrow> txdb" where
  "fail_prepared now why rid db =
     db\<lparr>td_integrations := update_where (\<lambda>i. i_run i = rid \<and> i_status i = IPrepared)
       (\<lambda>i. i\<lparr>i_status := IFailed, i_failure := coalesce (i_failure i) (Some why),
              i_finished := coalesce (i_finished i) (Some now)\<rparr>) (td_integrations db)\<rparr>"

text \<open>The status is read before the transaction, whose update does not look at it again.\<close>

definition abort_commit :: "string \<Rightarrow> string \<Rightarrow> txdb \<Rightarrow> txdb" where
  "abort_commit now rid db =
     set_runs (\<lambda>r. r_id r = rid)
       (\<lambda>r. r\<lparr>r_status := RRecovering, r_recovery := Some RollbackSafe, r_heartbeat := Some now\<rparr>)
       (fail_prepared now ''Cancelled by ROLLBACK_SAFE recovery'' rid db)"

definition apply_rollback :: "'w env \<Rightarrow> string \<Rightarrow> evidence \<Rightarrow> ('w, unit) op" where
  "apply_rollback E rid ev =
     obind (cleanup_run_resources E rid) (\<lambda>_.
       if r_status (e_run ev) = RSnapshotting \<and> \<not> sn_present (e_snapshot ev) then rollback_without_snapshot E rid
       else obind (look (\<lambda>_ db. get_run db rid)) (\<lambda>(r, _).
         obind (if_op (r_status r = RCommitting)
           (on_db (\<lambda>_ db. Inr ((), abort_commit (en_clock E 2) rid db)))) (\<lambda>_.
         attempt (command_rollback (en_host E) (\<lambda>n. en_clock E (n + 3)) rid) (\<lambda>_. raise CommandFailed))))"

section \<open>Block\<close>

definition ensure_lock_for_block :: "string \<Rightarrow> tx_run \<Rightarrow> string \<Rightarrow> txdb \<Rightarrow> run_error + txdb" where
  "ensure_lock_for_block now r owner db =
     (case project_lock db (r_project r) of
        Some l \<Rightarrow> rbind (require (l_run l = r_id r) LockedByOther) (\<lambda>_. Inr db)
      | None \<Rightarrow>
          rbind (require (run_lock db (r_id r) = None) RunConflict) (\<lambda>_.
            Inr (db\<lparr>td_locks := td_locks db @
              [\<lparr>l_project = r_project r, l_run = r_id r,
                l_holder = (if text_of (r_owner r) \<noteq> [] then text_of (r_owner r) else owner),
                l_acquired = now, l_heartbeat = now\<rparr>]\<rparr>)))"

definition pending_approval :: "txdb \<Rightarrow> string \<Rightarrow> bool" where
  "pending_approval db rid = list_ex (\<lambda>a. ap_run a = rid \<and> ap_status a = APPending) (td_approvals db)"

definition latest_approval :: "txdb \<Rightarrow> string \<Rightarrow> tx_approval option" where
  "latest_approval db rid =
     (case sort_key ap_created (filter (\<lambda>a. ap_run a = rid \<and> ap_status a = APPending) (td_approvals db)) of
        [] \<Rightarrow> None | rows \<Rightarrow> Some (last rows))"

definition block_approval :: "string \<Rightarrow> string \<Rightarrow> string \<Rightarrow> txdb \<Rightarrow> run_error + (string \<times> txdb)" where
  "block_approval now apid rid db =
     (case latest_approval db rid of
        Some a \<Rightarrow> Inr (ap_id a, db)
      | None \<Rightarrow>
          rbind (require (list_all (\<lambda>a. ap_id a \<noteq> apid) (td_approvals db)) RunConflict) (\<lambda>_.
            Inr (apid, db\<lparr>td_approvals := td_approvals db @
              [new_approval apid rid ''Recovery state is ambiguous; choose a safe action.'' now]\<rparr>)))"

definition block_run :: "string \<Rightarrow> string \<Rightarrow> string \<Rightarrow> string \<Rightarrow> string list \<Rightarrow> txdb \<Rightarrow> run_error + (unit \<times> txdb)" where
  "block_run now apid owner rid reasons db =
     rbind (get_run db rid) (\<lambda>(r, _).
     rbind (ensure_lock_for_block now r owner db) (\<lambda>db1.
     rbind (block_approval now apid rid db1) (\<lambda>(aid, db2).
       Inr ((), record_event (r_project r) rid ''RECOVERY_BLOCKED_HUMAN'' ''CRITICAL''
         [(''approval_id'', JStr aid), (''reasons'', JArr (map JStr reasons))] now
         (touch_lock rid now
           (set_runs (\<lambda>r. r_id r = rid)
             (\<lambda>r. r\<lparr>r_status := RWaitingHuman, r_recovery := Some BlockHuman, r_heartbeat := Some now\<rparr>)
             (fail_prepared now ''Recovery requires human decision'' rid db2)))))))"

definition apply_block :: "'w env \<Rightarrow> string \<Rightarrow> string \<Rightarrow> string \<Rightarrow> evidence \<Rightarrow> ('w, unit) op" where
  "apply_block E apid owner rid ev =
     obind (cleanup_run_resources E rid) (\<lambda>_. on_db (\<lambda>_. block_run (en_clock E 2) apid owner rid (e_reasons ev)))"

section \<open>Recovery\<close>

datatype recovered = NothingToDo run_status | Recovered recovery_decision recovery_outcome run_status

text \<open>
  \<^verbatim>\<open>recover_run\<close>: \<open>vid\<close> and \<open>apid\<close> are fresh identifiers, \<open>expected\<close> is the decision an operator
  has chosen.
\<close>

definition apply_decision :: "'w env \<Rightarrow> string \<Rightarrow> string \<Rightarrow> string \<Rightarrow> evidence \<Rightarrow> recovery_decision \<Rightarrow> ('w, recovery_outcome) op" where
  "apply_decision E apid owner rid ev d =
     (case d of
        ResumeSafe \<Rightarrow> obind (apply_resume E rid ev) (\<lambda>_. give Resumed)
      | RollbackSafe \<Rightarrow> obind (apply_rollback E rid ev) (\<lambda>_. give RolledBack)
      | BlockHuman \<Rightarrow> obind (apply_block E apid owner rid ev) (\<lambda>_. give Blocked))"

definition stale_enough :: "'w env \<Rightarrow> int \<Rightarrow> string option \<Rightarrow> run_error + unit" where
  "stale_enough E stale heartbeat =
     (case en_age E heartbeat of
        None \<Rightarrow> Inl HeartbeatAbsent
      | Some age \<Rightarrow> require (stale * 1000000 \<le> age) NotStale)"

definition recover_run ::
  "'w env \<Rightarrow> string \<Rightarrow> string \<Rightarrow> string \<Rightarrow> string \<Rightarrow> int \<Rightarrow> bool \<Rightarrow> recovery_decision option \<Rightarrow> ('w, recovered) op" where
  "recover_run E vid apid rid owner stale force expected =
     obind (look (assess_run (en_host E) rid)) (\<lambda>ev.
     (case e_decision ev of
        NoAction \<Rightarrow> give (NothingToDo (r_status (e_run ev)))
      | Decide d \<Rightarrow>
          obind (check (expected = None \<or> expected = Some d) DecisionChanged) (\<lambda>_.
          obind (look (\<lambda>_ _. if force then Inr () else stale_enough E stale (r_heartbeat (e_run ev)))) (\<lambda>_.
          obind (on_db (\<lambda>_. insert_recovery (en_clock E 0) vid owner ev)) (\<lambda>_.
          obind (attempt
            (obind (apply_decision E apid owner rid ev d) (\<lambda>out.
             obind (on_db (\<lambda>_ db. Inr ((), finish_recovery (en_clock E 9) vid out False db))) (\<lambda>_. give out)))
            (\<lambda>e. obind (on_db (\<lambda>_ db. Inr ((), finish_recovery (en_clock E 9) vid RecoveryFailed True db))) (\<lambda>_. raise e)))
            (\<lambda>out. look (\<lambda>_ db. rbind (get_run db rid) (\<lambda>(r, _). Inr (Recovered d out (r_status r))))))))))"

section \<open>The sweep\<close>

definition active_statuses :: "run_status list" where
  "active_statuses = [RSnapshotting, RRunning, RReviewing, RWaitingHuman, RCommitting, RRecovering, RFailed]"

definition stale_run :: "'w env \<Rightarrow> int \<Rightarrow> tx_run \<Rightarrow> bool" where
  "stale_run E stale r \<longleftrightarrow> \<not> (case en_age E (r_heartbeat r) of None \<Rightarrow> False | Some age \<Rightarrow> age < stale * 1000000)"

text \<open>
  \<^verbatim>\<open>command_sweep\<close> before the orphans: the runs are read once, in the order of their creation, each
  recovery has its environment and identifiers, and an error ends the sweep.
\<close>

fun sweep_each :: "int \<Rightarrow> string \<Rightarrow> (('w env \<times> string \<times> string) \<times> string) list \<Rightarrow> ('w, recovered list) op" where
  "sweep_each stale owner [] = give []"
| "sweep_each stale owner (((E, vid, apid), rid) # rest) =
     obind (recover_run E vid apid rid owner stale False None) (\<lambda>r.
     obind (sweep_each stale owner rest) (\<lambda>rs. give (r # rs)))"

definition swept_runs :: "'w env \<Rightarrow> int \<Rightarrow> txdb \<Rightarrow> string list" where
  "swept_runs E stale db =
     map r_id (filter (stale_run E stale)
       (sort_key r_created (filter (\<lambda>r. r_status r \<in> set active_statuses) (td_runs db))))"

definition command_sweep :: "'w env \<Rightarrow> int \<Rightarrow> string \<Rightarrow> ('w env \<times> string \<times> string) list \<Rightarrow> ('w, recovered list) op" where
  "command_sweep E stale owner stamps =
     obind (look (\<lambda>_ db. Inr (swept_runs E stale db))) (\<lambda>rids. sweep_each stale owner (zip stamps rids))"

section \<open>Human decisions\<close>

text \<open>\<^verbatim>\<open>command_resolve\<close>: the decision an operator gives on a pending approval, by a recovery that expects it.\<close>

definition option_of_name :: "string \<Rightarrow> recovery_decision option" where
  "option_of_name s =
     (if s = ''RESUME_SAFE'' then Some ResumeSafe else if s = ''ROLLBACK_SAFE'' then Some RollbackSafe
      else if s = ''BLOCK_HUMAN'' then Some BlockHuman else None)"

definition command_resolve :: "'w env \<Rightarrow> string \<Rightarrow> string \<Rightarrow> string \<Rightarrow> string \<Rightarrow> string \<Rightarrow> ('w, recovered) op" where
  "command_resolve E vid apid owner approval decision =
     obind (look (\<lambda>_ db.
       case select_one (\<lambda>a. ap_id a = approval) (td_approvals db) of
         None \<Rightarrow> Inl UnknownApproval
       | Some a \<Rightarrow>
           rbind (require (ap_status a = APPending) ApprovalNotPending) (\<lambda>_.
           rbind (require (decision \<in> set (ap_options a)) DecisionNotAllowed) (\<lambda>_.
             (case option_of_name decision of None \<Rightarrow> Inl DecisionNotAllowed | Some d \<Rightarrow> Inr (ap_run a, d)))))) (\<lambda>(rid, d).
       recover_run E vid apid rid owner 300 True (Some d))"

end
