(* ===== verification/Run_Safety.thy ===== *)
theory Run_Safety
  imports Recovery_Actions Orch_System
begin

text \<open>
  What a recovery promises: it leaves the run in the state its decision names, and it moves the default
  branch only to the reviewed commit.
\<close>

section \<open>What the clean-ups keep\<close>

lemma prune_parents_keeps [op_keeps]:
  "quiet H Q \<Longrightarrow> keeps_world Q (prune_parents H path)"
  "keeps_db R (prune_parents H path)"
proof -
  have "(quiet H Q \<longrightarrow> Q (fst s) \<longrightarrow> Q (fst (fst (prune_parents H path s)))) \<and>
        snd (fst (prune_parents H path s)) = snd s" for s
  proof (induction H path s rule: prune_parents.induct)
    case (1 H path s)
    then show ?case
      by (subst (1 2) prune_parents.simps)
        (auto simp: quiet_def split: prod.split bool.split, (metis quiet_command.simps snd_conv)+)
  qed
  then show "quiet H Q \<Longrightarrow> keeps_world Q (prune_parents H path)" "keeps_db R (prune_parents H path)"
    by (simp_all add: keeps_world_def keeps_db_def)
qed

lemma remove_branch_keeps [op_keeps]:
  "quiet H Q \<Longrightarrow> keeps_world Q (remove_branch H repo branch)"
  "keeps_db R (remove_branch H repo branch)"
  by (rule keeps_choice [OF remove_branch_def [unfolded if_op_apply]]; simp add: op_keeps)+

lemma remove_worktree_keeps [op_keeps]:
  "quiet H Q \<Longrightarrow> keeps_world Q (remove_worktree H repo wt reg)"
  "keeps_db R (remove_worktree H repo wt reg)"
proof -
  let ?gone = "\<lambda>s. if_op (holds H (fst s) (PathExists wt)) (run_checked H (RemoveTree wt)) s"
  let ?there = "obind (run_ignored H (WorktreeUnlock repo wt)) (\<lambda>_. run_checked H (WorktreeRemove repo wt))"
  have "quiet H Q \<Longrightarrow> keeps_world Q ?gone" "keeps_db R ?gone"
    by (rule keeps_choice [OF if_op_apply]; simp add: op_keeps)+
  moreover have "quiet H Q \<Longrightarrow> keeps_world Q ?there" "keeps_db R ?there"
    by (simp_all add: op_keeps)
  ultimately show "quiet H Q \<Longrightarrow> keeps_world Q (remove_worktree H repo wt reg)"
    "keeps_db R (remove_worktree H repo wt reg)"
    by (simp_all add: keeps_world_def keeps_db_def remove_worktree_def)
qed

lemma cleanup_worktree_keeps [op_keeps]:
  "quiet H Q \<Longrightarrow> keeps_world Q (cleanup_worktree H repo wt branch)"
  "keeps_db R (cleanup_worktree H repo wt branch)"
  unfolding cleanup_worktree_def by (simp_all add: op_keeps)

lemma prune_clone_parents_keeps [op_keeps]:
  "quiet H Q \<Longrightarrow> keeps_world Q (prune_clone_parents H path root)"
  "keeps_db R (prune_clone_parents H path root)"
proof -
  have "(quiet H Q \<longrightarrow> Q (fst s) \<longrightarrow> Q (fst (fst (prune_clone_parents H path root s)))) \<and>
        snd (fst (prune_clone_parents H path root s)) = snd s" for s
  proof (induction H path root s rule: prune_clone_parents.induct)
    case (1 H path root s)
    then show ?case
      by (subst (1 2) prune_clone_parents.simps)
        (auto simp: quiet_def split: prod.split bool.split, (metis quiet_command.simps snd_conv)+)
  qed
  then show "quiet H Q \<Longrightarrow> keeps_world Q (prune_clone_parents H path root)"
    "keeps_db R (prune_clone_parents H path root)"
    by (simp_all add: keeps_world_def keeps_db_def)
qed

lemma remove_container_keeps [op_keeps]:
  "quiet H Q \<Longrightarrow> keeps_world Q (remove_host_container H name known)"
  "keeps_db R (remove_host_container H name known)"
  "quiet H Q \<Longrightarrow> keeps_world Q (remove_nested_container H cid t rq pf bs)"
  "keeps_db R (remove_nested_container H cid t rq pf bs)"
  by (auto simp: keeps_world_def keeps_db_def remove_host_container_def remove_nested_container_def
      run_ignored_def quiet_def split: option.split prod.split) (metis quiet_command.simps snd_conv)+

lemma remove_files_keeps [op_keeps]:
  "quiet H Q \<Longrightarrow> keeps_world Q (remove_profile H name)"
  "keeps_db R (remove_profile H name)"
  by (auto simp: keeps_world_def keeps_db_def remove_profile_def run_checked_def quiet_def Let_def
      split: prod.split) (metis quiet_command.simps snd_conv)+

lemma remove_clone_tree_keeps [op_keeps]:
  "quiet H Q \<Longrightarrow> keeps_world Q (remove_clone_tree H kind project rid)"
  "keeps_db R (remove_clone_tree H kind project rid)"
proof -
  let ?path = "h_resolve H (path_join (path_join (clone_root H kind) project) rid)"
  let ?m = "obind (run_checked H (RemoveTree ?path)) (\<lambda>_.
    prune_clone_parents H (h_resolve H (parent_dir ?path)) (h_resolve H (clone_root H kind)))"
  have m: "quiet H Q \<Longrightarrow> keeps_world Q ?m" "keeps_db R ?m"
    by (simp_all add: op_keeps)
  then show "quiet H Q \<Longrightarrow> keeps_world Q (remove_clone_tree H kind project rid)"
    "keeps_db R (remove_clone_tree H kind project rid)"
    by (auto simp: keeps_world_def keeps_db_def remove_clone_tree_def Let_def)
qed

lemma each_op_keeps [op_keeps]:
  "(\<And>x. keeps_world Q (f x)) \<Longrightarrow> keeps_world Q (each_op f xs)"
  "(\<And>x. keeps_db R (f x)) \<Longrightarrow> keeps_db R (each_op f xs)"
  by (induction xs) (simp_all add: op_keeps)

lemma remove_agent_keeps [op_keeps]:
  "quiet H Q \<Longrightarrow> keeps_world Q (remove_agent H g)" "keeps_db R (remove_agent H g)"
  unfolding remove_agent_def Let_def by (simp_all add: op_keeps)

lemma keeps_prod [op_keeps]:
  "(\<And>a b. keeps_world Q (f a b)) \<Longrightarrow> keeps_world Q (case x of (a, b) \<Rightarrow> f a b)"
  "(\<And>a b. keeps_db R (f a b)) \<Longrightarrow> keeps_db R (case x of (a, b) \<Rightarrow> f a b)"
  by (simp_all split: prod.split)

text \<open>The tables a removal of resources does not write.\<close>

definition run_tables where
  "run_tables db = (td_projects db, td_runs db, td_locks db, td_snapshots db, td_approvals db,
     td_integrations db, td_recoveries db)"

lemma run_tables_eq:
  "run_tables db' = run_tables db \<Longrightarrow>
     td_runs db' = td_runs db \<and> td_locks db' = td_locks db \<and> td_approvals db' = td_approvals db \<and>
     td_integrations db' = td_integrations db \<and> td_projects db' = td_projects db \<and>
     td_snapshots db' = td_snapshots db"
  by (simp add: run_tables_def)

lemma close_executions_tables:
  "close_executions lib stamps now rid db = Inr (u, db') \<Longrightarrow> run_tables db' = run_tables db"
  by (auto simp: close_executions_def run_tables_def split: sum.split_asm)

lemma cleanup_run_keeps [op_keeps]:
  "quiet (en_host E) Q \<Longrightarrow> keeps_world Q (cleanup_run_resources E rid)"
  "keeps_db (\<lambda>db. run_tables db = t) (cleanup_run_resources E rid)"
proof -
  have "keeps_db (\<lambda>db. run_tables db = t) (on_db (\<lambda>_. close_executions (en_lib E) (en_stamps E) (en_clock E 1) rid))"
    by (rule keeps_on_db) (simp add: close_executions_tables)
  then show "keeps_db (\<lambda>db. run_tables db = t) (cleanup_run_resources E rid)"
    unfolding cleanup_run_resources_def Let_def by (intro op_keeps)
qed (simp add: cleanup_run_resources_def Let_def op_keeps)

lemma cleanup_run_tables: "cleanup_run_resources E rid s = (s', r) \<Longrightarrow> run_tables (snd s') = run_tables (snd s)"
  using keeps_dbD [OF cleanup_run_keeps(2)] by blast

lemma cleanup_worktree_db: "cleanup_worktree H repo wt branch s = (s', r) \<Longrightarrow> snd s' = snd s"
  using keeps_dbD [OF cleanup_worktree_keeps(2) [where R = "\<lambda>db. db = snd s"]] by blast

lemma lookups_cong:
  "run_tables db' = run_tables db \<Longrightarrow> tx_run_with db' rid = tx_run_with db rid"
  "run_tables db' = run_tables db \<Longrightarrow> get_run db' rid = get_run db rid"
  "run_tables db' = run_tables db \<Longrightarrow> run_lock db' rid = run_lock db rid"
  "run_tables db' = run_tables db \<Longrightarrow> latest_integration db' rid = latest_integration db rid"
  by (simp_all add: tx_run_with_def get_run_def project_with_def run_lock_def latest_integration_def run_tables_def
      cong: option.case_cong)

section \<open>The states a recovery ends in\<close>

definition given_up :: "string \<Rightarrow> txdb \<Rightarrow> bool" where
  "given_up rid db \<longleftrightarrow>
     (\<forall>r \<in> set (td_runs db). r_id r = rid \<longrightarrow> r_status r = RCancelled) \<and>
     rid \<notin> fst ` set (lock_keys db) \<and> \<not> pending_approval db rid"

definition held_for_human :: "string \<Rightarrow> txdb \<Rightarrow> bool" where
  "held_for_human rid db \<longleftrightarrow>
     (\<exists>r. tx_run_with db rid = Some r \<and> r_status r = RWaitingHuman \<and> r_recovery r = Some BlockHuman \<and>
        (rid, r_project r) \<in> set (lock_keys db)) \<and>
     pending_approval db rid \<and>
     (\<forall>i \<in> set (td_integrations db). i_run i = rid \<longrightarrow> i_status i \<noteq> IPrepared)"

definition integrated_run :: "string \<Rightarrow> txdb \<Rightarrow> bool" where
  "integrated_run rid db \<longleftrightarrow>
     (\<exists>r c. tx_run_with db rid = Some r \<and> r_status r = RCompleted \<and> r_result r = Some c \<and>
        (\<exists>i \<in> set (td_integrations db). i_run i = rid \<and> i_status i = ICompleted \<and> i_main_after i = c)) \<and>
     rid \<notin> fst ` set (lock_keys db)"

lemma get_run_Inr: "get_run db rid = Inr (r, p) \<Longrightarrow> tx_run_with db rid = Some r \<and> r_id r = rid"
  by (auto simp: get_run_def tx_run_with_def dest!: select_one_Some split: option.split_asm)

lemma update_where_all:
  "(\<And>r. r \<in> set rows \<Longrightarrow> P (if c r then f r else r)) \<Longrightarrow> \<forall>r \<in> set (update_where c f rows). P r"
  unfolding update_where_def set_map by blast

lemma not_pending: "\<not> pending_approval db rid \<longleftrightarrow> (\<forall>a \<in> set (td_approvals db). \<not> (ap_run a = rid \<and> ap_status a = APPending))"
  by (auto simp: pending_approval_def list_ex_iff)

lemma cancel_run_given_up: "given_up rid (cancel_run now rid db)"
proof -
  have "\<forall>a \<in> set (td_approvals (cancel_approvals rid now db)). \<not> (ap_run a = rid \<and> ap_status a = APPending)"
    unfolding cancel_approvals_def by (simp, rule update_where_all) simp
  moreover have "\<forall>r \<in> set (td_runs (cancel_run now rid db)). r_id r = rid \<longrightarrow> r_status r = RCancelled"
    unfolding cancel_run_def set_runs_def by (simp, rule update_where_all) simp
  moreover have "td_approvals (cancel_run now rid db) = td_approvals (cancel_approvals rid now db)"
    "rid \<notin> fst ` set (lock_keys (cancel_run now rid db))"
    by (auto simp: cancel_run_def)
  ultimately show ?thesis
    by (simp add: given_up_def not_pending)
qed

lemma given_up_cong:
  "td_runs db' = td_runs db \<Longrightarrow> td_locks db' = td_locks db \<Longrightarrow> td_approvals db' = td_approvals db \<Longrightarrow>
     given_up rid db' = given_up rid db"
  by (simp add: given_up_def pending_approval_def lock_keys_def)

lemma rollback_finish_given_up: "given_up rid (rollback_finish now project rid db)"
  using cancel_run_given_up [of rid now db] by (simp add: rollback_finish_def given_up_def pending_approval_def)

lemma command_rollback_given_up: "command_rollback H clock rid s = (s', Inr u) \<Longrightarrow> given_up rid (snd s')"
  unfolding command_rollback_def by (clarsimp simp: op_results split: prod.split_asm) (rule rollback_finish_given_up)

lemma fail_prepared_frames [simp]:
  "td_runs (fail_prepared now why rid db) = td_runs db" "td_locks (fail_prepared now why rid db) = td_locks db"
  "td_approvals (fail_prepared now why rid db) = td_approvals db"
  "td_projects (fail_prepared now why rid db) = td_projects db"
  by (simp_all add: fail_prepared_def)

lemma fail_prepared_none:
  "\<forall>i \<in> set (td_integrations (fail_prepared now why rid db)). i_run i = rid \<longrightarrow> i_status i \<noteq> IPrepared"
  unfolding fail_prepared_def by (simp, rule update_where_all) simp

lemma lock_keys_runs [simp]: "lock_keys (db\<lparr>td_runs := v\<rparr>) = lock_keys db"
  by (simp add: lock_keys_def)

lemma lock_keys_fail_prepared [simp]: "lock_keys (fail_prepared now why rid db) = lock_keys db"
  by (simp add: lock_keys_def)

lemma ensure_lock:
  assumes "ensure_lock_for_block now r owner db = Inr db'"
  shows "(r_id r, r_project r) \<in> set (lock_keys db')" "td_runs db' = td_runs db" "td_approvals db' = td_approvals db"
    "td_integrations db' = td_integrations db" "td_projects db' = td_projects db"
    "set (lock_keys db') \<subseteq> insert (r_id r, r_project r) (set (lock_keys db))"
proof -
  have "td_runs db' = td_runs db \<and> td_approvals db' = td_approvals db \<and> td_integrations db' = td_integrations db \<and>
    td_projects db' = td_projects db \<and> (r_id r, r_project r) \<in> set (lock_keys db') \<and>
    set (lock_keys db') \<subseteq> insert (r_id r, r_project r) (set (lock_keys db))"
    using assms
    by (auto simp: ensure_lock_for_block_def lock_keys_def project_lock_def require_def image_iff
        dest!: select_one_Some split: option.split_asm if_split_asm) force
  then show "(r_id r, r_project r) \<in> set (lock_keys db')" "td_runs db' = td_runs db" "td_approvals db' = td_approvals db"
    "td_integrations db' = td_integrations db" "td_projects db' = td_projects db"
    "set (lock_keys db') \<subseteq> insert (r_id r, r_project r) (set (lock_keys db))"
    by auto
qed

lemma pending_approval_cong:
  "td_approvals db' = td_approvals db \<Longrightarrow> pending_approval db' rid = pending_approval db rid"
  by (simp add: pending_approval_def)

lemma tx_run_with_cong: "td_runs db' = td_runs db \<Longrightarrow> tx_run_with db' rid = tx_run_with db rid"
  by (simp add: tx_run_with_def)

lemma latest_approval_pending: "latest_approval db rid = Some a \<Longrightarrow> pending_approval db rid"
proof -
  assume "latest_approval db rid = Some a"
  then have "sort_key ap_created (filter (\<lambda>a. ap_run a = rid \<and> ap_status a = APPending) (td_approvals db)) \<noteq> []"
    by (auto simp: latest_approval_def)
  then have "filter (\<lambda>a. ap_run a = rid \<and> ap_status a = APPending) (td_approvals db) \<noteq> []"
    by (metis set_empty set_sort)
  then show ?thesis by (auto simp: pending_approval_def filter_empty_conv list_ex_iff)
qed

lemma block_approval:
  assumes "block_approval now apid rid db = Inr (aid, db')"
  shows "pending_approval db' rid" "td_runs db' = td_runs db" "lock_keys db' = lock_keys db"
    "td_integrations db' = td_integrations db" "td_projects db' = td_projects db"
  using assms
  by (auto simp: block_approval_def require_def lock_keys_def dest: latest_approval_pending
      split: option.split_asm if_split_asm) (simp add: pending_approval_def new_approval_def)

lemma block_run_holds:
  assumes "block_run now apid owner rid reasons db = Inr (u, db')"
  shows "held_for_human rid db'"
proof -
  let ?set = "\<lambda>r. r\<lparr>r_status := RWaitingHuman, r_recovery := Some BlockHuman, r_heartbeat := Some now\<rparr>"
  obtain r p db1 db2 aid where r: "get_run db rid = Inr (r, p)"
    and lock: "ensure_lock_for_block now r owner db = Inr db1"
    and approval: "block_approval now apid rid db1 = Inr (aid, db2)"
    and db': "db' = record_event (r_project r) rid ''RECOVERY_BLOCKED_HUMAN'' ''CRITICAL''
         [(''approval_id'', JStr aid), (''reasons'', JArr (map JStr reasons))] now
         (touch_lock rid now (set_runs (\<lambda>r. r_id r = rid) ?set
             (fail_prepared now ''Recovery requires human decision'' rid db2)))"
    using assms by (auto simp: block_run_def split: prod.split_asm)
  have rid: "r_id r = rid" "tx_run_with db2 rid = Some r"
    using get_run_Inr [OF r] ensure_lock(2) [OF lock] block_approval(2) [OF approval]
    by (simp_all add: tx_run_with_def)
  have "td_runs db' = td_runs (set_runs (\<lambda>r. r_id r = rid) ?set db2)"
    by (simp add: db' set_runs_def)
  then have "tx_run_with db' rid = Some (?set r)"
    using tx_run_with_set_runs [of ?set "\<lambda>r. r_id r = rid" db2 rid] rid by (simp add: tx_run_with_def)
  moreover have "(rid, r_project r) \<in> set (lock_keys db')"
    using ensure_lock(1) [OF lock] rid(1) block_approval(3) [OF approval] by (simp add: db')
  moreover have "pending_approval db' rid"
    using block_approval(1) [OF approval] by (simp add: db' pending_approval_def)
  moreover have "\<forall>i \<in> set (td_integrations db'). i_run i = rid \<longrightarrow> i_status i \<noteq> IPrepared"
    using fail_prepared_none by (simp add: db')
  ultimately show ?thesis
    by (simp add: held_for_human_def)
qed

lemma latest_integration_in:
  "latest_integration db rid = Some i \<Longrightarrow> i \<in> set (td_integrations db) \<and> i_run i = rid"
proof -
  let ?rows = "sort_key i_created (filter (\<lambda>i. i_run i = rid) (td_integrations db))"
  assume "latest_integration db rid = Some i"
  then have "?rows \<noteq> []" "i = last ?rows"
    by (cases ?rows; simp add: latest_integration_def)+
  then have "i \<in> set ?rows" by (metis last_in_set)
  then have "i \<in> set (filter (\<lambda>i. i_run i = rid) (td_integrations db))" by (simp only: set_sort)
  then show ?thesis by simp
qed

lemma complete_integrations_Inr:
  assumes "complete_integrations c f db = Inr db'"
  shows "\<exists>j \<in> set (td_integrations db). c j \<and> f j \<in> set (td_integrations db')"
    "td_runs db' = td_runs db" "lock_keys db' = lock_keys db" "td_projects db' = td_projects db"
    "td_approvals db' = td_approvals db"
  using assms by (auto simp: complete_integrations_def require_def Let_def list_ex_iff lock_keys_def update_where_def
      split: if_split_asm)

lemma fast_forward_db: "fast_forward H r p s = (s', x) \<Longrightarrow> snd s' = snd s"
proof -
  have "keeps_db (\<lambda>db. db = snd s) (fast_forward H r p)"
    unfolding fast_forward_def by (intro op_keeps)
  then show "fast_forward H r p s = (s', x) \<Longrightarrow> snd s' = snd s"
    using keeps_dbD by blast
qed

lemma resume_finish_integrated:
  assumes "resume_finish now iid run main db = Inr (u, db')" "i \<in> set (td_integrations db)" "i_id i = iid"
    and "i_run i = r_id run" "distinct (map i_id (td_integrations db))" "r_result run = Some main"
    and "tx_run_with db (r_id run) = Some run"
  shows "integrated_run (r_id run) db'"
proof -
  let ?f = "\<lambda>i. i\<lparr>i_status := ICompleted, i_main_after := main, i_failure := None, i_finished := Some now\<rparr>"
  let ?set = "\<lambda>r. r\<lparr>r_status := RCompleted, r_recovery := Some ResumeSafe, r_finished := Some now, r_heartbeat := Some now\<rparr>"
  obtain db1 where c: "complete_integrations (\<lambda>i. i_id i = iid \<and> i_status i \<in> {IPrepared, IFailed}) ?f db = Inr db1"
    and db': "db' = record_event (r_project run) (r_id run) ''RECOVERY_INTEGRATION_COMPLETED'' ''INFO''
         [(''integration_id'', JStr iid), (''result_commit'', JStr main)] now
         (set_runs (\<lambda>r. r_id r = r_id run) ?set (drop_lock (r_id run) db1))"
    using assms(1) by (auto simp: resume_finish_def)
  obtain j where j: "j \<in> set (td_integrations db)" "i_id j = iid" "?f j \<in> set (td_integrations db1)"
    using complete_integrations_Inr(1) [OF c] by auto
  with assms(2,3,5) have "j = i"
    by (metis distinct_map inj_onD)
  with j(3) assms(4) have "\<exists>i \<in> set (td_integrations db'). i_run i = r_id run \<and> i_status i = ICompleted \<and> i_main_after i = main"
    by (intro bexI [of _ "?f j"]) (simp_all add: db')
  moreover have "tx_run_with db' (r_id run) = Some (?set run)"
    using tx_run_with_set_runs [of ?set "\<lambda>r. r_id r = r_id run" "drop_lock (r_id run) db1" "r_id run"] assms(7)
      complete_integrations_Inr(2) [OF c]
    by (simp add: db' tx_run_with_def)
  ultimately show ?thesis
    using assms(6) by (auto simp: integrated_run_def db')
qed

lemma resume_integration_integrated:
  assumes "resume_integration E rid s = (s', Inr u)" "distinct (map i_id (td_integrations (snd s)))"
  shows "integrated_run rid (snd s')"
proof -
  obtain r p i main s1 s2 db' where r: "get_run (snd s) rid = Inr (r, p)" and i: "latest_integration (snd s) rid = Some i"
    and ff: "fast_forward (en_host E) r p s = (s1, Inr main)" and main: "Some main = r_result r"
    and cl: "cleanup_worktree (en_host E) (pr_repo p) (text_of (r_worktree r)) (text_of (r_branch r)) s1 = (s2, Inr ())"
    and fin: "resume_finish (en_clock E 2) (i_id i) r main (snd s2) = Inr (u, db')" and s': "snd s' = db'"
    using assms(1)
    by (auto simp: resume_integration_def Let_def op_results split: option.split_asm prod.split_asm)
  have "snd s2 = snd s"
    using fast_forward_db [OF ff] cleanup_worktree_db [OF cl] by simp
  moreover have "r_id r = rid" "tx_run_with (snd s) rid = Some r"
    using get_run_Inr [OF r] by auto
  ultimately show ?thesis
    using resume_finish_integrated [OF fin, of i] latest_integration_in [OF i] assms(2) main s' by simp
qed

section \<open>Recoveries\<close>

lemma settled_frames [simp]:
  "given_up rid (db\<lparr>td_recoveries := v\<rparr>) = given_up rid db"
  "held_for_human rid (db\<lparr>td_recoveries := v\<rparr>) = held_for_human rid db"
  "integrated_run rid (db\<lparr>td_recoveries := v\<rparr>) = integrated_run rid db"
  "tx_run_with (db\<lparr>td_recoveries := v\<rparr>) rid = tx_run_with db rid"
  "get_run (db\<lparr>td_recoveries := v\<rparr>) rid = get_run db rid"
  "lock_keys (db\<lparr>td_recoveries := v\<rparr>) = lock_keys db"
  by (simp_all add: given_up_def held_for_human_def integrated_run_def pending_approval_def lock_keys_def
      tx_run_with_def get_run_def project_with_def cong: option.case_cong)

definition recovery_settled :: "tx_run \<Rightarrow> recovery_decision \<Rightarrow> recovery_outcome \<Rightarrow> run_status \<Rightarrow> txdb \<Rightarrow> bool" where
  "recovery_settled r d out st db =
     (case d of
        ResumeSafe \<Rightarrow> out = Resumed \<and>
          (if r_status r \<in> {RRunning, RReviewing} then st = r_status r \<and> r_id r \<in> fst ` set (lock_keys db)
           else st = RCompleted \<and> integrated_run (r_id r) db)
      | RollbackSafe \<Rightarrow> out = RolledBack \<and> st = RCancelled \<and> given_up (r_id r) db
      | BlockHuman \<Rightarrow> out = Blocked \<and> st = RWaitingHuman \<and> held_for_human (r_id r) db)"

lemma assess_run_Inr:
  assumes "assess_run H rid w db = Inr ev"
  shows "tx_run_with db rid = Some (e_run ev)" "r_id (e_run ev) = rid"
    "r_status (e_run ev) \<in> {RCompleted, RCancelled} \<longleftrightarrow> e_decision ev = NoAction"
    "e_decision ev = Decide ResumeSafe \<Longrightarrow> r_status (e_run ev) \<noteq> RCommitting \<Longrightarrow> rid \<in> fst ` set (lock_keys db)"
proof -
  obtain r p sn g where r: "get_run db rid = Inr (r, p)"
    and ev: "ev = assess_evidence r (run_lock db rid) sn g (latest_integration db rid)"
    using assms by (auto simp: assess_run_def)
  have e: "e_run ev = r" by (simp add: ev assess_evidence_def split: prod.split)
  then show "tx_run_with db rid = Some (e_run ev)" "r_id (e_run ev) = rid"
    using get_run_Inr [OF r] by auto
  show "r_status (e_run ev) \<in> {RCompleted, RCancelled} \<longleftrightarrow> e_decision ev = NoAction"
    by (auto simp: e) (auto simp: ev assess_evidence_def decide_run_def split: prod.splits if_split_asm)
  assume "e_decision ev = Decide ResumeSafe" "r_status (e_run ev) \<noteq> RCommitting"
  then have "run_lock db rid \<noteq> None"
    by (auto simp: e) (auto simp: ev assess_evidence_def split: prod.splits if_split_asm)
  then show "rid \<in> fst ` set (lock_keys db)"
    by (auto simp: run_lock_def lock_keys_def image_iff dest!: select_one_Some)
qed

lemma apply_resume_settles:
  assumes "apply_resume E rid ev s = (s', Inr u)" "tx_run_with (snd s) rid = Some (e_run ev)"
    and "distinct (map i_id (td_integrations (snd s)))"
    and "r_status (e_run ev) \<noteq> RCommitting \<Longrightarrow> rid \<in> fst ` set (lock_keys (snd s))"
    and "tx_run_with (snd s') rid = Some r'" and "r_id (e_run ev) = rid"
  shows "recovery_settled (e_run ev) ResumeSafe Resumed (r_status r') (snd s')"
proof -
  obtain s1 where cl: "cleanup_run_resources E rid s = (s1, Inr ())"
    and rest: "(if r_status (e_run ev) \<in> {RRunning, RReviewing}
       then on_db (\<lambda>_. mark_resumable (en_clock E 2) rid (r_status (e_run ev)))
       else if r_status (e_run ev) \<notin> {RCommitting, RRecovering} then raise CannotResume
       else resume_integration E rid) s1 = (s', Inr u)"
    using assms(1) by (auto simp: apply_resume_def op_results)
  have t: "run_tables (snd s1) = run_tables (snd s)"
    by (rule cleanup_run_tables [OF cl])
  show ?thesis
  proof (cases "r_status (e_run ev) \<in> {RRunning, RReviewing}")
    case True
    let ?set = "\<lambda>r. r\<lparr>r_recovery := Some ResumeSafe, r_heartbeat := Some (en_clock E 2)\<rparr>"
    have "tx_run_with (snd s1) rid = Some (e_run ev)"
      using assms(2) lookups_cong(1) [OF t] by simp
    moreover from rest True have
      "td_runs (snd s') = td_runs (set_runs (\<lambda>r. r_id r = rid \<and> r_status r = r_status (e_run ev)) ?set (snd s1))"
      and k: "lock_keys (snd s') = lock_keys (snd s1)"
      by (auto simp: op_results mark_resumable_def set_runs_def)
    ultimately have "tx_run_with (snd s') rid = Some (?set (e_run ev)) \<or> tx_run_with (snd s') rid = Some (e_run ev)"
      using tx_run_with_set_runs [of ?set "\<lambda>r. r_id r = rid \<and> r_status r = r_status (e_run ev)" "snd s1" rid]
      by (auto simp: tx_run_with_def)
    then have "r_status r' = r_status (e_run ev)"
      using assms(5) by auto
    moreover have "lock_keys (snd s1) = lock_keys (snd s)"
      using run_tables_eq [OF t] by (simp add: lock_keys_def)
    ultimately show ?thesis
      using assms(4,6) True k by (auto simp: recovery_settled_def)
  next
    case False
    then have "resume_integration E rid s1 = (s', Inr u)"
      using rest by (auto simp: op_results split: if_split_asm)
    then have "integrated_run rid (snd s')"
      using resume_integration_integrated assms(3) run_tables_eq [OF t] by metis
    then show ?thesis
      using False assms(5,6) by (auto simp: recovery_settled_def integrated_run_def)
  qed
qed

lemma given_up_event [simp]: "given_up rid (record_event p rid' k sev pl now db) = given_up rid db"
  by (simp add: given_up_def pending_approval_def)

lemma apply_rollback_given_up:
  assumes "apply_rollback E rid ev s = (s', Inr u)"
  shows "given_up rid (snd s')"
  using assms unfolding apply_rollback_def
  by (auto simp: op_results rollback_without_snapshot_def cancel_run_given_up
      dest: command_rollback_given_up split: if_split_asm)

lemma apply_block_holds:
  "apply_block E apid owner rid ev s = (s', Inr u) \<Longrightarrow> held_for_human rid (snd s')"
  unfolding apply_block_def by (auto simp: op_results dest: block_run_holds)

lemma insert_recovery_frame:
  "insert_recovery now vid owner ev db = Inr (u, db') \<Longrightarrow> \<exists>v. db' = db\<lparr>td_recoveries := v\<rparr>"
  by (auto simp: insert_recovery_def split: assessment.split_asm)

lemma recover_run_cases:
  assumes "recover_run E vid apid rid owner stale force expected s = (s', Inr (Recovered d out st))"
  obtains ev v s2 r' p' where
    "assess_run (en_host E) rid (fst s) (snd s) = Inr ev" "e_decision ev = Decide d"
    "expected = None \<or> expected = Some d"
    "apply_decision E apid owner rid ev d (fst s, (snd s)\<lparr>td_recoveries := v\<rparr>) = (s2, Inr out)"
    "s' = (fst s2, finish_recovery (en_clock E 9) vid out False (snd s2))"
    "get_run (snd s2) rid = Inr (r', p')" "st = r_status r'"
proof -
  from assms obtain ev where ev: "assess_run (en_host E) rid (fst s) (snd s) = Inr ev"
    unfolding recover_run_def op_results by auto
  show ?thesis
  proof (cases "e_decision ev")
    case NoAction
    with assms ev show ?thesis by (auto simp: recover_run_def op_results)
  next
    case (Decide d')
    with assms ev obtain db1 s2 where r: "expected = None \<or> expected = Some d'" "d' = d"
      "insert_recovery (en_clock E 0) vid owner ev (snd s) = Inr ((), db1)"
      "apply_decision E apid owner rid ev d (fst s, db1) = (s2, Inr out)"
      "s' = (fst s2, finish_recovery (en_clock E 9) vid out False (snd s2))"
      "\<exists>r' p'. get_run (snd s') rid = Inr (r', p') \<and> st = r_status r'"
      by (auto simp: recover_run_def op_results)
    moreover obtain v where "db1 = (snd s)\<lparr>td_recoveries := v\<rparr>"
      using insert_recovery_frame r(3) by blast
    moreover have "get_run (snd s') rid = get_run (snd s2) rid"
      using r(5) by (simp add: finish_recovery_def)
    ultimately show ?thesis
      using that ev Decide by metis
  qed
qed

text \<open>
  C12: a recovery that returns leaves the run in the state its decision names. A resumed run keeps its
  status and its lock, or is COMPLETED with its integration and without lock; a run rolled back is
  CANCELLED, without lock and without pending approval; a blocked run waits for a human, holds the
  lock of its project, has a pending approval and no prepared integration.
\<close>

theorem recovery_settles:
  assumes "recover_run E vid apid rid owner stale force expected (w, db) = ((w', db'), Inr (Recovered d out st))"
    and "distinct (map i_id (td_integrations db))"
  shows "\<exists>r. tx_run_with db rid = Some r \<and> r_status r \<notin> {RCompleted, RCancelled} \<and>
    recovery_settled r d out st db'"
proof -
  obtain ev v s2 r' p' where ev: "assess_run (en_host E) rid w db = Inr ev" "e_decision ev = Decide d"
    and ap: "apply_decision E apid owner rid ev d (w, db\<lparr>td_recoveries := v\<rparr>) = (s2, Inr out)"
    and db': "db' = finish_recovery (en_clock E 9) vid out False (snd s2)"
    and r': "tx_run_with (snd s2) rid = Some r'" "st = r_status r'" "r_id r' = rid"
    by (rule recover_run_cases [OF assms(1)]) (auto dest: get_run_Inr)
  have r: "tx_run_with db rid = Some (e_run ev)" "r_id (e_run ev) = rid"
    "r_status (e_run ev) \<notin> {RCompleted, RCancelled}"
    using assess_run_Inr(1-3) [OF ev(1)] ev(2) by auto
  have "recovery_settled (e_run ev) d out st (snd s2)"
  proof (cases d)
    case ResumeSafe
    then have "apply_resume E rid ev (w, db\<lparr>td_recoveries := v\<rparr>) = (s2, Inr ())" "out = Resumed"
      using ap by (auto simp: apply_decision_def op_results)
    with apply_resume_settles [OF this(1) _ _ _ r'(1) r(2)] assess_run_Inr(4) [OF ev(1)] ev(2) assms(2) r ResumeSafe r'(2)
    show ?thesis by simp
  next
    case RollbackSafe
    then have "given_up rid (snd s2)" "out = RolledBack"
      using ap by (auto simp: apply_decision_def op_results dest: apply_rollback_given_up)
    moreover have "r' \<in> set (td_runs (snd s2))"
      using r'(1) by (auto simp: tx_run_with_def dest: select_one_Some)
    ultimately show ?thesis
      using RollbackSafe r r' by (auto simp: recovery_settled_def given_up_def)
  next
    case BlockHuman
    then have "held_for_human rid (snd s2)" "out = Blocked"
      using ap by (auto simp: apply_decision_def op_results dest: apply_block_holds)
    then show ?thesis
      using BlockHuman r r' by (auto simp: recovery_settled_def held_for_human_def)
  qed
  then have "recovery_settled (e_run ev) d out st db'"
    by (simp add: recovery_settled_def db' finish_recovery_def split: recovery_decision.splits)
  with r show ?thesis by blast
qed

section \<open>The default branch\<close>

text \<open>
  What git documents of the head of a repository: a command other than \<^verbatim>\<open>worktree add\<close> at its own path
  leaves it, makes it unreadable, or is the fast-forward that moves it to the commit given.
\<close>

definition git_law :: "'w host \<Rightarrow> string \<Rightarrow> bool" where
  "git_law H repo \<longleftrightarrow>
     (\<forall>w c. (\<forall>r b base. c \<noteq> WorktreeAdd r b repo base) \<longrightarrow>
        h_ask H (snd (h_run H w c)) (RevParseHead repo) \<in>
          {None, h_ask H w (RevParseHead repo)} \<union>
          {head. \<exists>commit. c = MergeFastForward repo commit \<and> head = Some commit})"

definition head_in :: "'w host \<Rightarrow> string \<Rightarrow> string set \<Rightarrow> 'w \<Rightarrow> bool" where
  "head_in H repo heads w \<longleftrightarrow> (\<forall>h. h_ask H w (RevParseHead repo) = Some h \<longrightarrow> h \<in> heads)"

lemma quiet_head: "git_law H repo \<Longrightarrow> quiet H (head_in H repo heads)"
proof -
  assume law: "git_law H repo"
  have "head_in H repo heads (snd (h_run H w c))" if "quiet_command c" "head_in H repo heads w" for w c
    using law [unfolded git_law_def, rule_format, of c w] that by (cases c) (auto simp: head_in_def)
  then show ?thesis by (auto simp: quiet_def)
qed

lemma merge_head:
  assumes "git_law H repo" "head_in H repo heads w"
  shows "head_in H repo (insert commit heads) (snd (h_run H w (MergeFastForward repo commit)))"
  using assms(1) [unfolded git_law_def, rule_format, of "MergeFastForward repo commit" w] assms(2)
  by (auto simp: head_in_def)

lemma head_in_mono: "head_in H repo heads w \<Longrightarrow> heads \<subseteq> heads' \<Longrightarrow> head_in H repo heads' w"
  by (auto simp: head_in_def)

lemma obind_world:
  assumes "\<And>s1 e. m s = (s1, Inl e) \<Longrightarrow> Q (fst s1)" "\<And>s1 x. m s = (s1, Inr x) \<Longrightarrow> Q (fst (fst (f x s1)))"
  shows "Q (fst (fst (obind m f s)))"
  using assms by (cases "m s"; cases "snd (m s)") (auto simp: obind_def)

lemma keeps_at: "keeps_world Q m \<Longrightarrow> Q (fst s) \<Longrightarrow> Q (fst (fst (m s)))"
  unfolding keeps_world_def by blast

lemma run_checked_world: "fst (fst (run_checked H c s)) = snd (h_run H (fst s) c)"
  by (simp add: run_checked_def split: prod.split)

lemma obind_ask_world: "fst (fst (obind m (\<lambda>_. ask H q) s)) = fst (fst (m s))"
  by (simp add: obind_def ask_def look_def split: prod.split sum.split)

lemma fast_forward_head:
  assumes "git_law H (pr_repo p)" "head_in H (pr_repo p) {h} (fst s)"
  shows "head_in H (pr_repo p) ({h} \<union> (if r_base r = Some h then {text_of (r_result r)} else {})) (fst (fst (fast_forward H r p s)))"
proof (cases "h_ask H (fst s) (RevParseHead (pr_repo p)) = Some h \<and> r_base r = Some h")
  case True
  let ?c = "MergeFastForward (pr_repo p) (text_of (r_result r))"
  have "ask H (RevParseHead (pr_repo p)) s = (s, Inr h)"
    using True by (simp add: ask_def look_def)
  then have "fast_forward H r p s = obind (run_checked H ?c) (\<lambda>_. ask H (RevParseHead (pr_repo p))) s"
    unfolding fast_forward_def using True by (subst obind_def) simp
  then have "fst (fst (fast_forward H r p s)) = snd (h_run H (fst s) ?c)"
    by (simp add: obind_ask_world run_checked_world)
  then show ?thesis
    using merge_head [OF assms, of "text_of (r_result r)"] True by (simp add: insert_commute)
next
  case False
  have "fst (fst (fast_forward H r p s)) = fst s"
  proof (cases "h_ask H (fst s) (RevParseHead (pr_repo p))")
    case None
    then have "ask H (RevParseHead (pr_repo p)) s = (s, Inl CommandFailed)"
      by (simp add: ask_def look_def)
    then show ?thesis unfolding fast_forward_def by (subst obind_def) simp
  next
    case (Some main)
    then have "main = h" "r_base r \<noteq> Some main" "ask H (RevParseHead (pr_repo p)) s = (s, Inr main)"
      using assms(2) False by (auto simp: head_in_def ask_def look_def)
    then show ?thesis unfolding fast_forward_def by (subst obind_def) (auto simp: give_def)
  qed
  with assms(2) show ?thesis by (auto intro: head_in_mono)
qed

lemma resume_integration_head:
  assumes "git_law (en_host E) (pr_repo p)" "get_run (snd s) rid = Inr (r, p)"
    and "head_in (en_host E) (pr_repo p) {h} (fst s)"
  shows "head_in (en_host E) (pr_repo p) ({h} \<union> (if r_base r = Some h then {text_of (r_result r)} else {}))
    (fst (fst (resume_integration E rid s)))" (is "?Q (fst (fst (resume_integration E rid s)))")
proof -
  have q: "quiet (en_host E) ?Q"
    by (rule quiet_head [OF assms(1)])
  have ff: "?Q (fst (fst (fast_forward (en_host E) r p s)))"
    by (rule fast_forward_head [OF assms(1,3)])
  have start: "?Q (fst s)"
    by (rule head_in_mono [OF assms(3)]) auto
  show ?thesis
    unfolding resume_integration_def Let_def
  proof (rule obind_world [where Q = ?Q])
    fix s1 x
    assume "look (\<lambda>_ db. rbind (get_run db rid) (\<lambda>(r, p). case latest_integration db rid of
      None \<Rightarrow> Inl IntegrationAbsent | Some i \<Rightarrow> Inr (r, p, i_id i))) s = (s1, Inr x)"
    then obtain iid where x: "x = (r, p, iid)" "s1 = s"
      using assms(2) by (auto simp: op_results split: option.split_asm)
    have rest: "keeps_world ?Q (obind (check (Some main = r_result r) ResultMismatch) (\<lambda>_.
      obind (ask (en_host E) (StatusPorcelain (pr_repo p))) (\<lambda>status.
      obind (check (status = []) RepositoryDirty) (\<lambda>_.
      obind (cleanup_worktree (en_host E) (pr_repo p) (text_of (r_worktree r)) (text_of (r_branch r))) (\<lambda>_.
        on_db (\<lambda>_. resume_finish (en_clock E 2) iid r main))))))" for main
      by (intro op_keeps q)
    show "?Q (fst (fst ((case x of (r, p, iid) \<Rightarrow> obind (fast_forward (en_host E) r p) (\<lambda>main.
      obind (check (Some main = r_result r) ResultMismatch) (\<lambda>_.
      obind (ask (en_host E) (StatusPorcelain (pr_repo p))) (\<lambda>status.
      obind (check (status = []) RepositoryDirty) (\<lambda>_.
      obind (cleanup_worktree (en_host E) (pr_repo p) (text_of (r_worktree r)) (text_of (r_branch r))) (\<lambda>_.
        on_db (\<lambda>_. resume_finish (en_clock E 2) iid r main))))))) s1)))"
      unfolding x prod.case
      by (rule obind_world [where Q = ?Q]) (use ff keeps_at [OF rest] in force)+
  qed (use start in \<open>auto simp: look_def\<close>)
qed

lemma command_rollback_keeps [op_keeps]:
  "quiet H Q \<Longrightarrow> keeps_world Q (command_rollback H clock rid)"
  unfolding command_rollback_def by (intro op_keeps)

lemma apply_rollback_keeps [op_keeps]:
  "quiet (en_host E) Q \<Longrightarrow> keeps_world Q (apply_rollback E rid ev)"
  unfolding apply_rollback_def rollback_without_snapshot_def by (intro op_keeps)

lemma apply_block_keeps [op_keeps]:
  "quiet (en_host E) Q \<Longrightarrow> keeps_world Q (apply_block E apid owner rid ev)"
  unfolding apply_block_def by (intro op_keeps)

lemma world_same:
  "look g s = (s1, x) \<Longrightarrow> s1 = s" "check b e s = (s1, y) \<Longrightarrow> s1 = s" "on_db h s = (s1, z) \<Longrightarrow> fst s1 = fst s"
  by (auto simp: look_def check_def give_def raise_def on_db_def split: if_split_asm sum.split_asm)

lemma recover_run_state:
  assumes recoveries: "\<And>w db v. P (w, db) \<Longrightarrow> P (w, db\<lparr>td_recoveries := v\<rparr>)" and start: "P s"
    and applied: "\<And>ev d s'. assess_run (en_host E) rid (fst s) (snd s) = Inr ev \<Longrightarrow> e_decision ev = Decide d \<Longrightarrow>
      fst s' = fst s \<Longrightarrow> get_run (snd s') rid = get_run (snd s) rid \<Longrightarrow> P s' \<Longrightarrow>
      P (fst (apply_decision E apid owner rid ev d s'))"
  shows "P (fst (recover_run E vid apid rid owner stale force expected s))"
proof -
  note eval = recover_run_def obind_def look_def check_def raise_def give_def on_db_def attempt_def
  obtain w db where s: "s = (w, db)" by (cases s)
  have finished: "P (fst s2, finish_recovery now vid out b (snd s2))" if "P s2" for s2 now out b
    using recoveries [of "fst s2" "snd s2"] that by (simp add: finish_recovery_def)
  show ?thesis
  proof (cases "assess_run (en_host E) rid w db")
    case (Inr ev)
    show ?thesis
    proof (cases "e_decision ev")
      case (Decide d)
      show ?thesis
      proof (cases "(expected = None \<or> expected = Some d) \<and>
          (force \<or> stale_enough E stale (r_heartbeat (e_run ev)) = Inr ()) \<and>
          (\<exists>db1. insert_recovery (en_clock E 0) vid owner ev db = Inr ((), db1))")
        case True
        then obtain db1 where db1: "insert_recovery (en_clock E 0) vid owner ev db = Inr ((), db1)" by blast
        then obtain v where v: "db1 = db\<lparr>td_recoveries := v\<rparr>" by (blast dest: insert_recovery_frame)
        obtain s2 res where ap: "apply_decision E apid owner rid ev d (w, db1) = (s2, res)" by fastforce
        have "P s2"
          using applied [of ev d "(w, db1)"] Inr Decide ap recoveries [of w db v] start by (simp add: s v)
        then have "P (fst s2, finish_recovery (en_clock E 9) vid out b (snd s2))" for out b
          by (rule finished)
        then show ?thesis
          using True by (cases res) (auto simp: eval s Inr Decide db1 ap)
      next
        case False
        then show ?thesis
          using start by (cases "insert_recovery (en_clock E 0) vid owner ev db";
              cases "stale_enough E stale (r_heartbeat (e_run ev))") (auto simp: eval s Inr Decide)
      qed
    qed (use start in \<open>simp add: eval s Inr\<close>)
  qed (use start in \<open>simp add: eval s\<close>)
qed

lemma on_db_world: "fst (fst (on_db h s)) = fst s"
  by (simp add: on_db_def split: sum.split)

lemma obind_world_then: "Q (fst (fst (m s))) \<Longrightarrow> (\<And>x. keeps_world Q (f x)) \<Longrightarrow> Q (fst (fst (obind m f s)))"
  by (rule obind_world [where Q = Q]) (auto dest: keeps_at)

definition reachable_heads :: "tx_run \<Rightarrow> string \<Rightarrow> string set" where
  "reachable_heads r h =
     {h} \<union> (if r_status r \<in> {RCommitting, RRecovering} \<and> r_base r = Some h then {text_of (r_result r)} else {})"

lemma apply_decision_head:
  assumes "git_law (en_host E) (pr_repo p)" "get_run (snd s) rid = Inr (e_run ev, p)"
    and "head_in (en_host E) (pr_repo p) {h} (fst s)"
  shows "head_in (en_host E) (pr_repo p) (reachable_heads (e_run ev) h)
    (fst (fst (apply_decision E apid owner rid ev d s)))" (is "?Q (fst (fst (apply_decision E apid owner rid ev d s)))")
proof -
  have q: "quiet (en_host E) ?Q"
    by (rule quiet_head [OF assms(1)])
  have start: "?Q (fst s)"
    by (rule head_in_mono [OF assms(3)]) (simp add: reachable_heads_def)
  show ?thesis
  proof (cases d)
    case ResumeSafe
    have "?Q (fst (fst (apply_resume E rid ev s)))"
      unfolding apply_resume_def
    proof (rule obind_world [where Q = ?Q])
      fix s1 e assume "cleanup_run_resources E rid s = (s1, Inl e)"
      then show "?Q (fst s1)"
        using keeps_worldD [OF cleanup_run_keeps(1) [OF q]] start by blast
    next
      fix s1 x assume cl: "cleanup_run_resources E rid s = (s1, Inr x)"
      have h: "head_in (en_host E) (pr_repo p) {h} (fst s1)"
        using keeps_worldD [OF cleanup_run_keeps(1) [OF quiet_head [OF assms(1)]] cl assms(3)] .
      have g: "get_run (snd s1) rid = Inr (e_run ev, p)"
        using assms(2) lookups_cong(2) [OF cleanup_run_tables [OF cl]] by simp
      have "?Q (fst s1)"
        by (rule head_in_mono [OF h]) (simp add: reachable_heads_def)
      moreover have "?Q (fst (fst (resume_integration E rid s1)))" if "r_status (e_run ev) \<in> {RCommitting, RRecovering}"
        using resume_integration_head [OF assms(1) g h] that by (auto simp: reachable_heads_def)
      ultimately show "?Q (fst (fst ((if r_status (e_run ev) \<in> {RRunning, RReviewing}
          then on_db (\<lambda>_. mark_resumable (en_clock E 2) rid (r_status (e_run ev)))
          else if r_status (e_run ev) \<notin> {RCommitting, RRecovering} then raise CannotResume
          else resume_integration E rid) s1)))"
        by (simp add: raise_def on_db_world)
    qed
    then show ?thesis
      unfolding ResumeSafe apply_decision_def by simp (rule obind_world_then [where Q = ?Q], auto intro: op_keeps)
  next
    case RollbackSafe
    then have "keeps_world ?Q (apply_decision E apid owner rid ev d)"
      unfolding apply_decision_def by (simp, intro op_keeps q)
    then show ?thesis using start by (rule keeps_at)
  next
    case BlockHuman
    then have "keeps_world ?Q (apply_decision E apid owner rid ev d)"
      unfolding apply_decision_def by (simp, intro op_keeps q)
    then show ?thesis using start by (rule keeps_at)
  qed
qed

text \<open>
  C6: whatever a recovery does, decides or fails at, it moves the head of the project's repository
  only from the base to the reviewed commit of a run that was COMMITTING or RECOVERING.
\<close>

theorem recovery_moves_main:
  assumes "git_law (en_host E) (pr_repo p)" "get_run db rid = Inr (r, p)"
    and "h_ask (en_host E) w (RevParseHead (pr_repo p)) = Some h"
    and "recover_run E vid apid rid owner stale force expected (w, db) = ((w', db'), result)"
    and "h_ask (en_host E) w' (RevParseHead (pr_repo p)) = Some h'"
  shows "h' = h \<or> r_status r \<in> {RCommitting, RRecovering} \<and> r_base r = Some h \<and> h' = text_of (r_result r)"
proof -
  let ?Q = "head_in (en_host E) (pr_repo p) (reachable_heads r h)"
  have start: "head_in (en_host E) (pr_repo p) {h} w" "?Q w"
    using assms(3) by (simp_all add: head_in_def reachable_heads_def)
  have "(\<lambda>s. ?Q (fst s)) (fst (recover_run E vid apid rid owner stale force expected (w, db)))"
  proof (rule recover_run_state)
    fix ev d s'
    assume "assess_run (en_host E) rid (fst (w, db)) (snd (w, db)) = Inr ev" "fst s' = fst (w, db)"
      "get_run (snd s') rid = get_run (snd (w, db)) rid"
    then have "e_run ev = r" "get_run (snd s') rid = Inr (r, p)" "fst s' = w"
      using assess_run_Inr(1) get_run_Inr [OF assms(2)] assms(2) by fastforce+
    then show "?Q (fst (fst (apply_decision E apid owner rid ev d s')))"
      using apply_decision_head [OF assms(1), of s' rid ev h] start(1) by simp
  qed (use start(2) in simp_all)
  with assms(4,5) show ?thesis
    by (auto simp: head_in_def reachable_heads_def split: if_split_asm)
qed

end
