(* ===== verification/Run_Gates.thy ===== *)
theory Run_Gates
  imports Run_Safety
begin

text \<open>
  The gates of the run lifecycle: what an integration has passed when it is reported complete, and two
  gates that do not open: the decision of an operator on a run that waits for a human, and the sweep
  behind a run whose start failed.
\<close>

section \<open>Integrations\<close>

definition review_approves :: "txdb \<Rightarrow> tx_run \<Rightarrow> review \<Rightarrow> bool" where
  "review_approves db r rv \<longleftrightarrow> (case rv of (rr, re, t) \<Rightarrow>
     rr_run rr = r_id r \<and> g_review re = Some (rr_id rr) \<and> k_id t = g_task re \<and> k_status t = KCompleted \<and>
     g_decision re = Some DApprove \<and> rr_verdict rr \<in> {Pass, PassWithDebt} \<and>
     g_role re = ''reviewer'' \<and> g_mode re = ''read_only'' \<and> \<not> g_network re \<and> g_mount re \<and> g_isolation re \<and>
     g_unchanged re \<and> g_exit re = Some 0 \<and> g_failure re = None \<and>
     \<not> text_of (g_finished re) < text_of (r_submitted r) \<and>
     (\<exists>result. g_result re = Some (JObj result) \<and>
        jget result ''result_commit'' = json_of_option JStr (r_result r)) \<and>
     \<not> later_worker db (r_id r) (text_of (g_finished re)))"

lemma require_passes [simp]: "require b e = Inr u \<longleftrightarrow> b"
  by (simp add: require_def)

lemma get_review_Inr:
  assumes "get_review db rid = Inr (rr, re, t)"
  shows "rr_run rr = rid" "g_review re = Some (rr_id rr)" "k_id t = g_task re"
proof -
  let ?rows = "[(rr, re, t). rr \<leftarrow> td_results db, rr_run rr = rid,
              re \<leftarrow> td_reviewers db, g_review re = Some (rr_id rr) \<and> g_run re = rr_run rr,
              t \<leftarrow> td_tasks db, k_id t = g_task re \<and> k_run t = g_run re]"
  have "?rows = [(rr, re, t)]"
    using assms by (simp add: get_review_def split: list.split_asm)
  then have "(rr, re, t) \<in> set ?rows" by (metis list.set_intros(1))
  then show "rr_run rr = rid" "g_review re = Some (rr_id rr)" "k_id t = g_task re"
    by (auto split: if_split_asm)
qed

lemma validate_review_approves:
  assumes "validate_review db r rv = Inr (Integrate, d, v, result)" "get_review db (r_id r) = Inr rv"
  shows "review_approves db r rv"
proof -
  obtain rr re t where rv: "rv = (rr, re, t)" by (cases rv)
  have "g_decision re = Some d" "classify_decision d (rr_verdict rr) = Inr Integrate"
    "review_columns_ok r rv (rr_verdict rr) = Inr ()" "review_documents_ok r rv d (rr_verdict rr) = Inr result"
    "\<not> later_worker db (r_id r) (text_of (g_finished re))"
    using assms(1) by (auto simp: validate_review_def rv split: option.split_asm)
  moreover from this(2) have "d = DApprove" "rr_verdict rr \<in> {Pass, PassWithDebt}"
    by (auto simp: classify_decision_def split: if_split_asm)
  moreover from \<open>review_documents_ok _ _ _ _ = _\<close> have
    "\<exists>result. g_result re = Some (JObj result) \<and> jget result ''result_commit'' = json_of_option JStr (r_result r)"
    by (auto simp: review_documents_ok_def rv json_object_def split: option.split_asm json.split_asm)
  ultimately show ?thesis
    using get_review_Inr [OF assms(2) [unfolded rv]] by (auto simp: review_approves_def review_columns_ok_def rv)
qed

lemma integration_gate_outcome: "integration_gate owner rid db = Inr (r, Some out) \<Longrightarrow> out \<noteq> Integrated"
  by (auto simp: integration_gate_def split: option.split_asm if_split_asm)

lemma record_non_integration_outcome:
  "record_non_integration now iid apid owner run rv d v act ev db = Inr (out, db') \<Longrightarrow> out \<noteq> Integrated"
  by (auto simp: record_non_integration_def dest: integration_gate_outcome split: option.split_asm action.split_asm)

lemma integrate_prepare_Inr:
  assumes "integrate_prepare now iid owner run rv d v ev db = Inr (stop, db')"
  shows "stop \<noteq> Some Integrated"
    "stop = None \<Longrightarrow> \<forall>j \<in> set (td_integrations db'). i_id j = iid \<longrightarrow> i_run j = r_id run"
proof -
  show "stop \<noteq> Some Integrated"
    using assms by (auto simp: integrate_prepare_def dest: integration_gate_outcome split: option.split_asm)
  assume "stop = None"
  then obtain r p db1 where r: "get_run db (r_id run) = Inr (r, p)"
    and ins: "insert_integration (new_integration now iid owner r rv d v IPrepared ev None False) db = Inr db1"
    and db': "td_integrations db' = td_integrations db1"
    using assms by (auto simp: integrate_prepare_def integration_gate_def split: option.split_asm if_split_asm)
  let ?n = "new_integration now iid owner r rv d v IPrepared ev None False"
  have n: "i_id ?n = iid" "i_run ?n = r_id run"
    using get_run_Inr [OF r] by (simp_all add: new_integration_def)
  have "td_integrations db1 = td_integrations db @ [?n]" "\<forall>j \<in> set (td_integrations db). i_id j \<noteq> iid"
    using ins by (auto simp: insert_integration_def n list_all_iff)
  then show "\<forall>j \<in> set (td_integrations db'). i_id j = iid \<longrightarrow> i_run j = r_id run"
    by (auto simp: db' n)
qed

lemma finalize_integrated:
  assumes "finalize_completed now iid run main db = Inr (u, db')"
    and "\<forall>j \<in> set (td_integrations db). i_id j = iid \<longrightarrow> i_run j = r_id run"
  shows "integrated_run (r_id run) db'"
proof -
  let ?f = "\<lambda>i. i\<lparr>i_status := ICompleted, i_main_after := main, i_finished := Some now\<rparr>"
  let ?set = "\<lambda>r. r\<lparr>r_status := RCompleted, r_recovery := None, r_finished := Some now, r_heartbeat := Some now\<rparr>"
  obtain r p db1 where r: "get_run db (r_id run) = Inr (r, p)" "r_status r = RCommitting" "r_result r = Some main"
    and c: "complete_integrations (\<lambda>i. i_id i = iid \<and> i_status i = IPrepared) ?f db = Inr db1"
    and db': "db' = record_event (r_project run) (r_id run) ''INTEGRATION_COMPLETED'' ''INFO''
         [(''integration_id'', JStr iid), (''result_commit'', JStr main)] now
         (set_runs (\<lambda>r. r_id r = r_id run \<and> r_status r = RCommitting) ?set (drop_lock (r_id run) db1))"
    using assms(1) by (auto simp: finalize_completed_def)
  obtain j where "j \<in> set (td_integrations db)" "i_id j = iid" "?f j \<in> set (td_integrations db1)"
    using complete_integrations_Inr(1) [OF c] by auto
  with assms(2) have "\<exists>i \<in> set (td_integrations db'). i_run i = r_id run \<and> i_status i = ICompleted \<and> i_main_after i = main"
    by (intro bexI [of _ "?f j"]) (simp_all add: db')
  moreover have "tx_run_with db' (r_id run) = Some (?set r)"
    using tx_run_with_set_runs [of ?set "\<lambda>r. r_id r = r_id run \<and> r_status r = RCommitting" "drop_lock (r_id run) db1" "r_id run"]
      get_run_Inr [OF r(1)] r(2) complete_integrations_Inr(2) [OF c]
    by (simp add: db' tx_run_with_def)
  ultimately show ?thesis
    using r(3) by (auto simp: integrated_run_def db')
qed

lemma finish_merged_Inr:
  assumes "finish_merged H now iid run ev main s = (s', Inr u)" "git_law H (ev_repository ev)"
    and "h_ask H (fst s) (RevParseHead (ev_repository ev)) = Some main"
    and "\<forall>j \<in> set (td_integrations (snd s)). i_id j = iid \<longrightarrow> i_run j = r_id run"
  shows "integrated_run (r_id run) (snd s')" "head_in H (ev_repository ev) {main} (fst s')"
proof -
  obtain s1 db' where cl: "cleanup_worktree H (ev_repository ev) (ev_worktree ev) (text_of (r_branch run)) s = (s1, Inr ())"
    and fin: "finalize_completed now iid run main (snd s1) = Inr (u, db')" and s': "s' = (fst s1, db')"
    using assms(1) by (auto simp: finish_merged_def op_results)
  show "integrated_run (r_id run) (snd s')"
    using finalize_integrated [OF fin] assms(4) cleanup_worktree_db [OF cl] s' by simp
  have "head_in H (ev_repository ev) {main} (fst s)"
    using assms(3) by (simp add: head_in_def)
  then show "head_in H (ev_repository ev) {main} (fst s')"
    using keeps_worldD [OF cleanup_worktree_keeps(1) [OF quiet_head [OF assms(2)]] cl] s' by simp
qed

lemma merge_reviewed_keeps_db:
  assumes "merge_reviewed H now iid run ev s = (s', Inl e)"
  shows "snd s' = snd s"
proof -
  have final: "snd (fst (finish_merged H now iid run ev m s)) = snd s" if "finish_merged H now iid run ev m s = (s', Inl e)" for m s s'
  proof (cases "cleanup_worktree H (ev_repository ev) (ev_worktree ev) (text_of (r_branch run)) s")
    case (Pair s1 res)
    then show ?thesis
      using that cleanup_worktree_db [OF Pair]
      by (cases res) (auto simp: finish_merged_def obind_def on_db_def split: sum.split_asm)
  qed
  show ?thesis
    using assms final
    by (auto simp: merge_reviewed_def obind_def run_checked_def ask_def look_def check_def give_def raise_def
        split: prod.split_asm sum.split_asm option.split_asm if_split_asm)
qed

lemma head_in_single: "head_in H repo {c} w \<longleftrightarrow> h_ask H w (RevParseHead repo) \<in> {None, Some c}"
  by (cases "h_ask H w (RevParseHead repo)") (auto simp: head_in_def)

definition integrated_at :: "'w host \<Rightarrow> string \<Rightarrow> tx_run \<Rightarrow> 'w \<times> txdb \<Rightarrow> bool" where
  "integrated_at H repo run s \<longleftrightarrow>
     integrated_run (r_id run) (snd s) \<and> (\<exists>c. r_result run = Some c \<and> head_in H repo {c} (fst s))"

lemma merge_reviewed_Inr:
  assumes "merge_reviewed H now iid run ev s = (s', Inr u)" "git_law H (ev_repository ev)"
    and "\<forall>j \<in> set (td_integrations (snd s)). i_id j = iid \<longrightarrow> i_run j = r_id run"
  shows "integrated_at H (ev_repository ev) run s'"
proof -
  obtain s1 main where "h_ask H (fst s1) (RevParseHead (ev_repository ev)) = Some main" "snd s1 = snd s"
    and main: "r_result run = Some main" and fin: "finish_merged H now iid run ev main s1 = (s', Inr u)"
    using assms(1) by (auto simp: merge_reviewed_def op_results) (metis snd_conv)
  then show ?thesis
    using finish_merged_Inr [OF fin assms(2)] assms(3) by (simp add: integrated_at_def)
qed

lemma settle_failed_merge_Inr:
  assumes "settle_failed_merge H why clock iid run ev e s = (s', Inr u)" "git_law H (ev_repository ev)"
    and "\<forall>j \<in> set (td_integrations (snd s)). i_id j = iid \<longrightarrow> i_run j = r_id run"
  shows "integrated_at H (ev_repository ev) run s'"
proof -
  obtain main where "h_ask H (fst s) (RevParseHead (ev_repository ev)) = Some main"
    and main: "r_result run = Some main" and fin: "finish_merged H (clock 2) iid run ev main s = (s', Inr u)"
    using assms(1) by (cases "r_result run") (auto simp: settle_failed_merge_def op_results text_of_def split: if_split_asm)
  then show ?thesis
    using finish_merged_Inr [OF fin assms(2)] assms(3) by (auto simp: integrated_at_def)
qed

lemma integrate_approved_Inr:
  assumes "integrate_approved H why clock iid owner run rv d v ev s = (s', Inr Integrated)"
    and "git_law H (ev_repository ev)"
  shows "integrated_at H (ev_repository ev) run s'"
proof -
  obtain db1 where prep: "integrate_prepare (clock 0) iid owner run rv d v ev (snd s) = Inr (None, db1)"
    and m: "attempt (merge_reviewed H (clock 1) iid run ev) (settle_failed_merge H why clock iid run ev) (fst s, db1) = (s', Inr ())"
  proof -
    obtain stop db1 where prep: "integrate_prepare (clock 0) iid owner run rv d v ev (snd s) = Inr (stop, db1)"
      and m: "(case stop of Some out \<Rightarrow> give out | None \<Rightarrow>
        obind (attempt (merge_reviewed H (clock 1) iid run ev) (settle_failed_merge H why clock iid run ev))
          (\<lambda>_. give Integrated)) (fst s, db1) = (s', Inr Integrated)"
      using assms(1) by (auto simp: integrate_approved_def obind_Inr op_returns(5))
    have "stop = None"
      using m integrate_prepare_Inr(1) [OF prep] by (cases stop) (auto simp: op_returns(1))
    with prep m that show ?thesis
      by (auto simp: obind_Inr op_returns(1))
  qed
  note ids = integrate_prepare_Inr(2) [OF prep refl]
  show ?thesis
    using m [unfolded attempt_Inr] merge_reviewed_Inr [OF _ assms(2)] settle_failed_merge_Inr [OF _ assms(2)]
      merge_reviewed_keeps_db ids
    by (metis snd_conv)
qed

lemma verify_snapshot_Inr:
  assumes "verify_snapshot H now rid w db = Inr (s, db')"
  shows "run_snapshot db rid = Some s" "artifacts_intact H w (artifacts s) = Inr ()"
  using assms by (auto simp: verify_snapshot_def split: option.split_asm)

text \<open>The repository of the project is clean, with its configured branch checked out at the base of the run.\<close>

definition default_branch_at_base :: "'w host \<Rightarrow> 'w \<Rightarrow> tx_run \<Rightarrow> project_row \<Rightarrow> bool" where
  "default_branch_at_base H w r p \<longleftrightarrow>
     (\<exists>branch. h_ask H w (DefaultBranch (pr_config p)) = Some branch \<and> branch \<noteq> [] \<and>
        h_ask H w (CurrentBranch (h_resolve H (pr_repo p))) = Some branch) \<and>
     h_ask H w (StatusPorcelain (h_resolve H (pr_repo p))) = Some [] \<and>
     r_base r \<noteq> None \<and> h_ask H w (RevParseHead (h_resolve H (pr_repo p))) = r_base r"

text \<open>The worktree of the run is a clean worktree of that repository, on the branch of the run, at a commit.\<close>

definition worktree_at :: "'w host \<Rightarrow> 'w \<Rightarrow> tx_run \<Rightarrow> project_row \<Rightarrow> string \<Rightarrow> bool" where
  "worktree_at H w r p c \<longleftrightarrow> (let worktree = h_resolve H (text_of (r_worktree r)) in
     worktree_registered H w (h_resolve H (pr_repo p)) worktree = Inr True \<and>
     h_ask H w (CurrentBranch worktree) = r_branch r \<and> h_ask H w (StatusPorcelain worktree) = Some [] \<and>
     h_ask H w (RevParseHead worktree) = Some c)"

lemma validate_git_state_Inr:
  assumes "validate_git_state H w r p result = Inr ev"
  shows "ev_repository ev = h_resolve H (pr_repo p)" "default_branch_at_base H w r p"
    "\<exists>c. r_result r = Some c \<and> worktree_at H w r p c \<and>
       holds H w (IsAncestor (h_resolve H (pr_repo p)) (text_of (r_base r)) c)"
  using assms
  by (auto simp: validate_git_state_def load_default_branch_def default_branch_at_base_def worktree_at_def Let_def
      asked_def split: option.split_asm) (metis)+

text \<open>
  C2: an integration that is reported complete passed these gates: the run was under review with its
  owner holding the lock, its project enabled, its one review approved this very result, read-only,
  isolated and after the submission, no worker finished later, the snapshot was intact, the configured
  default branch was checked out, clean and at the base, and the clean worktree was at the result, which
  descends from the base. Afterwards the run is COMPLETED with its integration, without lock, and the
  head of the repository, when it can be read, is the reviewed commit.
\<close>

theorem integration_gated:
  assumes "command_apply H why clock iid apid owner rid (w, db) = ((w', db'), Inr Integrated)"
    and "get_run db rid = Inr (r, p)" and "git_law H (h_resolve H (pr_repo p))"
  shows "r_status r = RReviewing \<and> r_owner r = Some owner \<and> pr_enabled p \<and>
    (\<exists>l. run_lock db rid = Some l \<and> l_holder l = owner \<and> l_project l = r_project r) \<and>
    (\<exists>rv. get_review db rid = Inr rv \<and> review_approves db r rv) \<and>
    (\<exists>s. run_snapshot db rid = Some s \<and> artifacts_intact H w (artifacts s) = Inr ()) \<and>
    default_branch_at_base H w r p \<and>
    (\<exists>c. r_result r = Some c \<and> worktree_at H w r p c \<and>
       holds H w (IsAncestor (h_resolve H (pr_repo p)) (text_of (r_base r)) c) \<and>
       h_ask H w' (RevParseHead (h_resolve H (pr_repo p))) \<in> {None, Some c}) \<and>
    integrated_run rid db'"
proof -
  obtain rv act d v result ev sn db1 where reads: "apply_reads owner rid db = Inr (r, p, rv, act, d, v, result)"
    and git: "validate_git_state H w r p result = Inr ev"
    and snap: "verify_snapshot H (clock 4) rid w db = Inr (sn, db1)"
    and "(if act = Integrate then integrate_approved H why clock iid owner r rv d v ev
       else on_db (\<lambda>_. record_non_integration (clock 0) iid apid owner r rv d v act ev)) (w, db1) = ((w', db'), Inr Integrated)"
    using assms(1,2) by (auto simp: command_apply_def op_results apply_reads_def split: option.split_asm)
  then have act: "act = Integrate"
    and complete: "integrate_approved H why clock iid owner r rv d v ev (w, db1) = ((w', db'), Inr Integrated)"
    using record_non_integration_outcome [of "clock 0" iid apid owner r rv d v act ev db1]
    by (auto simp: op_returns(5) split: if_split_asm)
  obtain l where rid: "r_id r = rid" and l: "r_status r = RReviewing" "pr_enabled p" "run_lock db rid = Some l"
    "validate_owner r l owner = Inr ()" "get_review db rid = Inr rv" "validate_review db r rv = Inr (act, d, v, result)"
    using reads get_run_Inr [OF assms(2)] by (auto simp: apply_reads_def split: option.split_asm)
  have "integrated_at H (h_resolve H (pr_repo p)) r (w', db')"
    using integrate_approved_Inr [OF complete] validate_git_state_Inr(1) [OF git] assms(3) by simp
  moreover have "review_approves db r rv"
    using validate_review_approves l rid act by simp
  ultimately show ?thesis
    using l rid validate_git_state_Inr(2,3) [OF git] verify_snapshot_Inr [OF snap]
    by (auto simp: validate_owner_def integrated_at_def head_in_single)
qed

section \<open>Runs that wait for a human\<close>

lemma waiting_is_blocked:
  assumes "assess_run H rid w db = Inr ev" "r_status (e_run ev) = RWaitingHuman"
  shows "e_decision ev = Decide BlockHuman"
proof -
  obtain r p sn g where "get_run db rid = Inr (r, p)"
    and ev: "ev = assess_evidence r (run_lock db rid) sn g (latest_integration db rid)"
    using assms(1) by (auto simp: assess_run_def)
  have "r_status r = RWaitingHuman"
    using assms(2) by (simp add: ev assess_evidence_def split: prod.split_asm if_split_asm)
  then show ?thesis
    by (auto simp: ev assess_evidence_def decide_run_def decide_active_def split: prod.splits if_split_asm)
qed

text \<open>
  C17: no decision of an operator takes effect on a run that waits for a human: the recovery assesses such
  a run as BLOCK_HUMAN whatever its evidence, so the expected RESUME_SAFE or ROLLBACK_SAFE never matches;
  \<^verbatim>\<open>command_resolve\<close> fails and changes nothing.
\<close>

theorem human_decision_refused:
  assumes "select_one (\<lambda>a. ap_id a = approval) (td_approvals db) = Some a"
    and "tx_run_with db (ap_run a) = Some r" "r_status r = RWaitingHuman"
    and "decision \<in> {''RESUME_SAFE'', ''ROLLBACK_SAFE''}"
  shows "\<exists>e. command_resolve E vid apid owner approval decision (w, db) = ((w, db), Inl e)"
proof -
  have "\<exists>e. recover_run E vid apid (ap_run a) owner 300 True (Some d) (w, db) = ((w, db), Inl e)"
    if "d \<noteq> BlockHuman" for d
  proof (cases "assess_run (en_host E) (ap_run a) w db")
    case (Inr ev)
    then have "e_decision ev = Decide BlockHuman"
      using waiting_is_blocked assess_run_Inr(1) assms(2,3) by fastforce
    with Inr that show ?thesis
      by (auto simp: recover_run_def obind_def look_def check_def raise_def)
  qed (simp add: recover_run_def obind_def look_def)
  moreover obtain d where "option_of_name decision = Some d" "d \<noteq> BlockHuman"
    using assms(4) by (auto simp: option_of_name_def)
  ultimately show ?thesis
    using assms(1)
    by (cases "ap_status a = APPending"; cases "decision \<in> set (ap_options a)")
      (auto simp: command_resolve_def obind_def look_def require_def)
qed

section \<open>Sweeps\<close>

lemma failed_start_blocked:
  assumes "assess_run H rid w db = Inr ev" "tx_run_with db rid = Some r" "r_status r = RFailed"
    and "run_snapshot db rid = None"
  shows "e_decision ev = Decide BlockHuman"
proof -
  obtain r' p sn g where get: "get_run db rid = Inr (r', p)"
    and sn: "snapshot_evidence H w (pr_repo p) (run_snapshot db rid) = Inr sn"
    and ev: "ev = assess_evidence r' (run_lock db rid) sn g (latest_integration db rid)"
    using assms(1) by (auto simp: assess_run_def)
  have "r' = r" "\<not> sn_valid sn"
    using get_run_Inr [OF get] assms(2) sn by (auto simp: assms(4) snapshot_evidence_def)
  then show ?thesis
    using assms(3) by (auto simp: ev assess_evidence_def decide_run_def split: prod.splits if_split_asm)
qed

lemma block_run_refused:
  assumes "tx_run_with db rid = Some r" "project_lock db (r_project r) = Some l" "l_run l \<noteq> rid"
  shows "\<exists>e. block_run now apid owner rid reasons db = Inl e"
proof (cases "get_run db rid")
  case (Inr x)
  then obtain p where "x = (r, p)" "r_id r = rid"
    using get_run_Inr assms(1) by (metis option.inject surj_pair)
  with Inr assms(2,3) show ?thesis
    by (simp add: block_run_def ensure_lock_for_block_def require_def)
qed (simp add: block_run_def)

definition same_runs :: "txdb \<Rightarrow> txdb \<Rightarrow> bool" where
  "same_runs db db' \<longleftrightarrow> td_runs db' = td_runs db \<and> td_locks db' = td_locks db"

lemma apply_block_refused:
  assumes "tx_run_with db rid = Some r" "project_lock db (r_project r) = Some l" "l_run l \<noteq> rid"
    and "same_runs db (snd s)"
  shows "\<exists>s' e. apply_block E apid owner rid ev s = (s', Inl e) \<and> same_runs db (snd s')"
proof (cases "cleanup_run_resources E rid s")
  case (Pair s1 res)
  then have same: "same_runs db (snd s1)"
    using run_tables_eq [OF cleanup_run_tables [OF Pair]] assms(4) by (simp add: same_runs_def)
  then have "\<exists>e. block_run (en_clock E 2) apid owner rid (e_reasons ev) (snd s1) = Inl e"
    using assms(1-3) by (intro block_run_refused) (simp_all add: same_runs_def tx_run_with_def project_lock_def)
  with Pair same show ?thesis
    by (cases s1; cases res) (auto simp: apply_block_def obind_def on_db_def)
qed

lemma recover_run_nothing:
  assumes "recover_run E vid apid rid owner stale force expected s = (s', Inr (NothingToDo st))"
  shows "\<exists>ev. assess_run (en_host E) rid (fst s) (snd s) = Inr ev \<and> e_decision ev = NoAction"
proof -
  from assms obtain ev where ev: "assess_run (en_host E) rid (fst s) (snd s) = Inr ev"
    unfolding recover_run_def op_results by auto
  with assms show ?thesis
    by (cases "e_decision ev") (auto simp: recover_run_def op_results)
qed

lemma failed_start_recovery:
  fixes E :: "'w env"
  assumes "tx_run_with db rid = Some r" "r_status r = RFailed" "run_snapshot db rid = None"
    and "project_lock db (r_project r) = Some l" "l_run l \<noteq> rid"
  shows "\<exists>s' e. recover_run E vid apid rid owner stale force expected (w, db) = (s', Inl e) \<and> same_runs db (snd s')"
proof -
  have applied: "\<exists>s2 e. apply_decision E apid owner rid ev d s = (s2, Inl e) \<and> same_runs db (snd s2)"
    if "assess_run (en_host E) rid w db = Inr ev" "e_decision ev = Decide d" "same_runs db (snd s)" for ev d s
    using failed_start_blocked [OF that(1) assms(1-3)] that(2) apply_block_refused [OF assms(1,4,5) that(3), of E apid owner ev]
    by (auto simp: apply_decision_def obind_def)
  have refused: False if res: "recover_run E vid apid rid owner stale force expected (w, db) = (s', Inr out)" for s' out
  proof (cases out)
    case (NothingToDo st)
    with res obtain ev where "assess_run (en_host E) rid w db = Inr ev" "e_decision ev = NoAction"
      using recover_run_nothing by fastforce
    then show False using failed_start_blocked assms(1-3) by fastforce
  next
    case (Recovered d out' st)
    obtain ev v s2 where "assess_run (en_host E) rid w db = Inr ev" "e_decision ev = Decide d"
      "apply_decision E apid owner rid ev d (w, db\<lparr>td_recoveries := v\<rparr>) = (s2, Inr out')"
      by (rule recover_run_cases [OF res [unfolded Recovered]]) simp
    then show False using applied [of ev d "(w, db\<lparr>td_recoveries := v\<rparr>)"] by (auto simp: same_runs_def)
  qed
  have "(\<lambda>s. same_runs db (snd s)) (fst (recover_run E vid apid rid owner stale force expected (w, db)))"
  proof (rule recover_run_state)
    fix ev d and s' :: "'w \<times> txdb"
    assume "assess_run (en_host E) rid (fst (w, db)) (snd (w, db)) = Inr ev" "e_decision ev = Decide d" "same_runs db (snd s')"
    then show "same_runs db (snd (fst (apply_decision E apid owner rid ev d s')))"
      using applied by fastforce
  qed (simp_all add: same_runs_def)
  then show ?thesis
    using refused by (metis (mono_tags) fst_conv old.sum.exhaust surj_pair)
qed

lemma sweep_append:
  "sweep_each stale owner (xs @ ys) s =
     (case sweep_each stale owner xs s of
        (s1, Inl e) \<Rightarrow> (s1, Inl e)
      | (s1, Inr rs) \<Rightarrow>
          (case sweep_each stale owner ys s1 of
             (s2, Inl e) \<Rightarrow> (s2, Inl e) | (s2, Inr qs) \<Rightarrow> (s2, Inr (rs @ qs))))"
proof (induction xs arbitrary: s)
  case (Cons x xs)
  obtain E vid apid rid where x: "x = ((E, vid, apid), rid)" by (cases x) auto
  show ?case
    by (auto simp: x obind_def Cons.IH give_def split: prod.split sum.split)
qed (auto simp: give_def split: prod.split sum.split)

text \<open>
  C18: a run whose start failed has no snapshot, so a sweep that comes to it blocks it. If another run has
  its project locked then, this fails and the sweep ends there at the latest, wherever the run stands in
  the sweep: neither that run nor any behind it is recovered.
\<close>

theorem failed_start_stops_sweep:
  assumes "swept_runs E stale db = before @ rid # rids" "length early = length before"
    and "sweep_each stale owner (zip early before) (w, db) = ((w1, db1), result)"
    and "tx_run_with db1 rid = Some r" "r_status r = RFailed" "run_snapshot db1 rid = None"
    and "project_lock db1 (r_project r) = Some l" "l_run l \<noteq> rid"
  shows "\<exists>s' e. command_sweep E stale owner (early @ (E', vid, apid) # later) (w, db) = (s', Inl e) \<and>
    td_runs (snd s') = td_runs db1 \<and> td_locks (snd s') = td_locks db1"
proof -
  have sweep: "command_sweep E stale owner (early @ (E', vid, apid) # later) (w, db) =
      sweep_each stale owner (zip early before @ ((E', vid, apid), rid) # zip later rids) (w, db)"
    by (simp add: command_sweep_def obind_def look_def assms(1,2))
  obtain s' e where "recover_run E' vid apid rid owner stale False None (w1, db1) = (s', Inl e)" "same_runs db1 (snd s')"
    using failed_start_recovery [OF assms(4-8), where E = E' and vid = vid and apid = apid and owner = owner
        and stale = stale and force = False and expected = None and w = w1] by blast
  then show ?thesis
    unfolding sweep sweep_append assms(3) by (cases result) (auto simp: obind_def same_runs_def)
qed

end
