(* ===== verification/Run_System.thy ===== *)
theory Run_System
  imports Run_Gates
begin

text \<open>
  The run lifecycle as a transition system: each step is one transaction of
  \<^verbatim>\<open>hermesops-transaction.py\<close>, \<^verbatim>\<open>hermesops-integrator.py\<close> or \<^verbatim>\<open>hermesops-recovery.py\<close>, on
  any state of the machine, in any order, or a change by another program. A state is the database, the
  runs whose \<^verbatim>\<open>command_begin\<close> is between its two transactions, and an auxiliary set: the runs that
  lost their lock there. Nothing in the code keeps a recovery from a run whose start is under way, and
  the second transaction of the start does not look at the lock: \<open>late_begin_breaks_exclusion\<close> (theory
  \<open>Run_Findings\<close>) shows where this leads.
\<close>

section \<open>Steps\<close>

type_synonym runs_state = "txdb \<times> string list \<times> string set"

text \<open>Other programs write other tables, and mark runs for recovery (\<^verbatim>\<open>mark_cancellation_cleanup_recovery\<close>).\<close>

definition other_change :: "txdb \<Rightarrow> txdb \<Rightarrow> bool" where
  "other_change db db' \<longleftrightarrow>
     td_locks db' = td_locks db \<and>
     list_all2 (\<lambda>r r'. r_id r' = r_id r \<and> r_project r' = r_project r \<and>
        (r_status r' = r_status r \<or> r_status r' = RRecovering)) (td_runs db) (td_runs db')"

text \<open>A step that drops the lock of a run while its start is under way.\<close>

definition losing :: "string \<Rightarrow> string list \<Rightarrow> string set \<Rightarrow> string set" where
  "losing rid fl lost = (if rid \<in> set fl then insert rid lost else lost)"

text \<open>
  A process starts only the run it has reserved: \<open>start\<close> and \<open>start_failed\<close> are the second half of
  \<open>command_begin\<close>, after \<open>reserve\<close>. The other steps happen to any run.
\<close>

inductive tx_step :: "'w host \<Rightarrow> runs_state \<Rightarrow> runs_state \<Rightarrow> bool" for H where
  reserve: "begin_reserve H now rid sid project owner metadata w db = Inr (x, db') \<Longrightarrow>
    tx_step H (db, fl, lost) (db', rid # fl, lost)"
| start: "rid \<in> set fl \<Longrightarrow> begin_start now project rid worktree snapshot db = Inr (u, db') \<Longrightarrow>
    tx_step H (db, fl, lost) (db', removeAll rid fl, lost)"
| start_failed: "rid \<in> set fl \<Longrightarrow>
    tx_step H (db, fl, lost) (begin_fail now project rid db, removeAll rid fl, lost)"
| crash: "tx_step H (db, fl, lost) (db, removeAll rid fl, lost)"
| verify: "verify_record H now rid w db = Inr (x, db') \<Longrightarrow> tx_step H (db, fl, lost) (db', fl, lost)"
| snapshot: "verify_snapshot H now rid w db = Inr (y, db') \<Longrightarrow> tx_step H (db, fl, lost) (db', fl, lost)"
| heartbeat: "heartbeat_run now rid db = Inr (u, db') \<Longrightarrow> tx_step H (db, fl, lost) (db', fl, lost)"
| submit: "tx_step H (db, fl, lost) (submit_record now project rid result db, fl, lost)"
| rollback: "rollback_start H now rid w db = Inr (x, db') \<Longrightarrow> tx_step H (db, fl, lost) (db', fl, lost)"
| rolled_back: "tx_step H (db, fl, lost) (rollback_finish now project rid db, fl, losing rid fl lost)"
| not_integrated: "record_non_integration now iid apid owner run rv d v act ev db = Inr (out, db') \<Longrightarrow>
    tx_step H (db, fl, lost) (db', fl, lost)"
| prepare: "integrate_prepare now iid owner run rv d v ev db = Inr (stop, db') \<Longrightarrow>
    tx_step H (db, fl, lost) (db', fl, lost)"
| finalize: "finalize_completed now iid run main db = Inr (u, db') \<Longrightarrow>
    tx_step H (db, fl, lost) (db', fl, losing (r_id run) fl lost)"
| ambiguous: "tx_step H (db, fl, lost) (mark_ambiguous_failure now iid run reason main_after db, fl, lost)"
| assessed: "insert_recovery now vid owner evd db = Inr (u, db') \<Longrightarrow> tx_step H (db, fl, lost) (db', fl, lost)"
| recovered: "tx_step H (db, fl, lost) (finish_recovery now vid outcome failed db, fl, lost)"
| cleaned: "close_executions lib stamps now rid db = Inr (u, db') \<Longrightarrow> tx_step H (db, fl, lost) (db', fl, lost)"
| resumable: "mark_resumable now rid status db = Inr (u, db') \<Longrightarrow> tx_step H (db, fl, lost) (db', fl, lost)"
| resumed: "resume_finish now iid run main db = Inr (u, db') \<Longrightarrow>
    tx_step H (db, fl, lost) (db', fl, losing (r_id run) fl lost)"
| given_up: "tx_step H (db, fl, lost)
    (record_event project rid ''RECOVERY_SNAPSHOT_START_ABORTED'' ''WARNING'' [] now (cancel_run now rid db),
     fl, losing rid fl lost)"
| aborted: "tx_step H (db, fl, lost) (abort_commit now rid db, fl, lost)"
| blocked: "block_run now apid owner rid reasons db = Inr (u, db') \<Longrightarrow> tx_step H (db, fl, lost) (db', fl, lost)"
| other: "other_change db db' \<Longrightarrow> tx_step H (db, fl, lost) (db', fl, lost)"

inductive_cases tx_stepE: "tx_step H s s'"

definition tx_init :: "runs_state \<Rightarrow> bool" where
  "tx_init s \<longleftrightarrow> td_runs (fst s) = [] \<and> td_locks (fst s) = [] \<and> snd s = ([], {})"

section \<open>The invariant\<close>

text \<open>A run in one of these states holds the lock of its project.\<close>

definition holding :: "run_status set" where
  "holding = {RSnapshotting, RRunning, RReviewing, RCommitting, RWaitingHuman}"

definition tx_inv :: "runs_state \<Rightarrow> bool" where
  "tx_inv s \<longleftrightarrow> (case s of (db, fl, lost) \<Rightarrow>
     distinct (map r_id (td_runs db)) \<and> distinct (map snd (lock_keys db)) \<and>
     (\<forall>r \<in> set (td_runs db). r_id r \<notin> lost \<longrightarrow> r_status r \<in> holding \<or> r_id r \<in> set fl \<longrightarrow>
        (r_id r, r_project r) \<in> set (lock_keys db)))"

lemma tx_invI:
  assumes "distinct (map r_id (td_runs db))" "distinct (map snd (lock_keys db))"
    and "\<And>r. r \<in> set (td_runs db) \<Longrightarrow> r_id r \<notin> lost \<Longrightarrow> r_status r \<in> holding \<or> r_id r \<in> set fl \<Longrightarrow>
      (r_id r, r_project r) \<in> set (lock_keys db)"
  shows "tx_inv (db, fl, lost)"
  using assms by (simp add: tx_inv_def)

lemma tx_invD:
  assumes "tx_inv (db, fl, lost)"
  shows "distinct (map r_id (td_runs db))" "distinct (map snd (lock_keys db))"
    "r \<in> set (td_runs db) \<Longrightarrow> r_id r \<notin> lost \<Longrightarrow> r_status r \<in> holding \<or> r_id r \<in> set fl \<Longrightarrow>
      (r_id r, r_project r) \<in> set (lock_keys db)"
  using assms by (auto simp: tx_inv_def)

text \<open>Steps that leave the locks: only a run that holds its lock moves to another such state.\<close>

definition quiet_move :: "tx_run \<Rightarrow> tx_run \<Rightarrow> bool" where
  "quiet_move r r' \<longleftrightarrow> r_id r' = r_id r \<and> r_project r' = r_project r \<and>
     (r_status r' = r_status r \<or> r_status r' = RRecovering \<or>
      r_status r \<in> {RRunning, RReviewing, RCommitting} \<and> r_status r' \<in> holding)"

lemma quiet_move_update:
  "(\<And>r. c r \<Longrightarrow> quiet_move r (f r)) \<Longrightarrow> list_all2 quiet_move rows (update_where c f rows)"
  unfolding update_where_def by (induction rows) (simp_all add: quiet_move_def)

lemma inv_quiet:
  assumes "tx_inv (db, fl, lost)" "list_all2 quiet_move (td_runs db) (td_runs db')" "lock_keys db' = lock_keys db"
  shows "tx_inv (db', fl, lost)"
proof (rule tx_invI)
  have "map r_id (td_runs db') = map r_id (td_runs db)"
    using assms(2) by (induction rule: list_all2_induct) (auto simp: quiet_move_def)
  then show "distinct (map r_id (td_runs db'))" "distinct (map snd (lock_keys db'))"
    using tx_invD(1,2) [OF assms(1)] assms(3) by simp_all
  fix r' assume r': "r' \<in> set (td_runs db')" "r_id r' \<notin> lost" "r_status r' \<in> holding \<or> r_id r' \<in> set fl"
  obtain r where r: "r \<in> set (td_runs db)" "quiet_move r r'"
    using assms(2) r'(1) by (auto simp: list_all2_conv_all_nth in_set_conv_nth) (metis nth_mem)
  then have "r_status r \<in> holding \<or> r_id r \<in> set fl" "r_id r \<notin> lost"
    using r'(2,3) by (auto simp: quiet_move_def holding_def)
  then show "(r_id r', r_project r') \<in> set (lock_keys db')"
    using tx_invD(3) [OF assms(1) r(1)] r(2) by (simp add: assms(3) quiet_move_def)
qed

text \<open>Steps that release the lock of a run: it is lost when its start is under way.\<close>

lemma inv_release:
  assumes "tx_inv (db, fl, lost)" "td_runs db' = update_where (\<lambda>r. r_id r = rid \<and> c r) f (td_runs db)"
    and "lock_keys db' = filter (\<lambda>k. fst k \<noteq> rid) (lock_keys db)"
    and "\<And>r. r_id (f r) = r_id r" "\<And>r. r_status (f r) \<notin> holding"
    and "\<And>r. r \<in> set (td_runs db) \<Longrightarrow> r_id r = rid \<Longrightarrow> r_status r \<in> holding \<Longrightarrow> c r"
    and "set fl' \<subseteq> set fl" "lost \<subseteq> lost'" "rid \<in> set fl' \<Longrightarrow> rid \<in> lost'"
  shows "tx_inv (db', fl', lost')"
proof (rule tx_invI)
  have "map r_id (td_runs db') = map r_id (td_runs db)"
    unfolding assms(2) by (rule map_update_where) (rule assms(4))
  then show "distinct (map r_id (td_runs db'))" "distinct (map snd (lock_keys db'))"
    using tx_invD(1,2) [OF assms(1)] by (simp_all add: assms(3) distinct_map_filter)
  fix r' assume r': "r' \<in> set (td_runs db')" "r_id r' \<notin> lost'" "r_status r' \<in> holding \<or> r_id r' \<in> set fl'"
  obtain r where r: "r \<in> set (td_runs db)" "r' = (if r_id r = rid \<and> c r then f r else r)"
    using r'(1) unfolding assms(2) update_where_def set_map by blast
  have "r_id r' \<noteq> rid"
    using r' r assms(4-6,9) by (auto split: if_split_asm)
  then have "r' = r" using r(2) assms(4) by (auto split: if_split_asm)
  then show "(r_id r', r_project r') \<in> set (lock_keys db')"
    using tx_invD(3) [OF assms(1) r(1)] r'(2,3) \<open>r_id r' \<noteq> rid\<close> assms(7,8) by (auto simp: assms(3))
qed

text \<open>Steps that put a run into a state that holds the lock.\<close>

lemma inv_hold:
  assumes "tx_inv (db, fl, lost)" "td_runs db' = update_where (\<lambda>r. r_id r = rid) f (td_runs db)"
    and "\<And>r. r_id (f r) = r_id r" "\<And>r. r_project (f r) = r_project r"
    and "set (lock_keys db) \<subseteq> set (lock_keys db')" "distinct (map snd (lock_keys db'))"
    and "\<And>r. r \<in> set (td_runs db) \<Longrightarrow> r_id r = rid \<Longrightarrow> rid \<notin> lost \<Longrightarrow> (rid, r_project r) \<in> set (lock_keys db')"
    and "set fl' \<subseteq> set fl"
  shows "tx_inv (db', fl', lost)"
proof (rule tx_invI)
  have "map r_id (td_runs db') = map r_id (td_runs db)"
    unfolding assms(2) by (rule map_update_where) (rule assms(3))
  then show "distinct (map r_id (td_runs db'))" "distinct (map snd (lock_keys db'))"
    using tx_invD(1) [OF assms(1)] assms(6) by simp_all
  fix r' assume r': "r' \<in> set (td_runs db')" "r_id r' \<notin> lost" "r_status r' \<in> holding \<or> r_id r' \<in> set fl'"
  obtain r where r: "r \<in> set (td_runs db)" "r' = (if r_id r = rid then f r else r)"
    using r'(1) unfolding assms(2) update_where_def set_map by blast
  show "(r_id r', r_project r') \<in> set (lock_keys db')"
  proof (cases "r_id r = rid")
    case True
    with r r'(2) assms(3,4,7) show ?thesis by simp
  next
    case False
    with r r'(2,3) tx_invD(3) [OF assms(1) r(1)] assms(5,8) show ?thesis by auto
  qed
qed

section \<open>What the transactions do to runs and locks\<close>

lemma quiet_move_refl [simp]: "quiet_move r r"
  by (simp add: quiet_move_def)

lemma quiet_same: "tx_inv (db, fl, lost) \<Longrightarrow> td_runs db' = td_runs db \<Longrightarrow> lock_keys db' = lock_keys db \<Longrightarrow> tx_inv (db', fl, lost)"
  by (rule inv_quiet) (simp_all add: list_all2_same)

lemma quiet_set:
  assumes "tx_inv (db, fl, lost)" "td_runs db' = update_where c f (td_runs db)" "lock_keys db' = lock_keys db"
    and "\<And>r. c r \<Longrightarrow> quiet_move r (f r)"
  shows "tx_inv (db', fl, lost)"
  using assms by (intro inv_quiet [of db fl lost db']) (simp_all add: quiet_move_update)

lemma set_runs_runs [simp]: "td_runs (set_runs c f db) = update_where c f (td_runs db)"
  by (simp add: set_runs_def)

lemma lock_keys_other [simp]:
  "lock_keys (db\<lparr>td_snapshots := a\<rparr>) = lock_keys db" "lock_keys (db\<lparr>td_approvals := b\<rparr>) = lock_keys db"
  "lock_keys (db\<lparr>td_integrations := c\<rparr>) = lock_keys db"
  by (simp_all add: lock_keys_def)

lemma verify_snapshot_frame:
  "verify_snapshot H now rid w db = Inr (s, db') \<Longrightarrow> td_runs db' = td_runs db \<and> lock_keys db' = lock_keys db"
  by (auto simp: verify_snapshot_def split: option.split_asm)

lemma insert_integration_frame:
  "insert_integration i db = Inr db' \<Longrightarrow> td_runs db' = td_runs db \<and> lock_keys db' = lock_keys db"
  by (auto simp: insert_integration_def)

lemma complete_integrations_frame:
  "complete_integrations c f db = Inr db' \<Longrightarrow> td_runs db' = td_runs db \<and> lock_keys db' = lock_keys db"
  by (simp add: complete_integrations_Inr(2,3))

lemma quiet_transactions:
  assumes "tx_inv (db, fl, lost)"
  shows "verify_record H now rid w db = Inr (x, db') \<Longrightarrow> tx_inv (db', fl, lost)"
    "verify_snapshot H now rid w db = Inr (y, db') \<Longrightarrow> tx_inv (db', fl, lost)"
    "heartbeat_run now rid db = Inr (u, db') \<Longrightarrow> tx_inv (db', fl, lost)"
    "tx_inv (submit_record now project rid result db, fl, lost)"
    "rollback_start H now rid w db = Inr (x, db') \<Longrightarrow> tx_inv (db', fl, lost)"
    "tx_inv (mark_ambiguous_failure now iid run reason main_after db, fl, lost)"
    "insert_recovery now vid owner evd db = Inr (u, db') \<Longrightarrow> tx_inv (db', fl, lost)"
    "tx_inv (finish_recovery now vid outcome failed db, fl, lost)"
    "close_executions lib stamps now rid db = Inr (u, db') \<Longrightarrow> tx_inv (db', fl, lost)"
    "mark_resumable now rid status db = Inr (u, db') \<Longrightarrow> tx_inv (db', fl, lost)"
    "tx_inv (abort_commit now rid db, fl, lost)"
    "other_change db db' \<Longrightarrow> tx_inv (db', fl, lost)"
proof -
  show "verify_record H now rid w db = Inr (x, db') \<Longrightarrow> tx_inv (db', fl, lost)"
    by (auto simp: verify_record_def dest!: verify_snapshot_frame intro: quiet_same [OF assms])
  show "verify_snapshot H now rid w db = Inr (y, db') \<Longrightarrow> tx_inv (db', fl, lost)"
    by (auto dest!: verify_snapshot_frame intro: quiet_same [OF assms])
  show "heartbeat_run now rid db = Inr (u, db') \<Longrightarrow> tx_inv (db', fl, lost)"
    by (auto simp: heartbeat_run_def quiet_move_def intro!: quiet_set [OF assms])
  show "tx_inv (submit_record now project rid result db, fl, lost)"
    by (rule quiet_set [OF assms], unfold submit_record_def record_event_frames statement_frames set_runs_runs, rule refl)
      (auto simp: quiet_move_def holding_def)
  show "rollback_start H now rid w db = Inr (x, db') \<Longrightarrow> tx_inv (db', fl, lost)"
    by (auto simp: rollback_start_def quiet_move_def dest!: verify_snapshot_frame intro!: quiet_set [OF assms])
  show "tx_inv (mark_ambiguous_failure now iid run reason main_after db, fl, lost)"
    by (rule quiet_set [OF assms, where c = "\<lambda>r. r_id r = r_id run \<and> r_status r = RCommitting"])
      (auto simp: mark_ambiguous_failure_def quiet_move_def)
  show "insert_recovery now vid owner evd db = Inr (u, db') \<Longrightarrow> tx_inv (db', fl, lost)"
    by (auto dest!: insert_recovery_frame intro!: quiet_same [OF assms])
  show "tx_inv (finish_recovery now vid outcome failed db, fl, lost)"
    by (rule quiet_same [OF assms]) (simp_all add: finish_recovery_def)
  show "close_executions lib stamps now rid db = Inr (u, db') \<Longrightarrow> tx_inv (db', fl, lost)"
    by (auto simp: lock_keys_def dest!: close_executions_tables run_tables_eq intro!: quiet_same [OF assms])
  show "mark_resumable now rid status db = Inr (u, db') \<Longrightarrow> tx_inv (db', fl, lost)"
    by (auto simp: mark_resumable_def quiet_move_def intro!: quiet_set [OF assms])
  show "tx_inv (abort_commit now rid db, fl, lost)"
    by (rule quiet_set [OF assms, where c = "\<lambda>r. r_id r = rid"]) (auto simp: abort_commit_def quiet_move_def)
  show "other_change db db' \<Longrightarrow> tx_inv (db', fl, lost)"
    by (rule inv_quiet [OF assms])
      (auto simp: other_change_def lock_keys_def quiet_move_def elim!: list_all2_mono)
qed

lemma record_non_integration_inv:
  assumes "tx_inv (db, fl, lost)" "record_non_integration now iid apid owner run rv d v act ev db = Inr (out, db')"
  shows "tx_inv (db', fl, lost)"
proof -
  let ?set = "\<lambda>r. r\<lparr>r_status := RWaitingHuman, r_recovery := Some BlockHuman, r_heartbeat := Some now\<rparr>"
  have "lock_keys db' = lock_keys db \<and>
    (td_runs db' = td_runs db \<or>
     td_runs db' = update_where (\<lambda>r. r_id r = r_id run \<and> r_status r = RReviewing) ?set (td_runs db))"
    using assms(2)
    by (auto simp: record_non_integration_def wait_for_human_def dest!: insert_integration_frame
        split: option.split_asm action.split_asm)
  then show ?thesis
    using quiet_same [OF assms(1), of db']
      quiet_set [OF assms(1), of db' "\<lambda>r. r_id r = r_id run \<and> r_status r = RReviewing" ?set]
    by (auto simp: quiet_move_def holding_def)
qed

lemma integrate_prepare_inv:
  assumes "tx_inv (db, fl, lost)" "integrate_prepare now iid owner run rv d v ev db = Inr (stop, db')"
  shows "tx_inv (db', fl, lost)"
proof -
  let ?set = "\<lambda>r. r\<lparr>r_status := RCommitting, r_heartbeat := Some now\<rparr>"
  have "lock_keys db' = lock_keys db \<and>
    (td_runs db' = td_runs db \<or>
     td_runs db' = update_where (\<lambda>r. r_id r = r_id run \<and> r_status r = RReviewing) ?set (td_runs db))"
    using assms(2)
    by (auto simp: integrate_prepare_def dest!: insert_integration_frame split: option.split_asm)
  then show ?thesis
    using quiet_same [OF assms(1), of db']
      quiet_set [OF assms(1), of db' "\<lambda>r. r_id r = r_id run \<and> r_status r = RReviewing" ?set]
    by (auto simp: quiet_move_def holding_def)
qed

lemma tx_run_unique:
  "tx_inv (db, fl, lost) \<Longrightarrow> tx_run_with db rid = Some r \<Longrightarrow> r' \<in> set (td_runs db) \<Longrightarrow> r_id r' = rid \<Longrightarrow> r' = r"
  by (auto simp: tx_inv_def tx_run_with_def distinct_map dest!: select_one_Some inj_onD)

lemma finalize_inv:
  assumes "tx_inv (db, fl, lost)" "finalize_completed now iid run main db = Inr (u, db')"
  shows "tx_inv (db', fl, losing (r_id run) fl lost)"
proof -
  let ?set = "\<lambda>r. r\<lparr>r_status := RCompleted, r_recovery := None, r_finished := Some now, r_heartbeat := Some now\<rparr>"
  obtain r p where r: "get_run db (r_id run) = Inr (r, p)" "r_status r = RCommitting"
    and db': "td_runs db' = update_where (\<lambda>r. r_id r = r_id run \<and> r_status r = RCommitting) ?set (td_runs db)"
      "lock_keys db' = filter (\<lambda>k. fst k \<noteq> r_id run) (lock_keys db)"
    using assms(2) by (auto simp: finalize_completed_def dest!: complete_integrations_frame)
  have run: "tx_run_with db (r_id run) = Some r"
    using get_run_Inr [OF r(1)] by simp
  show ?thesis
    using tx_run_unique [OF assms(1) run] r(2)
    by (intro inv_release [OF assms(1) db']) (auto simp: holding_def losing_def)
qed

lemma release_all:
  assumes "tx_inv (db, fl, lost)" "td_runs db' = update_where (\<lambda>r. r_id r = rid) f (td_runs db)"
    and "lock_keys db' = filter (\<lambda>k. fst k \<noteq> rid) (lock_keys db)"
    and "\<And>r. r_id (f r) = r_id r" "\<And>r. r_status (f r) \<notin> holding"
  shows "tx_inv (db', fl, losing rid fl lost)" "tx_inv (db', removeAll rid fl, lost)"
  by (rule inv_release [OF assms(1), of db' rid "\<lambda>_. True" f]; use assms in \<open>auto simp: losing_def\<close>)+

lemma release_transactions:
  assumes "tx_inv (db, fl, lost)"
  shows "tx_inv (rollback_finish now project rid db, fl, losing rid fl lost)"
    "tx_inv (record_event project rid kind sev pl now (cancel_run now rid db), fl, losing rid fl lost)"
    "tx_inv (begin_fail now project rid db, removeAll rid fl, lost)"
    "resume_finish now iid run main db = Inr (u, db') \<Longrightarrow> tx_inv (db', fl, losing (r_id run) fl lost)"
proof -
  let ?c = "\<lambda>r. r\<lparr>r_status := RCancelled, r_recovery := Some RollbackSafe, r_finished := Some now, r_heartbeat := Some now\<rparr>"
  show "tx_inv (rollback_finish now project rid db, fl, losing rid fl lost)"
    by (rule release_all(1) [OF assms, of _ rid ?c]) (auto simp: rollback_finish_def cancel_run_def holding_def)
  show "tx_inv (record_event project rid kind sev pl now (cancel_run now rid db), fl, losing rid fl lost)"
    by (rule release_all(1) [OF assms, of _ rid ?c]) (auto simp: cancel_run_def holding_def)
  show "tx_inv (begin_fail now project rid db, removeAll rid fl, lost)"
    by (rule release_all(2) [OF assms, of _ rid "\<lambda>r. r\<lparr>r_status := RFailed, r_finished := Some now, r_heartbeat := Some now\<rparr>"])
      (auto simp: begin_fail_def holding_def)
  assume "resume_finish now iid run main db = Inr (u, db')"
  then have "td_runs db' = update_where (\<lambda>r. r_id r = r_id run)
      (\<lambda>r. r\<lparr>r_status := RCompleted, r_recovery := Some ResumeSafe, r_finished := Some now, r_heartbeat := Some now\<rparr>) (td_runs db)"
    "lock_keys db' = filter (\<lambda>k. fst k \<noteq> r_id run) (lock_keys db)"
    by (auto simp: resume_finish_def dest!: complete_integrations_frame)
  then show "tx_inv (db', fl, losing (r_id run) fl lost)"
    by (rule release_all(1) [OF assms]) (auto simp: holding_def)
qed

lemma start_inv:
  assumes "tx_inv (db, fl, lost)" "rid \<in> set fl" "begin_start now project rid worktree snapshot db = Inr (u, db')"
  shows "tx_inv (db', removeAll rid fl, lost)"
proof -
  let ?set = "\<lambda>r. r\<lparr>r_status := RRunning, r_heartbeat := Some now\<rparr>"
  have db': "td_runs db' = update_where (\<lambda>r. r_id r = rid) ?set (td_runs db)" "lock_keys db' = lock_keys db"
    using assms(3) by (auto simp: begin_start_def)
  show ?thesis
    by (rule inv_hold [OF assms(1) db'(1)])
      (use tx_invD(2,3) [OF assms(1)] assms(2) in \<open>auto simp: db'(2)\<close>)
qed

lemma ensure_lock_distinct:
  assumes "ensure_lock_for_block now r owner db = Inr db'" "distinct (map snd (lock_keys db))"
  shows "distinct (map snd (lock_keys db'))" "set (lock_keys db) \<subseteq> set (lock_keys db')"
proof -
  have "lock_keys db' = lock_keys db \<or>
      lock_keys db' = lock_keys db @ [(r_id r, r_project r)] \<and> project_lock db (r_project r) = None"
    using assms(1) by (auto simp: ensure_lock_for_block_def lock_keys_def split: option.split_asm)
  moreover have "r_project r \<notin> snd ` set (lock_keys db)" if "project_lock db (r_project r) = None"
    using that by (auto simp: project_lock_def select_one_None lock_keys_def)
  ultimately show "distinct (map snd (lock_keys db'))" "set (lock_keys db) \<subseteq> set (lock_keys db')"
    using assms(2) by auto
qed

lemma block_inv:
  assumes "tx_inv (db, fl, lost)" "block_run now apid owner rid reasons db = Inr (u, db')"
  shows "tx_inv (db', fl, lost)"
proof -
  let ?set = "\<lambda>r. r\<lparr>r_status := RWaitingHuman, r_recovery := Some BlockHuman, r_heartbeat := Some now\<rparr>"
  obtain r p db1 db2 aid where r: "get_run db rid = Inr (r, p)"
    and lock: "ensure_lock_for_block now r owner db = Inr db1"
    and approval: "block_approval now apid rid db1 = Inr (aid, db2)"
    and db': "td_runs db' = update_where (\<lambda>r. r_id r = rid) ?set (td_runs db2)" "lock_keys db' = lock_keys db2"
    using assms(2) by (auto simp: block_run_def split: prod.split_asm)
  have runs: "td_runs db' = update_where (\<lambda>r. r_id r = rid) ?set (td_runs db)"
    and keys: "lock_keys db' = lock_keys db1"
    using db' ensure_lock(2) [OF lock] block_approval(2,3) [OF approval] by simp_all
  have run: "tx_run_with db rid = Some r" "r_id r = rid"
    using get_run_Inr [OF r] by auto
  show ?thesis
    using ensure_lock(1) [OF lock] ensure_lock_distinct [OF lock tx_invD(2) [OF assms(1)]]
      tx_run_unique [OF assms(1) run(1)] run(2)
    by (intro inv_hold [OF assms(1) runs]) (auto simp: keys)
qed

lemma reserve_run_inv:
  assumes "tx_inv (db, fl, lost)" "begin_reserve H now rid sid project owner metadata w db = Inr (x, db')"
  shows "tx_inv (db', rid # fl, lost)"
proof -
  obtain base worktree where lock: "project_lock db project = None" and fresh: "tx_run_with db rid = None"
    and db': "td_runs db' = td_runs db @ [new_run rid sid project base worktree owner metadata now]"
      "lock_keys db' = lock_keys db @ [(rid, project)]"
    using assms(2) by (auto simp: begin_reserve_def Let_def lock_keys_def)
  have new: "rid \<notin> r_id ` set (td_runs db)" "project \<notin> snd ` set (lock_keys db)"
    using fresh lock by (auto simp: tx_run_with_def project_lock_def select_one_None lock_keys_def)
  have run: "r_id (new_run rid sid project base worktree owner metadata now) = rid"
    "r_project (new_run rid sid project base worktree owner metadata now) = project"
    by (simp_all add: new_run_def)
  show ?thesis
    by (rule tx_invI) (use tx_invD [OF assms(1)] new in \<open>auto simp: db' run\<close>)
qed

lemma tx_step_inv:
  assumes "tx_inv s" "tx_step H s s'"
  shows "tx_inv s'"
  using assms(2,1)
proof cases
  case (crash db fl lost rid)
  then show ?thesis
    using assms(1) by (auto simp: tx_inv_def)
qed (use assms(1) in \<open>auto intro: reserve_run_inv start_inv release_transactions quiet_transactions
      record_non_integration_inv integrate_prepare_inv finalize_inv block_inv\<close>)

lemma tx_init_inv: "tx_init s \<Longrightarrow> tx_inv s"
  by (cases s) (auto simp: tx_init_def tx_inv_def lock_keys_def)

interpretation runs: invariant_system tx_init "tx_step H" tx_inv
  by unfold_locales (auto intro: tx_init_inv tx_step_inv)




end
