(* ===== verification/Run_Findings.thy ===== *)
theory Run_Findings
  imports Run_System
begin

text \<open>
  Runs of the model of the run lifecycle on a machine with one repository: the inputs at which the
  properties of \<open>Run_Safety\<close>, \<open>Run_Gates\<close> and \<open>Run_System\<close> apply, and four places where the
  programs do not keep what they set up.
\<close>

section \<open>A machine with one repository\<close>

text \<open>
  The state is the commit of the default branch of \<^verbatim>\<open>/h/workspaces/site\<close>. The worktree of a run is at
  \<^verbatim>\<open>c2\<close>, a child of \<^verbatim>\<open>c1\<close>; every digest is \<^verbatim>\<open>x\<close>.
\<close>

definition site_path :: string where
  "site_path = ''/h/workspaces/site''"

definition tree_path :: "string \<Rightarrow> string" where
  "tree_path rid = ''/h/workspaces/.hermesops-worktrees/site/'' @ rid"

fun sample_ask :: "string \<Rightarrow> question \<Rightarrow> string option" where
  "sample_ask w (PathExists _) = None"
| "sample_ask w (FileSha256 _) = Some ''x''"
| "sample_ask w (DefaultBranch _) = Some ''main''"
| "sample_ask w (ShowTopLevel p) = Some p"
| "sample_ask w (StatusPorcelain _) = Some []"
| "sample_ask w (CurrentBranch p) = Some (if p = site_path then ''main'' else ''hermesops/run/A'')"
| "sample_ask w (RevParseHead p) = Some (if p = site_path then w else ''c2'')"
| "sample_ask w (ShowRefHeads _ _) = None"
| "sample_ask w DockerPresent = None"
| "sample_ask w _ = Some []"

fun sample_command :: "string \<Rightarrow> command \<Rightarrow> bool \<times> string" where
  "sample_command w (MergeFastForward p c) = (True, if p = site_path then c else w)"
| "sample_command w _ = (True, w)"

definition sample_host :: "string host" where
  "sample_host = \<lparr>h_ask = sample_ask, h_worktrees = (\<lambda>_ _. Some [''worktree '' @ tree_path ''A'']),
     h_inspect = (\<lambda>_ _ _. None), h_run = sample_command, h_resolve = (\<lambda>p. p), h_root = ''/h''\<rparr>"

lemma sample_git_law: "git_law sample_host site_path"
  unfolding git_law_def
proof (intro allI impI)
  fix w c
  show "h_ask sample_host (snd (h_run sample_host w c)) (RevParseHead site_path) \<in>
      {None, h_ask sample_host w (RevParseHead site_path)} \<union>
      {head. \<exists>commit. c = MergeFastForward site_path commit \<and> head = Some commit}"
    by (cases "(w, c)" rule: sample_command.cases) (auto simp: sample_host_def)
qed

definition sample_clock :: "nat \<Rightarrow> string" where
  "sample_clock n = ''t9''"

definition sample_env :: "string env" where
  "sample_env = \<lparr>en_host = sample_host, en_clock = sample_clock,
     en_lib = \<lparr>rl_secret = (\<lambda>_. False), rl_dumps = (\<lambda>_. ''{}''), rl_digest = (\<lambda>_. ''x'')\<rparr>,
     en_stamps = [], en_age = (\<lambda>_. Some 900000000)\<rparr>"

definition sample_project :: project_row where
  "sample_project = \<lparr>pr_id = ''site'', pr_repo = site_path, pr_enabled = True, pr_config = ''/h/site.json''\<rparr>"

lemma sample_parts [simp]:
  "h_resolve sample_host path = path" "pr_repo sample_project = site_path"
  "en_host sample_env = sample_host" "h_ask sample_host = sample_ask"
  by (simp_all add: sample_host_def sample_env_def sample_project_def)

definition sample_snapshot :: "string \<Rightarrow> snapshot_row" where
  "sample_snapshot rid =
     \<lparr>s_id = ''s'' @ rid, s_project = ''site'', s_run = rid, s_base = ''c1'',
      s_bundle = (rid @ ''/b'', ''x''), s_patch = (rid @ ''/p'', ''x''), s_status = (rid @ ''/s'', ''x''),
      s_refs = (rid @ ''/r'', ''x''), s_manifest = (rid @ ''/m'', ''x''),
      s_verified = True, s_created = ''t1'', s_verified_at = Some ''t1''\<rparr>"

definition sample_run :: "string \<Rightarrow> run_status \<Rightarrow> tx_run" where
  "sample_run rid status =
     (new_run rid (''s'' @ rid) ''site'' ''c1'' (tree_path rid) ''op'' [] ''t1'')
       \<lparr>r_status := status, r_result := Some ''c2'', r_submitted := Some ''t3''\<rparr>"

definition sample_lock :: "string \<Rightarrow> tx_lock" where
  "sample_lock rid = \<lparr>l_project = ''site'', l_run = rid, l_holder = ''op'', l_acquired = ''t1'', l_heartbeat = ''t1''\<rparr>"

definition sample_txdb :: "tx_run list \<Rightarrow> tx_lock list \<Rightarrow> snapshot_row list \<Rightarrow> txdb" where
  "sample_txdb runs locks snapshots =
     \<lparr>td_projects = [sample_project], td_runs = runs, td_locks = locks, td_snapshots = snapshots,
      td_approvals = [], td_integrations = [], td_recoveries = [], td_tasks = [], td_workers = [],
      td_reviewers = [], td_results = [], td_attempts = [], td_otasks = [], td_objectives = [],
      td_planners = [],
      td_reviews = \<lparr>rv_assignments = [],
        rv_roles = [\<lparr>ro_id = ''recovery'', ro_profile = ''ops-recovery'', ro_kind = ''recovery'',
          ro_mode = ''read_only'', ro_commit = False, ro_push = False, ro_network = False, ro_enabled = True\<rparr>],
        rv_runs = [], rv_attempts = [], rv_executions = [],
        rv_tasks = [], rv_reviews = [], rv_events = [], rv_journal = []\<rparr>\<rparr>"

section \<open>A reviewed run\<close>

definition sample_execution :: reviewer_row where
  "sample_execution =
     \<lparr>g_id = ''x1'', g_task = ''k1'', g_run = ''A'', g_role = ''reviewer'', g_source_profile = ''ops-reviewer'',
      g_profile = ''runtime-reviewer'', g_outer = ''o1'', g_sandbox = None, g_mode = ''read_only'',
      g_network = False, g_mount = True, g_isolation = True, g_exit = Some 0,
      g_result = Some (JObj [(''decision'', JStr ''APPROVE''), (''verdict'', JStr ''PASS''),
        (''result_commit'', JStr ''c2''), (''marker_found'', JBool True), (''repository_unchanged'', JBool True)]),
      g_failure = None, g_finished = Some ''t4'', g_review = Some ''w1'', g_unchanged = True,
      g_decision = Some DApprove, g_verdict = Some Pass\<rparr>"

definition reviewed_db :: txdb where
  "reviewed_db =
     (sample_txdb [sample_run ''A'' RReviewing] [sample_lock ''A''] [sample_snapshot ''A''])
       \<lparr>td_tasks := [\<lparr>k_id = ''k1'', k_run = ''A'', k_role = ''reviewer'', k_status = KCompleted,
           k_heartbeat = None, k_finished = Some ''t4''\<rparr>],
        td_reviewers := [sample_execution],
        td_results := [\<lparr>rr_id = ''w1'', rr_run = ''A'', rr_verdict = Pass,
           rr_details = Some (JObj [(''decision'', JStr ''APPROVE''), (''execution_id'', JStr ''x1'')]),
           rr_created = ''t4''\<rparr>]\<rparr>"

definition merged :: "(string \<times> txdb) \<times> (run_error + integration_outcome)" where
  "merged = command_apply sample_host (\<lambda>_. ''error'') sample_clock ''i1'' ''p1'' ''op'' ''A'' (''c1'', reviewed_db)"

lemma merged_outcome: "snd merged = Inr Integrated" "fst (fst merged) = ''c2''"
  by code_simp+

lemma reviewed_run: "get_run reviewed_db ''A'' = Inr (sample_run ''A'' RReviewing, sample_project)"
  by code_simp

theorem integration_gated_witness:
  "integrated_run ''A'' (snd (fst merged)) \<and>
   default_branch_at_base sample_host ''c1'' (sample_run ''A'' RReviewing) sample_project \<and>
   (\<exists>rv. get_review reviewed_db ''A'' = Inr rv \<and> review_approves reviewed_db (sample_run ''A'' RReviewing) rv)"
proof -
  have "command_apply sample_host (\<lambda>_. ''error'') sample_clock ''i1'' ''p1'' ''op'' ''A'' (''c1'', reviewed_db) =
      ((fst (fst merged), snd (fst merged)), Inr Integrated)"
    using merged_outcome(1) by (simp add: merged_def prod_eq_iff)
  from integration_gated [OF this reviewed_run] sample_git_law show ?thesis by simp
qed

section \<open>An interrupted commit\<close>

definition committing_db :: txdb where
  "committing_db =
     (sample_txdb [sample_run ''A'' RCommitting] [sample_lock ''A''] [sample_snapshot ''A''])
       \<lparr>td_integrations := [\<lparr>i_id = ''i1'', i_run = ''A'', i_decision = DApprove, i_status = IPrepared,
          i_failure = None, i_finished = None, i_review = ''w1'', i_review_execution = ''x1'', i_owner = ''op'',
          i_verdict = Pass, i_base = Some ''c1'', i_reviewed = Some ''c2'', i_main_before = ''c1'',
          i_main_after = ''c1'', i_snapshot_verified = True, i_review_current = True, i_approval = None,
          i_created = ''t5'', i_started = Some ''t5''\<rparr>]\<rparr>"

definition resumed :: "(string \<times> txdb) \<times> (run_error + recovered)" where
  "resumed = recover_run sample_env ''v1'' ''p1'' ''A'' ''op'' 300 False None (''c1'', committing_db)"

lemma resumed_outcome: "snd resumed = Inr (Recovered ResumeSafe Resumed RCompleted)" "fst (fst resumed) = ''c2''"
  by code_simp+

lemma committing_run:
  "get_run committing_db ''A'' = Inr (sample_run ''A'' RCommitting, sample_project)"
  "tx_run_with committing_db ''A'' = Some (sample_run ''A'' RCommitting)"
  "distinct (map i_id (td_integrations committing_db))"
  by code_simp+

lemma resumed_eq:
  "recover_run sample_env ''v1'' ''p1'' ''A'' ''op'' 300 False None (''c1'', committing_db) =
     ((fst (fst resumed), snd (fst resumed)), Inr (Recovered ResumeSafe Resumed RCompleted))"
  using resumed_outcome(1) by (simp add: resumed_def prod_eq_iff)

theorem recovery_settles_witness:
  "recovery_settled (sample_run ''A'' RCommitting) ResumeSafe Resumed RCompleted (snd (fst resumed))"
  using recovery_settles [OF resumed_eq committing_run(3)] committing_run(2) by simp

theorem recovery_moves_main_witness:
  "h_ask sample_host (fst (fst resumed)) (RevParseHead site_path) = Some ''c2'' \<and>
   r_base (sample_run ''A'' RCommitting) = Some ''c1''"
proof -
  have "''c2'' = ''c1'' \<or> r_status (sample_run ''A'' RCommitting) \<in> {RCommitting, RRecovering} \<and>
      r_base (sample_run ''A'' RCommitting) = Some ''c1'' \<and> ''c2'' = text_of (r_result (sample_run ''A'' RCommitting))"
    by (rule recovery_moves_main [OF _ committing_run(1) _ resumed_eq]) (simp_all add: sample_git_law resumed_outcome(2))
  then show ?thesis by (simp add: resumed_outcome(2))
qed

section \<open>A human gate\<close>

definition waiting_db :: txdb where
  "waiting_db =
     (sample_txdb [sample_run ''A'' RWaitingHuman] [sample_lock ''A''] [sample_snapshot ''A''])
       \<lparr>td_approvals := [new_approval ''p1'' ''A'' ''Reviewer requires a human recovery decision.'' ''t5'']\<rparr>"

theorem human_decision_refused_witness:
  "''ROLLBACK_SAFE'' \<in> set (ap_options (hd (td_approvals waiting_db))) \<and>
   (\<exists>e. command_resolve sample_env ''v1'' ''p2'' ''op'' ''p1'' ''ROLLBACK_SAFE'' (''c1'', waiting_db) =
     ((''c1'', waiting_db), Inl e))"
proof -
  have "select_one (\<lambda>a. ap_id a = ''p1'') (td_approvals waiting_db) =
      Some (new_approval ''p1'' ''A'' ''Reviewer requires a human recovery decision.'' ''t5'')"
    "tx_run_with waiting_db ''A'' = Some (sample_run ''A'' RWaitingHuman)"
    by code_simp+
  moreover have "r_status (sample_run ''A'' RWaitingHuman) = RWaitingHuman"
    by (simp add: sample_run_def)
  ultimately show ?thesis
    using human_decision_refused [of "''p1''" waiting_db _ "sample_run ''A'' RWaitingHuman" "''ROLLBACK_SAFE''"
        sample_env "''v1''" "''p2''" "''op''" "''c1''"]
    by (simp add: new_approval_def) (simp add: waiting_db_def new_approval_def)
qed

section \<open>A start that failed\<close>

text \<open>
  The start of run A has failed, the later run B has its project, and a still older run of another project
  waits for a human. The sweep recovers that one first.
\<close>

definition failed_db :: txdb where
  "failed_db =
     (let begun = begin_fail ''t2'' ''site'' ''A'' (sample_txdb [sample_run ''A'' RSnapshotting] [sample_lock ''A''] []) in
      begun\<lparr>td_projects := [sample_project, sample_project\<lparr>pr_id := ''blog''\<rparr>],
            td_runs := (sample_run ''C'' RWaitingHuman)\<lparr>r_project := ''blog''\<rparr> # td_runs begun @ [sample_run ''B'' RRunning],
            td_locks := [(sample_lock ''C'')\<lparr>l_project := ''blog''\<rparr>, sample_lock ''B''],
            td_snapshots := [(sample_snapshot ''C'')\<lparr>s_project := ''blog''\<rparr>, sample_snapshot ''B'']\<rparr>)"

definition failed_swept :: "(string \<times> txdb) \<times> (run_error + recovered list)" where
  "failed_swept = sweep_each 300 ''op'' (zip [(sample_env, ''v1'', ''p1'')] [''C'']) (''c1'', failed_db)"

lemma failed_swept_first: "snd failed_swept = Inr [Recovered BlockHuman Blocked RWaitingHuman]"
  by code_simp

theorem failed_start_stops_sweep_witness:
  "\<exists>s' e. command_sweep sample_env 300 ''op''
       [(sample_env, ''v1'', ''p1''), (sample_env, ''v2'', ''p2''), (sample_env, ''v3'', ''p3'')] (''c1'', failed_db) =
     (s', Inl e) \<and> td_runs (snd s') = td_runs (snd (fst failed_swept)) \<and> td_locks (snd s') = td_locks (snd (fst failed_swept))"
proof -
  have runs: "swept_runs sample_env 300 failed_db = [''C''] @ ''A'' # [''B'']"
    and first: "sweep_each 300 ''op'' (zip [(sample_env, ''v1'', ''p1'')] [''C'']) (''c1'', failed_db) =
      ((fst (fst failed_swept), snd (fst failed_swept)), snd failed_swept)"
    and A: "tx_run_with (snd (fst failed_swept)) ''A'' = Some (td_runs failed_db ! 1)"
      "r_status (td_runs failed_db ! 1) = RFailed" "run_snapshot (snd (fst failed_swept)) ''A'' = None"
    and B: "project_lock (snd (fst failed_swept)) (r_project (td_runs failed_db ! 1)) = Some (sample_lock ''B'')"
      "l_run (sample_lock ''B'') \<noteq> ''A''"
    by (code_simp, simp add: failed_swept_def, code_simp+)
  have "length [(sample_env, ''v1'', ''p1'')] = length [''C'']" by simp
  from failed_start_stops_sweep [OF runs this first A B, of sample_env "''v2''" "''p2''" "[(sample_env, ''v3'', ''p3'')]"]
  show ?thesis by simp
qed

section \<open>A start that outlives its recovery\<close>

definition db_after :: "txdb \<Rightarrow> run_error + ('a \<times> txdb) \<Rightarrow> txdb" where
  "db_after db r = (case r of Inl _ \<Rightarrow> db | Inr (_, db') \<Rightarrow> db')"





definition run_marks :: "txdb \<Rightarrow> (string \<times> run_status) list" where
  "run_marks db = map (\<lambda>r. (r_id r, r_status r)) (td_runs db)"


section \<open>Updates that do not look at the status\<close>

text \<open>A block applied to a run that has completed since it was assessed reopens it, with a lock.\<close>

definition completed_db :: txdb where
  "completed_db = sample_txdb [sample_run ''A'' RCompleted] [] [sample_snapshot ''A'']"

definition reopened_db :: txdb where
  "reopened_db = db_after completed_db (block_run ''t9'' ''p1'' ''op'' ''A'' [] completed_db)"

lemma block_reopens_completed:
  "run_marks reopened_db = [(''A'', RWaitingHuman)]" "lock_keys reopened_db = [(''A'', ''site'')]"
  by code_simp+

text \<open>A submission of a run that was cancelled since its check is recorded, though nothing is submitted.\<close>

definition cancelled_db :: txdb where
  "cancelled_db = sample_txdb [sample_run ''A'' RCancelled] [] [sample_snapshot ''A'']"

lemma submission_of_cancelled:
  "run_marks (submit_record ''t9'' ''site'' ''A'' ''c2'' cancelled_db) = [(''A'', RCancelled)]"
  "map le_type (rv_events (td_reviews (submit_record ''t9'' ''site'' ''A'' ''c2'' cancelled_db))) =
     [''TRANSACTION_SUBMITTED'']"
  by code_simp+

section \<open>Exclusion\<close>


end
