(* ===== verification/Spec2Isabelle.thy ===== *)
theory Spec2Isabelle
  imports Orch_Plans Plan_Import Event_Stream Hermes_Results Auth_Safety
    Orch_Findings Scheduler_Safety Review_Safety Run_Findings
begin

text \<open>
  HermesOps: verification of the control plane.

  \<^bold>\<open>The program.\<close> HermesOps plans and runs objectives on git repositories. The orchestrator
  (\<^verbatim>\<open>src/scripts/hermesops-orchestrator.py\<close>) turns queued objectives into plans, keeps the dependency
  graph of their tasks in an SQLite database, selects the tasks that may run and starts worker threads.
  A pipeline task runs in a run: a transaction on the repository
  (\<^verbatim>\<open>src/scripts/hermesops-transaction.py\<close>) with a snapshot, a worktree and the lock of the project.
  A reviewer is assigned to its result (\<^verbatim>\<open>src/scripts/hermesops_review_assignment.py\<close>), the
  integrator (\<^verbatim>\<open>src/scripts/hermesops-integrator.py\<close>) merges an approved result, and the recovery
  manager (\<^verbatim>\<open>src/scripts/hermesops-recovery.py\<close>) settles the runs of processes that died. The
  programs share the database and nothing else; each writes it in transactions. The controller
  (\<^verbatim>\<open>src/controller_api\<close>) journals events, streams them to browsers over WebSocket, authenticates
  operators and validates Hermesfiles.

  \<^bold>\<open>How the model reads.\<close> A table is a list of records, a row in the order of insertion; an \<^verbatim>\<open>UPDATE\<close>
  is \<open>update_where\<close>, a \<^verbatim>\<open>SELECT\<close> that fetches one row is \<open>select_one\<close>. A transaction is a function
  from the database to an error or the next database, so a rollback leaves no trace; constraints and
  triggers are checks in the insert and update functions. Each exception is a constructor of the error type
  of its component. Times, identifiers (\<^verbatim>\<open>uuid4\<close>), digests, regular-expression searches for secrets and
  what other processes answer are arguments. Integers of Python are \<open>int\<close> or \<open>nat\<close>; the bytes
  of WebSocket frames are 8-bit words. A component is a step relation over its
  transactions where several processes interleave, and the invariants hold in every reachable state.

  \<^bold>\<open>Theories.\<close>

  \<^item> \<open>Prelude\<close>: results with an error side, text as Python handles it, JSON values, the SQL idioms, and the
    locales \<open>canonical_text\<close> (a printer of a reader), \<open>lifecycle\<close> (statuses that move along edges),
    \<open>invariant_system\<close> and its extension \<open>refinement\<close>. Each is interpreted on the definitions of the
    components: durations and quantities, the tables of tasks and plans, the orchestrator, the plans,
    the journal, the browser authentication, the reviewer assignments and the runs.

  \<^item> \<open>Plan_Graph\<close>, \<open>Plan_Validation\<close>: \<^verbatim>\<open>topological_order\<close> and \<^verbatim>\<open>validate_plan\<close> of the orchestrator.
    An accepted plan is acyclic, within its bounds, orders the writers of a project, and is accepted
    unchanged when validated again; the order is correct, and a graph is refused exactly when it has a
    cycle. \<open>Plan_Import\<close>: \<^verbatim>\<open>insert_plan\<close> stores an accepted plan completely.

  \<^item> \<open>Orch_Db\<close>, \<open>Orch_Tasks\<close>, \<open>Objective_Queue\<close>: the tables of migrations 009 and 010 and the
    transactions of the orchestrator and of \<^verbatim>\<open>src/scripts/hermesops-objectives.py\<close> on them.
    \<open>Orch_System\<close> is the transition system: the database, the workers between \<^verbatim>\<open>reserve_attempt\<close> and
    the report of their result, and changes by other programs. \<open>Task_Invariant\<close>, \<open>Transaction_Safety\<close>
    prove that each transaction keeps the invariant; \<open>Orch_Safety\<close> and \<open>Orch_Plans\<close> draw from it that
    projects are exclusive, dependencies come first, attempts stay within their budget, final statuses
    stay, and a plan is COMPLETED only over COMPLETED tasks. \<open>Orch_Findings\<close> has three runs on which a
    mark the orchestrator has set is lost.

  \<^item> \<open>Scheduler\<close>, \<open>Scheduler_Safety\<close>: the selection of tasks and the dispatch loop of \<^verbatim>\<open>daemon_loop\<close>.
    The selected tasks can be started together, unused capacity means that nothing more could, and the
    dispatch loop ends. The loop runs on fuel, one more than the number of QUEUED objectives: each turn
    that goes on makes one fewer of them, so the fuel is never used up (\<open>dispatch_ends\<close>).

  \<^item> \<open>Event_Journal\<close>: \<^verbatim>\<open>event_journal.py\<close> on the table and triggers of migrations 015 and 016: sequence
    numbers and revisions without gaps, an event is read back as it was written, pages in order.
    \<open>WebSocket_Frames\<close> and \<open>Event_Stream\<close>: \<^verbatim>\<open>websocket_transport.py\<close>, the frame codec and the
    session, which sends every event after its cursor exactly once and catches up.

  \<^item> \<open>Hermes_Values\<close>, \<open>Hermesfile\<close>, \<open>Hermes_Document\<close>, \<open>Hermes_Canonical\<close>: \<^verbatim>\<open>hermesfile.py\<close>, from the
    texts to the sections and the canonical form. \<open>Hermes_Soundness\<close> shows once that every check only
    appends diagnostics, and what it means when it appends none; \<open>Hermes_Results\<close> that an accepted file
    is confined and runs no shell as its command, and that the canonical form is a fixed point.

  \<^item> \<open>Browser_Codec\<close>, \<open>Browser_Auth\<close>, \<open>Auth_Safety\<close>: \<^verbatim>\<open>browser_auth.py\<close> on the tables of migrations 017
    and 018; logins are two transactions with the derivation of the key between them. A session needs the
    password in force, failures are bounded within their window, a change of password ends the sessions.

  \<^item> \<open>Review_Assignment\<close>, \<open>Review_Safety\<close>: the reviewer assignments on the table and triggers of migration
    019, as a refinement of an abstract board on which a run has at most one open review.

  \<^item> \<open>Run_Db\<close>: the tables of migrations 001 and 003 to 007, the machine the run programs work on (one
    question per value they read, one command per effect) and operations that keep what they did before
    an error. \<open>Run_Transaction\<close>, \<open>Run_Integration\<close>, \<open>Run_Recovery\<close> and \<open>Recovery_Actions\<close>:
    \<^verbatim>\<open>hermesops-transaction.py\<close>, \<^verbatim>\<open>hermesops-integrator.py\<close>, \<^verbatim>\<open>hermesops-recovery.py\<close> and
    \<^verbatim>\<open>command_resolve\<close> of \<^verbatim>\<open>hermesops-control.py\<close>, each command as its transactions and the commands
    between them. \<open>Run_Safety\<close>: a recovery ends in the state its decision names and moves the default
    branch only to the reviewed commit. \<open>Run_Gates\<close>: what a successful integration has passed, and two
    gates that do not open. \<open>Run_System\<close>: all these transactions interleaved; a project has at most one
    run that works on it. \<open>Run_Findings\<close>: a machine with one repository on which the properties are
    applied, and runs of the model on which a late or unchecked update undoes a decision.

  \<^bold>\<open>Assumptions.\<close> They stand in the statements that need them: \<open>git_law\<close> (no git command but a
  fast-forward moves the head of a repository, and a fast-forward moves it to its commit) in the properties about
  the default branch, and that \<^verbatim>\<open>json.loads\<close> reads back what \<^verbatim>\<open>json.dumps\<close> wrote in the round trip of the
  journal. Each is shown to hold for a concrete machine or function. \<open>Run_System\<close> assumes that a recovery
  leaves alone the run of a process inside \<^verbatim>\<open>command_begin\<close>; \<open>late_begin_breaks_exclusion\<close> shows that the code
  does not guarantee this.

  \<^bold>\<open>What the model has shown.\<close> Lost marks of the orchestrator (\<open>Orch_Findings\<close>); a full list of diagnostics hides
  errors, a quantity without canonical form and a shell behind an option of env (\<open>Hermes_Results\<close>); a human
  gate that no decision resolves and a sweep that one failed start stops (\<open>Run_Gates\<close>); a start that
  outlives its recovery, a block that reopens a completed run and a submission that is recorded but not made
  (\<open>Run_Findings\<close>).

  \<^bold>\<open>Not modelled.\<close> The orphan sweep of the recovery manager: it walks directories and the output of docker
  over all runs; the ownership tests it rests on are modelled. The worker, the reviewer, the planner and the
  agent runtimes: their logic is the starting of containers and the parsing of what an agent prints; the
  model takes what they write into the database as steps. The HTTP server, its read views and the console:
  they project rows to JSON and keep no state of their own. The project, objective, review and Hermesfile
  commands of the controller, the sandbox profiles, the registry and the roles: transactions on tables
  that the modelled programs only read. The supervisor and the notifier: loops around system commands and
  messages. Command-line parsers, printing, self tests and probes. Threads, sockets, file modes and the
  SQLite engine itself are below the model: a transaction is atomic because the programs open it with
  \<^verbatim>\<open>BEGIN IMMEDIATE\<close>.
\<close>

end
